(* ===== verification/Prelude.thy ===== *)
theory Prelude
  imports Main "HOL-Library.Word"
begin

text \<open>
  Shared vocabulary of the PAYPHONE development: machine integers and byte
  buffers, the outcome of a Rust function (value, error or panic), the
  big-endian readers and writers of the \<open>bytes\<close> crate, the interfaces
  \<open>field_codec\<close> and \<open>message_codec\<close> that every wire format
  of the program is shown to satisfy, saturating and checked integer
  arithmetic, and the association lists that stand for hash maps.
\<close>

unbundle bit_operations_syntax

section \<open>Collections of facts\<close>

named_theorems wire_defs \<open>definitions unfolded by the wire-format proofs\<close>
named_theorems constants \<open>numeric constants of the program\<close>

section \<open>Machine integers and buffers\<close>

type_synonym u8 = "8 word"
type_synonym u16 = "16 word"
type_synonym u32 = "32 word"
type_synonym u64 = "64 word"
type_synonym bytes = "u8 list"

definition U16_MAX :: nat where [constants]: "U16_MAX = 65535"

text \<open>A Rust call returns a value, returns an error, or panics.\<close>

datatype ('e, 'a) outcome = Ok 'a | Err 'e | Panic

fun obind :: "('e, 'a) outcome \<Rightarrow> ('a \<Rightarrow> ('e, 'b) outcome) \<Rightarrow> ('e, 'b) outcome" where
  "obind (Ok x) f = f x"
| "obind (Err e) f = Err e"
| "obind Panic f = Panic"

fun is_ok :: "('e, 'a) outcome \<Rightarrow> bool" where
  "is_ok (Ok x) = True"
| "is_ok _ = False"

fun map_err :: "('e \<Rightarrow> 'f) \<Rightarrow> ('e, 'a) outcome \<Rightarrow> ('f, 'a) outcome" where
  "map_err g (Ok x) = Ok x"
| "map_err g (Err e) = Err (g e)"
| "map_err g Panic = Panic"

lemma obind_eq_Ok: "obind m f = Ok y \<longleftrightarrow> (\<exists>x. m = Ok x \<and> f x = Ok y)"
  by (cases m) auto

lemma obind_eq_Err: "obind m f = Err e \<longleftrightarrow> m = Err e \<or> (\<exists>x. m = Ok x \<and> f x = Err e)"
  by (cases m) auto

lemma obind_eq_Panic: "obind m f = Panic \<longleftrightarrow> m = Panic \<or> (\<exists>x. m = Ok x \<and> f x = Panic)"
  by (cases m) auto

lemma is_ok_iff: "is_ok m \<longleftrightarrow> (\<exists>x. m = Ok x)"
  by (cases m) auto

section \<open>Big-endian integers\<close>

text \<open>
  \<open>BufMut::put_u16/u32/u64\<close> and \<open>to_be_bytes\<close> write the most
  significant byte first; \<open>from_be_bytes\<close> reads the same order.
\<close>

primrec to_be :: "nat \<Rightarrow> 'a::len word \<Rightarrow> bytes" where
  "to_be 0 w = []"
| "to_be (Suc n) w = to_be n (drop_bit 8 w) @ [ucast w]"

definition from_be :: "bytes \<Rightarrow> 'a::len word" where
  "from_be bs = foldl (\<lambda>acc b. push_bit 8 acc OR ucast b) 0 bs"

lemma length_to_be [simp]: "length (to_be n w) = n"
  by (induction n arbitrary: w) simp_all

lemma from_be_Nil [simp]: "from_be [] = 0"
  by (simp add: from_be_def)

lemma from_be_snoc: "from_be (bs @ [b]) = push_bit 8 (from_be bs) OR ucast b"
  by (simp add: from_be_def)

lemma from_be_to_be_take: "(from_be (to_be n w) :: 'a::len word) = take_bit (8 * n) w"
proof (induction n arbitrary: w)
  case 0
  then show ?case by simp
next
  case (Suc n)
  have "push_bit 8 (take_bit (8 * n) (drop_bit 8 w)) OR ucast (ucast w :: u8)
      = take_bit (8 * Suc n) w"
    by (rule bit_word_eqI) (auto simp: bit_simps)
  with Suc show ?case by (simp add: from_be_snoc)
qed

lemma from_be_high_bits: "8 * length bs \<le> i \<Longrightarrow> \<not> bit (from_be bs :: 'a::len word) i"
proof (induction bs arbitrary: i rule: rev_induct)
  case Nil
  then show ?case by simp
next
  case (snoc b bs)
  then have "\<not> bit (from_be bs :: 'a word) (i - 8)" by simp
  moreover have "\<not> bit b i"
    using snoc.prems by (auto dest: bit_imp_le_length)
  ultimately show ?case by (simp add: from_be_snoc bit_simps)
qed

lemma to_be_from_be:
  "8 * length bs \<le> LENGTH('a) \<Longrightarrow> to_be (length bs) (from_be bs :: 'a::len word) = bs"
proof (induction bs rule: rev_induct)
  case Nil
  then show ?case by simp
next
  case (snoc b bs)
  let ?w = "from_be bs :: 'a word"
  have "drop_bit 8 (push_bit 8 ?w OR ucast b) = ?w"
  proof (rule bit_word_eqI)
    fix i assume i: "i < LENGTH('a)"
    have "\<not> bit ?w i" if "\<not> 8 + i < LENGTH('a)"
      using that snoc.prems by (intro from_be_high_bits) simp
    then show "bit (drop_bit 8 (push_bit 8 ?w OR ucast b)) i \<longleftrightarrow> bit ?w i"
      using i by (auto simp: bit_simps dest: bit_imp_le_length)
  qed
  moreover have "ucast (push_bit 8 ?w OR ucast b) = b"
    using snoc.prems by (intro bit_word_eqI) (auto simp: bit_simps)
  ultimately show ?case using snoc by (simp add: from_be_snoc)
qed

lemma from_be_to_be [simp]:
  "LENGTH('a) \<le> 8 * n \<Longrightarrow> (from_be (to_be n w) :: 'a::len word) = w"
  by (simp add: from_be_to_be_take take_bit_word_eq_self)

section \<open>Readers and writers of the bytes crate\<close>

text \<open>
  \<open>Buf::get_*\<close> and \<open>copy_to_bytes/copy_to_slice\<close> advance the
  buffer and panic when too few bytes remain.  A reader therefore returns the
  value together with the rest of the buffer, or \<open>Panic\<close>.
\<close>

definition get_bytes :: "nat \<Rightarrow> bytes \<Rightarrow> ('e, bytes \<times> bytes) outcome" where
  "get_bytes n b = (if length b < n then Panic else Ok (take n b, drop n b))"

definition get_be :: "nat \<Rightarrow> bytes \<Rightarrow> ('e, 'a::len word \<times> bytes) outcome" where
  "get_be n b = obind (get_bytes n b) (\<lambda>(v, rest). Ok (from_be v, rest))"

fun get_u8 :: "bytes \<Rightarrow> ('e, u8 \<times> bytes) outcome" where
  "get_u8 [] = Panic"
| "get_u8 (x # rest) = Ok (x, rest)"

abbreviation get_u16 :: "bytes \<Rightarrow> ('e, u16 \<times> bytes) outcome" where "get_u16 \<equiv> get_be 2"
abbreviation get_u32 :: "bytes \<Rightarrow> ('e, u32 \<times> bytes) outcome" where "get_u32 \<equiv> get_be 4"
abbreviation get_u64 :: "bytes \<Rightarrow> ('e, u64 \<times> bytes) outcome" where "get_u64 \<equiv> get_be 8"

abbreviation put_u8 :: "u8 \<Rightarrow> bytes" where "put_u8 x \<equiv> [x]"
abbreviation put_u16 :: "u16 \<Rightarrow> bytes" where "put_u16 \<equiv> to_be 2"
abbreviation put_u32 :: "u32 \<Rightarrow> bytes" where "put_u32 \<equiv> to_be 4"
abbreviation put_u64 :: "u64 \<Rightarrow> bytes" where "put_u64 \<equiv> to_be 8"

subsection \<open>The interface of a fixed-width field\<close>

text \<open>
  A field of width \<open>n\<close>: reading succeeds exactly on a buffer that starts
  with a written value, and fails only for want of bytes.
\<close>

locale field_codec =
  fixes put :: "'a \<Rightarrow> bytes"
    and get :: "bytes \<Rightarrow> ('e, 'a \<times> bytes) outcome"
    and valid :: "'a \<Rightarrow> bool"
    and width :: nat
  assumes get_Ok_iff: "get b = Ok (x, rest) \<longleftrightarrow> valid x \<and> b = put x @ rest"
    and put_width: "valid x \<Longrightarrow> length (put x) = width"
    and get_Panic_iff: "get b = Panic \<longleftrightarrow> length b < width"
    and get_not_Err: "get b \<noteq> Err e"
begin

lemma get_put: "valid x \<Longrightarrow> get (put x @ rest) = Ok (x, rest)"
  by (simp add: get_Ok_iff)

lemma put_inj: "valid x \<Longrightarrow> valid y \<Longrightarrow> put x = put y \<Longrightarrow> x = y"
  using get_put [of x "[]"] get_put [of y "[]"] by simp

lemma get_total: "width \<le> length b \<Longrightarrow> \<exists>x rest. valid x \<and> b = put x @ rest"
  using get_Panic_iff [of b] get_not_Err [of b] get_Ok_iff [of b]
  by (cases "get b") auto

end

lemma get_bytes_Ok_iff: "get_bytes n b = Ok (x, rest) \<longleftrightarrow> length x = n \<and> b = x @ rest"
  by (auto simp: get_bytes_def)

lemma get_be_Ok_iff:
  assumes "8 * n = LENGTH('a)"
  shows "get_be n b = Ok (x :: 'a::len word, rest) \<longleftrightarrow> b = to_be n x @ rest"
proof
  assume "get_be n b = Ok (x, rest)"
  then obtain v where v: "length v = n" "b = v @ rest" "x = from_be v"
    by (auto simp: get_be_def obind_eq_Ok get_bytes_Ok_iff)
  with to_be_from_be [of v] assms show "b = to_be n x @ rest" by force
next
  assume "b = to_be n x @ rest"
  with assms show "get_be n b = Ok (x, rest)"
    by (simp add: get_be_def get_bytes_def)
qed

lemma get_be_Panic_iff: "get_be n b = Panic \<longleftrightarrow> length b < n"
  by (auto simp: get_be_def get_bytes_def)

lemma get_be_not_Err: "get_be n b \<noteq> Err e"
  by (auto simp: get_be_def get_bytes_def)

lemma get_u8_Ok_iff: "get_u8 b = Ok (x, rest) \<longleftrightarrow> b = x # rest"
  by (cases b) auto

lemma get_u8_Panic_iff: "get_u8 b = Panic \<longleftrightarrow> b = []"
  by (cases b) auto

lemma get_u8_not_Err: "get_u8 b \<noteq> Err e"
  by (cases b) auto

interpretation u8_field: field_codec put_u8 get_u8 "\<lambda>_. True" 1
  by unfold_locales (simp_all add: get_u8_Ok_iff get_u8_Panic_iff get_u8_not_Err)

interpretation u16_field: field_codec put_u16 get_u16 "\<lambda>_. True" 2
  by unfold_locales (simp_all add: get_be_Ok_iff get_be_Panic_iff get_be_not_Err)

interpretation u32_field: field_codec put_u32 get_u32 "\<lambda>_. True" 4
  by unfold_locales (simp_all add: get_be_Ok_iff get_be_Panic_iff get_be_not_Err)

interpretation u64_field: field_codec put_u64 get_u64 "\<lambda>_. True" 8
  by unfold_locales (simp_all add: get_be_Ok_iff get_be_Panic_iff get_be_not_Err)

interpretation array_field: field_codec "\<lambda>x. x" "get_bytes n" "\<lambda>x. length x = n" n
  for n :: nat
  by unfold_locales (auto simp: get_bytes_def)

text \<open>The reading rules the message proofs use.\<close>

lemmas get_iffs =
  get_u8_Ok_iff u16_field.get_Ok_iff [simplified] u32_field.get_Ok_iff [simplified]
  u64_field.get_Ok_iff [simplified] array_field.get_Ok_iff

lemmas get_puts [simp] =
  u16_field.get_put [simplified] u32_field.get_put [simplified]
  u64_field.get_put [simplified] array_field.get_put

lemmas get_puts_end [simp] =
  u16_field.get_put [where rest = "[]", simplified]
  u32_field.get_put [where rest = "[]", simplified]
  u64_field.get_put [where rest = "[]", simplified]
  array_field.get_put [where rest = "[]", simplified]

lemmas get_panics =
  get_u8_Panic_iff u16_field.get_Panic_iff u32_field.get_Panic_iff u64_field.get_Panic_iff
  array_field.get_Panic_iff

lemmas get_errs [simp] =
  get_u8_not_Err u16_field.get_not_Err u32_field.get_not_Err u64_field.get_not_Err
  array_field.get_not_Err

lemma word_of_length [simp]: "unat w = length b \<Longrightarrow> word_of_nat (length b) = w"
  by (metis of_nat_unat ucast_id)

text \<open>A length check in front of \<open>copy_to_bytes\<close> makes it take the rest.\<close>

lemma get_bytes_all [simp]: "get_bytes (length b) b = Ok (b, [])"
  by (simp add: get_bytes_def)

lemma checked_get_bytes:
  "(if n \<noteq> length b then e else if c then e' else obind (get_bytes n b) f)
     = (if n \<noteq> length b then e else if c then e' else f (b, []))"
  "(if length b \<noteq> n then e else obind (get_bytes n b) f)
     = (if length b \<noteq> n then e else f (b, []))"
  by auto

lemma to_be_numeral:
  "to_be (numeral k) w = to_be (pred_numeral k) (drop_bit 8 w) @ [ucast w]"
  by (simp add: numeral_eq_Suc)

subsection \<open>The interface of a message\<close>

text \<open>
  Every message type of the protocol promises the same contract: decoding
  succeeds exactly on the encodings of well-formed values, and never panics,
  whatever the peer sends.  The lemmas give both directions of the round trip
  and that a wire image determines its message.
\<close>

locale message_codec =
  fixes encode :: "'a \<Rightarrow> ('e, bytes) outcome"
    and decode :: "bytes \<Rightarrow> ('e, 'a) outcome"
    and valid :: "'a \<Rightarrow> bool"
  assumes decode_Ok_iff: "decode b = Ok m \<longleftrightarrow> valid m \<and> encode m = Ok b"
    and encode_valid: "valid m \<Longrightarrow> is_ok (encode m)"
    and decode_not_Panic: "decode b \<noteq> Panic"
begin

lemma roundtrip: "valid m \<Longrightarrow> obind (encode m) decode = Ok m"
  using encode_valid [of m] by (auto simp: is_ok_iff decode_Ok_iff)

lemma canonical: "decode b = Ok m \<Longrightarrow> encode m = Ok b"
  by (simp add: decode_Ok_iff)

lemma decode_valid: "decode b = Ok m \<Longrightarrow> valid m"
  by (simp add: decode_Ok_iff)

lemma encode_inj: "valid m \<Longrightarrow> valid n \<Longrightarrow> encode m = encode n \<Longrightarrow> m = n"
  by (metis roundtrip outcome.inject(1))

lemma rejects_iff: "(\<exists>e. decode b = Err e) \<longleftrightarrow> (\<forall>m. valid m \<longrightarrow> encode m \<noteq> Ok b)"
  using decode_not_Panic [of b] decode_Ok_iff [of b] by (cases "decode b") auto

end

text \<open>Most encoders cannot fail; for them the contract splits into two round trips.\<close>

lemma message_codecI:
  assumes "\<And>b m. decode b = Ok m \<Longrightarrow> valid m \<and> enc m = b"
    and "\<And>m. valid m \<Longrightarrow> decode (enc m) = Ok m"
    and "\<And>b. decode b \<noteq> Panic"
  shows "message_codec (\<lambda>m. Ok (enc m)) decode valid"
  using assms by unfold_locales auto

section \<open>Saturating integers\<close>

text \<open>\<open>saturating_add\<close>, \<open>saturating_sub\<close> and \<open>saturating_mul\<close> stop at the bounds of the type.\<close>

definition sat_add :: "'a::len word \<Rightarrow> 'a word \<Rightarrow> 'a word" where
  "sat_add a b = (if unat a + unat b < 2 ^ LENGTH('a) then a + b else - 1)"

definition sat_sub :: "'a::len word \<Rightarrow> 'a word \<Rightarrow> 'a word" where
  "sat_sub a b = (if b \<le> a then a - b else 0)"

definition sat_mul :: "'a::len word \<Rightarrow> 'a word \<Rightarrow> 'a word" where
  "sat_mul a b = (if unat a * unat b < 2 ^ LENGTH('a) then a * b else - 1)"

lemma unat_max: "unat (- 1 :: 'a::len word) = 2 ^ LENGTH('a) - 1"
  by (simp add: unsigned_minus_1_eq_mask mask_eq_exp_minus_1)

lemma unat_bound: "unat (w :: 'a::len word) < 2 ^ LENGTH('a)"
  by (rule unsigned_less)

lemma unat_sat_add:
  "unat (sat_add a b) = min (2 ^ LENGTH('a) - 1) (unat a + unat (b :: 'a::len word))"
  by (auto simp: sat_add_def unat_max unat_word_ariths min_def)

lemma unat_sat_sub: "unat (sat_sub a b) = unat a - unat b"
  by (auto simp: sat_sub_def unat_sub word_le_nat_alt)

lemma unat_sat_mul:
  "unat (sat_mul a b) = min (2 ^ LENGTH('a) - 1) (unat a * unat (b :: 'a::len word))"
  by (auto simp: sat_mul_def unat_max unat_word_ariths min_def)

lemma sat_add_ge: "a \<le> sat_add a b"
  unfolding word_le_nat_alt unat_sat_add using unat_bound [of a] by linarith

lemma sat_sub_self [simp]: "sat_sub a a = 0"
  by (simp add: sat_sub_def)

section \<open>Reachable states\<close>

text \<open>
  The interface of a transition system: initial states and steps.  An inductive
  invariant holds in every reachable state; one invariant may be used to
  establish the next.
\<close>

inductive reachable :: "('s \<Rightarrow> bool) \<Rightarrow> ('s \<Rightarrow> 's \<Rightarrow> bool) \<Rightarrow> 's \<Rightarrow> bool"
  for init :: "'s \<Rightarrow> bool" and step :: "'s \<Rightarrow> 's \<Rightarrow> bool" where
  reachable_init: "init s \<Longrightarrow> reachable init step s"
| reachable_step: "reachable init step s \<Longrightarrow> step s t \<Longrightarrow> reachable init step t"

locale transition_system =
  fixes init :: "'s \<Rightarrow> bool"
    and step :: "'s \<Rightarrow> 's \<Rightarrow> bool"
    and inv :: "'s \<Rightarrow> bool"
  assumes inv_init: "init s \<Longrightarrow> inv s"
    and inv_step: "inv s \<Longrightarrow> step s t \<Longrightarrow> inv t"
begin

lemma inv_reachable: "reachable init step s \<Longrightarrow> inv s"
  by (induction rule: reachable.induct) (auto intro: inv_init inv_step)

lemma inv_steps: "inv s \<Longrightarrow> step\<^sup>*\<^sup>* s t \<Longrightarrow> inv t"
  by (rotate_tac, induction rule: rtranclp_induct) (auto intro: inv_step)

lemma strengthen:
  assumes "\<And>s. init s \<Longrightarrow> P s" and "\<And>s t. inv s \<Longrightarrow> P s \<Longrightarrow> step s t \<Longrightarrow> P t"
    and "reachable init step s"
  shows "P s"
  using assms(3) by (induction rule: reachable.induct) (auto intro: assms(1,2) inv_reachable)

end

end
