(* ===== verification/Rate_Limit.thy ===== *)
theory Rate_Limit
  imports Prelude
begin

text \<open>
  The token-bucket limiter of \<open>payphone-server/src/session.rs\<close>.  The
  sequential operations are functions of the clock reading; the concurrent
  behaviour of several callers is a step relation with one step per atomic
  access, in which every compare-exchange may fail.
\<close>

record RateLimit =
  rl_max_mbps :: u32
  rl_tokens :: u64
  rl_last_refill_ms :: u64

definition bytes_per_sec :: "u32 \<Rightarrow> u64" where
  "bytes_per_sec mbps = sat_mul (ucast mbps) 125000"

definition burst_bytes :: "u32 \<Rightarrow> u64" where
  "burst_bytes mbps = max (bytes_per_sec mbps) 65536"

definition rate_limit_new :: "u32 \<Rightarrow> u64 \<Rightarrow> RateLimit" where
  "rate_limit_new mbps unix_ms =
     \<lparr>rl_max_mbps = mbps, rl_tokens = burst_bytes mbps, rl_last_refill_ms = unix_ms\<rparr>"

definition refill_amount :: "u32 \<Rightarrow> u64 \<Rightarrow> u64 \<Rightarrow> u64" where
  "refill_amount mbps last_ms now = sat_mul (bytes_per_sec mbps) (now - last_ms) div 1000"

definition rate_refill :: "u64 \<Rightarrow> RateLimit \<Rightarrow> RateLimit" where
  "rate_refill now r =
    (let last = rl_last_refill_ms r in
     if now \<le> last then r
     else let added = refill_amount (rl_max_mbps r) last now in
       if added = 0 then r
       else let cap = burst_bytes (rl_max_mbps r) in
         r\<lparr>rl_last_refill_ms := now, rl_tokens := min (sat_add (rl_tokens r) added) cap\<rparr>)"

definition rate_allow :: "u64 \<Rightarrow> u64 \<Rightarrow> RateLimit \<Rightarrow> bool \<times> RateLimit" where
  "rate_allow now bytes r =
    (if rl_max_mbps r = 0 \<or> bytes = 0 then (True, r)
     else let r' = rate_refill now r; current = rl_tokens r' in
       if current < bytes then (False, r')
       else (True, r'\<lparr>rl_tokens := current - bytes\<rparr>))"

section \<open>Sequential facts\<close>

lemma unat_bytes_per_sec: "unat (bytes_per_sec m) = unat m * 125000"
proof -
  have "unat m * 125000 < 2 ^ 64"
    using unat_bound [of m] by simp
  moreover have "unat (ucast m :: u64) = unat m"
    by (simp add: unsigned_ucast_eq take_bit_nat_eq_self less_trans [OF unat_bound [of m]])
  ultimately show ?thesis
    by (simp add: bytes_per_sec_def unat_sat_mul)
qed

lemma unat_burst_bytes: "unat (burst_bytes m) = max (unat m * 125000) 65536"
  by (auto simp: burst_bytes_def max_def word_le_nat_alt unat_bytes_per_sec)

lemma refill_amount_bound:
  assumes "l \<le> now"
  shows "unat (refill_amount m l now) * 1000 \<le> unat (bytes_per_sec m) * (unat now - unat l)"
proof -
  have "unat (refill_amount m l now) * 1000 \<le> unat (sat_mul (bytes_per_sec m) (now - l))"
    by (simp add: refill_amount_def unat_div)
  also have "\<dots> \<le> unat (bytes_per_sec m) * unat (now - l)"
    by (simp add: unat_sat_mul)
  also have "unat (now - l) = unat now - unat l"
    using assms by (simp add: unat_sub)
  finally show ?thesis .
qed

definition rate_wf :: "RateLimit \<Rightarrow> bool" where
  "rate_wf r \<longleftrightarrow> rl_tokens r \<le> burst_bytes (rl_max_mbps r)"

lemma rate_wf_new [simp]: "rate_wf (rate_limit_new m now)"
  by (simp add: rate_wf_def rate_limit_new_def)

lemma rate_refill_mbps [simp]: "rl_max_mbps (rate_refill now r) = rl_max_mbps r"
  by (simp add: rate_refill_def Let_def)

lemma rate_wf_refill [simp]: "rate_wf r \<Longrightarrow> rate_wf (rate_refill now r)"
  by (auto simp: rate_wf_def rate_refill_def Let_def)

lemma rate_allow_mbps [simp]: "rl_max_mbps (snd (rate_allow now n r)) = rl_max_mbps r"
  by (simp add: rate_allow_def Let_def)

lemma sub_le_word: "(b :: 'a::len word) \<le> a \<Longrightarrow> a - b \<le> a"
  by (simp add: word_le_nat_alt unat_sub)

lemma rate_wf_allow [simp]: "rate_wf r \<Longrightarrow> rate_wf (snd (rate_allow now n r))"
  using rate_wf_refill [of r now] sub_le_word [of n "rl_tokens (rate_refill now r)"]
  by (auto simp: rate_allow_def Let_def rate_wf_def not_less intro: order_trans)

text \<open>A bucket that has been left alone for a second lets any IP packet through.\<close>

lemma rate_refill_full:
  assumes "unat now \<ge> unat (rl_last_refill_ms r) + 1000" and "0 < rl_max_mbps r" and "rate_wf r"
  shows "bytes_per_sec (rl_max_mbps r) \<le> rl_tokens (rate_refill now r)"
proof -
  let ?m = "rl_max_mbps r" and ?last = "rl_last_refill_ms r"
  let ?p = "unat (bytes_per_sec ?m) * unat (now - ?last)"
  have d: "1000 \<le> unat (now - ?last)"
    using assms(1) by (simp add: unat_sub word_le_nat_alt)
  have bps: "unat (bytes_per_sec ?m) < 2 ^ 32 * 125000" "0 < unat (bytes_per_sec ?m)"
    using unat_bound [of ?m] assms(2) by (simp_all add: unat_bytes_per_sec word_less_nat_alt)
  have "unat (bytes_per_sec ?m) * 1000 \<le> ?p"
    using d by (intro mult_le_mono) simp_all
  moreover have "unat (bytes_per_sec ?m) * 1000 \<le> 2 ^ 64 - 1"
    using bps by simp
  ultimately have "unat (bytes_per_sec ?m) * 1000 \<le> unat (sat_mul (bytes_per_sec ?m) (now - ?last))"
    by (simp add: unat_sat_mul)
  then have added: "unat (bytes_per_sec ?m) \<le> unat (refill_amount ?m ?last now)"
    by (simp add: refill_amount_def unat_div less_eq_div_iff_mult_less_eq)
  moreover have "refill_amount ?m ?last now \<noteq> 0"
    using added bps by (auto simp: unat_eq_0)
  moreover have "\<not> now \<le> ?last"
    using assms(1) by (simp add: word_le_nat_alt)
  moreover have "bytes_per_sec ?m \<le> sat_add (rl_tokens r) (refill_amount ?m ?last now)"
    using added unat_bound [of "bytes_per_sec ?m"]
    unfolding word_le_nat_alt unat_sat_add by linarith
  ultimately show ?thesis
    by (simp add: rate_refill_def Let_def burst_bytes_def)
qed

section \<open>Concurrent callers\<close>

text \<open>
  Sessions are shared between tasks, so several calls of \<open>allow\<close> can be
  in progress.  A program counter per task, with its local variables:
  \<open>AStart\<close> before the first test, \<open>AClock\<close> after reading the
  clock, \<open>ACasLast\<close> before the exchange on \<open>last_refill_ms\<close>,
  \<open>ARefillLoad\<close>/\<open>ARefillCas\<close> in the loop of
  \<open>refill\<close>, \<open>ATakeLoad\<close>/\<open>ATakeCas\<close> in the loop of
  \<open>allow\<close>.
\<close>

datatype AllowPc =
    AStart u64
  | AClock u64 u64
  | ACasLast u64 u64 u64 u64
  | ARefillLoad u64 u64
  | ARefillCas u64 u64 u64
  | ATakeLoad u64
  | ATakeCas u64 u64
  | ADone bool

text \<open>The ghost fields count the bytes granted and the credit claimed so far.\<close>

record RateSystem =
  rs_bucket :: RateLimit
  rs_tasks :: "AllowPc list"
  rs_granted :: nat
  rs_credited :: nat

definition goto :: "RateSystem \<Rightarrow> nat \<Rightarrow> AllowPc \<Rightarrow> RateSystem" where
  "goto s i pc = s\<lparr>rs_tasks := (rs_tasks s)[i := pc]\<rparr>"

definition at :: "RateSystem \<Rightarrow> nat \<Rightarrow> AllowPc \<Rightarrow> bool" where
  "at s i pc \<longleftrightarrow> i < length (rs_tasks s) \<and> rs_tasks s ! i = pc"

inductive rate_step :: "RateSystem \<Rightarrow> RateSystem \<Rightarrow> bool" where
  call: "at s i (ADone b) \<Longrightarrow> rate_step s (goto s i (AStart n))"
| free: "at s i (AStart n) \<Longrightarrow> rl_max_mbps (rs_bucket s) = 0 \<or> n = 0 \<Longrightarrow>
    rate_step s (goto s i (ADone True))"
| clock: "at s i (AStart n) \<Longrightarrow> rl_max_mbps (rs_bucket s) \<noteq> 0 \<Longrightarrow> n \<noteq> 0 \<Longrightarrow>
    rate_step s (goto s i (AClock n now))"
| no_refill: "at s i (AClock n now) \<Longrightarrow> l = rl_last_refill_ms (rs_bucket s) \<Longrightarrow>
    now \<le> l \<or> refill_amount (rl_max_mbps (rs_bucket s)) l now = 0 \<Longrightarrow>
    rate_step s (goto s i (ATakeLoad n))"
| load_last: "at s i (AClock n now) \<Longrightarrow> l = rl_last_refill_ms (rs_bucket s) \<Longrightarrow> \<not> now \<le> l \<Longrightarrow>
    added = refill_amount (rl_max_mbps (rs_bucket s)) l now \<Longrightarrow> added \<noteq> 0 \<Longrightarrow>
    rate_step s (goto s i (ACasLast n now l added))"
| cas_last: "at s i (ACasLast n now l added) \<Longrightarrow> rl_last_refill_ms (rs_bucket s) = l \<Longrightarrow>
    rate_step s ((goto s i (ARefillLoad n added))
      \<lparr>rs_bucket := (rs_bucket s)\<lparr>rl_last_refill_ms := now\<rparr>,
       rs_credited := rs_credited s + unat added\<rparr>)"
| cas_last_lost: "at s i (ACasLast n now l added) \<Longrightarrow> rl_last_refill_ms (rs_bucket s) \<noteq> l \<Longrightarrow>
    rate_step s (goto s i (ATakeLoad n))"
| refill_load: "at s i (ARefillLoad n added) \<Longrightarrow>
    rate_step s (goto s i (ARefillCas n added (rl_tokens (rs_bucket s))))"
| refill_cas: "at s i (ARefillCas n added cur) \<Longrightarrow> rl_tokens (rs_bucket s) = cur \<Longrightarrow>
    rate_step s ((goto s i (ATakeLoad n))
      \<lparr>rs_bucket := (rs_bucket s)\<lparr>rl_tokens :=
         min (sat_add cur added) (burst_bytes (rl_max_mbps (rs_bucket s)))\<rparr>\<rparr>)"
| refill_retry: "at s i (ARefillCas n added cur) \<Longrightarrow> rate_step s (goto s i (ARefillLoad n added))"
| take_load: "at s i (ATakeLoad n) \<Longrightarrow> n \<le> rl_tokens (rs_bucket s) \<Longrightarrow>
    rate_step s (goto s i (ATakeCas n (rl_tokens (rs_bucket s))))"
| take_denied: "at s i (ATakeLoad n) \<Longrightarrow> rl_tokens (rs_bucket s) < n \<Longrightarrow>
    rate_step s (goto s i (ADone False))"
| take_cas: "at s i (ATakeCas n cur) \<Longrightarrow> rl_tokens (rs_bucket s) = cur \<Longrightarrow>
    rate_step s ((goto s i (ADone True))
      \<lparr>rs_bucket := (rs_bucket s)\<lparr>rl_tokens := cur - n\<rparr>, rs_granted := rs_granted s + unat n\<rparr>)"
| take_retry: "at s i (ATakeCas n cur) \<Longrightarrow> rate_step s (goto s i (ATakeLoad n))"

definition rate_init :: "u32 \<Rightarrow> u64 \<Rightarrow> RateSystem \<Rightarrow> bool" where
  "rate_init m start s \<longleftrightarrow> rs_bucket s = rate_limit_new m start \<and>
     (\<forall>pc \<in> set (rs_tasks s). \<exists>b. pc = ADone b) \<and> rs_granted s = 0 \<and> rs_credited s = 0"

text \<open>Credit a task has claimed on \<open>last_refill_ms\<close> but not yet added.\<close>

fun in_flight :: "AllowPc \<Rightarrow> nat" where
  "in_flight (ARefillLoad n added) = unat added"
| "in_flight (ARefillCas n added cur) = unat added"
| "in_flight _ = 0"

definition flight :: "RateSystem \<Rightarrow> nat" where
  "flight s = sum_list (map in_flight (rs_tasks s))"

text \<open>What a task at an exchange knows from its earlier tests.\<close>

fun pc_ok :: "u32 \<Rightarrow> AllowPc \<Rightarrow> bool" where
  "pc_ok m (ACasLast n now l added) \<longleftrightarrow> l < now \<and> added = refill_amount m l now"
| "pc_ok m (ATakeCas n cur) \<longleftrightarrow> n \<le> cur"
| "pc_ok m _ \<longleftrightarrow> True"

definition rate_inv :: "u32 \<Rightarrow> u64 \<Rightarrow> RateSystem \<Rightarrow> bool" where
  "rate_inv m start s \<longleftrightarrow>
     rl_max_mbps (rs_bucket s) = m \<and> rate_wf (rs_bucket s) \<and>
     (\<forall>pc \<in> set (rs_tasks s). pc_ok m pc) \<and>
     start \<le> rl_last_refill_ms (rs_bucket s) \<and>
     rs_granted s + unat (rl_tokens (rs_bucket s)) + flight s \<le> unat (burst_bytes m) + rs_credited s \<and>
     1000 * rs_credited s \<le>
       unat (bytes_per_sec m) * (unat (rl_last_refill_ms (rs_bucket s)) - unat start)"

lemma goto_sel [simp]:
  "rs_bucket (goto s i pc) = rs_bucket s" "rs_granted (goto s i pc) = rs_granted s"
  "rs_credited (goto s i pc) = rs_credited s" "rs_tasks (goto s i pc) = (rs_tasks s)[i := pc]"
  by (simp_all add: goto_def)

lemma flight_cong: "rs_tasks s = rs_tasks t \<Longrightarrow> flight s = flight t"
  by (simp add: flight_def)

lemma flight_goto:
  assumes "at s i pc"
  shows "flight (goto s i pc') + in_flight pc = flight s + in_flight pc'"
proof -
  have i: "i < length (rs_tasks s)" "rs_tasks s ! i = pc"
    using assms by (simp_all add: at_def)
  have "in_flight pc \<le> flight s"
    using i elem_le_sum_list [of i "map in_flight (rs_tasks s)"] by (simp add: flight_def)
  moreover have "flight (goto s i pc') = flight s + in_flight pc' - in_flight pc"
    using i by (simp add: flight_def map_update sum_list_update)
  ultimately show ?thesis by linarith
qed

lemma flight_bucket [simp]:
  "flight (s\<lparr>rs_bucket := b\<rparr>) = flight s" "flight (s\<lparr>rs_granted := g\<rparr>) = flight s"
  "flight (s\<lparr>rs_credited := c\<rparr>) = flight s"
  by (simp_all add: flight_def)

lemma at_pc_ok: "at s i pc \<Longrightarrow> rate_inv m start s \<Longrightarrow> pc_ok m pc"
  unfolding at_def rate_inv_def by (metis nth_mem)

lemma update_mem: "x \<in> set (ts[i := y]) \<Longrightarrow> x = y \<or> x \<in> set ts"
  using set_update_subset_insert by fastforce

text \<open>A step that only moves a program counter and claims no credit keeps the invariant.\<close>

lemma rate_inv_goto:
  assumes "rate_inv m start s" "at s i pc" "in_flight pc' = in_flight pc" "pc_ok m pc'"
  shows "rate_inv m start (goto s i pc')"
  using assms flight_goto [OF assms(2), of pc'] by (auto simp: rate_inv_def dest!: update_mem)

lemma rate_inv_cas_last:
  assumes inv: "rate_inv m start s" and at: "at s i (ACasLast n now l added)"
    and last: "rl_last_refill_ms (rs_bucket s) = l"
  shows "rate_inv m start ((goto s i (ARefillLoad n added))
      \<lparr>rs_bucket := (rs_bucket s)\<lparr>rl_last_refill_ms := now\<rparr>,
       rs_credited := rs_credited s + unat added\<rparr>)"
proof -
  have pc: "l < now" "added = refill_amount m l now"
    using at_pc_ok [OF at inv] by simp_all
  have start: "start \<le> l" using inv last by (simp add: rate_inv_def)
  have "1000 * (rs_credited s + unat added) \<le>
      unat (bytes_per_sec m) * (unat l - unat start) + unat (bytes_per_sec m) * (unat now - unat l)"
    using inv last pc refill_amount_bound [of l now m] by (simp add: rate_inv_def less_imp_le)
  also have "\<dots> = unat (bytes_per_sec m) * (unat now - unat start)"
    using start pc by (simp add: add_mult_distrib2 [symmetric] word_le_nat_alt word_less_nat_alt)
  finally show ?thesis
    using inv start pc flight_goto [OF at, of "ARefillLoad n added"]
    by (auto simp: rate_inv_def rate_wf_def dest!: update_mem)
qed

lemma rate_inv_refill_cas:
  assumes inv: "rate_inv m start s" and at: "at s i (ARefillCas n added cur)"
    and cur: "rl_tokens (rs_bucket s) = cur"
  shows "rate_inv m start ((goto s i (ATakeLoad n))
      \<lparr>rs_bucket := (rs_bucket s)\<lparr>rl_tokens :=
         min (sat_add cur added) (burst_bytes (rl_max_mbps (rs_bucket s)))\<rparr>\<rparr>)"
proof -
  let ?t = "min (sat_add cur added) (burst_bytes m)"
  have "unat ?t \<le> unat (sat_add cur added)"
    by (simp add: word_le_nat_alt [symmetric])
  also have "\<dots> \<le> unat cur + unat added" by (simp add: unat_sat_add)
  finally have "unat ?t \<le> unat cur + unat added" .
  then show ?thesis
    using inv cur flight_goto [OF at, of "ATakeLoad n"]
    by (auto simp: rate_inv_def rate_wf_def dest!: update_mem)
qed

lemma rate_inv_take_cas:
  assumes inv: "rate_inv m start s" and at: "at s i (ATakeCas n cur)"
    and cur: "rl_tokens (rs_bucket s) = cur"
  shows "rate_inv m start ((goto s i (ADone True))
      \<lparr>rs_bucket := (rs_bucket s)\<lparr>rl_tokens := cur - n\<rparr>, rs_granted := rs_granted s + unat n\<rparr>)"
proof -
  have n: "n \<le> cur" using at_pc_ok [OF at inv] by simp
  then have "unat (cur - n) + unat n = unat cur" "cur - n \<le> cur"
    by (simp_all add: unat_sub word_le_nat_alt sub_le_word)
  then show ?thesis
    using inv cur flight_goto [OF at, of "ADone True"]
    by (auto simp: rate_inv_def rate_wf_def dest!: update_mem)
qed

lemma rate_inv_step: "rate_inv m start s \<Longrightarrow> rate_step s t \<Longrightarrow> rate_inv m start t"
proof (rotate_tac, induction rule: rate_step.induct)
  case (load_last s i n now l added)
  then show ?case by (intro rate_inv_goto) (auto simp: rate_inv_def)
next
  case (take_load s i n)
  then show ?case by (intro rate_inv_goto) auto
qed (auto intro: rate_inv_cas_last rate_inv_refill_cas rate_inv_take_cas rate_inv_goto)

lemma rate_inv_init: "rate_init m start s \<Longrightarrow> rate_inv m start s"
proof -
  assume init: "rate_init m start s"
  then have "flight s = 0" by (auto simp: rate_init_def flight_def sum_list_eq_0_iff)
  with init show ?thesis
    by (auto simp: rate_init_def rate_inv_def rate_wf_def rate_limit_new_def)
qed

interpretation limiter: transition_system "rate_init m start" rate_step "rate_inv m start"
  for m :: u32 and start :: u64
  by unfold_locales (auto intro: rate_inv_init rate_inv_step)

subsection \<open>An undisturbed call computes the sequential function\<close>

lemma at_goto [simp]: "at s i pc \<Longrightarrow> at (goto s i pc') i pc'"
  by (simp add: at_def)

lemma at_bucket [simp]:
  "at (s\<lparr>rs_bucket := b\<rparr>) i pc = at s i pc" "at (s\<lparr>rs_granted := g\<rparr>) i pc = at s i pc"
  "at (s\<lparr>rs_credited := c\<rparr>) i pc = at s i pc"
  by (simp_all add: at_def)

lemma step_then:
  "rate_step s t \<Longrightarrow> \<exists>u. rate_step\<^sup>*\<^sup>* t u \<and> P u \<Longrightarrow> \<exists>u. rate_step\<^sup>*\<^sup>* s u \<and> P u"
  by (meson converse_rtranclp_into_rtranclp)

lemma take_phase:
  assumes "at s i (ATakeLoad n)"
  shows "\<exists>t. rate_step\<^sup>*\<^sup>* s t \<and>
    at t i (ADone (\<not> rl_tokens (rs_bucket s) < n)) \<and>
    rs_bucket t = (if rl_tokens (rs_bucket s) < n then rs_bucket s
       else (rs_bucket s)\<lparr>rl_tokens := rl_tokens (rs_bucket s) - n\<rparr>)"
proof (cases "rl_tokens (rs_bucket s) < n")
  case True
  with assms show ?thesis by (intro step_then [OF take_denied]) auto
next
  case False
  let ?t = "goto s i (ATakeCas n (rl_tokens (rs_bucket s)))"
  have at: "at ?t i (ATakeCas n (rl_tokens (rs_bucket s)))" using assms by simp
  have "\<exists>u. rate_step\<^sup>*\<^sup>* ?t u \<and> at u i (ADone True) \<and>
      rs_bucket u = (rs_bucket s)\<lparr>rl_tokens := rl_tokens (rs_bucket s) - n\<rparr>"
    using at by (intro step_then [OF take_cas [OF at]]) auto
  then show ?thesis
    using False step_then [OF take_load [OF assms]] by (auto simp: not_less)
qed

lemma refill_phase:
  assumes "at s i (AClock n now)"
  shows "\<exists>t. rate_step\<^sup>*\<^sup>* s t \<and> at t i (ATakeLoad n) \<and> rs_bucket t = rate_refill now (rs_bucket s)"
proof -
  let ?b = "rs_bucket s"
  let ?l = "rl_last_refill_ms ?b" and ?m = "rl_max_mbps ?b"
  let ?a = "refill_amount ?m ?l now"
  show ?thesis
  proof (cases "now \<le> ?l \<or> ?a = 0")
    case True
    then have "rate_refill now ?b = ?b" by (auto simp: rate_refill_def Let_def)
    then show ?thesis
      using assms by (intro step_then [OF no_refill [OF assms refl True]]) auto
  next
    case False
    define s1 where "s1 = goto s i (ACasLast n now ?l ?a)"
    define s2 where "s2 = (goto s1 i (ARefillLoad n ?a))
      \<lparr>rs_bucket := (rs_bucket s1)\<lparr>rl_last_refill_ms := now\<rparr>, rs_credited := rs_credited s1 + unat ?a\<rparr>"
    define s3 where "s3 = goto s2 i (ARefillCas n ?a (rl_tokens ?b))"
    have at1: "at s1 i (ACasLast n now ?l ?a)" using assms by (simp add: s1_def)
    then have at2: "at s2 i (ARefillLoad n ?a)" by (simp add: s2_def)
    then have at3: "at s3 i (ARefillCas n ?a (rl_tokens ?b))" by (simp add: s3_def)
    have step1: "rate_step s s1"
      using False assms unfolding s1_def by (intro load_last) auto
    have step2: "rate_step s1 s2"
      unfolding s2_def by (rule cas_last [OF at1]) (simp add: s1_def)
    have step3: "rate_step s2 s3"
      using refill_load [OF at2] by (simp add: s3_def s2_def s1_def)
    have "\<exists>u. rate_step\<^sup>*\<^sup>* s3 u \<and> at u i (ATakeLoad n) \<and> rs_bucket u = rate_refill now ?b"
      using False at3 by (intro step_then [OF refill_cas [OF at3]])
        (auto simp: s3_def s2_def s1_def rate_refill_def Let_def)
    then show ?thesis
      by (rule step_then [OF step1 step_then [OF step2 step_then [OF step3]]])
  qed
qed

lemma allow_solo:
  assumes "at s i (AStart n)"
  shows "\<exists>t. rate_step\<^sup>*\<^sup>* s t \<and> at t i (ADone (fst (rate_allow now n (rs_bucket s)))) \<and>
    rs_bucket t = snd (rate_allow now n (rs_bucket s))"
proof (cases "rl_max_mbps (rs_bucket s) = 0 \<or> n = 0")
  case True
  then show ?thesis
    using assms by (intro step_then [OF free [OF assms True]]) (auto simp: rate_allow_def)
next
  case False
  let ?s1 = "goto s i (AClock n now)"
  have "at ?s1 i (AClock n now)" using assms by simp
  from refill_phase [OF this] obtain t where t: "rate_step\<^sup>*\<^sup>* ?s1 t" "at t i (ATakeLoad n)"
    "rs_bucket t = rate_refill now (rs_bucket s)" by auto
  from take_phase [OF t(2)] obtain u where u: "rate_step\<^sup>*\<^sup>* t u"
    "at u i (ADone (\<not> rl_tokens (rs_bucket t) < n))"
    "rs_bucket u = (if rl_tokens (rs_bucket t) < n then rs_bucket t
       else (rs_bucket t)\<lparr>rl_tokens := rl_tokens (rs_bucket t) - n\<rparr>)" by auto
  have "rate_step s ?s1" using False assms by (intro clock) auto
  with t(1) u(1) have "rate_step\<^sup>*\<^sup>* s u"
    by (meson converse_rtranclp_into_rtranclp rtranclp_trans)
  then show ?thesis
    using u t(3) False by (intro exI [of _ u]) (auto simp: rate_allow_def Let_def)
qed

section \<open>Properties\<close>





text \<open>
  A limited client is not starved.  After one second without a refill the
  bucket lets through one second's worth of traffic, and a call that asks for
  no more than that is granted.
\<close>

theorem rested_bucket_grants:
  assumes "rl_tokens r \<le> burst_bytes (rl_max_mbps r)" "0 < rl_max_mbps r"
    and "unat (rl_last_refill_ms r) + 1000 \<le> unat now" "n \<le> bytes_per_sec (rl_max_mbps r)"
  shows "fst (rate_allow now n r)"
  using rate_refill_full [of r now] assms
  by (auto simp: rate_allow_def rate_wf_def Let_def)

theorem rested_bucket_grants_witness:
  "fst (rate_allow 2500 125000 \<lparr>rl_max_mbps = 1, rl_tokens = 0, rl_last_refill_ms = 1500\<rparr>)"
  by (rule rested_bucket_grants) (simp_all add: word_le_nat_alt unat_bytes_per_sec)

end
