(* ===== verification/Frames.thy ===== *)
theory Frames
  imports Prelude
begin

text \<open>
  The outer frame of the PAYPHONE wire protocol
  (\<open>payphone-core/src/lib.rs\<close>): its constants, the frame types, the
  protocol errors, encoding, decoding and the header-only length reader of the
  stream transports.
\<close>

section \<open>Constants\<close>

definition PROTOCOL_VERSION :: u8 where [constants]: "PROTOCOL_VERSION = 1"
definition DEFAULT_PORT :: u16 where [constants]: "DEFAULT_PORT = 40404"
definition DEFAULT_TCP_PORT :: u16 where [constants]: "DEFAULT_TCP_PORT = 40443"
definition HEADER_SIZE :: nat where [constants]: "HEADER_SIZE = 16"
definition MAX_PAYLOAD_SIZE :: nat where [constants]: "MAX_PAYLOAD_SIZE = 64 * 1024"

section \<open>Frame types and errors\<close>

datatype FrameType =
    Data | WhatsUpDude | AllGoodDude | Ping | Pong | Rekey | Close
  | BackAgainDude | StillGoodDude | AccessDeniedDude

datatype FrameError =
    TooSmall
  | UnknownFrameType u8
  | PayloadTooLarge
  | InvalidPayloadLength
  | UnsupportedVersion u8
  | InvalidWhatsUpDudeLength
  | InvalidAllGoodDudeLength
  | InvalidBackAgainDudeLength
  | InvalidStillGoodDudeLength
  | InvalidDataLength
  | DataPayloadTooLarge
  | InvalidPingLength
  | InvalidPongLength
  | MissingAuthToken
  | InvalidAuthTokenLength
  | AuthTokenTooLarge
  | InvalidAccessDeniedDudeLength
  | UnknownDenyReason u8
  | InvalidCloseLength
  | UnknownCloseReason u8
  | InvalidRekeyLength

text \<open>The \<open>repr(u8)\<close> discriminants, as written by \<open>frame_type as u8\<close>.\<close>

fun frame_type_u8 :: "FrameType \<Rightarrow> u8" where
  "frame_type_u8 Data = 1"
| "frame_type_u8 WhatsUpDude = 2"
| "frame_type_u8 AllGoodDude = 3"
| "frame_type_u8 Ping = 4"
| "frame_type_u8 Pong = 5"
| "frame_type_u8 Rekey = 6"
| "frame_type_u8 Close = 7"
| "frame_type_u8 BackAgainDude = 8"
| "frame_type_u8 StillGoodDude = 9"
| "frame_type_u8 AccessDeniedDude = 10"

definition frame_type_try_from :: "u8 \<Rightarrow> (FrameError, FrameType) outcome" where
  "frame_type_try_from value =
    (if value = 1 then Ok Data
     else if value = 2 then Ok WhatsUpDude
     else if value = 3 then Ok AllGoodDude
     else if value = 4 then Ok Ping
     else if value = 5 then Ok Pong
     else if value = 6 then Ok Rekey
     else if value = 7 then Ok Close
     else if value = 8 then Ok BackAgainDude
     else if value = 9 then Ok StillGoodDude
     else if value = 10 then Ok AccessDeniedDude
     else Err (UnknownFrameType value))"

lemma frame_type_try_from_Ok_iff:
  "frame_type_try_from v = Ok t \<longleftrightarrow> v = frame_type_u8 t"
  by (cases t) (auto simp: frame_type_try_from_def)

lemma frame_type_try_from_not_Panic [simp]: "frame_type_try_from v \<noteq> Panic"
  by (simp add: frame_type_try_from_def)

lemma frame_type_try_from_u8 [simp]: "frame_type_try_from (frame_type_u8 t) = Ok t"
  by (simp add: frame_type_try_from_Ok_iff)

section \<open>Frames\<close>

record Frame =
  version :: u8
  frame_type :: FrameType
  flags :: u16
  sequence :: u64
  payload :: bytes

definition frame_encode :: "Frame \<Rightarrow> bytes" where
  "frame_encode f =
     put_u8 (version f) @
     put_u8 (frame_type_u8 (frame_type f)) @
     put_u16 (flags f) @
     put_u32 (of_nat (length (payload f))) @
     put_u64 (sequence f) @
     payload f"

definition frame_decode :: "bytes \<Rightarrow> (FrameError, Frame) outcome" where
  "frame_decode buffer =
    (if length buffer < HEADER_SIZE then Err TooSmall
     else obind (get_u8 buffer) (\<lambda>(ver, b1).
       if ver \<noteq> PROTOCOL_VERSION then Err (UnsupportedVersion ver)
       else obind (get_u8 b1) (\<lambda>(type_byte, b2).
       obind (frame_type_try_from type_byte) (\<lambda>ftype.
       obind (get_u16 b2) (\<lambda>(flg, b3).
       obind (get_u32 b3) (\<lambda>(len_word, b4).
       obind (get_u64 b4) (\<lambda>(seq, b5).
       let payload_len = unat len_word in
       if payload_len \<noteq> length b5 then Err InvalidPayloadLength
       else if payload_len > MAX_PAYLOAD_SIZE then Err PayloadTooLarge
       else obind (get_bytes payload_len b5) (\<lambda>(pl, _).
         Ok \<lparr>version = ver, frame_type = ftype, flags = flg, sequence = seq,
             payload = pl\<rparr>))))))))"

definition payload_len_from_header :: "bytes \<Rightarrow> (FrameError, nat) outcome" where
  "payload_len_from_header header =
    (if length header < HEADER_SIZE then Err TooSmall
     else if header ! 0 \<noteq> PROTOCOL_VERSION then Err (UnsupportedVersion (header ! 0))
     else let payload_len = unat (from_be (take 4 (drop 4 header)) :: u32) in
       if payload_len > MAX_PAYLOAD_SIZE then Err PayloadTooLarge
       else Ok payload_len)"

definition frame_valid :: "Frame \<Rightarrow> bool" where
  "frame_valid f \<longleftrightarrow> version f = PROTOCOL_VERSION \<and> length (payload f) \<le> MAX_PAYLOAD_SIZE"

lemma length_frame_encode [simp]:
  "length (frame_encode f) = HEADER_SIZE + length (payload f)"
  by (simp add: frame_encode_def constants)

lemma frame_decode_Ok_iff: "frame_decode b = Ok f \<longleftrightarrow> frame_valid f \<and> frame_encode f = b"
proof
  assume "frame_decode b = Ok f"
  then show "frame_valid f \<and> frame_encode f = b"
    by (auto simp: frame_decode_def frame_valid_def frame_encode_def obind_eq_Ok get_iffs
        frame_type_try_from_Ok_iff Let_def checked_get_bytes
        split: if_splits)
next
  assume "frame_valid f \<and> frame_encode f = b"
  then show "frame_decode b = Ok f"
    by (auto simp: frame_decode_def frame_valid_def frame_encode_def constants
        unat_of_nat take_bit_nat_eq_self Let_def get_bytes_def)
qed

lemma frame_decode_not_Panic: "frame_decode b \<noteq> Panic"
  by (auto simp: frame_decode_def obind_eq_Panic get_panics get_iffs Let_def constants
      split: if_splits)

interpretation frame: message_codec "\<lambda>f. Ok (frame_encode f)" frame_decode frame_valid
  by unfold_locales (auto simp: frame_decode_Ok_iff frame_decode_not_Panic)

text \<open>Every frame is rejected with the error of the first check it fails.\<close>

lemma frame_decode_short: "length b < HEADER_SIZE \<Longrightarrow> frame_decode b = Err TooSmall"
  by (simp add: frame_decode_def)

lemma take_header_frame:
  "take HEADER_SIZE (frame_encode f) =
     put_u8 (version f) @ put_u8 (frame_type_u8 (frame_type f)) @ put_u16 (flags f) @
     put_u32 (of_nat (length (payload f))) @ put_u64 (sequence f)"
  by (simp add: frame_encode_def constants)

lemma payload_len_of_frame:
  assumes "frame_valid f"
  shows "payload_len_from_header (take HEADER_SIZE (frame_encode f)) = Ok (length (payload f))"
  using assms unfolding take_header_frame
  by (simp add: payload_len_from_header_def constants frame_valid_def Let_def
      unat_of_nat take_bit_nat_eq_self)

text \<open>
  What the stream reader accepts as a header, \<^const>\<open>frame_decode\<close> accepts
  with the announced body, unless the type byte is unknown.
\<close>

lemma frame_decode_after_header:
  assumes "length h = HEADER_SIZE" and "payload_len_from_header h = Ok (length body)"
  shows "(\<exists>f. frame_decode (h @ body) = Ok f \<and> payload f = body) \<or>
         frame_decode (h @ body) = Err (UnknownFrameType (h ! 1))"
proof -
  obtain t fl len seq where h: "h = PROTOCOL_VERSION # t # put_u16 fl @ put_u32 len @ put_u64 seq"
    and len: "unat len = length body"
  proof -
    obtain v t h2 where h2: "h = v # t # h2" "length h2 = 14"
      using assms(1) by (auto simp: constants numeral_eq_Suc length_Suc_conv)
    obtain fl h3 where h3: "h2 = put_u16 fl @ h3" "length h3 = 12"
      using u16_field.get_total [of h2] h2 by auto
    obtain len h4 where h4: "h3 = put_u32 len @ h4" "length h4 = 8"
      using u32_field.get_total [of h3] h3 by auto
    obtain seq where seq: "h4 = put_u64 seq"
      using u64_field.get_total [of h4] h4 by auto
    have "v = PROTOCOL_VERSION" and "unat len = length body"
      using assms(2) h2 h3 h4 seq
      by (auto simp: payload_len_from_header_def Let_def constants split: if_splits)
    then show thesis using that h2 h3 h4 seq by simp
  qed
  have "length body \<le> MAX_PAYLOAD_SIZE"
    using assms(2) by (auto simp: payload_len_from_header_def Let_def split: if_splits)
  then show ?thesis
    using h len assms(1) frame_type_try_from_not_Panic [of t]
    by (cases "frame_type_try_from t")
      (auto simp: frame_decode_def Let_def frame_type_try_from_def split: if_splits)
qed

section \<open>Messages carried in frames\<close>

text \<open>
  Senders put an encoded message in the payload of a frame of its type;
  receivers decode the frame and then its payload.  The lemma is proved once for
  every message codec of the protocol.
\<close>

definition mk_frame :: "FrameType \<Rightarrow> u64 \<Rightarrow> bytes \<Rightarrow> Frame" where
  "mk_frame t seq body =
     \<lparr>version = PROTOCOL_VERSION, frame_type = t, flags = 0, sequence = seq, payload = body\<rparr>"

lemma mk_frame_sel [simp]:
  "version (mk_frame t s b) = PROTOCOL_VERSION" "frame_type (mk_frame t s b) = t"
  "flags (mk_frame t s b) = 0" "sequence (mk_frame t s b) = s" "payload (mk_frame t s b) = b"
  by (simp_all add: mk_frame_def)

lemma frame_decode_mk_frame:
  "length b \<le> MAX_PAYLOAD_SIZE \<Longrightarrow> frame_decode (frame_encode (mk_frame t s b)) = Ok (mk_frame t s b)"
  by (simp add: frame_decode_Ok_iff frame_valid_def)

locale protocol_message = message_codec encode decode valid
  for encode :: "'a \<Rightarrow> (FrameError, bytes) outcome"
    and decode :: "bytes \<Rightarrow> (FrameError, 'a) outcome"
    and valid :: "'a \<Rightarrow> bool" +
  fixes ftype :: FrameType
begin

lemma carried:
  assumes "valid m" "encode m = Ok b" "length b \<le> MAX_PAYLOAD_SIZE"
  shows "\<exists>f. frame_decode (frame_encode (mk_frame ftype seq b)) = Ok f \<and>
    frame_type f = ftype \<and> sequence f = seq \<and> decode (payload f) = Ok m"
  using assms by (auto simp: frame_decode_mk_frame decode_Ok_iff)

end

section \<open>Properties\<close>

text \<open>
  The frame decoder is total and exact.  It never panics, and it accepts a
  byte string exactly when that string is the encoding of a frame of protocol
  version 1 with at most 65536 bytes of payload; the frame it returns is that
  frame, so no two byte strings decode to the same frame.
\<close>

theorem frame_codec_exact:
  "frame_decode b \<noteq> Panic \<and>
   (frame_decode b = Ok f \<longleftrightarrow>
      version f = PROTOCOL_VERSION \<and> length (payload f) \<le> MAX_PAYLOAD_SIZE \<and> b = frame_encode f)"
  using frame_decode_not_Panic by (auto simp: frame_decode_Ok_iff frame_valid_def)

end
