(* ===== verification/Messages.thy ===== *)
theory Messages
  imports Frames
begin

text \<open>
  The messages inside the frames (\<open>payphone-core/src/*.rs\<close>): one
  record per struct, its constructor, its encoder and its decoder, and an
  interpretation of \<open>protocol_message\<close> for each.  Random fields filled
  by \<open>rand\<close> are arguments of the constructors.
\<close>

section \<open>Sizes and capability bits\<close>

definition CLIENT_NONCE_SIZE :: nat where [constants]: "CLIENT_NONCE_SIZE = 32"
definition WHATS_UP_DUDE_HEADER_SIZE :: nat where [constants]: "WHATS_UP_DUDE_HEADER_SIZE = 41"
definition MAX_AUTH_TOKEN_SIZE :: nat where [constants]: "MAX_AUTH_TOKEN_SIZE = 2048"
definition CAP_IPV4 :: u32 where [constants]: "CAP_IPV4 = 1"
definition CAP_IPV6 :: u32 where [constants]: "CAP_IPV6 = 2"
definition CAP_DNS :: u32 where [constants]: "CAP_DNS = 4"
definition CAP_RESUME :: u32 where [constants]: "CAP_RESUME = 8"
definition CAP_ROAMING :: u32 where [constants]: "CAP_ROAMING = 16"
definition SESSION_ID_SIZE :: nat where [constants]: "SESSION_ID_SIZE = 16"
definition SERVER_NONCE_SIZE :: nat where [constants]: "SERVER_NONCE_SIZE = 32"
definition ALL_GOOD_DUDE_SIZE :: nat where [constants]: "ALL_GOOD_DUDE_SIZE = 59"
definition BACK_AGAIN_DUDE_SIZE :: nat where
  [constants]: "BACK_AGAIN_DUDE_SIZE = SESSION_ID_SIZE + SERVER_NONCE_SIZE"
definition STILL_GOOD_DUDE_SIZE :: nat where
  [constants]: "STILL_GOOD_DUDE_SIZE = SESSION_ID_SIZE + 4 + 2 + 4"
definition ACCESS_DENIED_DUDE_SIZE :: nat where [constants]: "ACCESS_DENIED_DUDE_SIZE = 9"
definition DATA_HEADER_SIZE :: nat where [constants]: "DATA_HEADER_SIZE = 24"
definition MAX_DATA_PAYLOAD_SIZE :: nat where [constants]: "MAX_DATA_PAYLOAD_SIZE = 64 * 1024"
definition PING_SIZE :: nat where [constants]: "PING_SIZE = 24"
definition PONG_SIZE :: nat where [constants]: "PONG_SIZE = 24"
definition REKEY_REQUEST_SIZE :: nat where [constants]: "REKEY_REQUEST_SIZE = SESSION_ID_SIZE"
definition REKEY_TOKEN_SIZE :: nat where
  [constants]: "REKEY_TOKEN_SIZE = SESSION_ID_SIZE + SERVER_NONCE_SIZE"
definition CLOSE_SIZE :: nat where [constants]: "CLOSE_SIZE = 17"

text \<open>The facts every decoder proof unfolds.\<close>

lemmas decode_simps = obind_eq_Ok obind_eq_Panic get_iffs get_panics constants

section \<open>WhatsUpDude\<close>

record WhatsUpDude =
  wud_protocol_version :: u8
  wud_client_version :: u16
  wud_capabilities :: u32
  wud_client_nonce :: bytes
  wud_auth_token :: bytes

definition whats_up_dude_new :: "u16 \<Rightarrow> u32 \<Rightarrow> bytes \<Rightarrow> bytes \<Rightarrow> WhatsUpDude" where
  "whats_up_dude_new client_version capabilities auth_token random_nonce =
     \<lparr>wud_protocol_version = PROTOCOL_VERSION, wud_client_version = client_version,
      wud_capabilities = capabilities, wud_client_nonce = random_nonce,
      wud_auth_token = auth_token\<rparr>"

definition whats_up_dude_supports :: "WhatsUpDude \<Rightarrow> u32 \<Rightarrow> bool" where
  "whats_up_dude_supports m capability \<longleftrightarrow> wud_capabilities m AND capability \<noteq> 0"

definition whats_up_dude_encode :: "WhatsUpDude \<Rightarrow> (FrameError, bytes) outcome" where
  "whats_up_dude_encode m =
    (let token_len = length (wud_auth_token m) in
     if \<not> token_len \<le> MAX_AUTH_TOKEN_SIZE then Panic
     else if \<not> token_len \<le> U16_MAX then Panic
     else Ok (put_u8 (wud_protocol_version m) @
              put_u16 (wud_client_version m) @
              put_u32 (wud_capabilities m) @
              wud_client_nonce m @
              put_u16 (of_nat token_len) @
              wud_auth_token m))"

definition whats_up_dude_decode :: "bytes \<Rightarrow> (FrameError, WhatsUpDude) outcome" where
  "whats_up_dude_decode buffer =
    (if length buffer < WHATS_UP_DUDE_HEADER_SIZE then Err InvalidWhatsUpDudeLength
     else obind (get_u8 buffer) (\<lambda>(protocol_version, b1).
       obind (get_u16 b1) (\<lambda>(client_version, b2).
       obind (get_u32 b2) (\<lambda>(capabilities, b3).
       obind (get_bytes CLIENT_NONCE_SIZE b3) (\<lambda>(client_nonce, b4).
       obind (get_u16 b4) (\<lambda>(len_word, b5).
       let token_len = unat len_word in
       if token_len = 0 then Err MissingAuthToken
       else if token_len > MAX_AUTH_TOKEN_SIZE then Err AuthTokenTooLarge
       else if length b5 \<noteq> token_len then Err InvalidAuthTokenLength
       else obind (get_bytes token_len b5) (\<lambda>(auth_token, _).
         Ok \<lparr>wud_protocol_version = protocol_version, wud_client_version = client_version,
             wud_capabilities = capabilities, wud_client_nonce = client_nonce,
             wud_auth_token = auth_token\<rparr>)))))))"

definition whats_up_dude_valid :: "WhatsUpDude \<Rightarrow> bool" where
  "whats_up_dude_valid m \<longleftrightarrow> length (wud_client_nonce m) = CLIENT_NONCE_SIZE \<and>
     0 < length (wud_auth_token m) \<and> length (wud_auth_token m) \<le> MAX_AUTH_TOKEN_SIZE"

lemma whats_up_dude_decode_Ok_iff:
  "whats_up_dude_decode b = Ok m \<longleftrightarrow> whats_up_dude_valid m \<and> whats_up_dude_encode m = Ok b"
proof
  assume "whats_up_dude_decode b = Ok m"
  then show "whats_up_dude_valid m \<and> whats_up_dude_encode m = Ok b"
    by (auto simp: whats_up_dude_decode_def whats_up_dude_valid_def whats_up_dude_encode_def
        obind_eq_Ok get_iffs constants Let_def checked_get_bytes split: if_splits)
next
  assume "whats_up_dude_valid m \<and> whats_up_dude_encode m = Ok b"
  then show "whats_up_dude_decode b = Ok m"
    by (auto simp: whats_up_dude_decode_def whats_up_dude_valid_def whats_up_dude_encode_def
        constants unat_of_nat take_bit_nat_eq_self Let_def get_bytes_def)
qed

interpretation whats_up_dude: protocol_message
  whats_up_dude_encode whats_up_dude_decode whats_up_dude_valid WhatsUpDude
proof unfold_locales
  show "whats_up_dude_decode b = Ok m \<longleftrightarrow> whats_up_dude_valid m \<and> whats_up_dude_encode m = Ok b"
    for b m by (rule whats_up_dude_decode_Ok_iff)
  show "is_ok (whats_up_dude_encode m)" if "whats_up_dude_valid m" for m
    using that by (simp add: whats_up_dude_valid_def whats_up_dude_encode_def Let_def constants)
  show "whats_up_dude_decode b \<noteq> Panic" for b
    by (auto simp: whats_up_dude_decode_def decode_simps get_bytes_def Let_def split: if_splits)
qed

section \<open>AllGoodDude\<close>

record AllGoodDude =
  agd_protocol_version :: u8
  agd_session_id :: bytes
  agd_assigned_ipv4 :: bytes
  agd_mtu :: u16
  agd_capabilities :: u32
  agd_server_nonce :: bytes

definition all_good_dude_new :: "bytes \<Rightarrow> u16 \<Rightarrow> u32 \<Rightarrow> bytes \<Rightarrow> bytes \<Rightarrow> AllGoodDude" where
  "all_good_dude_new assigned_ipv4 mtu capabilities random_id random_nonce =
     \<lparr>agd_protocol_version = PROTOCOL_VERSION, agd_session_id = random_id,
      agd_assigned_ipv4 = assigned_ipv4, agd_mtu = mtu, agd_capabilities = capabilities,
      agd_server_nonce = random_nonce\<rparr>"

definition all_good_dude_encode :: "AllGoodDude \<Rightarrow> bytes" where
  "all_good_dude_encode m =
     put_u8 (agd_protocol_version m) @ agd_session_id m @ agd_assigned_ipv4 m @
     put_u16 (agd_mtu m) @ put_u32 (agd_capabilities m) @ agd_server_nonce m"

definition all_good_dude_decode :: "bytes \<Rightarrow> (FrameError, AllGoodDude) outcome" where
  "all_good_dude_decode buffer =
    (if length buffer \<noteq> ALL_GOOD_DUDE_SIZE then Err InvalidAllGoodDudeLength
     else obind (get_u8 buffer) (\<lambda>(protocol_version, b1).
       obind (get_bytes SESSION_ID_SIZE b1) (\<lambda>(session_id, b2).
       obind (get_bytes 4 b2) (\<lambda>(assigned_ipv4, b3).
       obind (get_u16 b3) (\<lambda>(mtu, b4).
       obind (get_u32 b4) (\<lambda>(capabilities, b5).
       obind (get_bytes SERVER_NONCE_SIZE b5) (\<lambda>(server_nonce, _).
         Ok \<lparr>agd_protocol_version = protocol_version, agd_session_id = session_id,
             agd_assigned_ipv4 = assigned_ipv4, agd_mtu = mtu,
             agd_capabilities = capabilities, agd_server_nonce = server_nonce\<rparr>)))))))"

definition all_good_dude_valid :: "AllGoodDude \<Rightarrow> bool" where
  "all_good_dude_valid m \<longleftrightarrow> length (agd_session_id m) = SESSION_ID_SIZE \<and>
     length (agd_assigned_ipv4 m) = 4 \<and> length (agd_server_nonce m) = SERVER_NONCE_SIZE"

interpretation all_good_dude: protocol_message
  "\<lambda>m. Ok (all_good_dude_encode m)" all_good_dude_decode all_good_dude_valid AllGoodDude
proof (rule protocol_message.intro, rule message_codecI)
  show "all_good_dude_valid m \<and> all_good_dude_encode m = b" if "all_good_dude_decode b = Ok m" for b m
    using that by (auto simp: all_good_dude_decode_def all_good_dude_encode_def
        all_good_dude_valid_def obind_eq_Ok get_iffs constants split: if_splits)
  show "all_good_dude_decode (all_good_dude_encode m) = Ok m" if "all_good_dude_valid m" for m
    using that by (simp add: all_good_dude_decode_def all_good_dude_encode_def
        all_good_dude_valid_def constants)
  show "all_good_dude_decode b \<noteq> Panic" for b
    by (auto simp: all_good_dude_decode_def decode_simps)
qed

section \<open>BackAgainDude and StillGoodDude\<close>

record BackAgainDude =
  bad_session_id :: bytes
  bad_resume_token :: bytes

definition back_again_dude_new :: "bytes \<Rightarrow> bytes \<Rightarrow> BackAgainDude" where
  "back_again_dude_new session_id resume_token =
     \<lparr>bad_session_id = session_id, bad_resume_token = resume_token\<rparr>"

definition back_again_dude_encode :: "BackAgainDude \<Rightarrow> bytes" where
  "back_again_dude_encode m = bad_session_id m @ bad_resume_token m"

definition back_again_dude_decode :: "bytes \<Rightarrow> (FrameError, BackAgainDude) outcome" where
  "back_again_dude_decode buffer =
    (if length buffer \<noteq> BACK_AGAIN_DUDE_SIZE then Err InvalidBackAgainDudeLength
     else obind (get_bytes SESSION_ID_SIZE buffer) (\<lambda>(session_id, b1).
       obind (get_bytes SERVER_NONCE_SIZE b1) (\<lambda>(resume_token, _).
         Ok \<lparr>bad_session_id = session_id, bad_resume_token = resume_token\<rparr>)))"

definition back_again_dude_valid :: "BackAgainDude \<Rightarrow> bool" where
  "back_again_dude_valid m \<longleftrightarrow> length (bad_session_id m) = SESSION_ID_SIZE \<and>
     length (bad_resume_token m) = SERVER_NONCE_SIZE"

interpretation back_again_dude: protocol_message
  "\<lambda>m. Ok (back_again_dude_encode m)" back_again_dude_decode back_again_dude_valid BackAgainDude
proof (rule protocol_message.intro, rule message_codecI)
  show "back_again_dude_valid m \<and> back_again_dude_encode m = b" if "back_again_dude_decode b = Ok m" for b m
    using that by (auto simp: back_again_dude_decode_def back_again_dude_encode_def
        back_again_dude_valid_def obind_eq_Ok get_iffs constants split: if_splits)
  show "back_again_dude_decode (back_again_dude_encode m) = Ok m" if "back_again_dude_valid m" for m
    using that by (simp add: back_again_dude_decode_def back_again_dude_encode_def
        back_again_dude_valid_def constants)
  show "back_again_dude_decode b \<noteq> Panic" for b
    by (auto simp: back_again_dude_decode_def decode_simps)
qed

record StillGoodDude =
  sgd_session_id :: bytes
  sgd_assigned_ipv4 :: bytes
  sgd_mtu :: u16
  sgd_capabilities :: u32

definition still_good_dude_new :: "bytes \<Rightarrow> bytes \<Rightarrow> u16 \<Rightarrow> u32 \<Rightarrow> StillGoodDude" where
  "still_good_dude_new session_id assigned_ipv4 mtu capabilities =
     \<lparr>sgd_session_id = session_id, sgd_assigned_ipv4 = assigned_ipv4, sgd_mtu = mtu,
      sgd_capabilities = capabilities\<rparr>"

definition still_good_dude_encode :: "StillGoodDude \<Rightarrow> bytes" where
  "still_good_dude_encode m =
     sgd_session_id m @ sgd_assigned_ipv4 m @ put_u16 (sgd_mtu m) @ put_u32 (sgd_capabilities m)"

definition still_good_dude_decode :: "bytes \<Rightarrow> (FrameError, StillGoodDude) outcome" where
  "still_good_dude_decode buffer =
    (if length buffer \<noteq> STILL_GOOD_DUDE_SIZE then Err InvalidStillGoodDudeLength
     else obind (get_bytes SESSION_ID_SIZE buffer) (\<lambda>(session_id, b1).
       obind (get_bytes 4 b1) (\<lambda>(assigned_ipv4, b2).
       obind (get_u16 b2) (\<lambda>(mtu, b3).
       obind (get_u32 b3) (\<lambda>(capabilities, _).
         Ok \<lparr>sgd_session_id = session_id, sgd_assigned_ipv4 = assigned_ipv4, sgd_mtu = mtu,
             sgd_capabilities = capabilities\<rparr>)))))"

definition still_good_dude_valid :: "StillGoodDude \<Rightarrow> bool" where
  "still_good_dude_valid m \<longleftrightarrow> length (sgd_session_id m) = SESSION_ID_SIZE \<and>
     length (sgd_assigned_ipv4 m) = 4"

interpretation still_good_dude: protocol_message
  "\<lambda>m. Ok (still_good_dude_encode m)" still_good_dude_decode still_good_dude_valid StillGoodDude
proof (rule protocol_message.intro, rule message_codecI)
  show "still_good_dude_valid m \<and> still_good_dude_encode m = b" if "still_good_dude_decode b = Ok m" for b m
    using that by (auto simp: still_good_dude_decode_def still_good_dude_encode_def
        still_good_dude_valid_def obind_eq_Ok get_iffs constants split: if_splits)
  show "still_good_dude_decode (still_good_dude_encode m) = Ok m" if "still_good_dude_valid m" for m
    using that by (simp add: still_good_dude_decode_def still_good_dude_encode_def
        still_good_dude_valid_def constants)
  show "still_good_dude_decode b \<noteq> Panic" for b
    by (auto simp: still_good_dude_decode_def decode_simps)
qed

section \<open>AccessDeniedDude\<close>

datatype DenyReason =
    InvalidToken | SubscriptionExpired | TokenRevoked | SubscriptionNotActive
  | UnknownSigningKey | UnsupportedPlan | InternalAuthError | DeviceLimitReached

fun deny_reason_u8 :: "DenyReason \<Rightarrow> u8" where
  "deny_reason_u8 InvalidToken = 1"
| "deny_reason_u8 SubscriptionExpired = 2"
| "deny_reason_u8 TokenRevoked = 3"
| "deny_reason_u8 SubscriptionNotActive = 4"
| "deny_reason_u8 UnknownSigningKey = 5"
| "deny_reason_u8 UnsupportedPlan = 6"
| "deny_reason_u8 InternalAuthError = 7"
| "deny_reason_u8 DeviceLimitReached = 8"

definition deny_reason_try_from :: "u8 \<Rightarrow> (FrameError, DenyReason) outcome" where
  "deny_reason_try_from value =
    (if value = 1 then Ok InvalidToken
     else if value = 2 then Ok SubscriptionExpired
     else if value = 3 then Ok TokenRevoked
     else if value = 4 then Ok SubscriptionNotActive
     else if value = 5 then Ok UnknownSigningKey
     else if value = 6 then Ok UnsupportedPlan
     else if value = 7 then Ok InternalAuthError
     else if value = 8 then Ok DeviceLimitReached
     else Err (UnknownDenyReason value))"

lemma deny_reason_try_from_Ok_iff: "deny_reason_try_from v = Ok r \<longleftrightarrow> v = deny_reason_u8 r"
  by (cases r) (auto simp: deny_reason_try_from_def)

lemma deny_reason_try_from_simps [simp]:
  "deny_reason_try_from v \<noteq> Panic" "deny_reason_try_from (deny_reason_u8 r) = Ok r"
  by (simp_all add: deny_reason_try_from_Ok_iff) (simp add: deny_reason_try_from_def)

record AccessDeniedDude =
  add_reason :: DenyReason
  add_expires_at :: u64

definition access_denied_dude_new :: "DenyReason \<Rightarrow> u64 \<Rightarrow> AccessDeniedDude" where
  "access_denied_dude_new reason expires_at = \<lparr>add_reason = reason, add_expires_at = expires_at\<rparr>"

definition access_denied_dude_encode :: "AccessDeniedDude \<Rightarrow> bytes" where
  "access_denied_dude_encode m = put_u8 (deny_reason_u8 (add_reason m)) @ put_u64 (add_expires_at m)"

definition access_denied_dude_decode :: "bytes \<Rightarrow> (FrameError, AccessDeniedDude) outcome" where
  "access_denied_dude_decode buffer =
    (if length buffer \<noteq> ACCESS_DENIED_DUDE_SIZE then Err InvalidAccessDeniedDudeLength
     else obind (get_u8 buffer) (\<lambda>(reason_byte, b1).
       obind (deny_reason_try_from reason_byte) (\<lambda>reason.
       obind (get_u64 b1) (\<lambda>(expires_at, _).
         Ok \<lparr>add_reason = reason, add_expires_at = expires_at\<rparr>))))"

definition access_denied_dude_valid :: "AccessDeniedDude \<Rightarrow> bool" where
  "access_denied_dude_valid m \<longleftrightarrow> True"

interpretation access_denied_dude: protocol_message
  "\<lambda>m. Ok (access_denied_dude_encode m)" access_denied_dude_decode access_denied_dude_valid AccessDeniedDude
proof (rule protocol_message.intro, rule message_codecI)
  show "access_denied_dude_valid m \<and> access_denied_dude_encode m = b" if "access_denied_dude_decode b = Ok m" for b m
    using that by (auto simp: access_denied_dude_decode_def access_denied_dude_encode_def
        access_denied_dude_valid_def obind_eq_Ok get_iffs constants deny_reason_try_from_Ok_iff split: if_splits)
  show "access_denied_dude_decode (access_denied_dude_encode m) = Ok m" if "access_denied_dude_valid m" for m
    using that by (simp add: access_denied_dude_decode_def access_denied_dude_encode_def
        access_denied_dude_valid_def constants)
  show "access_denied_dude_decode b \<noteq> Panic" for b
    by (auto simp: access_denied_dude_decode_def decode_simps split: if_splits)
qed

section \<open>Data\<close>

record DataMsg =
  data_session_id :: bytes
  data_packet_id :: u64
  data_payload :: bytes

definition data_new :: "bytes \<Rightarrow> u64 \<Rightarrow> bytes \<Rightarrow> DataMsg" where
  "data_new session_id packet_id pl =
     \<lparr>data_session_id = session_id, data_packet_id = packet_id, data_payload = pl\<rparr>"

definition data_encode :: "DataMsg \<Rightarrow> bytes" where
  "data_encode m = data_session_id m @ put_u64 (data_packet_id m) @ data_payload m"

definition data_decode :: "bytes \<Rightarrow> (FrameError, DataMsg) outcome" where
  "data_decode buffer =
    (if length buffer < DATA_HEADER_SIZE then Err InvalidDataLength
     else obind (get_bytes SESSION_ID_SIZE buffer) (\<lambda>(session_id, b1).
       obind (get_u64 b1) (\<lambda>(packet_id, b2).
       let payload_len = length b2 in
       if payload_len > MAX_DATA_PAYLOAD_SIZE then Err DataPayloadTooLarge
       else obind (get_bytes payload_len b2) (\<lambda>(pl, _).
         Ok \<lparr>data_session_id = session_id, data_packet_id = packet_id, data_payload = pl\<rparr>))))"

definition data_valid :: "DataMsg \<Rightarrow> bool" where
  "data_valid m \<longleftrightarrow> length (data_session_id m) = SESSION_ID_SIZE \<and>
     length (data_payload m) \<le> MAX_DATA_PAYLOAD_SIZE"

interpretation data: protocol_message
  "\<lambda>m. Ok (data_encode m)" data_decode data_valid Data
proof (rule protocol_message.intro, rule message_codecI)
  show "data_valid m \<and> data_encode m = b" if "data_decode b = Ok m" for b m
    using that by (auto simp: data_decode_def data_encode_def
        data_valid_def obind_eq_Ok get_iffs constants Let_def split: if_splits)
  show "data_decode (data_encode m) = Ok m" if "data_valid m" for m
    using that by (simp add: data_decode_def data_encode_def
        data_valid_def constants)
  show "data_decode b \<noteq> Panic" for b
    by (auto simp: data_decode_def decode_simps Let_def split: if_splits)
qed

section \<open>Ping and Pong\<close>

record PingMsg =
  ping_session_id :: bytes
  ping_ping_id :: u64

definition ping_new :: "bytes \<Rightarrow> u64 \<Rightarrow> PingMsg" where
  "ping_new session_id ping_id = \<lparr>ping_session_id = session_id, ping_ping_id = ping_id\<rparr>"

definition ping_encode :: "PingMsg \<Rightarrow> bytes" where
  "ping_encode m = ping_session_id m @ put_u64 (ping_ping_id m)"

definition ping_decode :: "bytes \<Rightarrow> (FrameError, PingMsg) outcome" where
  "ping_decode buffer =
    (if length buffer \<noteq> PING_SIZE then Err InvalidPingLength
     else obind (get_bytes SESSION_ID_SIZE buffer) (\<lambda>(session_id, b1).
       obind (get_u64 b1) (\<lambda>(ping_id, _).
         Ok \<lparr>ping_session_id = session_id, ping_ping_id = ping_id\<rparr>)))"

definition ping_valid :: "PingMsg \<Rightarrow> bool" where
  "ping_valid m \<longleftrightarrow> length (ping_session_id m) = SESSION_ID_SIZE"

interpretation ping: protocol_message
  "\<lambda>m. Ok (ping_encode m)" ping_decode ping_valid Ping
proof (rule protocol_message.intro, rule message_codecI)
  show "ping_valid m \<and> ping_encode m = b" if "ping_decode b = Ok m" for b m
    using that by (auto simp: ping_decode_def ping_encode_def
        ping_valid_def obind_eq_Ok get_iffs constants split: if_splits)
  show "ping_decode (ping_encode m) = Ok m" if "ping_valid m" for m
    using that by (simp add: ping_decode_def ping_encode_def
        ping_valid_def constants)
  show "ping_decode b \<noteq> Panic" for b
    by (auto simp: ping_decode_def decode_simps split: if_splits)
qed

record PongMsg =
  pong_session_id :: bytes
  pong_ping_id :: u64

definition pong_new :: "bytes \<Rightarrow> u64 \<Rightarrow> PongMsg" where
  "pong_new session_id ping_id = \<lparr>pong_session_id = session_id, pong_ping_id = ping_id\<rparr>"

definition pong_encode :: "PongMsg \<Rightarrow> bytes" where
  "pong_encode m = pong_session_id m @ put_u64 (pong_ping_id m)"

definition pong_decode :: "bytes \<Rightarrow> (FrameError, PongMsg) outcome" where
  "pong_decode buffer =
    (if length buffer \<noteq> PONG_SIZE then Err InvalidPongLength
     else obind (get_bytes SESSION_ID_SIZE buffer) (\<lambda>(session_id, b1).
       obind (get_u64 b1) (\<lambda>(ping_id, _).
         Ok \<lparr>pong_session_id = session_id, pong_ping_id = ping_id\<rparr>)))"

definition pong_valid :: "PongMsg \<Rightarrow> bool" where
  "pong_valid m \<longleftrightarrow> length (pong_session_id m) = SESSION_ID_SIZE"

interpretation pong: protocol_message
  "\<lambda>m. Ok (pong_encode m)" pong_decode pong_valid Pong
proof (rule protocol_message.intro, rule message_codecI)
  show "pong_valid m \<and> pong_encode m = b" if "pong_decode b = Ok m" for b m
    using that by (auto simp: pong_decode_def pong_encode_def
        pong_valid_def obind_eq_Ok get_iffs constants split: if_splits)
  show "pong_decode (pong_encode m) = Ok m" if "pong_valid m" for m
    using that by (simp add: pong_decode_def pong_encode_def
        pong_valid_def constants)
  show "pong_decode b \<noteq> Panic" for b
    by (auto simp: pong_decode_def decode_simps split: if_splits)
qed

section \<open>Rekey\<close>

datatype RekeyMsg = RekeyRequest bytes | RekeyToken bytes bytes

definition rekey_request :: "bytes \<Rightarrow> RekeyMsg" where
  "rekey_request session_id = RekeyRequest session_id"

definition rekey_token :: "bytes \<Rightarrow> bytes \<Rightarrow> RekeyMsg" where
  "rekey_token session_id nonce = RekeyToken session_id nonce"

fun rekey_session_id :: "RekeyMsg \<Rightarrow> bytes" where
  "rekey_session_id (RekeyRequest session_id) = session_id"
| "rekey_session_id (RekeyToken session_id nonce) = session_id"

fun rekey_encode :: "RekeyMsg \<Rightarrow> bytes" where
  "rekey_encode (RekeyRequest session_id) = session_id"
| "rekey_encode (RekeyToken session_id nonce) = session_id @ nonce"

definition rekey_decode :: "bytes \<Rightarrow> (FrameError, RekeyMsg) outcome" where
  "rekey_decode buffer =
    (if length buffer = REKEY_REQUEST_SIZE then Ok (RekeyRequest buffer)
     else if length buffer = REKEY_TOKEN_SIZE then
       Ok (RekeyToken (take SESSION_ID_SIZE buffer) (drop SESSION_ID_SIZE buffer))
     else Err InvalidRekeyLength)"

fun rekey_valid :: "RekeyMsg \<Rightarrow> bool" where
  "rekey_valid (RekeyRequest session_id) \<longleftrightarrow> length session_id = SESSION_ID_SIZE"
| "rekey_valid (RekeyToken session_id nonce) \<longleftrightarrow>
     length session_id = SESSION_ID_SIZE \<and> length nonce = SERVER_NONCE_SIZE"

interpretation rekey: protocol_message
  "\<lambda>m. Ok (rekey_encode m)" rekey_decode rekey_valid Rekey
proof (rule protocol_message.intro, rule message_codecI)
  show "rekey_valid m \<and> rekey_encode m = b" if "rekey_decode b = Ok m" for b m
    using that by (auto simp: rekey_decode_def constants split: if_splits)
  show "rekey_decode (rekey_encode m) = Ok m" if "rekey_valid m" for m
    using that by (cases m) (simp_all add: rekey_decode_def constants)
  show "rekey_decode b \<noteq> Panic" for b
    by (simp add: rekey_decode_def)
qed

section \<open>Close\<close>

datatype CloseReason = ClientShutdown | ServerShutdown | Replaced

fun close_reason_u8 :: "CloseReason \<Rightarrow> u8" where
  "close_reason_u8 ClientShutdown = 0"
| "close_reason_u8 ServerShutdown = 1"
| "close_reason_u8 Replaced = 2"

definition close_reason_try_from :: "u8 \<Rightarrow> (FrameError, CloseReason) outcome" where
  "close_reason_try_from value =
    (if value = 0 then Ok ClientShutdown
     else if value = 1 then Ok ServerShutdown
     else if value = 2 then Ok Replaced
     else Err (UnknownCloseReason value))"

lemma close_reason_try_from_Ok_iff: "close_reason_try_from v = Ok r \<longleftrightarrow> v = close_reason_u8 r"
  by (cases r) (auto simp: close_reason_try_from_def)

lemma close_reason_try_from_simps [simp]:
  "close_reason_try_from v \<noteq> Panic" "close_reason_try_from (close_reason_u8 r) = Ok r"
  by (simp_all add: close_reason_try_from_Ok_iff) (simp add: close_reason_try_from_def)

record CloseMsg =
  close_session_id :: bytes
  close_reason :: CloseReason

definition close_new :: "bytes \<Rightarrow> CloseReason \<Rightarrow> CloseMsg" where
  "close_new session_id reason = \<lparr>close_session_id = session_id, close_reason = reason\<rparr>"

definition close_encode :: "CloseMsg \<Rightarrow> bytes" where
  "close_encode m = close_session_id m @ put_u8 (close_reason_u8 (close_reason m))"

definition close_decode :: "bytes \<Rightarrow> (FrameError, CloseMsg) outcome" where
  "close_decode buffer =
    (if length buffer \<noteq> CLOSE_SIZE then Err InvalidCloseLength
     else obind (get_bytes SESSION_ID_SIZE buffer) (\<lambda>(session_id, b1).
       obind (get_u8 b1) (\<lambda>(reason_byte, _).
       obind (close_reason_try_from reason_byte) (\<lambda>reason.
         Ok \<lparr>close_session_id = session_id, close_reason = reason\<rparr>))))"

definition close_valid :: "CloseMsg \<Rightarrow> bool" where
  "close_valid m \<longleftrightarrow> length (close_session_id m) = SESSION_ID_SIZE"

interpretation close: protocol_message
  "\<lambda>m. Ok (close_encode m)" close_decode close_valid Close
proof (rule protocol_message.intro, rule message_codecI)
  show "close_valid m \<and> close_encode m = b" if "close_decode b = Ok m" for b m
    using that by (auto simp: close_decode_def close_encode_def
        close_valid_def obind_eq_Ok get_iffs constants close_reason_try_from_Ok_iff split: if_splits)
  show "close_decode (close_encode m) = Ok m" if "close_valid m" for m
    using that by (simp add: close_decode_def close_encode_def
        close_valid_def constants)
  show "close_decode b \<noteq> Panic" for b
    by (auto simp: close_decode_def decode_simps split: if_splits)
qed

section \<open>Properties\<close>

text \<open>
  On no input does a message decoder run past the end of its buffer: every
  byte string is either decoded or rejected with an error value.
\<close>

theorem message_decoders_never_panic:
  "whats_up_dude_decode b \<noteq> Panic \<and> all_good_dude_decode b \<noteq> Panic \<and>
   back_again_dude_decode b \<noteq> Panic \<and> still_good_dude_decode b \<noteq> Panic \<and>
   access_denied_dude_decode b \<noteq> Panic \<and> data_decode b \<noteq> Panic \<and> ping_decode b \<noteq> Panic \<and>
   pong_decode b \<noteq> Panic \<and> rekey_decode b \<noteq> Panic \<and> close_decode b \<noteq> Panic"
  by (intro conjI whats_up_dude.decode_not_Panic all_good_dude.decode_not_Panic
      back_again_dude.decode_not_Panic still_good_dude.decode_not_Panic
      access_denied_dude.decode_not_Panic data.decode_not_Panic ping.decode_not_Panic
      pong.decode_not_Panic rekey.decode_not_Panic close.decode_not_Panic)

text \<open>
  The handshake messages (\<open>WhatsUpDude\<close>, \<open>AllGoodDude\<close>,
  \<open>BackAgainDude\<close>, \<open>StillGoodDude\<close>, \<open>AccessDeniedDude\<close>)
  have one encoding each: a byte string is decoded to a message exactly when
  the message has fields of the right sizes and encodes to that string.
\<close>

theorem handshake_messages_exact:
  "(whats_up_dude_decode b = Ok w \<longleftrightarrow> whats_up_dude_valid w \<and> whats_up_dude_encode w = Ok b) \<and>
   (all_good_dude_decode b = Ok a \<longleftrightarrow> all_good_dude_valid a \<and> all_good_dude_encode a = b) \<and>
   (back_again_dude_decode b = Ok r \<longleftrightarrow> back_again_dude_valid r \<and> back_again_dude_encode r = b) \<and>
   (still_good_dude_decode b = Ok s \<longleftrightarrow> still_good_dude_valid s \<and> still_good_dude_encode s = b) \<and>
   (access_denied_dude_decode b = Ok d \<longleftrightarrow> access_denied_dude_encode d = b)"
  by (simp add: whats_up_dude.decode_Ok_iff all_good_dude.decode_Ok_iff back_again_dude.decode_Ok_iff
      still_good_dude.decode_Ok_iff access_denied_dude.decode_Ok_iff access_denied_dude_valid_def)

text \<open>
  The same for the messages of an established session (\<open>Data\<close>,
  \<open>Ping\<close>, \<open>Pong\<close>, \<open>Rekey\<close>, \<open>Close\<close>); a
  \<open>Rekey\<close> request and a \<open>Rekey\<close> token are told apart by their
  length alone.
\<close>

theorem session_messages_exact:
  "(data_decode b = Ok d \<longleftrightarrow> data_valid d \<and> data_encode d = b) \<and>
   (ping_decode b = Ok p \<longleftrightarrow> ping_valid p \<and> ping_encode p = b) \<and>
   (pong_decode b = Ok q \<longleftrightarrow> pong_valid q \<and> pong_encode q = b) \<and>
   (rekey_decode b = Ok r \<longleftrightarrow> rekey_valid r \<and> rekey_encode r = b) \<and>
   (close_decode b = Ok c \<longleftrightarrow> close_valid c \<and> close_encode c = b)"
  by (simp add: data.decode_Ok_iff ping.decode_Ok_iff pong.decode_Ok_iff rekey.decode_Ok_iff
      close.decode_Ok_iff)

text \<open>
  A packet put into a \<open>Data\<close> message and a frame reaches the peer's
  decoder unchanged exactly when it has at most 65512 bytes: 24 bytes of the
  64 KiB frame payload go to the session and packet identifiers, so packets
  between 65513 and 65536 bytes, which \<open>Data::decode\<close> would accept, are
  never delivered.
\<close>

theorem data_packet_carried:
  assumes "length sid = SESSION_ID_SIZE"
  shows "obind (frame_decode (frame_encode (mk_frame Data seq (data_encode (data_new sid pid packet)))))
      (\<lambda>f. data_decode (payload f)) = Ok (data_new sid pid packet) \<longleftrightarrow> length packet \<le> 65512"
proof -
  have len: "length (data_encode (data_new sid pid packet)) = 24 + length packet"
    using assms by (simp add: data_encode_def data_new_def constants)
  have small: "data_decode (data_encode (data_new sid pid packet)) = Ok (data_new sid pid packet)"
    if "length packet \<le> 65512"
    using that assms data.decode_Ok_iff [of _ "data_new sid pid packet"]
    by (auto simp: data_valid_def data_new_def constants)
  show ?thesis
  proof
    assume "obind (frame_decode (frame_encode (mk_frame Data seq (data_encode (data_new sid pid packet)))))
      (\<lambda>f. data_decode (payload f)) = Ok (data_new sid pid packet)"
    then obtain f where "length (payload f) \<le> MAX_PAYLOAD_SIZE"
      "frame_encode f = frame_encode (mk_frame Data seq (data_encode (data_new sid pid packet)))"
      by (auto simp: obind_eq_Ok frame_decode_Ok_iff frame_valid_def)
    with len show "length packet \<le> 65512"
      using length_frame_encode [of f]
        length_frame_encode [of "mk_frame Data seq (data_encode (data_new sid pid packet))"]
      by (simp add: constants)
  qed (use len small in \<open>simp add: frame_decode_mk_frame constants\<close>)
qed

theorem data_packet_carried_witness:
  "obind (frame_decode (frame_encode (mk_frame Data 7 (data_encode (data_new (replicate 16 1) 3 [69, 0])))))
      (\<lambda>f. data_decode (payload f)) = Ok (data_new (replicate 16 1) 3 [69, 0])"
  using data_packet_carried [of "replicate 16 1" 7 3 "[69, 0]"] by (simp add: constants)

end
