(* ===== verification/Auth_Token.thy ===== *)
theory Auth_Token
  imports Prelude
begin

text \<open>
  Subscription tokens (\<open>payphone-auth/src/token.rs\<close>): the claims, their
  signed binary form and its parser.  Ed25519 is the parameter
  \<open>ed_sign\<close>/\<open>ed_verify\<close> of the operations that use it.
\<close>

definition TOKEN_MAGIC :: bytes where "TOKEN_MAGIC = [0x50, 0x41, 0x59, 0x54]"
definition TOKEN_VERSION :: u8 where [constants]: "TOKEN_VERSION = 1"
definition TOKEN_ID_SIZE :: nat where [constants]: "TOKEN_ID_SIZE = 16"
definition CLIENT_ID_SIZE :: nat where [constants]: "CLIENT_ID_SIZE = 16"
definition SIGNATURE_SIZE :: nat where [constants]: "SIGNATURE_SIZE = 64"
definition TOKEN_PAYLOAD_SIZE :: nat where [constants]: "TOKEN_PAYLOAD_SIZE = 71"
definition TOKEN_SIZE :: nat where [constants]: "TOKEN_SIZE = TOKEN_PAYLOAD_SIZE + SIGNATURE_SIZE"

lemma length_TOKEN_MAGIC [simp]: "length TOKEN_MAGIC = 4"
  by (simp add: TOKEN_MAGIC_def)

datatype AuthError =
    InvalidTokenLength
  | InvalidMagic
  | UnsupportedTokenVersion u8
  | UnknownPlan u8
  | InvalidSignature
  | UnknownKeyId u32
  | NotYetValid
  | Expired
  | IssuedInFuture
  | Revoked
  | InvalidTimeRange

datatype SubscriptionPlan = Basic | Pro | Unlimited

fun plan_u8 :: "SubscriptionPlan \<Rightarrow> u8" where
  "plan_u8 Basic = 1"
| "plan_u8 Pro = 2"
| "plan_u8 Unlimited = 3"

definition plan_try_from :: "u8 \<Rightarrow> (AuthError, SubscriptionPlan) outcome" where
  "plan_try_from value =
    (if value = 1 then Ok Basic
     else if value = 2 then Ok Pro
     else if value = 3 then Ok Unlimited
     else Err (UnknownPlan value))"

lemma plan_try_from_Ok_iff: "plan_try_from v = Ok p \<longleftrightarrow> v = plan_u8 p"
  by (cases p) (auto simp: plan_try_from_def)

lemma plan_try_from_simps [simp]:
  "plan_try_from v \<noteq> Panic" "plan_try_from (plan_u8 p) = Ok p"
  by (simp_all add: plan_try_from_Ok_iff) (simp add: plan_try_from_def)

record SubscriptionClaims =
  key_id :: u32
  token_id :: bytes
  client_id :: bytes
  issued_at :: u64
  not_before :: u64
  expires_at :: u64
  plan :: SubscriptionPlan
  device_limit :: u8
  max_mbps :: u32

record SubscriptionToken =
  claims :: SubscriptionClaims
  signature :: bytes

definition encode_payload :: "SubscriptionClaims \<Rightarrow> bytes" where
  "encode_payload c =
     TOKEN_MAGIC @ put_u8 TOKEN_VERSION @ put_u32 (key_id c) @ token_id c @ client_id c @
     put_u64 (issued_at c) @ put_u64 (not_before c) @ put_u64 (expires_at c) @
     put_u8 (plan_u8 (plan c)) @ put_u8 (device_limit c) @ put_u32 (max_mbps c)"

definition token_sign :: "('sk \<Rightarrow> bytes \<Rightarrow> bytes) \<Rightarrow> SubscriptionClaims \<Rightarrow> 'sk \<Rightarrow> SubscriptionToken" where
  "token_sign ed_sign c signing_key =
     \<lparr>claims = c, signature = ed_sign signing_key (encode_payload c)\<rparr>"

definition verify_signature ::
  "('vk \<Rightarrow> bytes \<Rightarrow> bytes \<Rightarrow> bool) \<Rightarrow> SubscriptionToken \<Rightarrow> 'vk \<Rightarrow> (AuthError, unit) outcome" where
  "verify_signature ed_verify token verifying_key =
    (if ed_verify verifying_key (encode_payload (claims token)) (signature token) then Ok ()
     else Err InvalidSignature)"

definition token_encode :: "SubscriptionToken \<Rightarrow> bytes" where
  "token_encode token = encode_payload (claims token) @ signature token"

definition token_decode :: "bytes \<Rightarrow> (AuthError, SubscriptionToken) outcome" where
  "token_decode buffer =
    (if length buffer \<noteq> TOKEN_SIZE then Err InvalidTokenLength
     else obind (get_bytes 4 buffer) (\<lambda>(magic, b1).
       if magic \<noteq> TOKEN_MAGIC then Err InvalidMagic
       else obind (get_u8 b1) (\<lambda>(version, b2).
       if version \<noteq> TOKEN_VERSION then Err (UnsupportedTokenVersion version)
       else obind (get_u32 b2) (\<lambda>(kid, b3).
       obind (get_bytes TOKEN_ID_SIZE b3) (\<lambda>(tid, b4).
       obind (get_bytes CLIENT_ID_SIZE b4) (\<lambda>(cid, b5).
       obind (get_u64 b5) (\<lambda>(issued, b6).
       obind (get_u64 b6) (\<lambda>(nbf, b7).
       obind (get_u64 b7) (\<lambda>(expires, b8).
       obind (get_u8 b8) (\<lambda>(plan_byte, b9).
       obind (plan_try_from plan_byte) (\<lambda>pl.
       obind (get_u8 b9) (\<lambda>(devices, b10).
       obind (get_u32 b10) (\<lambda>(mbps, b11).
       obind (get_bytes SIGNATURE_SIZE b11) (\<lambda>(sig, _).
         Ok \<lparr>claims = \<lparr>key_id = kid, token_id = tid, client_id = cid, issued_at = issued,
               not_before = nbf, expires_at = expires, plan = pl, device_limit = devices,
               max_mbps = mbps\<rparr>,
             signature = sig\<rparr>))))))))))))))"

definition claims_valid :: "SubscriptionClaims \<Rightarrow> bool" where
  "claims_valid c \<longleftrightarrow> length (token_id c) = TOKEN_ID_SIZE \<and> length (client_id c) = CLIENT_ID_SIZE"

definition token_valid :: "SubscriptionToken \<Rightarrow> bool" where
  "token_valid t \<longleftrightarrow> claims_valid (claims t) \<and> length (signature t) = SIGNATURE_SIZE"

lemma length_encode_payload: "claims_valid c \<Longrightarrow> length (encode_payload c) = TOKEN_PAYLOAD_SIZE"
  by (simp add: encode_payload_def claims_valid_def constants)

lemma token_decode_encode: "token_valid t \<Longrightarrow> token_decode (token_encode t) = Ok t"
  by (simp add: token_valid_def claims_valid_def token_decode_def token_encode_def
      encode_payload_def constants)

lemma token_decode_Ok: "token_decode b = Ok t \<Longrightarrow> token_valid t \<and> token_encode t = b"
  by (auto simp: token_valid_def claims_valid_def token_decode_def token_encode_def
      encode_payload_def obind_eq_Ok get_iffs plan_try_from_Ok_iff constants split: if_splits)

interpretation token: message_codec "\<lambda>t. Ok (token_encode t)" token_decode token_valid
proof (rule message_codecI)
  show "token_decode b \<noteq> Panic" for b
    by (auto simp: token_decode_def obind_eq_Panic get_panics get_iffs constants split: if_splits)
qed (auto simp: token_decode_encode token_decode_Ok)

text \<open>The signed bytes determine the claims.\<close>

lemma encode_payload_inj:
  assumes "claims_valid c" "claims_valid d" "encode_payload c = encode_payload d"
  shows "c = d"
proof -
  let ?sig = "replicate 64 (0 :: u8)"
  have "token_encode \<lparr>claims = c, signature = ?sig\<rparr> = token_encode \<lparr>claims = d, signature = ?sig\<rparr>"
    using assms(3) by (simp add: token_encode_def)
  then have "\<lparr>claims = c, signature = ?sig\<rparr> = \<lparr>claims = d, signature = ?sig\<rparr>"
    using assms(1,2)
    by (metis token_decode_encode outcome.inject(1) token_valid_def SubscriptionToken.select_convs
        length_replicate SIGNATURE_SIZE_def)
  then show ?thesis by simp
qed

section \<open>Properties\<close>

text \<open>
  A subscription token has one binary form of 135 bytes.  The decoder never
  panics and accepts exactly the encodings of tokens whose identifiers have 16
  bytes and whose signature has 64.
\<close>

theorem token_codec_exact:
  "token_decode b \<noteq> Panic \<and>
   (token_decode b = Ok t \<longleftrightarrow> length (token_id (claims t)) = TOKEN_ID_SIZE \<and>
      length (client_id (claims t)) = CLIENT_ID_SIZE \<and> length (signature t) = SIGNATURE_SIZE \<and>
      b = token_encode t)"
  using token.decode_not_Panic [of b] token.decode_Ok_iff [of b t]
  by (auto simp: token_valid_def claims_valid_def)

text \<open>
  Different claims never share signed bytes, so a signature covers every
  field of the claims it was made for.
\<close>

theorem signed_bytes_injective:
  assumes "claims_valid c" "claims_valid d"
  shows "encode_payload c = encode_payload d \<longleftrightarrow> c = d"
  using assms encode_payload_inj by blast

theorem signed_bytes_injective_witness:
  "encode_payload \<lparr>key_id = 1, token_id = replicate 16 1, client_id = replicate 16 2, issued_at = 10,
      not_before = 10, expires_at = 20, plan = Basic, device_limit = 2, max_mbps = 0\<rparr> \<noteq>
   encode_payload \<lparr>key_id = 1, token_id = replicate 16 1, client_id = replicate 16 2, issued_at = 10,
      not_before = 10, expires_at = 20, plan = Pro, device_limit = 2, max_mbps = 0\<rparr>"
  by (subst signed_bytes_injective) (simp_all add: claims_valid_def constants)

end
