(* ===== verification/Auth_Verifier.thy ===== *)
theory Auth_Verifier
  imports Auth_Token
begin

text \<open>
  Token verification (\<open>payphone-auth/src/keys.rs\<close> and
  \<open>verifier.rs\<close>): the key ring, the two revocation stores behind one
  interface, the revocation file format and \<open>verify_at\<close>.  Text is a list
  of Unicode scalar values.  The state of the file system that one call observes
  (the result of \<open>metadata\<close> and of \<open>read_to_string\<close>) is an
  argument.
\<close>

type_synonym ustr = "nat list"

definition CLOCK_SKEW_SECONDS :: u64 where [constants]: "CLOCK_SKEW_SECONDS = 300"

section \<open>Key ring\<close>

type_synonym 'vk keyring = "u32 \<rightharpoonup> 'vk"

definition keyring_new :: "'vk keyring" where "keyring_new = Map.empty"

definition keyring_insert :: "'vk keyring \<Rightarrow> u32 \<Rightarrow> 'vk \<Rightarrow> 'vk keyring" where
  "keyring_insert keys kid key = keys(kid \<mapsto> key)"

definition keyring_get :: "'vk keyring \<Rightarrow> u32 \<Rightarrow> (AuthError, 'vk) outcome" where
  "keyring_get keys kid =
    (case keys kid of Some key \<Rightarrow> Ok key | None \<Rightarrow> Err (UnknownKeyId kid))"

section \<open>Text of the revocation file\<close>

definition hex_digit :: "nat \<Rightarrow> nat" where
  "hex_digit n = (if n < 10 then 48 + n else 87 + n)"

definition is_ascii_hexdigit :: "nat \<Rightarrow> bool" where
  "is_ascii_hexdigit c \<longleftrightarrow> (48 \<le> c \<and> c \<le> 57) \<or> (65 \<le> c \<and> c \<le> 70) \<or> (97 \<le> c \<and> c \<le> 102)"

definition hex_value :: "nat \<Rightarrow> nat" where
  "hex_value c = (if c \<le> 57 then c - 48 else if c \<le> 70 then c - 55 else c - 87)"

definition token_id_hex :: "bytes \<Rightarrow> ustr" where
  "token_id_hex tid = concat (map (\<lambda>b. [hex_digit (unat b div 16), hex_digit (unat b mod 16)]) tid)"

text \<open>\<open>char::is_whitespace\<close>: the Unicode \<open>White_Space\<close> property.\<close>

definition is_whitespace :: "nat \<Rightarrow> bool" where
  "is_whitespace c \<longleftrightarrow> (9 \<le> c \<and> c \<le> 13) \<or> c = 0x20 \<or> c = 0x85 \<or> c = 0xA0 \<or> c = 0x1680 \<or>
     (0x2000 \<le> c \<and> c \<le> 0x200A) \<or> c = 0x2028 \<or> c = 0x2029 \<or> c = 0x202F \<or> c = 0x205F \<or> c = 0x3000"

definition trim :: "ustr \<Rightarrow> ustr" where
  "trim s = rev (dropWhile is_whitespace (rev (dropWhile is_whitespace s)))"

text \<open>\<open>trim_start_matches("0x")\<close> removes the prefix as often as it occurs.\<close>

fun trim_start_0x :: "ustr \<Rightarrow> ustr" where
  "trim_start_0x (a # b # s) = (if a = 48 \<and> b = 120 then trim_start_0x s else a # b # s)"
| "trim_start_0x s = s"

fun hex_pairs :: "ustr \<Rightarrow> bytes" where
  "hex_pairs (a # b # s) = of_nat (16 * hex_value a + hex_value b) # hex_pairs s"
| "hex_pairs _ = []"

text \<open>
  The source compares the UTF-8 length; a line with a character outside ASCII is
  refused by the digit test in any case, so the character count decides alike.
\<close>

definition parse_token_id_hex :: "ustr \<Rightarrow> bytes option" where
  "parse_token_id_hex line =
    (let hex = trim_start_0x (trim line) in
     if length hex \<noteq> TOKEN_ID_SIZE * 2 \<or> \<not> list_all is_ascii_hexdigit hex then None
     else Some (hex_pairs hex))"

text \<open>\<open>str::lines\<close>: lines end at a line feed, a carriage return before it is
  dropped, and a last line without line feed counts when it is not empty.\<close>

definition strip_cr :: "ustr \<Rightarrow> ustr" where
  "strip_cr l = (if l \<noteq> [] \<and> last l = 13 then butlast l else l)"

fun lines_from :: "ustr \<Rightarrow> ustr \<Rightarrow> ustr list" where
  "lines_from cur [] = (if cur = [] then [] else [cur])"
| "lines_from cur (c # cs) =
     (if c = 10 then strip_cr cur # lines_from [] cs else lines_from (cur @ [c]) cs)"

definition lines :: "ustr \<Rightarrow> ustr list" where "lines text = lines_from [] text"

definition parse_ids :: "ustr \<Rightarrow> bytes set" where
  "parse_ids text = set (List.map_filter parse_token_id_hex (lines text))"

text \<open>\<open>read_to_string\<close> gives the text or fails (\<open>None\<close>).\<close>

definition load_revoked_ids :: "ustr option \<Rightarrow> bytes set" where
  "load_revoked_ids read_result = (case read_result of None \<Rightarrow> {} | Some text \<Rightarrow> parse_ids text)"

text \<open>
  \<open>append_revoked_id\<close>: the text handed to \<open>fs::write\<close>, or that the
  file is left alone, or that its directory cannot be created.
\<close>

datatype AppendResult = AppendDirError | AppendUnchanged | AppendWrite ustr

definition append_revoked_id :: "bool \<Rightarrow> ustr option \<Rightarrow> bytes \<Rightarrow> AppendResult" where
  "append_revoked_id dir_ok read_result tid =
    (if \<not> dir_ok then AppendDirError
     else let hex = token_id_hex tid; existing = load_revoked_ids read_result in
       if tid \<in> existing then AppendUnchanged
       else
         let text0 = (case read_result of None \<Rightarrow> [] | Some t \<Rightarrow> t);
             text1 = (if text0 \<noteq> [] \<and> last text0 \<noteq> 10 then text0 @ [10] else text0)
         in AppendWrite (text1 @ hex @ [10]))"

section \<open>Revocation stores\<close>

type_synonym MemoryRevocationStore = "bytes set"

definition memory_store_new :: MemoryRevocationStore where "memory_store_new = {}"

definition memory_store_revoke :: "MemoryRevocationStore \<Rightarrow> bytes \<Rightarrow> MemoryRevocationStore" where
  "memory_store_revoke store tid = insert tid store"

definition memory_is_revoked :: "MemoryRevocationStore \<Rightarrow> bytes \<Rightarrow> bool \<times> MemoryRevocationStore" where
  "memory_is_revoked store tid = (tid \<in> store, store)"

datatype MetaResult = MetaNotFound | MetaError | MetaModified nat

record FileView =
  fv_meta :: MetaResult
  fv_text :: "ustr option"

record FileRevocationStore =
  cache_mtime :: "nat option"
  cache_ids :: "bytes set"

definition file_store_open :: FileRevocationStore where
  "file_store_open = \<lparr>cache_mtime = None, cache_ids = {}\<rparr>"

definition file_is_revoked ::
  "FileView \<Rightarrow> FileRevocationStore \<Rightarrow> bytes \<Rightarrow> bool \<times> FileRevocationStore" where
  "file_is_revoked fs store tid =
    (case fv_meta fs of
       MetaNotFound \<Rightarrow> (tid \<in> cache_ids store, store)
     | MetaError \<Rightarrow> (True, store)
     | MetaModified m \<Rightarrow>
         (if cache_mtime store \<noteq> Some m then
            (case fv_text fs of
               Some text \<Rightarrow>
                 (let store' = \<lparr>cache_mtime = Some m, cache_ids = parse_ids text\<rparr>
                  in (tid \<in> cache_ids store', store'))
             | None \<Rightarrow> (True, store))
          else (tid \<in> cache_ids store, store)))"

section \<open>The verifier\<close>

record ('vk, 'r) SubscriptionVerifier =
  keys :: "'vk keyring"
  revocations :: 'r

definition verify_session_at ::
  "('r \<Rightarrow> bytes \<Rightarrow> bool \<times> 'r) \<Rightarrow> ('vk, 'r) SubscriptionVerifier \<Rightarrow> bytes \<Rightarrow> u64 \<Rightarrow> u64 \<Rightarrow>
     (AuthError, unit) outcome \<times> ('vk, 'r) SubscriptionVerifier" where
  "verify_session_at is_revoked v tid expires now =
    (if now \<ge> expires then (Err Expired, v)
     else let (revoked, r') = is_revoked (revocations v) tid; v' = v\<lparr>revocations := r'\<rparr> in
       if revoked then (Err Revoked, v') else (Ok (), v'))"

definition verify_at ::
  "('vk \<Rightarrow> bytes \<Rightarrow> bytes \<Rightarrow> bool) \<Rightarrow> ('r \<Rightarrow> bytes \<Rightarrow> bool \<times> 'r) \<Rightarrow> ('vk, 'r) SubscriptionVerifier \<Rightarrow>
     SubscriptionToken \<Rightarrow> u64 \<Rightarrow> (AuthError, SubscriptionClaims) outcome \<times> ('vk, 'r) SubscriptionVerifier" where
  "verify_at ed_verify is_revoked v token now =
    (let c = claims token in
     case obind (keyring_get (keys v) (key_id c)) (\<lambda>vk. verify_signature ed_verify token vk) of
       Err e \<Rightarrow> (Err e, v)
     | Panic \<Rightarrow> (Panic, v)
     | Ok _ \<Rightarrow>
       if expires_at c \<le> not_before c then (Err InvalidTimeRange, v)
       else if issued_at c > sat_add now CLOCK_SKEW_SECONDS then (Err IssuedInFuture, v)
       else if sat_add now CLOCK_SKEW_SECONDS < not_before c then (Err NotYetValid, v)
       else if now \<ge> expires_at c then (Err Expired, v)
       else let (revoked, r') = is_revoked (revocations v) (token_id c);
                v' = v\<lparr>revocations := r'\<rparr> in
         if revoked then (Err Revoked, v') else (Ok c, v'))"

section \<open>Facts about the text format\<close>

lemma hex_value_digit [simp]: "n < 16 \<Longrightarrow> hex_value (hex_digit n) = n"
  by (simp add: hex_value_def hex_digit_def)

lemma hex_digit_props [simp]:
  "n < 16 \<Longrightarrow> is_ascii_hexdigit (hex_digit n)"
  "n < 16 \<Longrightarrow> \<not> is_whitespace (hex_digit n)"
  "n < 16 \<Longrightarrow> hex_digit n \<noteq> 120" "n < 16 \<Longrightarrow> hex_digit n \<noteq> 10"
  by (auto simp: is_ascii_hexdigit_def hex_digit_def is_whitespace_def)

lemma byte_div_16 [simp]: "unat (b :: u8) div 16 < 16"
  using unat_bound [of b] by simp

lemma byte_of_nibbles [simp]: "of_nat (16 * (unat (b :: u8) div 16) + unat b mod 16) = b"
  by (simp add: of_nat_unat)

lemma token_id_hex_Cons:
  "token_id_hex (b # bs) = hex_digit (unat b div 16) # hex_digit (unat b mod 16) # token_id_hex bs"
  by (simp add: token_id_hex_def)

lemma token_id_hex_Nil [simp]: "token_id_hex [] = []"
  by (simp add: token_id_hex_def)

lemma length_token_id_hex [simp]: "length (token_id_hex bs) = 2 * length bs"
  by (induction bs) (simp_all add: token_id_hex_Cons)

lemma token_id_hex_chars:
  "c \<in> set (token_id_hex bs) \<Longrightarrow> is_ascii_hexdigit c \<and> \<not> is_whitespace c \<and> c \<noteq> 120 \<and> c \<noteq> 10"
  by (induction bs) (auto simp: token_id_hex_Cons)

lemma hex_pairs_token_id_hex [simp]: "hex_pairs (token_id_hex bs) = bs"
proof (induction bs)
  case (Cons b bs)
  then show ?case
    using byte_of_nibbles [of b] by (simp add: token_id_hex_Cons)
qed simp

lemma dropWhile_none: "(\<And>x. x \<in> set xs \<Longrightarrow> \<not> P x) \<Longrightarrow> dropWhile P xs = xs"
  by (cases xs) auto

lemma trim_token_id_hex [simp]: "trim (token_id_hex bs) = token_id_hex bs"
  using dropWhile_none [of "token_id_hex bs" is_whitespace]
    dropWhile_none [of "rev (token_id_hex bs)" is_whitespace]
  by (simp add: trim_def token_id_hex_chars)

lemma trim_start_0x_token_id_hex [simp]: "trim_start_0x (token_id_hex bs) = token_id_hex bs"
  by (cases bs) (simp_all add: token_id_hex_Cons)

lemma parse_token_id_hex_print:
  "length bs = TOKEN_ID_SIZE \<Longrightarrow> parse_token_id_hex (token_id_hex bs) = Some bs"
  by (simp add: parse_token_id_hex_def list_all_iff token_id_hex_chars)

lemma length_hex_pairs: "length (hex_pairs s) = length s div 2"
  by (induction s rule: hex_pairs.induct) auto

lemma parse_token_id_hex_length: "parse_token_id_hex l = Some bs \<Longrightarrow> length bs = TOKEN_ID_SIZE"
  by (auto simp: parse_token_id_hex_def Let_def length_hex_pairs split: if_splits)

lemma trim_snoc_ws [simp]: "is_whitespace c \<Longrightarrow> trim (l @ [c]) = trim l"
  by (cases "dropWhile is_whitespace l = []")
    (auto simp: trim_def dropWhile_append dest: set_dropWhileD)

lemma trim_strip_cr [simp]: "trim (strip_cr l) = trim l"
  by (cases l rule: rev_cases) (auto simp: strip_cr_def is_whitespace_def)

lemma parse_strip_cr [simp]: "parse_token_id_hex (strip_cr l) = parse_token_id_hex l"
  by (simp add: parse_token_id_hex_def)

text \<open>Text up to a line feed is split independently of what follows it.\<close>

lemma lines_from_append_nl:
  "lines_from cur (t @ 10 # u) = lines_from cur (t @ [10]) @ lines_from [] u"
  by (induction cur t rule: lines_from.induct) simp_all

lemma lines_from_no_nl: "10 \<notin> set l \<Longrightarrow> lines_from cur (l @ [10]) = [strip_cr (cur @ l)]"
  by (induction l arbitrary: cur) auto

lemma map_filter_append: "List.map_filter f (xs @ ys) = List.map_filter f xs @ List.map_filter f ys"
  by (simp add: List.map_filter_def)

lemma map_filter_simps2:
  "List.map_filter f [] = []"
  "List.map_filter f (x # xs) = (case f x of None \<Rightarrow> List.map_filter f xs | Some y \<Rightarrow> y # List.map_filter f xs)"
  by (simp_all add: List.map_filter_def split: option.splits)

lemma map_filter_lines_add_nl:
  "t \<noteq> [] \<or> cur \<noteq> [] \<Longrightarrow> t = [] \<or> last t \<noteq> 10 \<Longrightarrow>
     List.map_filter parse_token_id_hex (lines_from cur (t @ [10])) =
     List.map_filter parse_token_id_hex (lines_from cur t)"
proof (induction cur t rule: lines_from.induct)
  case (1 cur)
  then show ?case by (simp add: map_filter_simps2)
next
  case (2 cur c cs)
  then show ?case
    by (cases "c = 10"; cases "cs = []") (auto simp: map_filter_simps2 split: option.splits)
qed

lemma parse_ids_append_line:
  assumes "length tid = TOKEN_ID_SIZE"
  shows "parse_ids ((if t \<noteq> [] \<and> last t \<noteq> 10 then t @ [10] else t) @ token_id_hex tid @ [10])
       = insert tid (parse_ids t)"
proof -
  have nl: "lines_from [] (token_id_hex tid @ [10]) = [strip_cr (token_id_hex tid)]"
    using lines_from_no_nl [of "token_id_hex tid" "[]"] token_id_hex_chars by auto
  have id: "parse_token_id_hex (token_id_hex tid) = Some tid"
    using assms by (rule parse_token_id_hex_print)
  consider "t = []" | t' where "t = t' @ [10]" | "t \<noteq> []" "last t \<noteq> 10"
    by (metis append_butlast_last_id)
  then show ?thesis
  proof cases
    case 1
    then show ?thesis by (simp add: parse_ids_def lines_def nl id map_filter_simps2)
  next
    case 2
    then show ?thesis
      by (simp add: parse_ids_def lines_def lines_from_append_nl [of "[]" t' "token_id_hex tid @ [10]"] nl id
          map_filter_append map_filter_simps2)
  next
    case 3
    then show ?thesis
      by (simp add: parse_ids_def lines_def lines_from_append_nl [of "[]" t "token_id_hex tid @ [10]"] nl id
          map_filter_append map_filter_simps2 map_filter_lines_add_nl)
  qed
qed

section \<open>The contract of a revocation store\<close>

text \<open>
  The verifier relies on one thing only: a check answers by a set of denied
  identifiers, and asking does not change that set.  What the set is differs by
  store: for the file store it is everything while the file cannot be read.
\<close>

locale revocation_store =
  fixes is_revoked :: "'r \<Rightarrow> bytes \<Rightarrow> bool \<times> 'r"
    and denied :: "'r \<Rightarrow> bytes set"
  assumes check_iff: "fst (is_revoked r tid) \<longleftrightarrow> tid \<in> denied r"
    and check_stable: "denied (snd (is_revoked r tid)) = denied r"
begin

lemma verify_at_Ok_iff:
  "fst (verify_at ed_verify is_revoked v token now) = Ok c \<longleftrightarrow>
     c = claims token \<and>
     (\<exists>vk. keys v (key_id c) = Some vk \<and> ed_verify vk (encode_payload c) (signature token)) \<and>
     not_before c < expires_at c \<and>
     issued_at c \<le> sat_add now CLOCK_SKEW_SECONDS \<and>
     not_before c \<le> sat_add now CLOCK_SKEW_SECONDS \<and>
     now < expires_at c \<and> token_id c \<notin> denied (revocations v)"
  using check_iff [of "revocations v" "token_id (claims token)"]
  by (auto simp: verify_at_def keyring_get_def verify_signature_def Let_def case_prod_unfold
      not_le not_less split: option.splits)

lemma verify_session_at_Ok_iff:
  "fst (verify_session_at is_revoked v tid expires now) = Ok () \<longleftrightarrow>
     now < expires \<and> tid \<notin> denied (revocations v)"
  using check_iff [of "revocations v" tid]
  by (auto simp: verify_session_at_def Let_def case_prod_unfold)

lemma verify_at_frame:
  "keys (snd (verify_at ed_verify is_revoked v token now)) = keys v"
  "denied (revocations (snd (verify_at ed_verify is_revoked v token now))) = denied (revocations v)"
  using check_stable [of "revocations v" "token_id (claims token)"]
  by (auto simp: verify_at_def keyring_get_def verify_signature_def Let_def case_prod_unfold
      split: option.splits)

end

interpretation memory_store: revocation_store memory_is_revoked "\<lambda>store. store"
  by unfold_locales (simp_all add: memory_is_revoked_def)

definition file_denied :: "FileView \<Rightarrow> FileRevocationStore \<Rightarrow> bytes set" where
  "file_denied fs store =
    (case fv_meta fs of
       MetaNotFound \<Rightarrow> cache_ids store
     | MetaError \<Rightarrow> UNIV
     | MetaModified m \<Rightarrow>
         if cache_mtime store = Some m then cache_ids store
         else (case fv_text fs of Some text \<Rightarrow> parse_ids text | None \<Rightarrow> UNIV))"

interpretation file_store: revocation_store "file_is_revoked fs" "file_denied fs"
  for fs :: FileView
  by unfold_locales
    (auto simp: file_is_revoked_def file_denied_def Let_def split: MetaResult.splits option.splits)

section \<open>Properties\<close>

text \<open>
  With the file-backed revocation store the verifier accepts a token at time
  \<open>now\<close> exactly when its signature verifies under the key of its key id,
  its validity interval is not empty, it was neither issued nor becomes valid
  later than the clock skew allows, it has not expired, and its identifier is
  not denied by the store; it then returns the signed claims.
\<close>

theorem verify_at_accepts_iff:
  "fst (verify_at ed_verify (file_is_revoked fs) v token now) = Ok c \<longleftrightarrow>
     c = claims token \<and>
     (\<exists>vk. keys v (key_id c) = Some vk \<and> ed_verify vk (encode_payload c) (signature token)) \<and>
     not_before c < expires_at c \<and>
     issued_at c \<le> sat_add now CLOCK_SKEW_SECONDS \<and>
     not_before c \<le> sat_add now CLOCK_SKEW_SECONDS \<and>
     now < expires_at c \<and> token_id c \<notin> file_denied fs (revocations v)"
  by (rule file_store.verify_at_Ok_iff)

text \<open>
  C5: nobody can forge or alter a subscription.  If signatures only verify for
  payloads the issuer signed, then whatever bytes a client presents as its
  token, the claims the server accepts are claims the issuer issued.
\<close>

theorem accepted_claims_were_issued:
  assumes unforgeable: "\<forall>kid vk msg sig. keys v kid = Some vk \<and> ed_verify vk msg sig \<longrightarrow>
      msg \<in> encode_payload ` issued"
    and issued: "\<forall>c \<in> issued. claims_valid c"
    and token: "token_decode bytes = Ok token"
    and accepted: "fst (verify_at ed_verify (file_is_revoked fs) v token now) = Ok c"
  shows "c \<in> issued \<and> now < expires_at c"
proof -
  have c: "c = claims token" "now < expires_at c"
    and "\<exists>vk. keys v (key_id c) = Some vk \<and> ed_verify vk (encode_payload c) (signature token)"
    using accepted unfolding file_store.verify_at_Ok_iff by auto
  then obtain d where "d \<in> issued" "encode_payload c = encode_payload d" using unforgeable by blast
  moreover have "claims_valid c" using token_decode_Ok [OF token] c(1) by (simp add: token_valid_def)
  ultimately show ?thesis using encode_payload_inj issued c(2) by metis
qed

theorem accepted_claims_were_issued_witness:
  "\<exists>c t. fst (verify_at (\<lambda>vk msg sig. vk = (5 :: nat) \<and> msg = encode_payload c)
        (file_is_revoked \<lparr>fv_meta = MetaNotFound, fv_text = None\<rparr>)
        \<lparr>keys = [1 \<mapsto> 5], revocations = file_store_open\<rparr> t 15) = Ok c \<and>
     token_decode (token_encode t) = Ok t \<and> c \<in> {c} \<and> 15 < expires_at c"
proof -
  let ?c = "\<lparr>key_id = 1, token_id = replicate 16 1, client_id = replicate 16 2, issued_at = 10, not_before = 10,
    expires_at = 20, plan = Pro, device_limit = 2, max_mbps = 0\<rparr>"
  let ?t = "\<lparr>claims = ?c, signature = replicate 64 0\<rparr>"
  let ?v = "\<lparr>keys = [1 \<mapsto> 5], revocations = file_store_open\<rparr> :: (nat, FileRevocationStore) SubscriptionVerifier"
  let ?ev = "\<lambda>vk msg sig. vk = (5 :: nat) \<and> msg = encode_payload ?c"
  let ?fs = "\<lparr>fv_meta = MetaNotFound, fv_text = None\<rparr>"
  have valid: "claims_valid ?c" by (simp add: claims_valid_def constants)
  then have dec: "token_decode (token_encode ?t) = Ok ?t"
    by (intro token_decode_encode) (simp add: token_valid_def constants)
  have acc: "fst (verify_at ?ev (file_is_revoked ?fs) ?v ?t 15) = Ok ?c"
    by (simp add: file_store.verify_at_Ok_iff file_denied_def file_store_open_def constants sat_add_def)
  have "?c \<in> {?c} \<and> 15 < expires_at ?c"
    using valid by (intro accepted_claims_were_issued [OF _ _ dec acc]) auto
  with dec acc show ?thesis by blast
qed

text \<open>
  The file store fails closed: while the revocation list cannot be inspected,
  or has changed and cannot be read, no token is accepted, whatever its claims.
\<close>

theorem file_store_fails_closed:
  assumes "fv_meta fs = MetaError \<or>
    (\<exists>m. fv_meta fs = MetaModified m \<and> cache_mtime (revocations v) \<noteq> Some m \<and> fv_text fs = None)"
  shows "fst (verify_at ed_verify (file_is_revoked fs) v token now) \<noteq> Ok c"
proof -
  have "file_denied fs (revocations v) = UNIV" using assms by (auto simp: file_denied_def)
  then show ?thesis by (simp add: file_store.verify_at_Ok_iff)
qed

theorem file_store_fails_closed_witness:
  "\<forall>c. fst (verify_at (\<lambda>vk msg sig. True) (file_is_revoked \<lparr>fv_meta = MetaModified 3, fv_text = None\<rparr>)
     \<lparr>keys = [1 \<mapsto> ()], revocations = file_store_open\<rparr>
     \<lparr>claims = \<lparr>key_id = 1, token_id = replicate 16 1, client_id = replicate 16 2, issued_at = 10,
        not_before = 10, expires_at = 20, plan = Pro, device_limit = 2, max_mbps = 0\<rparr>,
      signature = []\<rparr> 15) \<noteq> Ok c"
  by (rule allI, rule file_store_fails_closed) (simp add: file_store_open_def)

text \<open>
  A revocation takes effect.  After the identifier of a token has been
  appended to the revocation list and the server sees the new modification time,
  the identifiers refused are the appended one and those listed before, and the
  cached list answers the same way until the file changes again.
\<close>

theorem revocation_takes_effect:
  assumes "length tid = TOKEN_ID_SIZE"
    and "append_revoked_id True (Some contents) tid = AppendWrite contents'"
    and "fs = \<lparr>fv_meta = MetaModified m, fv_text = Some contents'\<rparr>" "cache_mtime store \<noteq> Some m"
    and "fs' = \<lparr>fv_meta = MetaModified m, fv_text = later\<rparr>"
  shows "(fst (file_is_revoked fs store x) \<longleftrightarrow> x \<in> insert tid (parse_ids contents)) \<and>
    (fst (file_is_revoked fs' (snd (file_is_revoked fs store x)) y) \<longleftrightarrow> y \<in> insert tid (parse_ids contents))"
proof -
  have "contents' = (if contents \<noteq> [] \<and> last contents \<noteq> 10 then contents @ [10] else contents) @ token_id_hex tid @ [10]"
    using assms(2) by (auto simp: append_revoked_id_def Let_def split: if_splits)
  then have "parse_ids contents' = insert tid (parse_ids contents)"
    using parse_ids_append_line [OF assms(1), of contents] by simp
  then show ?thesis using assms(3-5) by (auto simp: file_is_revoked_def)
qed

theorem revocation_takes_effect_witness:
  "\<exists>new. fst (file_is_revoked \<lparr>fv_meta = MetaModified 1, fv_text = Some new\<rparr> file_store_open (replicate 16 7))"
proof -
  have "append_revoked_id True (Some [35, 32, 98]) (replicate 16 7) =
      AppendWrite ([35, 32, 98, 10] @ token_id_hex (replicate 16 7) @ [10])"
    by (simp add: append_revoked_id_def load_revoked_ids_def parse_ids_def lines_def map_filter_simps2
        parse_token_id_hex_def trim_def is_whitespace_def constants)
  from revocation_takes_effect [OF _ this refl _ refl, where m = 1 and store = file_store_open and x = "replicate 16 7"]
  show ?thesis by (auto simp: constants file_store_open_def)
qed

text \<open>
  Appending to a list that cannot be read replaces it: the file then
  holds the new identifier only, and every earlier revocation is lost.
\<close>

theorem append_to_unreadable_list_forgets:
  assumes "length tid = TOKEN_ID_SIZE"
  shows "\<exists>contents'. append_revoked_id True None tid = AppendWrite contents' \<and> parse_ids contents' = {tid}"
  using parse_ids_append_line [OF assms, of "[]"]
  by (simp add: append_revoked_id_def load_revoked_ids_def parse_ids_def lines_def map_filter_simps2)

theorem append_to_unreadable_list_forgets_witness:
  "\<exists>contents'. append_revoked_id True None (replicate 16 9) = AppendWrite contents' \<and>
     parse_ids contents' = {replicate 16 9}"
  by (rule append_to_unreadable_list_forgets) (simp add: constants)

text \<open>
  Printing a token identifier and reading it back gives the identifier, also
  with a \<open>0x\<close> prefix, in upper case, or with white space around it.
\<close>

theorem token_id_text_roundtrip:
  assumes "length tid = TOKEN_ID_SIZE"
  shows "parse_token_id_hex (token_id_hex tid) = Some tid \<and>
    parse_token_id_hex ([48, 120] @ token_id_hex tid) = Some tid \<and>
    (is_whitespace c \<longrightarrow> parse_token_id_hex (token_id_hex tid @ [c]) = Some tid)"
proof -
  have digits: "\<not> is_whitespace 48" "\<not> is_whitespace 120" by (simp_all add: is_whitespace_def)
  have t: "trim ([48, 120] @ token_id_hex tid) = [48, 120] @ token_id_hex tid"
  proof -
    have "rev (token_id_hex tid) @ [120, 48] = dropWhile is_whitespace (rev (token_id_hex tid) @ [120, 48])"
      by (rule dropWhile_none [symmetric]) (use token_id_hex_chars digits in auto)
    then show ?thesis by (simp add: trim_def digits)
  qed
  have h: "parse_token_id_hex (token_id_hex tid) = Some tid" by (rule parse_token_id_hex_print [OF assms])
  moreover have "parse_token_id_hex ([48, 120] @ token_id_hex tid) = parse_token_id_hex (token_id_hex tid)"
    using t unfolding parse_token_id_hex_def by simp
  ultimately show ?thesis by (auto simp: parse_token_id_hex_def)
qed

theorem token_id_text_roundtrip_witness:
  "parse_token_id_hex ([48, 120] @ token_id_hex (replicate 16 171)) = Some (replicate 16 171)"
  using token_id_text_roundtrip [of "replicate 16 171"] by (simp add: constants)

end
