(* ===== verification/Session_Store.thy ===== *)
theory Session_Store
  imports Rate_Limit Messages Auth_Verifier "HOL-Library.AList"
begin

text \<open>
  Server sessions (\<open>payphone-server/src/session.rs\<close>): the session record,
  the client link, the replay window and the binary session store with its
  reader.  A hash map is an association list in iteration order.  The clocks, the
  liveness of transports and the success of file writes are the environment of an
  operation.
\<close>

type_synonym SessionId = bytes

definition NANOS :: nat where [constants]: "NANOS = 1000000000"
definition SESSION_TIMEOUT :: nat where [constants]: "SESSION_TIMEOUT = 300 * NANOS"
definition REKEY_AFTER :: nat where [constants]: "REKEY_AFTER = 3600 * NANOS"
definition SEQUENCE_REORDER_WINDOW :: u64 where [constants]: "SEQUENCE_REORDER_WINDOW = 1024"
definition STORE_MAGIC :: bytes where "STORE_MAGIC = [0x50, 0x41, 0x59, 0x53]"
definition STORE_VERSION :: u8 where [constants]: "STORE_VERSION = 1"
definition STORE_RECORD_SIZE :: nat where [constants]: "STORE_RECORD_SIZE = 206"
definition UNLIMITED_DEVICES :: u8 where [constants]: "UNLIMITED_DEVICES = 255"

lemma length_STORE_MAGIC [simp]: "length STORE_MAGIC = 4"
  by (simp add: STORE_MAGIC_def)

section \<open>Replay window\<close>

text \<open>The verdict and the new value of the atomic \<open>last_sequence\<close>.\<close>

definition accept_sequence :: "u64 \<Rightarrow> u64 \<Rightarrow> bool \<times> u64" where
  "accept_sequence seen incoming =
    (incoming \<ge> seen \<or> seen - incoming < SEQUENCE_REORDER_WINDOW, max seen incoming)"

section \<open>Environment and client links\<close>

text \<open>
  \<open>Instant\<close> counts nanoseconds.  A QUIC connection is known by its
  \<open>stable_id\<close>, a TLS stream by the identifier its task drew, which also
  names its channel.
\<close>

record Env =
  env_instant :: nat
  env_unix_ms :: u64
  env_fs_ok :: bool
  env_quic_open :: "nat \<Rightarrow> bool"
  env_stream_open :: "u64 \<Rightarrow> bool"

datatype ClientLink = Quic nat | Stream u64 | Detached

fun is_live :: "Env \<Rightarrow> ClientLink \<Rightarrow> bool" where
  "is_live env (Quic connection) = env_quic_open env connection"
| "is_live env (Stream stream) = env_stream_open env stream"
| "is_live env Detached = False"

fun matches_quic_stable_id :: "ClientLink \<Rightarrow> nat \<Rightarrow> bool" where
  "matches_quic_stable_id (Quic connection) stable_id = (connection = stable_id)"
| "matches_quic_stable_id (Stream _) stable_id = False"
| "matches_quic_stable_id Detached stable_id = False"

fun matches_stream_id :: "ClientLink \<Rightarrow> u64 \<Rightarrow> bool" where
  "matches_stream_id (Stream stream) stream_id = (stream = stream_id)"
| "matches_stream_id (Quic _) stream_id = False"
| "matches_stream_id Detached stream_id = False"

datatype SocketAddr = V4 bytes u16 | V6 bytes u16 u32 u32

section \<open>Sessions\<close>

record Session =
  s_id :: SessionId
  s_ipv4 :: bytes
  s_client_address :: SocketAddr
  s_link :: ClientLink
  s_capabilities :: u32
  s_last_sequence :: u64
  s_created_at :: nat
  s_last_activity :: nat
  s_last_rekey :: nat
  s_client_nonce :: bytes
  s_server_nonce :: bytes
  s_prev_nonce :: "bytes option"
  s_pending_nonce :: "bytes option"
  s_client_id :: bytes
  s_token_id :: bytes
  s_subscription_expires_at :: u64
  s_plan :: SubscriptionPlan
  s_device_limit :: u8
  s_max_mbps :: u32
  s_rate :: RateLimit

definition record_activity :: "Env \<Rightarrow> Session \<Rightarrow> Session" where
  "record_activity env s = s\<lparr>s_last_activity := env_instant env\<rparr>"

definition access_error ::
  "('r \<Rightarrow> bytes \<Rightarrow> bool \<times> 'r) \<Rightarrow> Env \<Rightarrow> ('vk, 'r) SubscriptionVerifier \<Rightarrow> Session \<Rightarrow>
     DenyReason option \<times> ('vk, 'r) SubscriptionVerifier" where
  "access_error is_revoked env v s =
    (let (res, v') = verify_session_at is_revoked v (s_token_id s) (s_subscription_expires_at s)
                       (env_unix_ms env div 1000)
     in (case res of
           Ok _ \<Rightarrow> None
         | Err Expired \<Rightarrow> Some SubscriptionExpired
         | _ \<Rightarrow> Some TokenRevoked, v'))"

record SessionManager =
  sessions :: "(SessionId \<times> Session) list"
  store_path :: "string option"
  store_file :: "bytes option"

definition session_manager_new :: SessionManager where
  "session_manager_new = \<lparr>sessions = [], store_path = None, store_file = None\<rparr>"

abbreviation session_values :: "SessionManager \<Rightarrow> Session list" where
  "session_values m \<equiv> map snd (sessions m)"

section \<open>The session store\<close>

datatype StoreError = StoreTooShort | BadMagic | UnsupportedStoreVersion | TruncatedStore | BadPlan

definition optional_nonce_bytes :: "bytes option \<Rightarrow> bytes" where
  "optional_nonce_bytes nonce =
    (case nonce of Some n \<Rightarrow> n | None \<Rightarrow> replicate SERVER_NONCE_SIZE 0)"

definition nonce_from_bytes :: "bytes \<Rightarrow> bytes option" where
  "nonce_from_bytes nonce = (if list_all (\<lambda>byte. byte = 0) nonce then None else Some nonce)"

definition encode_record :: "Session \<Rightarrow> bytes" where
  "encode_record s =
     s_id s @ s_ipv4 s @ put_u32 (s_capabilities s) @ put_u64 (s_last_sequence s) @
     s_client_nonce s @ s_server_nonce s @
     optional_nonce_bytes (s_prev_nonce s) @ optional_nonce_bytes (s_pending_nonce s) @
     s_client_id s @ s_token_id s @ put_u64 (s_subscription_expires_at s) @
     put_u8 (plan_u8 (s_plan s)) @ put_u8 (s_device_limit s) @ put_u32 (s_max_mbps s)"

definition encode_store :: "SessionManager \<Rightarrow> bytes" where
  "encode_store m =
     STORE_MAGIC @ put_u8 STORE_VERSION @ put_u32 (of_nat (length (sessions m))) @
     concat (map encode_record (session_values m))"

definition decode_record :: "Env \<Rightarrow> bytes \<Rightarrow> (StoreError, Session \<times> bytes) outcome" where
  "decode_record env b0 =
    (let now = env_instant env in
     obind (get_bytes SESSION_ID_SIZE b0) (\<lambda>(sid, b1).
     obind (get_bytes 4 b1) (\<lambda>(ipv4, b2).
     obind (get_u32 b2) (\<lambda>(capabilities, b3).
     obind (get_u64 b3) (\<lambda>(last_sequence, b4).
     obind (get_bytes 32 b4) (\<lambda>(client_nonce, b5).
     obind (get_bytes SERVER_NONCE_SIZE b5) (\<lambda>(server_nonce, b6).
     obind (get_bytes SERVER_NONCE_SIZE b6) (\<lambda>(prev, b7).
     obind (get_bytes SERVER_NONCE_SIZE b7) (\<lambda>(pending, b8).
     obind (get_bytes CLIENT_ID_SIZE b8) (\<lambda>(client, b9).
     obind (get_bytes TOKEN_ID_SIZE b9) (\<lambda>(token, b10).
     obind (get_u64 b10) (\<lambda>(expires, b11).
     obind (get_u8 b11) (\<lambda>(plan_byte, b12).
     obind (map_err (\<lambda>_. BadPlan) (plan_try_from plan_byte)) (\<lambda>pl.
     obind (get_u8 b12) (\<lambda>(devices, b13).
     obind (get_u32 b13) (\<lambda>(mbps, b14).
       Ok (\<lparr>s_id = sid, s_ipv4 = ipv4, s_client_address = V4 [0, 0, 0, 0] 0,
            s_link = Detached, s_capabilities = capabilities, s_last_sequence = last_sequence,
            s_created_at = now, s_last_activity = now, s_last_rekey = now,
            s_client_nonce = client_nonce, s_server_nonce = server_nonce,
            s_prev_nonce = nonce_from_bytes prev, s_pending_nonce = nonce_from_bytes pending,
            s_client_id = client, s_token_id = token, s_subscription_expires_at = expires,
            s_plan = pl, s_device_limit = devices, s_max_mbps = mbps,
            s_rate = rate_limit_new mbps (env_unix_ms env)\<rparr>, b14)))))))))))))))))"

text \<open>The loop over \<open>count\<close> records, inserting each into the map.\<close>

fun decode_records ::
  "Env \<Rightarrow> nat \<Rightarrow> bytes \<Rightarrow> (SessionId \<times> Session) list \<Rightarrow>
     (StoreError, (SessionId \<times> Session) list) outcome" where
  "decode_records env 0 buffer acc = Ok acc"
| "decode_records env (Suc n) buffer acc =
     obind (decode_record env buffer) (\<lambda>(s, rest).
       decode_records env n rest (AList.update (s_id s) s acc))"

definition decode_store :: "Env \<Rightarrow> bytes \<Rightarrow> (StoreError, SessionManager) outcome" where
  "decode_store env buffer =
    (if length buffer < 9 then Err StoreTooShort
     else obind (get_bytes 4 buffer) (\<lambda>(magic, b1).
       if magic \<noteq> STORE_MAGIC then Err BadMagic
       else obind (get_u8 b1) (\<lambda>(version, b2).
       if version \<noteq> STORE_VERSION then Err UnsupportedStoreVersion
       else obind (get_u32 b2) (\<lambda>(count_word, b3).
       let count = unat count_word in
       if length b3 \<noteq> count * STORE_RECORD_SIZE then Err TruncatedStore
       else obind (decode_records env count b3 []) (\<lambda>loaded.
         Ok \<lparr>sessions = loaded, store_path = None, store_file = None\<rparr>)))))"

text \<open>
  \<open>persist\<close> writes a temporary file and renames it over the store; when
  either call fails the old file stays.
\<close>

definition persist :: "Env \<Rightarrow> SessionManager \<Rightarrow> SessionManager" where
  "persist env m =
    (case store_path m of
       None \<Rightarrow> m
     | Some path \<Rightarrow>
         if env_fs_ok env then m\<lparr>store_file := Some (encode_store m)\<rparr> else m)"

datatype StoreRead = StoreBytes bytes | StoreNotFound | StoreUnreadable

definition with_store :: "Env \<Rightarrow> string \<Rightarrow> StoreRead \<Rightarrow> SessionManager" where
  "with_store env path read_result =
    (let manager =
       (case read_result of
          StoreBytes bytes \<Rightarrow>
            (case decode_store env bytes of
               Ok loaded \<Rightarrow> loaded
             | Err error \<Rightarrow> session_manager_new
             | Panic \<Rightarrow> session_manager_new)
        | StoreNotFound \<Rightarrow> session_manager_new
        | StoreUnreadable \<Rightarrow> session_manager_new)
     in manager\<lparr>store_path := Some path,
          store_file := (case read_result of StoreBytes b \<Rightarrow> Some b | _ \<Rightarrow> None)\<rparr>)"

section \<open>Well-formed sessions and the store round trip\<close>

definition nonce_ok :: "bytes option \<Rightarrow> bool" where
  "nonce_ok n = (case n of None \<Rightarrow> True | Some b \<Rightarrow> length b = SERVER_NONCE_SIZE)"

definition session_wf :: "Session \<Rightarrow> bool" where
  "session_wf s \<longleftrightarrow> length (s_id s) = SESSION_ID_SIZE \<and> length (s_ipv4 s) = 4 \<and>
     length (s_client_nonce s) = 32 \<and> length (s_server_nonce s) = SERVER_NONCE_SIZE \<and>
     nonce_ok (s_prev_nonce s) \<and> nonce_ok (s_pending_nonce s) \<and>
     length (s_client_id s) = CLIENT_ID_SIZE \<and> length (s_token_id s) = TOKEN_ID_SIZE \<and>
     rl_max_mbps (s_rate s) = s_max_mbps s \<and> rate_wf (s_rate s)"

text \<open>What a restart keeps of a session.\<close>

definition restored :: "Env \<Rightarrow> Session \<Rightarrow> Session" where
  "restored env s =
     s\<lparr>s_client_address := V4 [0, 0, 0, 0] 0, s_link := Detached,
       s_created_at := env_instant env, s_last_activity := env_instant env,
       s_last_rekey := env_instant env,
       s_prev_nonce := nonce_from_bytes (optional_nonce_bytes (s_prev_nonce s)),
       s_pending_nonce := nonce_from_bytes (optional_nonce_bytes (s_pending_nonce s)),
       s_rate := rate_limit_new (s_max_mbps s) (env_unix_ms env)\<rparr>"

lemma length_optional_nonce [simp]:
  "nonce_ok n \<Longrightarrow> length (optional_nonce_bytes n) = SERVER_NONCE_SIZE"
  by (auto simp: nonce_ok_def optional_nonce_bytes_def split: option.splits)

lemma length_encode_record: "session_wf s \<Longrightarrow> length (encode_record s) = STORE_RECORD_SIZE"
  by (simp add: session_wf_def encode_record_def constants)

lemma decode_encode_record:
  assumes "session_wf s"
  shows "decode_record env (encode_record s @ rest) = Ok (restored env s, rest)"
  using assms
  by (simp add: session_wf_def decode_record_def encode_record_def restored_def Let_def constants)

lemma update_fresh: "k \<notin> fst ` set al \<Longrightarrow> AList.update k v al = al @ [(k, v)]"
  by (induction al) auto

definition table_wf :: "(SessionId \<times> Session) list \<Rightarrow> bool" where
  "table_wf tab \<longleftrightarrow> distinct (map fst tab) \<and> (\<forall>(k, s) \<in> set tab. k = s_id s \<and> session_wf s)"

lemma table_wf_Cons:
  "table_wf ((k, s) # tab) \<longleftrightarrow> k = s_id s \<and> session_wf s \<and> k \<notin> fst ` set tab \<and> table_wf tab"
  by (auto simp: table_wf_def)

lemma restored_id [simp]: "s_id (restored env s) = s_id s"
  by (simp add: restored_def)

lemma decode_records_encode:
  assumes "table_wf tab" and "fst ` set acc \<inter> fst ` set tab = {}"
  shows "decode_records env (length tab) (concat (map encode_record (map snd tab)) @ rest) acc
       = Ok (acc @ map (\<lambda>(k, s). (k, restored env s)) tab)"
  using assms
proof (induction tab arbitrary: acc)
  case Nil
  then show ?case by simp
next
  case (Cons entry tab)
  obtain k s where entry: "entry = (k, s)" by force
  with Cons.prems have wf: "k = s_id s" "session_wf s" "k \<notin> fst ` set tab" "table_wf tab"
    by (auto simp: table_wf_Cons)
  have fresh: "AList.update k (restored env s) acc = acc @ [(k, restored env s)]"
    using Cons.prems entry by (intro update_fresh) auto
  show ?case
    using Cons.IH [of "acc @ [(k, restored env s)]"] Cons.prems wf fresh entry
    by (simp add: decode_encode_record)
qed

lemma length_records:
  "table_wf tab \<Longrightarrow> length (concat (map encode_record (map snd tab))) = length tab * STORE_RECORD_SIZE"
  by (induction tab) (auto simp: table_wf_Cons length_encode_record)

lemma decode_encode_store:
  assumes "table_wf (sessions m)" "length (sessions m) < 2 ^ 32"
  shows "decode_store env (encode_store m) =
    Ok \<lparr>sessions = map (\<lambda>(k, s). (k, restored env s)) (sessions m),
        store_path = None, store_file = None\<rparr>"
  using assms length_records [OF assms(1)] decode_records_encode [OF assms(1), of "[]" env "[]"]
  by (simp add: decode_store_def encode_store_def STORE_VERSION_def Let_def unat_of_nat
      take_bit_nat_eq_self)

lemma decode_record_rest:
  "decode_record env b = Ok (s, rest) \<Longrightarrow> length b = STORE_RECORD_SIZE + length rest"
  by (auto simp: decode_record_def Let_def obind_eq_Ok get_iffs constants)

lemma decode_record_not_Panic:
  assumes "STORE_RECORD_SIZE \<le> length b"
  shows "decode_record env b \<noteq> Panic"
proof -
  have "map_err (\<lambda>_. BadPlan) (plan_try_from p) \<noteq> Panic" for p
    using plan_try_from_simps(1) [of p] by (cases "plan_try_from p") auto
  then show ?thesis
    using assms
    by (auto simp: decode_record_def Let_def obind_eq_Panic get_iffs get_panics constants)
qed

lemma decode_records_not_Panic:
  "n * STORE_RECORD_SIZE \<le> length b \<Longrightarrow> decode_records env n b acc \<noteq> Panic"
proof (induction n arbitrary: b acc)
  case (Suc n)
  then show ?case
    using decode_record_not_Panic [of b env]
    by (auto simp: obind_eq_Panic dest!: decode_record_rest)
qed simp

lemma decode_store_not_Panic: "decode_store env b \<noteq> Panic"
  using decode_records_not_Panic
  by (auto simp: decode_store_def obind_eq_Panic get_iffs get_panics Let_def split: if_splits)

text \<open>Whatever the store file holds, the loaded table has one entry per identifier.\<close>

lemma nonce_ok_from_bytes [simp]: "length b = SERVER_NONCE_SIZE \<Longrightarrow> nonce_ok (nonce_from_bytes b)"
  by (simp add: nonce_ok_def nonce_from_bytes_def)

lemma rate_limit_new_mbps [simp]: "rl_max_mbps (rate_limit_new m now) = m"
  by (simp add: rate_limit_new_def)

lemma decode_record_wf: "decode_record env b = Ok (s, rest) \<Longrightarrow> session_wf s"
  by (auto simp: decode_record_def Let_def obind_eq_Ok get_iffs session_wf_def)

lemma table_wf_update:
  assumes "table_wf tab" "k = s_id s" "session_wf s"
  shows "table_wf (AList.update k s tab)"
proof -
  have "set (AList.update k s tab) \<subseteq> insert (k, s) (set tab)"
    by (induction tab) auto
  then show ?thesis
    using assms by (auto simp: table_wf_def distinct_update)
qed

lemma decode_records_wf:
  "table_wf acc \<Longrightarrow> decode_records env n b acc = Ok tab \<Longrightarrow> table_wf tab"
proof (induction n arbitrary: b acc)
  case (Suc n)
  from Suc.prems(2) obtain s rest where
    "decode_record env b = Ok (s, rest)"
    "decode_records env n rest (AList.update (s_id s) s acc) = Ok tab"
    by (auto simp: obind_eq_Ok)
  with Suc show ?case
    by (metis decode_record_wf table_wf_update)
qed simp

section \<open>Properties\<close>


lemma table_wf_Nil: "table_wf []"
  by (simp add: table_wf_def)

text \<open>
  Whatever bytes the session store holds, loading it does not panic and gives a
  table whose keys are distinct and agree with the session identifiers, whose
  nonces and identifiers have their sizes and whose rate limiters are within their burst.
\<close>

theorem any_store_loads_well_formed:
  "decode_store env bytes \<noteq> Panic \<and> table_wf (sessions (with_store env path (StoreBytes bytes)))"
proof -
  have "table_wf (sessions m)" if "decode_store env bytes = Ok m" for m
    using that decode_records_wf [OF table_wf_Nil]
    by (auto simp: decode_store_def obind_eq_Ok Let_def split: if_splits)
  then show ?thesis
    using decode_store_not_Panic [of env bytes]
    by (cases "decode_store env bytes") (simp_all add: with_store_def session_manager_new_def table_wf_def)
qed

end
