(* ===== verification/Session_Manager.thy ===== *)
theory Session_Manager
  imports Session_Store
begin

text \<open>
  The operations of \<open>SessionManager\<close>
  (\<open>payphone-server/src/session.rs\<close>): creation with the device limit and
  address allocation, resumption, token rotation, keepalive, removal, detaching
  and the periodic sweeps; the invariant of the session table and its
  preservation.  Random identifiers and nonces are arguments.
\<close>

section \<open>Lookup and removal\<close>

definition get :: "SessionManager \<Rightarrow> SessionId \<Rightarrow> Session option" where
  "get m sid = map_of (sessions m) sid"

text \<open>\<open>get_mut\<close> followed by an assignment replaces the entry in place.\<close>

definition put :: "SessionManager \<Rightarrow> SessionId \<Rightarrow> Session \<Rightarrow> SessionManager" where
  "put m sid s = m\<lparr>sessions := AList.update sid s (sessions m)\<rparr>"

definition remove :: "Env \<Rightarrow> SessionManager \<Rightarrow> SessionId \<Rightarrow> Session option \<times> SessionManager" where
  "remove env m sid =
    (let session = map_of (sessions m) sid;
         m' = m\<lparr>sessions := AList.delete sid (sessions m)\<rparr>
     in (session, if session \<noteq> None then persist env m' else m'))"

definition detach_where :: "(ClientLink \<Rightarrow> bool) \<Rightarrow> SessionManager \<Rightarrow> nat \<times> SessionManager" where
  "detach_where p m =
    (length (filter (\<lambda>s. p (s_link s)) (session_values m)),
     m\<lparr>sessions := map (\<lambda>(k, s). (k, if p (s_link s) then s\<lparr>s_link := Detached\<rparr> else s)) (sessions m)\<rparr>)"

definition detach_by_stable_id :: "SessionManager \<Rightarrow> nat \<Rightarrow> nat \<times> SessionManager" where
  "detach_by_stable_id m stable_id = detach_where (\<lambda>l. matches_quic_stable_id l stable_id) m"

definition detach_by_stream_id :: "SessionManager \<Rightarrow> u64 \<Rightarrow> nat \<times> SessionManager" where
  "detach_by_stream_id m stream_id = detach_where (\<lambda>l. matches_stream_id l stream_id) m"

definition find_by_ipv4 :: "Env \<Rightarrow> SessionManager \<Rightarrow> bytes \<Rightarrow> Session option" where
  "find_by_ipv4 env m ipv4 =
     find (\<lambda>s. s_ipv4 s = ipv4 \<and> is_live env (s_link s)) (session_values m)"

section \<open>Sweeps\<close>

fun collect_invalid ::
  "('r \<Rightarrow> bytes \<Rightarrow> bool \<times> 'r) \<Rightarrow> Env \<Rightarrow> ('vk, 'r) SubscriptionVerifier \<Rightarrow> Session list \<Rightarrow>
     (SessionId \<times> DenyReason) list \<times> ('vk, 'r) SubscriptionVerifier" where
  "collect_invalid is_revoked env v [] = ([], v)"
| "collect_invalid is_revoked env v (s # ss) =
    (let (err, v1) = access_error is_revoked env v s;
         (found, v2) = collect_invalid is_revoked env v1 ss
     in (case err of Some reason \<Rightarrow> (s_id s, reason) # found | None \<Rightarrow> found, v2))"

fun remove_ids ::
  "(SessionId \<times> DenyReason) list \<Rightarrow> (SessionId \<times> Session) list \<Rightarrow>
     (Session \<times> DenyReason) list \<times> (SessionId \<times> Session) list" where
  "remove_ids [] tab = ([], tab)"
| "remove_ids ((sid, reason) # later) tab =
    (case map_of tab sid of
       Some s \<Rightarrow> let (removed, tab') = remove_ids later (AList.delete sid tab)
                 in ((s, reason) # removed, tab')
     | None \<Rightarrow> remove_ids later tab)"

definition remove_invalid ::
  "('r \<Rightarrow> bytes \<Rightarrow> bool \<times> 'r) \<Rightarrow> Env \<Rightarrow> ('vk, 'r) SubscriptionVerifier \<Rightarrow> SessionManager \<Rightarrow>
     (Session \<times> DenyReason) list \<times> SessionManager \<times> ('vk, 'r) SubscriptionVerifier" where
  "remove_invalid is_revoked env v m =
    (let (invalid, v') = collect_invalid is_revoked env v (session_values m);
         (removed, tab) = remove_ids invalid (sessions m);
         m' = m\<lparr>sessions := tab\<rparr>
     in (removed, if removed \<noteq> [] then persist env m' else m', v'))"

definition remove_expired :: "Env \<Rightarrow> SessionManager \<Rightarrow> nat \<times> SessionManager" where
  "remove_expired env m =
    (let before = length (sessions m);
         tab = filter (\<lambda>(k, s). env_instant env - s_last_activity s < SESSION_TIMEOUT) (sessions m);
         m' = m\<lparr>sessions := tab\<rparr>;
         removed = before - length tab
     in (removed, if removed > 0 then persist env m' else m'))"

section \<open>Device limit\<close>

record KickedSession =
  kicked_id :: SessionId
  kicked_link :: ClientLink

definition client_session_count :: "SessionManager \<Rightarrow> bytes \<Rightarrow> nat" where
  "client_session_count m client =
     length (filter (\<lambda>s. s_client_id s = client) (session_values m))"

fun replace_older :: "(nat \<times> SessionId) option \<Rightarrow> nat \<Rightarrow> SessionId \<Rightarrow> (nat \<times> SessionId) option" where
  "replace_older (Some (oldest, oid)) activity sid =
     (if activity \<ge> oldest then Some (oldest, oid) else Some (activity, sid))"
| "replace_older None activity sid = Some (activity, sid)"

fun oldest_scan ::
  "Env \<Rightarrow> bytes \<Rightarrow> Session list \<Rightarrow> (nat \<times> SessionId) option \<times> (nat \<times> SessionId) option \<Rightarrow>
     (nat \<times> SessionId) option \<times> (nat \<times> SessionId) option" where
  "oldest_scan env client [] slots = slots"
| "oldest_scan env client (s # ss) (detached, live) =
    (if s_client_id s \<noteq> client then oldest_scan env client ss (detached, live)
     else if \<not> is_live env (s_link s)
     then oldest_scan env client ss (replace_older detached (s_last_activity s) (s_id s), live)
     else oldest_scan env client ss (detached, replace_older live (s_last_activity s) (s_id s)))"

definition kick_oldest :: "Env \<Rightarrow> SessionManager \<Rightarrow> bytes \<Rightarrow> (KickedSession \<times> SessionManager) option" where
  "kick_oldest env m client =
    (let (detached, live) = oldest_scan env client (session_values m) (None, None) in
     case (case detached of Some x \<Rightarrow> Some x | None \<Rightarrow> live) of
       None \<Rightarrow> None
     | Some (_, sid) \<Rightarrow>
         (case map_of (sessions m) sid of
            None \<Rightarrow> None
          | Some s \<Rightarrow> Some (\<lparr>kicked_id = s_id s, kicked_link = s_link s\<rparr>,
                            m\<lparr>sessions := AList.delete sid (sessions m)\<rparr>)))"

lemma length_delete_less: "map_of al k = Some v \<Longrightarrow> length (AList.delete k al) < length al"
  by (induction al) (auto simp: le_imp_less_Suc length_delete_le split: if_splits)

lemma kick_oldest_shrinks: "kick_oldest env m client = Some (k, m') \<Longrightarrow> length (sessions m') < length (sessions m)"
  by (auto simp: kick_oldest_def case_prod_unfold Let_def length_delete_less split: option.splits)

function enforce_loop ::
  "Env \<Rightarrow> bytes \<Rightarrow> nat \<Rightarrow> SessionManager \<Rightarrow> KickedSession list \<times> SessionManager" where
  "enforce_loop env client limit m =
    (if client_session_count m client \<ge> limit then
       (case kick_oldest env m client of
          Some (kicked, m') \<Rightarrow> (let (more, m'') = enforce_loop env client limit m' in (kicked # more, m''))
        | None \<Rightarrow> ([], m))
     else ([], m))"
  by pat_completeness auto
termination
  by (relation "measure (\<lambda>(env, client, limit, m). length (sessions m))")
    (auto dest: kick_oldest_shrinks)

declare enforce_loop.simps [simp del]

definition enforce_device_limit ::
  "Env \<Rightarrow> SubscriptionClaims \<Rightarrow> SessionManager \<Rightarrow> KickedSession list \<times> SessionManager" where
  "enforce_device_limit env subscription m =
    (if device_limit subscription = UNLIMITED_DEVICES then ([], m)
     else enforce_loop env (client_id subscription) (unat (max (device_limit subscription) 1)) m)"

section \<open>Addresses and creation\<close>

definition allocate_ipv4 :: "SessionManager \<Rightarrow> bytes option" where
  "allocate_ipv4 m =
    (let used = (\<lambda>host. list_ex (\<lambda>s. s_ipv4 s ! 3 = host) (session_values m)) in
     map_option (\<lambda>host. [10, 77, 0, host])
       (find (\<lambda>host. \<not> used host) (map of_nat [2..<255])))"

datatype CreateSessionError = NoAddresses

definition create_session ::
  "Env \<Rightarrow> SessionManager \<Rightarrow> SocketAddr \<Rightarrow> ClientLink \<Rightarrow> u32 \<Rightarrow> bytes \<Rightarrow> u64 \<Rightarrow> u16 \<Rightarrow> SubscriptionClaims \<Rightarrow>
     bytes \<Rightarrow> bytes \<Rightarrow>
     (CreateSessionError, AllGoodDude \<times> KickedSession list) outcome \<times> SessionManager" where
  "create_session env m address link capabilities client_nonce last_seq mtu subscription
      random_id random_nonce =
    (let (kicked, m1) = enforce_device_limit env subscription m in
     case allocate_ipv4 m1 of
       None \<Rightarrow> (Err NoAddresses, m1)
     | Some ipv4 \<Rightarrow>
         let response = all_good_dude_new ipv4 mtu capabilities random_id random_nonce;
             now = env_instant env;
             session = \<lparr>s_id = agd_session_id response, s_ipv4 = ipv4, s_client_address = address,
               s_link = link, s_capabilities = capabilities, s_last_sequence = last_seq,
               s_created_at = now, s_last_activity = now, s_last_rekey = now,
               s_client_nonce = client_nonce, s_server_nonce = agd_server_nonce response,
               s_prev_nonce = None, s_pending_nonce = None,
               s_client_id = client_id subscription, s_token_id = token_id subscription,
               s_subscription_expires_at = expires_at subscription, s_plan = plan subscription,
               s_device_limit = device_limit subscription, s_max_mbps = max_mbps subscription,
               s_rate = rate_limit_new (max_mbps subscription) (env_unix_ms env)\<rparr>
         in (Ok (response, kicked), persist env (put m1 (s_id session) session)))"

section \<open>Resumption and token rotation\<close>

definition resume_session ::
  "Env \<Rightarrow> SessionManager \<Rightarrow> SessionId \<Rightarrow> bytes \<Rightarrow> SocketAddr \<Rightarrow> ClientLink \<Rightarrow> u64 \<Rightarrow> u16 \<Rightarrow>
     StillGoodDude option \<times> SessionManager" where
  "resume_session env m sid resume_token address link seq mtu =
    (case get m sid of
       None \<Rightarrow> (None, m)
     | Some s \<Rightarrow>
         let matches_current = (s_server_nonce s = resume_token);
             matches_prev = (s_prev_nonce s = Some resume_token);
             matches_pending = (s_pending_nonce s = Some resume_token)
         in
         if \<not> matches_current \<and> \<not> matches_prev \<and> \<not> matches_pending then (None, m)
         else
           let s1 = (if matches_pending then
                       s\<lparr>s_prev_nonce := Some (s_server_nonce s), s_server_nonce := resume_token,
                         s_pending_nonce := None\<rparr>
                     else if matches_current then s\<lparr>s_prev_nonce := None, s_pending_nonce := None\<rparr>
                     else s);
               s2 = record_activity env
                      (s1\<lparr>s_client_address := address, s_link := link, s_last_sequence := seq\<rparr>);
               still_good = still_good_dude_new (s_id s2) (s_ipv4 s2) mtu (s_capabilities s2)
           in (Some still_good, persist env (put m sid s2)))"

definition rekey_offer ::
  "Env \<Rightarrow> SessionManager \<Rightarrow> SessionId \<Rightarrow> SocketAddr \<Rightarrow> bytes \<Rightarrow> bytes option \<times> SessionManager" where
  "rekey_offer env m sid address random_nonce =
    (case get m sid of
       None \<Rightarrow> (None, m)
     | Some s \<Rightarrow>
         if s_client_address s \<noteq> address then (None, m)
         else if s_pending_nonce s = None then
           (Some random_nonce, persist env (put m sid (s\<lparr>s_pending_nonce := Some random_nonce\<rparr>)))
         else (s_pending_nonce s, m))"

definition rekey_confirm ::
  "Env \<Rightarrow> SessionManager \<Rightarrow> SessionId \<Rightarrow> bytes \<Rightarrow> SocketAddr \<Rightarrow> bytes option \<times> SessionManager" where
  "rekey_confirm env m sid nonce address =
    (case get m sid of
       None \<Rightarrow> (None, m)
     | Some s \<Rightarrow>
         if s_client_address s \<noteq> address then (None, m)
         else if s_pending_nonce s = Some nonce then
           let s' = s\<lparr>s_prev_nonce := Some (s_server_nonce s), s_server_nonce := nonce,
                      s_pending_nonce := None, s_last_rekey := env_instant env\<rparr>
           in (Some (s_server_nonce s'), persist env (put m sid s'))
         else (None, m))"

text \<open>\<open>None\<close>: unknown session, foreign address or stale sequence; otherwise
  the token to offer, if any.\<close>

definition touch_session ::
  "Env \<Rightarrow> SessionManager \<Rightarrow> SessionId \<Rightarrow> SocketAddr \<Rightarrow> u64 \<Rightarrow> bytes \<Rightarrow>
     bytes option option \<times> SessionManager" where
  "touch_session env m sid address seq random_nonce =
    (case get m sid of
       None \<Rightarrow> (None, m)
     | Some s \<Rightarrow>
         if s_client_address s \<noteq> address then (None, m)
         else
           let (accepted, seen) = accept_sequence (s_last_sequence s) seq;
               s1 = s\<lparr>s_last_sequence := seen\<rparr>
           in if \<not> accepted then (None, put m sid s1)
           else
             let s2 = record_activity env s1 in
             if s_pending_nonce s2 \<noteq> None then (Some (s_pending_nonce s2), put m sid s2)
             else if env_instant env - s_last_rekey s2 \<ge> REKEY_AFTER then
               (Some (Some random_nonce),
                persist env (put m sid (s2\<lparr>s_pending_nonce := Some random_nonce\<rparr>)))
             else (Some None, put m sid s2))"

end
