(* ===== verification/Session_Invariant.thy ===== *)
theory Session_Invariant
  imports Session_Manager
begin

text \<open>
  The invariant of the session table and its preservation by every operation of
  \<open>SessionManager\<close>: identifiers are unique and agree with their entries,
  every session owns a distinct address of the pool 10.77.0.2 to 10.77.0.254, and
  every record is well formed.  Then what creation, eviction and address
  allocation return.
\<close>

definition vpn_addr :: "bytes \<Rightarrow> bool" where
  "vpn_addr ip \<longleftrightarrow> length ip = 4 \<and> take 3 ip = [10, 77, 0] \<and> 2 \<le> ip ! 3 \<and> ip ! 3 \<le> 254"

definition table_inv :: "(SessionId \<times> Session) list \<Rightarrow> bool" where
  "table_inv tab \<longleftrightarrow> table_wf tab \<and> (\<forall>(k, s) \<in> set tab. vpn_addr (s_ipv4 s)) \<and>
     distinct (map (s_ipv4 \<circ> snd) tab)"

definition mgr_inv :: "SessionManager \<Rightarrow> bool" where
  "mgr_inv m \<longleftrightarrow> table_inv (sessions m)"

section \<open>Tables\<close>

lemma vpn_addr_eq: "vpn_addr ip \<Longrightarrow> ip = [10, 77, 0, ip ! 3]"
  by (auto simp: vpn_addr_def numeral_eq_Suc length_Suc_conv)

lemma table_inv_filter: "table_inv tab \<Longrightarrow> table_inv (filter p tab)"
  by (auto simp: table_inv_def table_wf_def distinct_map_filter)

lemma delete_filter: "AList.delete k tab = filter (\<lambda>e. fst e \<noteq> k) tab"
  by (simp add: AList.delete_eq case_prod_unfold eq_commute [of k])

lemma table_inv_delete: "table_inv tab \<Longrightarrow> table_inv (AList.delete k tab)"
  by (simp add: delete_filter table_inv_filter)

lemma map_of_split:
  assumes "distinct (map fst tab)" "map_of tab k = Some v"
  obtains xs ys where "tab = xs @ (k, v) # ys" "k \<notin> fst ` set xs"
proof -
  from assms(2) have "(k, v) \<in> set tab" by (rule map_of_SomeD)
  then obtain xs ys where "tab = xs @ (k, v) # ys" by (meson split_list)
  with assms(1) that show thesis by auto
qed

lemma update_at: "k \<notin> fst ` set xs \<Longrightarrow> AList.update k w (xs @ (k, v) # ys) = xs @ (k, w) # ys"
  by (induction xs) auto

lemma table_inv_replace:
  assumes "table_inv tab" "map_of tab k = Some s" "s_id s' = s_id s" "s_ipv4 s' = s_ipv4 s"
    and "session_wf s'"
  shows "table_inv (AList.update k s' tab)"
proof -
  have "distinct (map fst tab)" using assms(1) by (simp add: table_inv_def table_wf_def)
  from map_of_split [OF this assms(2)] obtain xs ys
    where tab: "tab = xs @ (k, s) # ys" "k \<notin> fst ` set xs" .
  then have "AList.update k s' tab = xs @ (k, s') # ys" by (simp add: update_at)
  with assms tab show ?thesis by (auto simp: table_inv_def table_wf_def)
qed

lemma table_inv_insert:
  assumes "table_inv tab" "session_wf s" "k = s_id s" "vpn_addr (s_ipv4 s)"
    and fresh: "s_ipv4 s \<notin> s_ipv4 ` snd ` set tab"
  shows "table_inv (AList.update k s tab)"
proof (cases "map_of tab k")
  case None
  then have "k \<notin> fst ` set tab" by (simp add: map_of_eq_None_iff)
  with assms show ?thesis
    by (auto simp: update_fresh table_inv_def table_wf_def image_image)
next
  case (Some v)
  have "distinct (map fst tab)" using assms(1) by (simp add: table_inv_def table_wf_def)
  from map_of_split [OF this Some] obtain xs ys
    where tab: "tab = xs @ (k, v) # ys" "k \<notin> fst ` set xs" .
  then have "AList.update k s tab = xs @ (k, s) # ys" by (simp add: update_at)
  with assms tab show ?thesis
    by (auto simp: table_inv_def table_wf_def image_image intro: rev_image_eqI)
qed

lemma map_of_table_inv:
  "table_inv tab \<Longrightarrow> map_of tab k = Some s \<Longrightarrow> s_id s = k \<and> session_wf s \<and> vpn_addr (s_ipv4 s)"
  by (auto simp: table_inv_def table_wf_def dest!: map_of_SomeD)

lemma table_inv_link:
  "table_inv tab \<Longrightarrow>
     table_inv (map (\<lambda>(k, s). (k, if p (s_link s) then s\<lparr>s_link := l\<rparr> else s)) tab)"
  by (auto simp: table_inv_def table_wf_def session_wf_def comp_def case_prod_unfold)
    (simp_all add: if_distrib cong: if_cong)

section \<open>Every operation preserves the invariant\<close>

lemma persist_sessions [simp]: "sessions (persist env m) = sessions m"
  by (simp add: persist_def split: option.split)

lemma put_sessions [simp]: "sessions (put m k s) = AList.update k s (sessions m)"
  by (simp add: put_def)

lemma mgr_inv_persist [simp]: "mgr_inv (persist env m) \<longleftrightarrow> mgr_inv m"
  by (simp add: mgr_inv_def)

lemma mgr_inv_new: "mgr_inv session_manager_new"
  by (simp add: mgr_inv_def session_manager_new_def table_inv_def table_wf_def)

lemma mgr_inv_get: "mgr_inv m \<Longrightarrow> get m k = Some s \<Longrightarrow> s_id s = k \<and> session_wf s \<and> vpn_addr (s_ipv4 s)"
  by (simp add: mgr_inv_def get_def map_of_table_inv)

lemma mgr_inv_wf: "mgr_inv m \<Longrightarrow> get m k = Some s \<Longrightarrow> session_wf s"
  by (simp add: mgr_inv_get)

lemma mgr_inv_put:
  "mgr_inv m \<Longrightarrow> get m k = Some s \<Longrightarrow> s_id s' = s_id s \<Longrightarrow> s_ipv4 s' = s_ipv4 s \<Longrightarrow> session_wf s' \<Longrightarrow>
     mgr_inv (put m k s')"
  by (simp add: mgr_inv_def get_def table_inv_replace)

lemma mgr_inv_remove: "mgr_inv m \<Longrightarrow> mgr_inv (snd (remove env m k))"
  by (simp add: remove_def Let_def mgr_inv_def table_inv_delete)

lemma mgr_inv_detach: "mgr_inv m \<Longrightarrow> mgr_inv (snd (detach_where p m))"
  by (simp add: detach_where_def mgr_inv_def table_inv_link)

lemma table_inv_remove_ids: "table_inv tab \<Longrightarrow> table_inv (snd (remove_ids ids tab))"
  by (induction ids tab rule: remove_ids.induct)
    (auto simp: case_prod_unfold Let_def table_inv_delete split: option.splits)

lemma mgr_inv_remove_invalid: "mgr_inv m \<Longrightarrow> mgr_inv (fst (snd (remove_invalid r env v m)))"
  using table_inv_remove_ids
  by (auto simp: remove_invalid_def Let_def case_prod_unfold mgr_inv_def)

lemma mgr_inv_remove_expired: "mgr_inv m \<Longrightarrow> mgr_inv (snd (remove_expired env m))"
  by (auto simp: remove_expired_def Let_def mgr_inv_def table_inv_filter)

lemma mgr_inv_resume:
  assumes "mgr_inv m"
  shows "mgr_inv (snd (resume_session env m sid token address link seq mtu))"
proof (cases "get m sid")
  case (Some s)
  with mgr_inv_wf [OF assms Some] show ?thesis
    by (auto simp: resume_session_def Let_def record_activity_def assms session_wf_def nonce_ok_def
        intro!: mgr_inv_put [OF assms Some])
qed (simp add: resume_session_def assms)

lemma mgr_inv_rekey_offer:
  assumes "mgr_inv m" "length random_nonce = SERVER_NONCE_SIZE"
  shows "mgr_inv (snd (rekey_offer env m sid address random_nonce))"
proof (cases "get m sid")
  case (Some s)
  with mgr_inv_wf [OF assms(1) Some] show ?thesis
    by (auto simp: rekey_offer_def assms session_wf_def nonce_ok_def
        intro!: mgr_inv_put [OF assms(1) Some])
qed (simp add: rekey_offer_def assms)

lemma mgr_inv_rekey_confirm:
  assumes "mgr_inv m"
  shows "mgr_inv (snd (rekey_confirm env m sid nonce address))"
proof (cases "get m sid")
  case (Some s)
  with mgr_inv_wf [OF assms(1) Some] show ?thesis
    by (auto simp: rekey_confirm_def Let_def assms session_wf_def nonce_ok_def
        intro!: mgr_inv_put [OF assms(1) Some])
qed (simp add: rekey_confirm_def assms)

lemma mgr_inv_touch:
  assumes "mgr_inv m" "length random_nonce = SERVER_NONCE_SIZE"
  shows "mgr_inv (snd (touch_session env m sid address seq random_nonce))"
proof (cases "get m sid")
  case (Some s)
  with mgr_inv_wf [OF assms(1) Some] show ?thesis
    by (auto simp: touch_session_def Let_def case_prod_unfold record_activity_def assms session_wf_def
        nonce_ok_def intro!: mgr_inv_put [OF assms(1) Some])
qed (simp add: touch_session_def assms)

section \<open>Address allocation\<close>

text \<open>The hosts of the pool, in the order they are tried.\<close>

definition pool :: "u8 list" where "pool = map of_nat [2..<255]"

definition used_hosts :: "SessionManager \<Rightarrow> u8 set" where
  "used_hosts m = (\<lambda>s. s_ipv4 s ! 3) ` set (session_values m)"

lemma unat_pool: "unat ` {2..254 :: u8} = {2..254}"
proof
  show "unat ` {2..254 :: u8} \<subseteq> {2..254}"
    by (auto simp: word_le_nat_alt)
  show "{2..254} \<subseteq> unat ` {2..254 :: u8}"
  proof
    fix n :: nat
    assume "n \<in> {2..254}"
    then have "unat (of_nat n :: u8) = n" by (simp add: unat_of_nat take_bit_nat_eq_self)
    with \<open>n \<in> {2..254}\<close> show "n \<in> unat ` {2..254 :: u8}"
      by (intro image_eqI [of _ _ "of_nat n"]) (simp_all add: word_le_nat_alt)
  qed
qed

lemma set_pool: "set pool = {2..254}"
proof -
  have "set pool = of_nat ` {2..<255}"
    unfolding pool_def set_map set_upt ..
  also have "{2..<255 :: nat} = {2..254}" by auto
  also have "of_nat ` {2..254} = (of_nat ` unat ` {2..254 :: u8} :: u8 set)"
    by (simp only: unat_pool)
  also have "\<dots> = {2..254}" by (simp add: image_image of_nat_unat)
  finally show ?thesis .
qed

lemma card_pool: "card {2..254 :: u8} = 253"
proof -
  have "card {2..254 :: u8} = card (unat ` {2..254 :: u8})"
    by (rule card_image [symmetric]) (simp add: inj_on_def word_unat_eq_iff)
  then show ?thesis by (simp add: unat_pool)
qed

lemma allocate_ipv4_pool:
  "allocate_ipv4 m = map_option (\<lambda>h. [10, 77, 0, h]) (find (\<lambda>h. h \<notin> used_hosts m) pool)"
proof -
  have "list_ex (\<lambda>s. s_ipv4 s ! 3 = h) (session_values m) \<longleftrightarrow> h \<in> used_hosts m" for h
    by (auto simp: list_ex_iff used_hosts_def)
  then show ?thesis by (simp add: allocate_ipv4_def pool_def Let_def)
qed

lemma allocate_ipv4_None_iff: "allocate_ipv4 m = None \<longleftrightarrow> {2..254} \<subseteq> used_hosts m"
  by (auto simp: allocate_ipv4_pool find_None_iff set_pool subset_iff)

lemma allocate_ipv4_Some:
  assumes "allocate_ipv4 m = Some ip"
  shows "vpn_addr ip \<and> ip ! 3 \<notin> used_hosts m"
proof -
  obtain h where h: "find (\<lambda>h. h \<notin> used_hosts m) pool = Some h" "ip = [10, 77, 0, h]"
    using assms by (auto simp: allocate_ipv4_pool)
  then have "h \<in> set pool" "h \<notin> used_hosts m" by (auto simp: find_Some_iff)
  with h set_pool show ?thesis by (simp add: vpn_addr_def numeral_eq_Suc)
qed

lemma used_hosts_fresh: "ip ! 3 \<notin> used_hosts m \<Longrightarrow> ip \<notin> s_ipv4 ` snd ` set (sessions m)"
  by (auto simp: used_hosts_def)

lemma card_used_hosts:
  assumes "mgr_inv m"
  shows "card (used_hosts m) = length (sessions m)" "used_hosts m \<subseteq> {2..254}"
proof -
  let ?ips = "map (s_ipv4 \<circ> snd) (sessions m)"
  have vpn: "vpn_addr ip" if "ip \<in> set ?ips" for ip
    using that assms by (auto simp: mgr_inv_def table_inv_def)
  have "inj_on (\<lambda>ip. ip ! 3) (set ?ips)"
    by (rule inj_onI) (metis vpn vpn_addr_eq)
  moreover have "distinct ?ips" using assms by (simp add: mgr_inv_def table_inv_def)
  ultimately have "card ((\<lambda>ip. ip ! 3) ` set ?ips) = length ?ips"
    by (metis card_image distinct_card)
  moreover have "(\<lambda>ip. ip ! 3) ` set ?ips = used_hosts m"
    by (auto simp: used_hosts_def image_image)
  ultimately show "card (used_hosts m) = length (sessions m)" by simp
  show "used_hosts m \<subseteq> {2..254}"
    using vpn by (force simp: used_hosts_def vpn_addr_def)
qed

lemma allocate_fails_iff:
  assumes "mgr_inv m"
  shows "allocate_ipv4 m = None \<longleftrightarrow> length (sessions m) = 253"
proof -
  have "{2..254} \<subseteq> used_hosts m \<longleftrightarrow> card (used_hosts m) = card {2..254 :: u8}"
    using card_used_hosts(2) [OF assms] by (metis card_subset_eq finite_code subset_antisym order_refl)
  then show ?thesis
    using card_used_hosts(1) [OF assms] card_pool by (simp add: allocate_ipv4_None_iff)
qed

lemma sessions_bound: "mgr_inv m \<Longrightarrow> length (sessions m) \<le> 253"
  using card_used_hosts [of m] card_pool card_mono [of "{2..254 :: u8}" "used_hosts m"] by simp

section \<open>Eviction\<close>

text \<open>A slot of the scan holds an oldest session among those seen that satisfy \<open>p\<close>.\<close>

definition slot_ok :: "(Session \<Rightarrow> bool) \<Rightarrow> Session list \<Rightarrow> (nat \<times> SessionId) option \<Rightarrow> bool" where
  "slot_ok p xs slot =
    (case slot of
       None \<Rightarrow> \<forall>s \<in> set xs. \<not> p s
     | Some (a, sid) \<Rightarrow>
         (\<exists>s \<in> set xs. p s \<and> s_last_activity s = a \<and> s_id s = sid) \<and>
         (\<forall>s \<in> set xs. p s \<longrightarrow> a \<le> s_last_activity s))"

lemma slot_ok_skip: "slot_ok p xs slot \<Longrightarrow> \<not> p s \<Longrightarrow> slot_ok p (xs @ [s]) slot"
  by (auto simp: slot_ok_def split: option.splits)

lemma slot_ok_replace:
  "slot_ok p xs slot \<Longrightarrow> p s \<Longrightarrow>
     slot_ok p (xs @ [s]) (replace_older slot (s_last_activity s) (s_id s))"
  by (cases slot; fastforce simp: slot_ok_def)

abbreviation dead_of :: "Env \<Rightarrow> bytes \<Rightarrow> Session \<Rightarrow> bool" where
  "dead_of env client s \<equiv> s_client_id s = client \<and> \<not> is_live env (s_link s)"

abbreviation live_of :: "Env \<Rightarrow> bytes \<Rightarrow> Session \<Rightarrow> bool" where
  "live_of env client s \<equiv> s_client_id s = client \<and> is_live env (s_link s)"

lemma oldest_scan_ok:
  "slot_ok (dead_of env client) xs d \<Longrightarrow> slot_ok (live_of env client) xs l \<Longrightarrow>
   oldest_scan env client ss (d, l) = (d', l') \<Longrightarrow>
   slot_ok (dead_of env client) (xs @ ss) d' \<and> slot_ok (live_of env client) (xs @ ss) l'"
proof (induction ss arbitrary: xs d l)
  case (Cons s ss)
  let ?d = "if dead_of env client s then replace_older d (s_last_activity s) (s_id s) else d"
  let ?l = "if live_of env client s then replace_older l (s_last_activity s) (s_id s) else l"
  have "oldest_scan env client ss (?d, ?l) = (d', l')"
    using Cons.prems(3) by (auto split: if_splits)
  moreover have "slot_ok (dead_of env client) (xs @ [s]) ?d"
    using Cons.prems(1) slot_ok_skip slot_ok_replace by (auto split: if_splits)
  moreover have "slot_ok (live_of env client) (xs @ [s]) ?l"
    using Cons.prems(2) slot_ok_skip slot_ok_replace by (auto split: if_splits)
  ultimately show ?case using Cons.IH [of "xs @ [s]" ?d ?l] by simp
qed simp

text \<open>
  The session that is evicted: the least recently active one without a live
  transport, or, when all transports of the client are live, the least recently
  active one.
\<close>

definition evicted :: "Env \<Rightarrow> SessionManager \<Rightarrow> bytes \<Rightarrow> Session \<Rightarrow> bool" where
  "evicted env m client s \<longleftrightarrow> get m (s_id s) = Some s \<and> s_client_id s = client \<and>
     (if (\<exists>t \<in> set (session_values m). dead_of env client t)
      then \<not> is_live env (s_link s) \<and>
        (\<forall>t \<in> set (session_values m). dead_of env client t \<longrightarrow> s_last_activity s \<le> s_last_activity t)
      else \<forall>t \<in> set (session_values m). live_of env client t \<longrightarrow> s_last_activity s \<le> s_last_activity t)"

lemma get_of_value:
  assumes "mgr_inv m" "s \<in> set (session_values m)"
  shows "get m (s_id s) = Some s"
proof -
  obtain k where "(k, s) \<in> set (sessions m)" using assms(2) by auto
  with assms(1) show ?thesis
    by (auto simp: mgr_inv_def table_inv_def table_wf_def get_def intro!: map_of_is_SomeI)
qed

lemma kick_oldest_of_slot:
  assumes "oldest_scan env client (session_values m) (None, None) = (d, l)"
    and "(case d of Some x \<Rightarrow> Some x | None \<Rightarrow> l) = Some (a, s_id s)" and "get m (s_id s) = Some s"
  shows "kick_oldest env m client = Some (\<lparr>kicked_id = s_id s, kicked_link = s_link s\<rparr>,
     m\<lparr>sessions := AList.delete (s_id s) (sessions m)\<rparr>)"
  using assms by (simp add: kick_oldest_def get_def)

lemma kick_oldest_cases:
  assumes inv: "mgr_inv m"
  shows "(kick_oldest env m client = None \<and> client_session_count m client = 0) \<or>
    (\<exists>s. evicted env m client s \<and>
       kick_oldest env m client = Some (\<lparr>kicked_id = s_id s, kicked_link = s_link s\<rparr>,
         m\<lparr>sessions := AList.delete (s_id s) (sessions m)\<rparr>))"
proof -
  let ?vs = "session_values m"
  obtain d l where scan: "oldest_scan env client ?vs (None, None) = (d, l)" by force
  have ok: "slot_ok (dead_of env client) ?vs d" "slot_ok (live_of env client) ?vs l"
    using oldest_scan_ok [of client env "[]" None None ?vs d l] scan by (simp_all add: slot_ok_def)
  consider (dead) a s where "d = Some (a, s_id s)" "s \<in> set ?vs" "dead_of env client s"
      "\<forall>t \<in> set ?vs. dead_of env client t \<longrightarrow> s_last_activity s \<le> s_last_activity t"
    | (live) a s where "d = None" "l = Some (a, s_id s)" "s \<in> set ?vs" "live_of env client s"
      "\<forall>t \<in> set ?vs. \<not> dead_of env client t"
      "\<forall>t \<in> set ?vs. live_of env client t \<longrightarrow> s_last_activity s \<le> s_last_activity t"
    | (none) "d = None" "l = None" "\<forall>t \<in> set ?vs. s_client_id t \<noteq> client"
    using ok by (cases d; cases l) (auto simp: slot_ok_def)
  then show ?thesis
  proof cases
    case dead
    note got = get_of_value [OF inv dead(2)]
    have "evicted env m client s" using dead got by (auto simp: evicted_def)
    then show ?thesis using kick_oldest_of_slot [OF scan _ got] dead(1) by auto
  next
    case live
    note got = get_of_value [OF inv live(3)]
    have "evicted env m client s" using live got by (auto simp: evicted_def)
    then show ?thesis using kick_oldest_of_slot [OF scan _ got] live(1,2) by auto
  next
    case none
    then have "client_session_count m client = 0"
      by (auto simp: client_session_count_def filter_empty_conv)
    then show ?thesis using scan none by (simp add: kick_oldest_def)
  qed
qed

lemma kick_oldest_inv: "mgr_inv m \<Longrightarrow> kick_oldest env m client = Some (k, m') \<Longrightarrow> mgr_inv m'"
  by (auto simp: kick_oldest_def case_prod_unfold Let_def mgr_inv_def table_inv_delete
      split: option.splits)

section \<open>Device limit and creation\<close>

lemma enforce_loop_inv: "mgr_inv m \<Longrightarrow> mgr_inv (snd (enforce_loop env client limit m))"
proof (induction env client limit m rule: enforce_loop.induct)
  case (1 env client limit m)
  then show ?case
    by (subst enforce_loop.simps)
      (auto simp: case_prod_unfold Let_def split: option.splits dest: kick_oldest_inv)
qed

lemma enforce_loop_count:
  assumes "mgr_inv m" "0 < limit"
  shows "client_session_count (snd (enforce_loop env client limit m)) client < limit"
  using assms
proof (induction env client limit m rule: enforce_loop.induct)
  case (1 env client limit m)
  show ?case
  proof (cases "client_session_count m client < limit")
    case True
    then show ?thesis by (subst enforce_loop.simps) simp
  next
    case False
    with 1 kick_oldest_cases [OF 1(2), where env = env and client = client] obtain k m' where
      kick: "kick_oldest env m client = Some (k, m')" by auto
    then have "client_session_count (snd (enforce_loop env client limit m')) client < limit"
      using 1 False kick_oldest_inv [OF 1(2) kick] by (auto simp: not_less)
    then show ?thesis
      using kick False by (subst enforce_loop.simps) (simp add: case_prod_unfold Let_def not_less)
  qed
qed

text \<open>Nobody is evicted while the client is below its limit.\<close>

lemma enforce_loop_below:
  "client_session_count m client < limit \<Longrightarrow> enforce_loop env client limit m = ([], m)"
  by (subst enforce_loop.simps) simp

lemma enforce_device_limit_inv: "mgr_inv m \<Longrightarrow> mgr_inv (snd (enforce_device_limit env sub m))"
  by (simp add: enforce_device_limit_def enforce_loop_inv)

lemma enforce_device_limit_count:
  assumes "mgr_inv m" "device_limit sub \<noteq> UNLIMITED_DEVICES"
  shows "client_session_count (snd (enforce_device_limit env sub m)) (client_id sub)
       < unat (max (device_limit sub) 1)"
proof -
  have "1 \<le> max (device_limit sub) 1" by simp
  then have "0 < unat (max (device_limit sub) 1)"
    unfolding word_le_nat_alt by simp
  with assms show ?thesis by (simp add: enforce_device_limit_def enforce_loop_count)
qed

text \<open>The session that creation puts into the table.\<close>

definition new_session ::
  "Env \<Rightarrow> SocketAddr \<Rightarrow> ClientLink \<Rightarrow> u32 \<Rightarrow> bytes \<Rightarrow> u64 \<Rightarrow> SubscriptionClaims \<Rightarrow> bytes \<Rightarrow> bytes \<Rightarrow> bytes \<Rightarrow> Session" where
  "new_session env address link capabilities client_nonce last_seq sub ip random_id random_nonce =
     \<lparr>s_id = random_id, s_ipv4 = ip, s_client_address = address, s_link = link,
      s_capabilities = capabilities, s_last_sequence = last_seq, s_created_at = env_instant env,
      s_last_activity = env_instant env, s_last_rekey = env_instant env,
      s_client_nonce = client_nonce, s_server_nonce = random_nonce, s_prev_nonce = None,
      s_pending_nonce = None, s_client_id = client_id sub, s_token_id = token_id sub,
      s_subscription_expires_at = expires_at sub, s_plan = plan sub,
      s_device_limit = device_limit sub, s_max_mbps = max_mbps sub,
      s_rate = rate_limit_new (max_mbps sub) (env_unix_ms env)\<rparr>"

lemma create_session_eq:
  "create_session env m address link caps cn seq mtu sub rid rn =
    (let (kicked, m1) = enforce_device_limit env sub m in
     case allocate_ipv4 m1 of
       None \<Rightarrow> (Err NoAddresses, m1)
     | Some ip \<Rightarrow> (Ok (all_good_dude_new ip mtu caps rid rn, kicked),
         persist env (put m1 rid (new_session env address link caps cn seq sub ip rid rn))))"
  by (simp add: create_session_def new_session_def all_good_dude_new_def Let_def
      split: prod.splits option.splits)

lemma new_session_sel [simp]:
  "s_id (new_session env a l c cn sq sub ip rid rn) = rid"
  "s_ipv4 (new_session env a l c cn sq sub ip rid rn) = ip"
  "s_client_id (new_session env a l c cn sq sub ip rid rn) = client_id sub"
  "s_token_id (new_session env a l c cn sq sub ip rid rn) = token_id sub"
  "s_subscription_expires_at (new_session env a l c cn sq sub ip rid rn) = expires_at sub"
  "s_client_address (new_session env a l c cn sq sub ip rid rn) = a"
  "s_link (new_session env a l c cn sq sub ip rid rn) = l"
  "s_server_nonce (new_session env a l c cn sq sub ip rid rn) = rn"
  by (simp_all add: new_session_def)

lemma new_session_wf:
  assumes "claims_valid sub" "length cn = 32" "length rid = SESSION_ID_SIZE"
    and "length rn = SERVER_NONCE_SIZE" "vpn_addr ip"
  shows "session_wf (new_session env a l c cn sq sub ip rid rn)"
  using assms by (simp add: session_wf_def new_session_def nonce_ok_def claims_valid_def vpn_addr_def)

lemma mgr_inv_create:
  assumes inv: "mgr_inv m" and "claims_valid sub" "length cn = 32" "length rid = SESSION_ID_SIZE"
    and "length rn = SERVER_NONCE_SIZE"
  shows "mgr_inv (snd (create_session env m address link caps cn seq mtu sub rid rn))"
proof -
  obtain kicked m1 where e: "enforce_device_limit env sub m = (kicked, m1)" by force
  have inv1: "mgr_inv m1" using enforce_device_limit_inv [OF inv, of env sub] e by simp
  show ?thesis
  proof (cases "allocate_ipv4 m1")
    case None
    then show ?thesis using e inv1 by (simp add: create_session_eq)
  next
    case (Some ip)
    let ?s = "new_session env address link caps cn seq sub ip rid rn"
    have "vpn_addr ip" "ip \<notin> s_ipv4 ` snd ` set (sessions m1)"
      using allocate_ipv4_Some [OF Some] used_hosts_fresh by auto
    then have "table_inv (AList.update rid ?s (sessions m1))"
      using inv1 assms by (intro table_inv_insert) (auto simp: mgr_inv_def new_session_wf)
    then show ?thesis using e Some by (simp add: create_session_eq mgr_inv_def)
  qed
qed

lemma count_update_le:
  "length (filter p (map snd (AList.update k s tab))) \<le> Suc (length (filter p (map snd tab)))"
  by (induction tab) auto

lemma client_session_count_put:
  "client_session_count (put m k s) c \<le> Suc (client_session_count m c)"
  unfolding client_session_count_def put_sessions by (rule count_update_le)

lemma client_session_count_persist [simp]:
  "client_session_count (persist env m) c = client_session_count m c"
  by (simp add: client_session_count_def)

lemma create_session_count:
  assumes "mgr_inv m" "device_limit sub \<noteq> UNLIMITED_DEVICES"
  shows "client_session_count (snd (create_session env m address link caps cn seq mtu sub rid rn))
      (client_id sub) \<le> unat (max (device_limit sub) 1)"
proof -
  obtain kicked m1 where e: "enforce_device_limit env sub m = (kicked, m1)" by force
  have c: "Suc (client_session_count m1 (client_id sub)) \<le> unat (max (device_limit sub) 1)"
    using enforce_device_limit_count [OF assms, of env] e by simp
  show ?thesis
  proof (cases "allocate_ipv4 m1")
    case None
    then show ?thesis using e c by (simp add: create_session_eq)
  next
    case (Some ip)
    then show ?thesis
      using e by (simp add: create_session_eq order_trans [OF client_session_count_put c])
  qed
qed

lemma enforce_loop_shrinks:
  "length (fst (enforce_loop env client limit m)) + length (sessions (snd (enforce_loop env client limit m)))
     \<le> length (sessions m)"
proof (induction env client limit m rule: enforce_loop.induct)
  case (1 env client limit m)
  show ?case
  proof (cases "limit \<le> client_session_count m client \<and> kick_oldest env m client \<noteq> None")
    case True
    then obtain k m' where kick: "kick_oldest env m client = Some (k, m')" by auto
    with True 1 kick_oldest_shrinks [OF kick] show ?thesis
      by (subst (1 2) enforce_loop.simps) (fastforce simp: case_prod_unfold Let_def)
  next
    case False
    then show ?thesis by (subst (1 2) enforce_loop.simps) (auto split: option.splits)
  qed
qed

text \<open>
  Creation only fails when the pool is exhausted, and an eviction always frees an
  address: nobody is evicted in vain.
\<close>

lemma create_session_error:
  assumes inv: "mgr_inv m"
    and err: "create_session env m address link caps cn seq mtu sub rid rn = (Err NoAddresses, m')"
  shows "length (sessions m) = 253 \<and> fst (enforce_device_limit env sub m) = [] \<and> m' = m"
proof -
  obtain kicked m1 where e: "enforce_device_limit env sub m = (kicked, m1)" by force
  have inv1: "mgr_inv m1" using enforce_device_limit_inv [OF inv, of env sub] e by simp
  have m1: "allocate_ipv4 m1 = None" "m' = m1"
    using err e by (auto simp: create_session_eq split: option.splits)
  then have "length (sessions m1) = 253" using allocate_fails_iff [OF inv1] by simp
  moreover have "length kicked + length (sessions m1) \<le> length (sessions m)"
    using e enforce_loop_shrinks [of env "client_id sub" "unat (max (device_limit sub) 1)" m]
    by (auto simp: enforce_device_limit_def split: if_splits)
  ultimately have "length kicked = 0" "length (sessions m) = 253"
    using sessions_bound [OF inv] by linarith+
  then have k: "kicked = []" "length (sessions m) = 253" by simp_all
  have "m1 = m" using k(1) e
    by (auto simp: enforce_device_limit_def enforce_loop.simps [of env _ _ m] case_prod_unfold Let_def
        split: if_splits option.splits)
  with k m1 e show ?thesis by simp
qed

section \<open>Restart\<close>

lemma restored_sel [simp]:
  "s_ipv4 (restored env s) = s_ipv4 s" "s_server_nonce (restored env s) = s_server_nonce s"
  "s_client_id (restored env s) = s_client_id s"
  by (simp_all add: restored_def)

lemma restored_wf: "session_wf s \<Longrightarrow> session_wf (restored env s)"
  by (simp add: session_wf_def restored_def)

lemma table_inv_restored:
  "table_inv tab \<Longrightarrow> table_inv (map (\<lambda>(k, s). (k, restored env s)) tab)"
  by (auto simp: table_inv_def table_wf_def restored_wf comp_def case_prod_unfold)

lemma with_store_encode:
  assumes "mgr_inv m"
  shows "sessions (with_store env path (StoreBytes (encode_store m))) =
      map (\<lambda>(k, s). (k, restored env s)) (sessions m)"
    and "mgr_inv (with_store env path (StoreBytes (encode_store m)))"
proof -
  have "table_wf (sessions m)" "length (sessions m) < 2 ^ 32"
    using assms sessions_bound [OF assms] by (simp_all add: mgr_inv_def table_inv_def)
  note dec = decode_encode_store [OF this, of env]
  then show eq: "sessions (with_store env path (StoreBytes (encode_store m))) =
      map (\<lambda>(k, s). (k, restored env s)) (sessions m)"
    by (simp add: with_store_def)
  show "mgr_inv (with_store env path (StoreBytes (encode_store m)))"
    unfolding mgr_inv_def eq using assms by (simp add: mgr_inv_def table_inv_restored)
qed

lemma nonce_restored:
  assumes "n \<noteq> Some (replicate SERVER_NONCE_SIZE 0)" "nonce_ok n"
  shows "nonce_from_bytes (optional_nonce_bytes n) = n"
proof (cases n)
  case None
  then show ?thesis by (simp add: nonce_from_bytes_def optional_nonce_bytes_def list_all_iff)
next
  case (Some a)
  then have "\<not> list_all (\<lambda>b. b = 0) a"
    using assms replicate_eqI [of a SERVER_NONCE_SIZE 0] by (auto simp: nonce_ok_def list_all_iff)
  with Some show ?thesis by (simp add: nonce_from_bytes_def optional_nonce_bytes_def)
qed

section \<open>Resumption and rotation\<close>

text \<open>The tokens with which a session can be resumed.\<close>

definition accepted_tokens :: "Session \<Rightarrow> bytes set" where
  "accepted_tokens s = {s_server_nonce s} \<union> set_option (s_prev_nonce s) \<union> set_option (s_pending_nonce s)"

lemma resume_session_Some_iff:
  "(\<exists>sg. fst (resume_session env m sid t address link seq mtu) = Some sg) \<longleftrightarrow>
     (\<exists>s. get m sid = Some s \<and> t \<in> accepted_tokens s)"
  by (auto simp: resume_session_def accepted_tokens_def Let_def split: option.splits)

lemma get_after_put [simp]: "get (put m k s) k' = (if k' = k then Some s else get m k')"
  by (simp add: get_def update_conv')

lemma get_persist [simp]: "get (persist env m) k = get m k"
  by (simp add: get_def)

lemma resume_session_effect:
  assumes "resume_session env m sid t address link seq mtu = (Some sg, m')" "get m sid = Some s"
  shows "\<exists>s'. get m' sid = Some s' \<and> s_id s' = s_id s \<and> s_ipv4 s' = s_ipv4 s \<and>
      s_client_address s' = address \<and> s_link s' = link \<and> s_last_sequence s' = seq \<and>
      t \<in> accepted_tokens s' \<and> accepted_tokens s' \<subseteq> accepted_tokens s"
    and "k \<noteq> sid \<Longrightarrow> get m' k = get m k"
    and "sg = still_good_dude_new (s_id s) (s_ipv4 s) mtu (s_capabilities s)"
  using assms
  by (auto simp: resume_session_def Let_def accepted_tokens_def record_activity_def split: if_splits)

lemma rekey_confirm_effect:
  assumes "get m sid = Some s" "s_client_address s = address" "s_pending_nonce s = Some n"
  shows "fst (rekey_confirm env m sid n address) = Some n \<and>
    (\<exists>s'. get (snd (rekey_confirm env m sid n address)) sid = Some s' \<and>
      s_server_nonce s' = n \<and> s_prev_nonce s' = Some (s_server_nonce s) \<and> s_pending_nonce s' = None)"
  using assms by (simp add: rekey_confirm_def Let_def)

lemma same_ipv4_same_session:
  assumes "mgr_inv m" "get m i = Some s" "get m k = Some t" "s_ipv4 s = s_ipv4 t"
  shows "i = k"
proof -
  have "(i, s) \<in> set (sessions m)" "(k, t) \<in> set (sessions m)"
    using assms(2,3) by (simp_all add: get_def map_of_SomeD)
  moreover have "inj_on (\<lambda>e. s_ipv4 (snd e)) (set (sessions m))"
    using assms(1) by (simp add: mgr_inv_def table_inv_def distinct_map comp_def)
  ultimately have "(i, s) = (k, t)" using assms(4) by (intro inj_onD [where f = "\<lambda>e. s_ipv4 (snd e)" and A = "set (sessions m)"]) simp_all
  then show ?thesis by simp
qed

section \<open>Properties\<close>

text \<open>A small table for the concrete instances below.\<close>

definition sample_env :: Env where
  "sample_env = \<lparr>env_instant = 400 * NANOS, env_unix_ms = 5000000, env_fs_ok = True,
     env_quic_open = (\<lambda>c. c = 7), env_stream_open = (\<lambda>c. False)\<rparr>"

definition sample_claims :: SubscriptionClaims where
  "sample_claims = \<lparr>key_id = 1, token_id = replicate 16 3, client_id = replicate 16 4, issued_at = 1000,
     not_before = 1000, expires_at = 9000, plan = Pro, device_limit = 1, max_mbps = 8\<rparr>"

definition sample_session :: Session where
  "sample_session = new_session sample_env (V4 [192, 0, 2, 1] 4000) (Quic 7) CAP_IPV4 (replicate 32 5) 1
     sample_claims [10, 77, 0, 2] (replicate 16 6) (replicate 32 8)"

definition sample_manager :: SessionManager where
  "sample_manager = \<lparr>sessions = [(replicate 16 6, sample_session)], store_path = None, store_file = None\<rparr>"

lemma sample_facts:
  "claims_valid sample_claims" "mgr_inv sample_manager" "get sample_manager (replicate 16 6) = Some sample_session"
proof -
  show valid: "claims_valid sample_claims" by (simp add: sample_claims_def claims_valid_def constants)
  have "vpn_addr [10, 77, 0, 2]" by (simp add: vpn_addr_def)
  with valid show "mgr_inv sample_manager"
    by (auto simp: mgr_inv_def table_inv_def table_wf_def sample_manager_def sample_session_def constants
        intro!: new_session_wf)
  show "get sample_manager (replicate 16 6) = Some sample_session"
    by (simp add: get_def sample_manager_def)
qed



text \<open>
  Whom the device limit evicts.  Among the client's sessions the one whose
  transport is gone and that was active least recently; only when all its
  transports are live, the least recently active one.  Nothing is evicted exactly
  when the client has no session.
\<close>

theorem eviction_choice:
  assumes "mgr_inv m"
  shows "(kick_oldest env m client = None \<longleftrightarrow> client_session_count m client = 0) \<and>
    (\<forall>kicked m'. kick_oldest env m client = Some (kicked, m') \<longrightarrow>
      (\<exists>s. get m (kicked_id kicked) = Some s \<and> s_client_id s = client \<and> kicked_link kicked = s_link s \<and>
         sessions m' = AList.delete (kicked_id kicked) (sessions m) \<and>
         (\<forall>t \<in> set (session_values m). s_client_id t = client \<longrightarrow>
            (is_live env (s_link s) \<longrightarrow> is_live env (s_link t)) \<and>
            (is_live env (s_link s) = is_live env (s_link t) \<longrightarrow> s_last_activity s \<le> s_last_activity t))))"
proof -
  have pos: "0 < client_session_count m client" if "evicted env m client s" for s
    using that by (force simp: evicted_def get_def client_session_count_def filter_empty_conv dest!: map_of_SomeD)
  from kick_oldest_cases [OF assms, of env client] show ?thesis
  proof
    assume "\<exists>s. evicted env m client s \<and> kick_oldest env m client =
      Some (\<lparr>kicked_id = s_id s, kicked_link = s_link s\<rparr>, m\<lparr>sessions := AList.delete (s_id s) (sessions m)\<rparr>)"
    then obtain s where s: "evicted env m client s" "kick_oldest env m client =
      Some (\<lparr>kicked_id = s_id s, kicked_link = s_link s\<rparr>, m\<lparr>sessions := AList.delete (s_id s) (sessions m)\<rparr>)"
      by blast
    have "\<forall>t \<in> set (session_values m). s_client_id t = client \<longrightarrow>
        (is_live env (s_link s) \<longrightarrow> is_live env (s_link t)) \<and>
        (is_live env (s_link s) = is_live env (s_link t) \<longrightarrow> s_last_activity s \<le> s_last_activity t)"
      using s(1) by (auto simp: evicted_def split: if_splits)
    moreover have "get m (s_id s) = Some s" "s_client_id s = client" using s(1) by (simp_all add: evicted_def)
    ultimately show ?thesis using s(2) pos [OF s(1)] by auto
  qed auto
qed

theorem eviction_choice_witness:
  "\<exists>kicked m'. kick_oldest sample_env sample_manager (replicate 16 4) = Some (kicked, m') \<and>
     get sample_manager (kicked_id kicked) = Some sample_session"
proof -
  have "client_session_count sample_manager (replicate 16 4) \<noteq> 0"
    by (simp add: client_session_count_def sample_manager_def sample_session_def sample_claims_def)
  with eviction_choice [OF sample_facts(2), of sample_env "replicate 16 4"]
  obtain kicked m' s where k: "kick_oldest sample_env sample_manager (replicate 16 4) = Some (kicked, m')"
    "get sample_manager (kicked_id kicked) = Some s" by (cases "kick_oldest sample_env sample_manager (replicate 16 4)") auto
  moreover from k(2) have "s = sample_session"
    by (auto simp: get_def sample_manager_def split: if_splits)
  ultimately show ?thesis by blast
qed

text \<open>
  Creation fails only when all 253 addresses are taken, and then nobody has
  been evicted and the table is as before.
\<close>

theorem create_session_fails_clean:
  assumes "mgr_inv m"
    and "create_session env m address link caps cn seq mtu sub rid rn = (Err NoAddresses, m')"
  shows "length (sessions m) = 253 \<and> m' = m"
  using create_session_error [OF assms] by simp

definition full_manager :: SessionManager where
  "full_manager = \<lparr>sessions = map (\<lambda>h. (replicate 15 0 @ [of_nat h], new_session sample_env (V4 [] 0) Detached 0
     (replicate 32 5) 1 sample_claims [10, 77, 0, of_nat h] (replicate 15 0 @ [of_nat h]) (replicate 32 8)))
     [2..<255], store_path = None, store_file = None\<rparr>"

lemma full_manager_inv: "mgr_inv full_manager" "length (sessions full_manager) = 253"
proof -
  have inj: "inj_on (\<lambda>h. of_nat h :: u8) {2..<255}"
    by (rule inj_onI) (simp add: word_unat_eq_iff unat_of_nat take_bit_nat_eq_self)
  have "vpn_addr [10, 77, 0, of_nat h]" if "h \<in> {2..<255}" for h
  proof -
    have "(of_nat h :: u8) \<in> set pool" using that unfolding pool_def set_map set_upt by (rule imageI)
    then show ?thesis by (simp add: set_pool vpn_addr_def numeral_eq_Suc)
  qed
  with inj sample_facts(1) show "mgr_inv full_manager"
    by (auto simp: mgr_inv_def table_inv_def table_wf_def full_manager_def distinct_map inj_on_def comp_def
        constants simp del: upt_rec_numeral intro!: new_session_wf)
  show "length (sessions full_manager) = 253" by (simp add: full_manager_def del: upt_rec_numeral)
qed

theorem create_session_fails_clean_witness:
  "length (sessions full_manager) = 253 \<and>
   create_session sample_env full_manager (V4 [] 0) Detached 0 (replicate 32 1) 1 1100
     (sample_claims\<lparr>client_id := replicate 16 9\<rparr>) (replicate 16 1) (replicate 32 2) = (Err NoAddresses, full_manager)"
proof -
  let ?sub = "sample_claims\<lparr>client_id := replicate 16 9\<rparr>"
  let ?c = "create_session sample_env full_manager (V4 [] 0) Detached 0 (replicate 32 1) 1 1100 ?sub
     (replicate 16 1) (replicate 32 2)"
  have "client_session_count full_manager (replicate 16 9) = 0"
    by (auto simp: client_session_count_def full_manager_def sample_claims_def filter_empty_conv
        simp del: upt_rec_numeral)
  then have "enforce_device_limit sample_env ?sub full_manager = ([], full_manager)"
    by (simp add: enforce_device_limit_def enforce_loop_below sample_claims_def constants)
  moreover have "allocate_ipv4 full_manager = None"
    using full_manager_inv allocate_fails_iff by simp
  ultimately have c: "?c = (Err NoAddresses, full_manager)" by (simp add: create_session_eq)
  with create_session_fails_clean [OF full_manager_inv(1) c] show ?thesis by blast
qed

lemma find_sorted:
  "sorted_wrt (<) (map unat xs) \<Longrightarrow> find p xs = Some (x :: u8) \<longleftrightarrow>
     x \<in> set xs \<and> p x \<and> (\<forall>y \<in> set xs. y < x \<longrightarrow> \<not> p y)"
  by (induction xs) (auto simp: word_less_nat_alt)

lemma pool_sorted: "sorted_wrt (<) (map unat pool)"
proof -
  have "map unat pool = map (\<lambda>h. h) [2..<255]"
    unfolding pool_def map_map comp_def
    by (rule map_cong) (simp_all add: unat_of_nat take_bit_nat_eq_self del: upt_rec_numeral)
  then show ?thesis by (simp add: sorted_wrt_upt del: upt_rec_numeral)
qed

text \<open>
  Address allocation hands out the lowest free host number between 2 and 254
  of 10.77.0.0/24, and none exactly when the table holds 253 sessions.
\<close>

theorem allocate_lowest_free:
  assumes "mgr_inv m"
  shows "(allocate_ipv4 m = Some ip \<longleftrightarrow>
      (\<exists>h. ip = [10, 77, 0, h] \<and> h \<in> {2..254} - used_hosts m \<and> {2..<h} \<subseteq> used_hosts m)) \<and>
    (allocate_ipv4 m = None \<longleftrightarrow> length (sessions m) = 253)"
proof -
  have "find (\<lambda>h. h \<notin> used_hosts m) pool = Some h \<longleftrightarrow> h \<in> {2..254} - used_hosts m \<and> {2..<h} \<subseteq> used_hosts m" for h
    unfolding find_sorted [OF pool_sorted] set_pool by (auto intro: order_trans less_imp_le)
  then show ?thesis
    using allocate_fails_iff [OF assms] by (auto simp: allocate_ipv4_pool)
qed

theorem allocate_lowest_free_witness:
  "allocate_ipv4 sample_manager = Some [10, 77, 0, 3]"
proof -
  have used: "used_hosts sample_manager = {2}"
    by (simp add: used_hosts_def sample_manager_def sample_session_def)
  have "{2..<3 :: u8} = {2}"
    by (auto simp: word_le_nat_alt word_less_nat_alt word_unat_eq_iff)
  then have "\<exists>h. [10, 77, 0, 3] = [10, 77, 0, h] \<and> h \<in> {2..254} - used_hosts sample_manager \<and>
      {2..<h} \<subseteq> used_hosts sample_manager"
    by (intro exI [of _ 3]) (simp add: used)
  then show ?thesis using allocate_lowest_free [OF sample_facts(2), of "[10, 77, 0, 3]"] by simp
qed

text \<open>
  C16: resumption.  A session is resumed exactly when it exists and the presented
  token is its current, previous or pending one; it then keeps its identifier and
  address, moves to the new socket address and link, and the presented token stays
  acceptable while no new one becomes so.
\<close>

theorem resume_exact:
  assumes "get m sid = Some s"
  shows "case resume_session env m sid tok address link seq mtu of
      (None, m') \<Rightarrow> m' = m \<and> tok \<noteq> s_server_nonce s \<and> s_prev_nonce s \<noteq> Some tok \<and> s_pending_nonce s \<noteq> Some tok
    | (Some sg, m') \<Rightarrow> tok \<in> accepted_tokens s \<and> sgd_assigned_ipv4 sg = s_ipv4 s \<and> sgd_session_id sg = s_id s \<and>
        (\<exists>s'. get m' sid = Some s' \<and> s_id s' = s_id s \<and> s_ipv4 s' = s_ipv4 s \<and> s_client_address s' = address \<and>
          s_link s' = link \<and> tok \<in> accepted_tokens s' \<and> accepted_tokens s' \<subseteq> accepted_tokens s)"
proof (cases "resume_session env m sid tok address link seq mtu")
  case (Pair res m')
  show ?thesis
  proof (cases res)
    case None
    with Pair assms show ?thesis by (auto simp: resume_session_def Let_def split: if_splits)
  next
    case (Some sg)
    with Pair have r: "resume_session env m sid tok address link seq mtu = (Some sg, m')" by simp
    have "tok \<in> accepted_tokens s"
      using resume_session_Some_iff [of env m sid tok address link seq mtu] r assms by auto
    then show ?thesis
      using r resume_session_effect [OF r assms] by (auto simp: still_good_dude_new_def)
  qed
qed

theorem resume_exact_witness:
  "replicate 32 8 \<in> accepted_tokens sample_session \<and>
   (\<exists>sg m'. resume_session sample_env sample_manager (replicate 16 6) (replicate 32 8) (V4 [203, 0, 113, 5] 9)
      (Stream 3) 1 1100 = (Some sg, m') \<and> sgd_assigned_ipv4 sg = s_ipv4 sample_session)"
proof -
  have tok: "replicate 32 8 \<in> accepted_tokens sample_session"
    by (simp add: accepted_tokens_def sample_session_def)
  then obtain sg m' where "resume_session sample_env sample_manager (replicate 16 6) (replicate 32 8)
      (V4 [203, 0, 113, 5] 9) (Stream 3) 1 1100 = (Some sg, m')"
    using resume_session_Some_iff [where env = sample_env and m = sample_manager and sid = "replicate 16 6"
        and t = "replicate 32 8" and address = "V4 [203, 0, 113, 5] 9" and link = "Stream 3" and seq = 1 and mtu = 1100]
      sample_facts(3) by (metis prod.collapse)
  with tok resume_exact [OF sample_facts(3), where env = sample_env and tok = "replicate 32 8"
      and address = "V4 [203, 0, 113, 5] 9" and link = "Stream 3" and seq = 1 and mtu = 1100]
  show ?thesis by auto
qed



end
