(* ===== verification/Tun.thy ===== *)
theory Tun
  imports Messages
begin

text \<open>
  The packet side of \<open>payphone-tun/src/lib.rs\<close>: the MTU the tunnel may
  use for a given QUIC datagram budget and the IPv4 header checks that guard
  both directions of the tunnel.  Creating the devices is in \<open>Tun_Device\<close>.
\<close>

definition PAYPHONE_MTU :: u16 where [constants]: "PAYPHONE_MTU = 1100"
definition PAYPHONE_MTU_MAX :: u16 where [constants]: "PAYPHONE_MTU_MAX = 1450"
definition PAYPHONE_FRAME_OVERHEAD :: u16 where [constants]: "PAYPHONE_FRAME_OVERHEAD = 40"

text \<open>\<open>usize::saturating_sub\<close> is subtraction on naturals; \<open>clamp\<close>
  takes the bounds in order.\<close>

definition clamp :: "nat \<Rightarrow> nat \<Rightarrow> nat \<Rightarrow> nat" where
  "clamp x lo hi = (if x < lo then lo else if x > hi then hi else x)"

definition mtu_from_datagram_budget :: "nat \<Rightarrow> u16" where
  "mtu_from_datagram_budget max_datagram =
    (let usable = max_datagram - unat PAYPHONE_FRAME_OVERHEAD in
     of_nat (clamp usable (unat PAYPHONE_MTU) (unat PAYPHONE_MTU_MAX)))"

lemma unat_mtu_from_datagram_budget:
  "unat (mtu_from_datagram_budget n) = clamp (n - 40) 1100 1450"
  by (simp add: mtu_from_datagram_budget_def constants clamp_def unat_of_nat
      take_bit_nat_eq_self Let_def)

definition valid_ipv4_packet :: "bytes \<Rightarrow> bool" where
  "valid_ipv4_packet packet =
    (if length packet < 20 \<or> drop_bit 4 (packet ! 0) \<noteq> 4 then False
     else let header_len = unat (packet ! 0 AND 0x0f) * 4;
              total_len = unat (from_be [packet ! 2, packet ! 3] :: u16)
          in header_len \<ge> 20 \<and> header_len \<le> total_len \<and> total_len = length packet)"

definition ipv4_destination :: "bytes \<Rightarrow> bytes option" where
  "ipv4_destination packet =
    (if \<not> valid_ipv4_packet packet then None
     else let ver = drop_bit 4 (packet ! 0) in
       if ver \<noteq> 4 then None
       else Some [packet ! 16, packet ! 17, packet ! 18, packet ! 19])"

definition ipv4_source :: "bytes \<Rightarrow> bytes option" where
  "ipv4_source packet =
    (if \<not> valid_ipv4_packet packet then None
     else if drop_bit 4 (packet ! 0) \<noteq> 4 then None
     else Some [packet ! 12, packet ! 13, packet ! 14, packet ! 15])"

lemma valid_ipv4_packet_length: "valid_ipv4_packet p \<Longrightarrow> 20 \<le> length p \<and> length p \<le> 65535"
  using unsigned_less [of "from_be [p ! 2, p ! 3] :: u16", where ?'a = nat]
  by (auto simp: valid_ipv4_packet_def Let_def split: if_splits)

lemma ipv4_source_Some_iff:
  "ipv4_source p = Some s \<longleftrightarrow> valid_ipv4_packet p \<and> s = [p ! 12, p ! 13, p ! 14, p ! 15]"
  by (auto simp: ipv4_source_def valid_ipv4_packet_def Let_def split: if_splits)

lemma ipv4_destination_Some_iff:
  "ipv4_destination p = Some d \<longleftrightarrow> valid_ipv4_packet p \<and> d = [p ! 16, p ! 17, p ! 18, p ! 19]"
  by (auto simp: ipv4_destination_def valid_ipv4_packet_def Let_def split: if_splits)

lemma data_frame_length:
  assumes "length sid = SESSION_ID_SIZE"
  shows "length (frame_encode (mk_frame Data seq (data_encode (data_new sid pid pkt)))) = 40 + length pkt"
  using assms by (simp add: data_encode_def data_new_def constants)

section \<open>Properties\<close>

text \<open>
  The MTU derived from a QUIC datagram budget lies between 1100 and 1450,
  and when the budget is at least 1140 bytes every packet of at most that MTU
  fits, framed as \<open>Data\<close>, into one datagram.
\<close>

theorem mtu_fits_datagram:
  assumes "length sid = SESSION_ID_SIZE" "1140 \<le> budget"
    and "length packet \<le> unat (mtu_from_datagram_budget budget)"
  shows "unat (mtu_from_datagram_budget budget) \<in> {1100..1450} \<and>
    length (frame_encode (mk_frame Data seq (data_encode (data_new sid pid packet)))) \<le> budget"
  using data_frame_length [OF assms(1), of seq pid packet] assms(2,3)
  by (auto simp: unat_mtu_from_datagram_budget clamp_def split: if_splits)

theorem mtu_fits_datagram_witness:
  "length (frame_encode (mk_frame Data 5 (data_encode (data_new (replicate 16 2) 6 (replicate 1160 0))))) \<le> 1200"
  using mtu_fits_datagram [of "replicate 16 2" 1200 "replicate 1160 0" 5 6]
  by (simp add: constants unat_mtu_from_datagram_budget clamp_def)

end
