(* ===== verification/Server_Handler.thy ===== *)
theory Server_Handler
  imports Session_Invariant Tun
begin

text \<open>
  The frame handlers of the server (\<open>payphone-server/src/handler.rs\<close>).  A
  handler maps the server state to a new state and the list of its outputs, in
  order: frames handed to a client link and packets written to the TUN device.
  Ed25519 and the revocation check are parameters, random values and clock
  readings are inputs of the call.
\<close>

definition SERVER_CAPABILITIES :: u32 where
  "SERVER_CAPABILITIES = CAP_IPV4 OR CAP_DNS OR CAP_RESUME"

record ('vk, 'r) Crypto =
  ed_verify :: "'vk \<Rightarrow> bytes \<Rightarrow> bytes \<Rightarrow> bool"
  is_revoked :: "'r \<Rightarrow> bytes \<Rightarrow> bool \<times> 'r"

record Rng =
  rng_id :: bytes
  rng_nonce :: bytes

record ('vk, 'r) Server =
  srv_sessions :: SessionManager
  srv_verifier :: "('vk, 'r) SubscriptionVerifier"

datatype Out = Send ClientLink Frame | TunWrite bytes

definition unix_time :: "Env \<Rightarrow> u64" where
  "unix_time env = env_unix_ms env div 1000"

section \<open>Replies\<close>

text \<open>\<open>ClientLink::send\<close>: a detached link swallows the bytes.\<close>

fun link_send :: "ClientLink \<Rightarrow> Frame \<Rightarrow> Out list" where
  "link_send Detached f = []"
| "link_send l f = [Send l f]"

definition send_access_denied :: "ClientLink \<Rightarrow> u64 \<Rightarrow> DenyReason \<Rightarrow> u64 \<Rightarrow> Out list" where
  "send_access_denied link seq reason expires =
     link_send link (mk_frame AccessDeniedDude (seq + 1)
       (access_denied_dude_encode (access_denied_dude_new reason expires)))"

definition send_close :: "ClientLink \<Rightarrow> SessionId \<Rightarrow> CloseReason \<Rightarrow> Out list" where
  "send_close link sid reason = link_send link (mk_frame Close 0 (close_encode (close_new sid reason)))"

definition send_rekey :: "ClientLink \<Rightarrow> SessionId \<Rightarrow> bytes \<Rightarrow> Out list" where
  "send_rekey link sid nonce = link_send link (mk_frame Rekey 0 (rekey_encode (rekey_token sid nonce)))"

fun auth_error_to_deny :: "AuthError \<Rightarrow> u64 \<Rightarrow> DenyReason \<times> u64" where
  "auth_error_to_deny Expired expires = (SubscriptionExpired, expires)"
| "auth_error_to_deny Revoked expires = (TokenRevoked, 0)"
| "auth_error_to_deny NotYetValid expires = (SubscriptionNotActive, 0)"
| "auth_error_to_deny (UnknownKeyId _) expires = (UnknownSigningKey, 0)"
| "auth_error_to_deny (UnknownPlan _) expires = (UnsupportedPlan, 0)"
| "auth_error_to_deny _ expires = (InvalidToken, 0)"

section \<open>Handlers\<close>

definition handle_whats_up_dude ::
  "('vk, 'r) Crypto \<Rightarrow> Env \<Rightarrow> Rng \<Rightarrow> ('vk, 'r) Server \<Rightarrow> ClientLink \<Rightarrow> SocketAddr \<Rightarrow> Frame \<Rightarrow>
     ('vk, 'r) Server \<times> Out list" where
  "handle_whats_up_dude P env rng srv link address frame =
    (let seq = sequence frame in
     case whats_up_dude_decode (payload frame) of
       Err _ \<Rightarrow> (srv, []) | Panic \<Rightarrow> (srv, [])
     | Ok whats_up \<Rightarrow>
       (case token_decode (wud_auth_token whats_up) of
          Err _ \<Rightarrow> (srv, send_access_denied link seq InvalidToken 0) | Panic \<Rightarrow> (srv, [])
        | Ok token \<Rightarrow>
          (case verify_at (ed_verify P) (is_revoked P) (srv_verifier srv) token (unix_time env) of
             (Err e, v') \<Rightarrow>
               (let (reason, expires) = auth_error_to_deny e (expires_at (claims token)) in
                (srv\<lparr>srv_verifier := v'\<rparr>, send_access_denied link seq reason expires))
           | (Panic, v') \<Rightarrow> (srv\<lparr>srv_verifier := v'\<rparr>, [])
           | (Ok c, v') \<Rightarrow>
             (let capabilities = wud_capabilities whats_up AND SERVER_CAPABILITIES;
                  (created, m') = create_session env (srv_sessions srv) address link capabilities
                    (wud_client_nonce whats_up) seq PAYPHONE_MTU c (rng_id rng) (rng_nonce rng);
                  srv' = srv\<lparr>srv_sessions := m', srv_verifier := v'\<rparr>
              in case created of
                   Err NoAddresses \<Rightarrow> (srv', send_access_denied link seq InternalAuthError 0)
                 | Panic \<Rightarrow> (srv', [])
                 | Ok (all_good, kicked) \<Rightarrow>
                   (srv', concat (map (\<lambda>k. send_close (kicked_link k) (kicked_id k) Replaced) kicked) @
                      link_send link (mk_frame AllGoodDude (seq + 1) (all_good_dude_encode all_good)))))))"

text \<open>
  \<open>handle_back_again_dude\<close> takes the session lock twice: to check the
  access of the session, and to remove or resume it.
\<close>

definition back_again_check ::
  "('vk, 'r) Crypto \<Rightarrow> Env \<Rightarrow> ('vk, 'r) Server \<Rightarrow> BackAgainDude \<Rightarrow> DenyReason option \<times> ('vk, 'r) Server" where
  "back_again_check P env srv message =
    (case get (srv_sessions srv) (bad_session_id message) of
       None \<Rightarrow> (None, srv)
     | Some s \<Rightarrow>
         let (err, v') = access_error (is_revoked P) env (srv_verifier srv) s
         in (err, srv\<lparr>srv_verifier := v'\<rparr>))"

definition back_again_finish ::
  "Env \<Rightarrow> ('vk, 'r) Server \<Rightarrow> ClientLink \<Rightarrow> SocketAddr \<Rightarrow> u64 \<Rightarrow> BackAgainDude \<Rightarrow> DenyReason option \<Rightarrow>
     ('vk, 'r) Server \<times> Out list" where
  "back_again_finish env srv link address seq message denied =
    (case denied of
       Some reason \<Rightarrow>
         (srv\<lparr>srv_sessions := snd (remove env (srv_sessions srv) (bad_session_id message))\<rparr>,
          send_access_denied link seq reason 0)
     | None \<Rightarrow>
         (case resume_session env (srv_sessions srv) (bad_session_id message) (bad_resume_token message)
                 address link seq PAYPHONE_MTU of
            (None, m') \<Rightarrow> (srv\<lparr>srv_sessions := m'\<rparr>, send_access_denied link seq InvalidToken 0)
          | (Some still_good, m') \<Rightarrow>
              (srv\<lparr>srv_sessions := m'\<rparr>,
               link_send link (mk_frame StillGoodDude (seq + 1) (still_good_dude_encode still_good)))))"

definition handle_back_again_dude ::
  "('vk, 'r) Crypto \<Rightarrow> Env \<Rightarrow> ('vk, 'r) Server \<Rightarrow> ClientLink \<Rightarrow> SocketAddr \<Rightarrow> Frame \<Rightarrow>
     ('vk, 'r) Server \<times> Out list" where
  "handle_back_again_dude P env srv link address frame =
    (case back_again_dude_decode (payload frame) of
       Err _ \<Rightarrow> (srv, []) | Panic \<Rightarrow> (srv, [])
     | Ok message \<Rightarrow>
         let (denied, srv1) = back_again_check P env srv message
         in back_again_finish env srv1 link address (sequence frame) message denied)"

definition handle_data ::
  "Env \<Rightarrow> ('vk, 'r) Server \<Rightarrow> SocketAddr \<Rightarrow> Frame \<Rightarrow> ('vk, 'r) Server \<times> Out list" where
  "handle_data env srv address frame =
    (case data_decode (payload frame) of
       Err _ \<Rightarrow> (srv, []) | Panic \<Rightarrow> (srv, [])
     | Ok d \<Rightarrow>
       (let sid = data_session_id d; m = srv_sessions srv in
        case get m sid of
          None \<Rightarrow> (srv, [])
        | Some s \<Rightarrow>
          if s_client_address s \<noteq> address then (srv, [])
          else if unix_time env \<ge> s_subscription_expires_at s then (srv, [])
          else
            let (accepted, seen) = accept_sequence (s_last_sequence s) (sequence frame);
                s1 = s\<lparr>s_last_sequence := seen\<rparr>
            in if \<not> accepted then (srv\<lparr>srv_sessions := put m sid s1\<rparr>, [])
            else
              let (allowed, r') = rate_allow (env_unix_ms env) (of_nat (length (data_payload d))) (s_rate s1);
                  s2 = s1\<lparr>s_rate := r'\<rparr>
              in if \<not> allowed then (srv\<lparr>srv_sessions := put m sid s2\<rparr>, [])
              else if ipv4_source (data_payload d) \<noteq> Some (s_ipv4 s2)
              then (srv\<lparr>srv_sessions := put m sid s2\<rparr>, [])
              else (srv\<lparr>srv_sessions := put m sid (record_activity env s2)\<rparr>,
                    [TunWrite (data_payload d)])))"

definition handle_ping ::
  "Env \<Rightarrow> Rng \<Rightarrow> ('vk, 'r) Server \<Rightarrow> ClientLink \<Rightarrow> SocketAddr \<Rightarrow> Frame \<Rightarrow> ('vk, 'r) Server \<times> Out list" where
  "handle_ping env rng srv link address frame =
    (case ping_decode (payload frame) of
       Err _ \<Rightarrow> (srv, []) | Panic \<Rightarrow> (srv, [])
     | Ok ping \<Rightarrow>
       (let (touched, m') = touch_session env (srv_sessions srv) (ping_session_id ping) address
                              (sequence frame) (rng_nonce rng);
            srv' = srv\<lparr>srv_sessions := m'\<rparr>
        in case touched of
             None \<Rightarrow> (srv', [])
           | Some rekey_nonce \<Rightarrow>
             (srv', link_send link (mk_frame Pong (sequence frame + 1)
                      (pong_encode (pong_new (ping_session_id ping) (ping_ping_id ping)))) @
                (case rekey_nonce of
                   Some nonce \<Rightarrow> send_rekey link (ping_session_id ping) nonce
                 | None \<Rightarrow> []))))"

definition handle_rekey ::
  "Env \<Rightarrow> Rng \<Rightarrow> ('vk, 'r) Server \<Rightarrow> ClientLink \<Rightarrow> SocketAddr \<Rightarrow> Frame \<Rightarrow> ('vk, 'r) Server \<times> Out list" where
  "handle_rekey env rng srv link address frame =
    (case rekey_decode (payload frame) of
       Err _ \<Rightarrow> (srv, []) | Panic \<Rightarrow> (srv, [])
     | Ok rekey \<Rightarrow>
       (let sid = rekey_session_id rekey;
            (nonce, m') = (case rekey of
               RekeyRequest _ \<Rightarrow> rekey_offer env (srv_sessions srv) sid address (rng_nonce rng)
             | RekeyToken _ n \<Rightarrow> rekey_confirm env (srv_sessions srv) sid n address);
            srv' = srv\<lparr>srv_sessions := m'\<rparr>
        in case nonce of None \<Rightarrow> (srv', []) | Some n \<Rightarrow> (srv', send_rekey link sid n)))"

definition handle_close ::
  "Env \<Rightarrow> ('vk, 'r) Server \<Rightarrow> ClientLink \<Rightarrow> SocketAddr \<Rightarrow> Frame \<Rightarrow> ('vk, 'r) Server \<times> Out list" where
  "handle_close env srv link address frame =
    (case close_decode (payload frame) of
       Err _ \<Rightarrow> (srv, []) | Panic \<Rightarrow> (srv, [])
     | Ok close \<Rightarrow>
       (let sid = close_session_id close; m = srv_sessions srv in
        case get m sid of
          None \<Rightarrow> (srv, [])
        | Some s \<Rightarrow>
          if s_client_address s = address then
            (srv\<lparr>srv_sessions := snd (remove env m sid)\<rparr>, send_close link sid (close_reason close))
          else (srv, [])))"

section \<open>Access gate and dispatch\<close>

datatype Gate = GateIgnore | GateDenied SessionId DenyReason | GatePass

definition session_command :: "FrameType \<Rightarrow> bool" where
  "session_command t \<longleftrightarrow> t = Data \<or> t = Ping \<or> t = Rekey \<or> t = Close"

definition gate ::
  "('vk, 'r) Crypto \<Rightarrow> Env \<Rightarrow> ('vk, 'r) Server \<Rightarrow> SocketAddr \<Rightarrow> Frame \<Rightarrow> Gate \<times> ('vk, 'r) Server" where
  "gate P env srv address frame =
    (if \<not> session_command (frame_type frame) then (GatePass, srv)
     else if length (payload frame) < 16 then (GateIgnore, srv)
     else let sid = take 16 (payload frame) in
       case get (srv_sessions srv) sid of
         None \<Rightarrow> (GateIgnore, srv)
       | Some s \<Rightarrow>
         if s_client_address s \<noteq> address then (GateIgnore, srv)
         else let (err, v') = access_error (is_revoked P) env (srv_verifier srv) s in
           (case err of Some reason \<Rightarrow> GateDenied sid reason | None \<Rightarrow> GatePass,
            srv\<lparr>srv_verifier := v'\<rparr>))"

definition gate_deny ::
  "Env \<Rightarrow> ('vk, 'r) Server \<Rightarrow> SessionId \<Rightarrow> DenyReason \<Rightarrow> u64 \<Rightarrow> ('vk, 'r) Server \<times> Out list" where
  "gate_deny env srv sid reason seq =
    (let (removed, m') = remove env (srv_sessions srv) sid; srv' = srv\<lparr>srv_sessions := m'\<rparr> in
     case removed of
       Some s \<Rightarrow> (srv', send_access_denied (s_link s) seq reason (s_subscription_expires_at s))
     | None \<Rightarrow> (srv', []))"

definition dispatch ::
  "('vk, 'r) Crypto \<Rightarrow> Env \<Rightarrow> Rng \<Rightarrow> ('vk, 'r) Server \<Rightarrow> ClientLink \<Rightarrow> SocketAddr \<Rightarrow> Frame \<Rightarrow>
     ('vk, 'r) Server \<times> Out list" where
  "dispatch P env rng srv link address frame =
    (case frame_type frame of
       WhatsUpDude \<Rightarrow> handle_whats_up_dude P env rng srv link address frame
     | BackAgainDude \<Rightarrow> handle_back_again_dude P env srv link address frame
     | Data \<Rightarrow> handle_data env srv address frame
     | Ping \<Rightarrow> handle_ping env rng srv link address frame
     | Pong \<Rightarrow> (srv, []) | AllGoodDude \<Rightarrow> (srv, []) | StillGoodDude \<Rightarrow> (srv, [])
     | AccessDeniedDude \<Rightarrow> (srv, [])
     | Rekey \<Rightarrow> handle_rekey env rng srv link address frame
     | Close \<Rightarrow> handle_close env srv link address frame)"

definition handle_frame ::
  "('vk, 'r) Crypto \<Rightarrow> Env \<Rightarrow> Rng \<Rightarrow> ('vk, 'r) Server \<Rightarrow> ClientLink \<Rightarrow> SocketAddr \<Rightarrow> Frame \<Rightarrow>
     ('vk, 'r) Server \<times> Out list" where
  "handle_frame P env rng srv link address frame =
    (case gate P env srv address frame of
       (GateIgnore, srv1) \<Rightarrow> (srv1, [])
     | (GateDenied sid reason, srv1) \<Rightarrow> gate_deny env srv1 sid reason (sequence frame)
     | (GatePass, srv1) \<Rightarrow> dispatch P env rng srv1 link address frame)"

definition handle_packet ::
  "('vk, 'r) Crypto \<Rightarrow> Env \<Rightarrow> Rng \<Rightarrow> ('vk, 'r) Server \<Rightarrow> nat \<Rightarrow> SocketAddr \<Rightarrow> bytes \<Rightarrow>
     ('vk, 'r) Server \<times> Out list" where
  "handle_packet P env rng srv connection remote_address packet =
    (case frame_decode packet of
       Ok frame \<Rightarrow> handle_frame P env rng srv (Quic connection) remote_address frame
     | Err _ \<Rightarrow> (srv, [])
     | Panic \<Rightarrow> (srv, []))"

section \<open>The session table under the handlers\<close>

definition rng_ok :: "Rng \<Rightarrow> bool" where
  "rng_ok rng \<longleftrightarrow> length (rng_id rng) = SESSION_ID_SIZE \<and> length (rng_nonce rng) = SERVER_NONCE_SIZE"

abbreviation srv_inv :: "('vk, 'r) Server \<Rightarrow> bool" where
  "srv_inv srv \<equiv> mgr_inv (srv_sessions srv)"

lemma verify_at_Ok:
  assumes "verify_at ev ir v t now = (Ok c, v')"
  shows "c = claims t \<and> (\<exists>vk. keys v (key_id c) = Some vk \<and> ev vk (encode_payload c) (signature t)) \<and>
    not_before c < expires_at c \<and> now < expires_at c \<and> \<not> fst (ir (revocations v) (token_id c))"
  using assms
  by (auto simp: verify_at_def keyring_get_def verify_signature_def Let_def case_prod_unfold
      not_le split: option.splits if_splits)

lemma handle_whats_up_dude_inv:
  assumes "srv_inv srv" "rng_ok rng"
  shows "srv_inv (fst (handle_whats_up_dude P env rng srv link address frame))"
proof (cases "whats_up_dude_decode (payload frame)")
  case w: (Ok w)
  have nonce: "length (wud_client_nonce w) = 32"
    using whats_up_dude.decode_valid [OF w] by (simp add: whats_up_dude_valid_def constants)
  show ?thesis
  proof (cases "token_decode (wud_auth_token w)")
    case t: (Ok t)
    have valid: "claims_valid (claims t)"
      using token_decode_Ok [OF t] by (simp add: token_valid_def)
    obtain res v' where
      v: "verify_at (ed_verify P) (is_revoked P) (srv_verifier srv) t (unix_time env) = (res, v')"
      by force
    show ?thesis
    proof (cases res)
      case (Ok c)
      have "c = claims t" using verify_at_Ok v Ok by blast
      then have "srv_inv (srv\<lparr>srv_sessions := snd (create_session env (srv_sessions srv) address link
          (wud_capabilities w AND SERVER_CAPABILITIES) (wud_client_nonce w) (sequence frame)
          PAYPHONE_MTU c (rng_id rng) (rng_nonce rng)), srv_verifier := v'\<rparr>)"
        using assms valid nonce mgr_inv_create by (simp add: rng_ok_def)
      then show ?thesis
        using w t v Ok
        by (auto simp: handle_whats_up_dude_def Let_def case_prod_unfold
            split: outcome.splits CreateSessionError.splits)
    qed (use assms w t v in \<open>simp_all add: handle_whats_up_dude_def Let_def case_prod_unfold\<close>)
  qed (use assms w in \<open>simp_all add: handle_whats_up_dude_def\<close>)
qed (use assms in \<open>simp_all add: handle_whats_up_dude_def\<close>)

lemma back_again_check_sessions [simp]:
  "srv_sessions (snd (back_again_check P env srv message)) = srv_sessions srv"
  by (simp add: back_again_check_def Let_def case_prod_unfold split: option.split)

lemma back_again_finish_inv:
  assumes "srv_inv srv"
  shows "srv_inv (fst (back_again_finish env srv link address seq message denied))"
  using assms mgr_inv_remove mgr_inv_resume
    [OF assms, of env "bad_session_id message" "bad_resume_token message" address link seq PAYPHONE_MTU]
  by (auto simp: back_again_finish_def split: option.splits prod.splits)

lemma handle_back_again_dude_inv:
  "srv_inv srv \<Longrightarrow> srv_inv (fst (handle_back_again_dude P env srv link address frame))"
  by (simp add: handle_back_again_dude_def Let_def case_prod_unfold back_again_finish_inv split: outcome.split)

lemma handle_data_inv:
  assumes "srv_inv srv"
  shows "srv_inv (fst (handle_data env srv address frame))"
proof (cases "data_decode (payload frame)")
  case (Ok d)
  show ?thesis
  proof (cases "get (srv_sessions srv) (data_session_id d)")
    case (Some s)
    have wf: "session_wf s" by (rule mgr_inv_wf [OF assms Some])
    then have "mgr_inv (put (srv_sessions srv) (data_session_id d) s')"
      if "s_id s' = s_id s" "s_ipv4 s' = s_ipv4 s" "session_wf s'" for s'
      using that by (intro mgr_inv_put [OF assms Some])
    with wf Ok Some assms show ?thesis
      by (simp add: handle_data_def Let_def case_prod_unfold record_activity_def session_wf_def)
  qed (simp_all add: assms Ok handle_data_def Let_def)
qed (simp_all add: assms handle_data_def)

lemma handle_ping_inv:
  assumes "srv_inv srv" "rng_ok rng"
  shows "srv_inv (fst (handle_ping env rng srv link address frame))"
  using assms mgr_inv_touch
  by (auto simp: handle_ping_def rng_ok_def Let_def case_prod_unfold split: outcome.splits option.splits)

lemma handle_rekey_inv:
  assumes "srv_inv srv" "rng_ok rng"
  shows "srv_inv (fst (handle_rekey env rng srv link address frame))"
  using assms mgr_inv_rekey_offer mgr_inv_rekey_confirm
  by (auto simp: handle_rekey_def rng_ok_def Let_def case_prod_unfold
      split: outcome.splits option.splits RekeyMsg.splits)

lemma handle_close_inv:
  "srv_inv srv \<Longrightarrow> srv_inv (fst (handle_close env srv link address frame))"
  by (simp add: handle_close_def Let_def mgr_inv_remove split: outcome.split option.split)

lemma gate_sessions [simp]: "srv_sessions (snd (gate P env srv address frame)) = srv_sessions srv"
  by (simp add: gate_def Let_def case_prod_unfold split: option.split)

lemma gate_deny_inv: "srv_inv srv \<Longrightarrow> srv_inv (fst (gate_deny env srv sid reason seq))"
  using mgr_inv_remove
  by (auto simp: gate_deny_def Let_def case_prod_unfold split: option.split)

lemma dispatch_inv:
  "srv_inv srv \<Longrightarrow> rng_ok rng \<Longrightarrow> srv_inv (fst (dispatch P env rng srv link address frame))"
  by (simp add: dispatch_def handle_whats_up_dude_inv handle_back_again_dude_inv handle_data_inv
      handle_ping_inv handle_rekey_inv handle_close_inv split: FrameType.split)

lemma handle_frame_inv:
  assumes "srv_inv srv" "rng_ok rng"
  shows "srv_inv (fst (handle_frame P env rng srv link address frame))"
  using assms gate_sessions [of P env srv address frame]
  by (auto simp: handle_frame_def gate_deny_inv dispatch_inv simp del: gate_sessions
      split: prod.splits Gate.splits)

section \<open>What the handlers let through\<close>

lemma link_send_no_tun [simp]: "TunWrite p \<notin> set (link_send l f)"
  by (cases l) auto

lemma in_link_send: "x \<in> set (link_send l f) \<longleftrightarrow> l \<noteq> Detached \<and> x = Send l f"
  by (cases l) auto

lemma replies_no_tun [simp]:
  "TunWrite p \<notin> set (send_access_denied l q r e)" "TunWrite p \<notin> set (send_close l sid cr)"
  "TunWrite p \<notin> set (send_rekey l sid n)"
  by (simp_all add: send_access_denied_def send_close_def send_rekey_def)

text \<open>The exact condition under which a client packet reaches the TUN device.\<close>

lemma handle_data_tun_iff:
  "TunWrite p \<in> set (snd (handle_data env srv address frame)) \<longleftrightarrow>
    (\<exists>d s. data_decode (payload frame) = Ok d \<and> p = data_payload d \<and>
       get (srv_sessions srv) (data_session_id d) = Some s \<and>
       s_client_address s = address \<and>
       unix_time env < s_subscription_expires_at s \<and>
       fst (accept_sequence (s_last_sequence s) (sequence frame)) \<and>
       fst (rate_allow (env_unix_ms env) (of_nat (length p)) (s_rate s)) \<and>
       ipv4_source p = Some (s_ipv4 s))"
  by (cases "data_decode (payload frame)")
    (auto simp: handle_data_def Let_def case_prod_unfold not_le split: option.splits if_splits)

lemma dispatch_tun:
  assumes "TunWrite p \<in> set (snd (dispatch P env rng srv link address frame))"
  shows "frame_type frame = Data \<and> TunWrite p \<in> set (snd (handle_data env srv address frame))"
  using assms
  by (cases "frame_type frame")
    (auto simp: dispatch_def handle_whats_up_dude_def handle_back_again_dude_def back_again_finish_def
      handle_ping_def handle_rekey_def handle_close_def Let_def case_prod_unfold
      split: outcome.splits option.splits CreateSessionError.splits if_splits)

lemma data_decode_session_id:
  "data_decode b = Ok d \<Longrightarrow> 16 \<le> length b \<and> data_session_id d = take 16 b"
  using data.canonical [of b d] data.decode_valid [of b d]
  by (auto simp: data_encode_def data_valid_def constants)

text \<open>
  Passing the gate means: the session exists, belongs to the sender and is
  currently allowed.
\<close>

definition access_denied_now ::
  "('vk, 'r) Crypto \<Rightarrow> Env \<Rightarrow> ('vk, 'r) Server \<Rightarrow> Session \<Rightarrow> bool" where
  "access_denied_now P env srv s \<longleftrightarrow> unix_time env \<ge> s_subscription_expires_at s \<or>
     fst (is_revoked P (revocations (srv_verifier srv)) (s_token_id s))"

lemma access_error_Some_iff:
  "fst (access_error (is_revoked P) env (srv_verifier srv) s) \<noteq> None \<longleftrightarrow> access_denied_now P env srv s"
  by (auto simp: access_error_def access_denied_now_def verify_session_at_def unix_time_def Let_def
      case_prod_unfold)

lemma access_error_reason:
  "access_error (is_revoked P) env (srv_verifier srv) s = (Some r, v') \<Longrightarrow>
     r = (if unix_time env \<ge> s_subscription_expires_at s then SubscriptionExpired else TokenRevoked)"
  by (auto simp: access_error_def verify_session_at_def unix_time_def Let_def case_prod_unfold
      split: if_splits)

lemma gate_pass:
  assumes "gate P env srv address frame = (GatePass, srv')" "session_command (frame_type frame)"
  shows "\<exists>s. get (srv_sessions srv) (take 16 (payload frame)) = Some s \<and>
    s_client_address s = address \<and> \<not> access_denied_now P env srv s"
proof -
  obtain s where s: "get (srv_sessions srv) (take 16 (payload frame)) = Some s"
    "s_client_address s = address" "fst (access_error (is_revoked P) env (srv_verifier srv) s) = None"
    using assms by (auto simp: gate_def Let_def case_prod_unfold split: option.splits if_splits)
  with access_error_Some_iff [of P env srv s] show ?thesis by auto
qed

lemma gate_denied:
  assumes "session_command (frame_type frame)" "16 \<le> length (payload frame)"
    and "get (srv_sessions srv) (take 16 (payload frame)) = Some s" "s_client_address s = address"
    and "access_denied_now P env srv s"
  shows "\<exists>srv'. gate P env srv address frame =
    (GateDenied (take 16 (payload frame))
       (if unix_time env \<ge> s_subscription_expires_at s then SubscriptionExpired else TokenRevoked), srv')"
proof -
  obtain r v' where "access_error (is_revoked P) env (srv_verifier srv) s = (Some r, v')"
    using access_error_Some_iff [of P env srv s] assms(5)
    by (cases "access_error (is_revoked P) env (srv_verifier srv) s") auto
  with access_error_reason [OF this] assms show ?thesis
    by (auto simp: gate_def Let_def)
qed

lemma handle_frame_tun:
  assumes "TunWrite p \<in> set (snd (handle_frame P env rng srv link address frame))"
  shows "\<exists>s. get (srv_sessions srv) (take 16 (payload frame)) = Some s \<and>
     frame_type frame = Data \<and> payload frame \<noteq> [] \<and>
     s_client_address s = address \<and> \<not> access_denied_now P env srv s \<and>
     fst (accept_sequence (s_last_sequence s) (sequence frame)) \<and>
     fst (rate_allow (env_unix_ms env) (of_nat (length p)) (s_rate s)) \<and>
     ipv4_source p = Some (s_ipv4 s)"
proof -
  obtain g srv1 where g: "gate P env srv address frame = (g, srv1)" by force
  have pass: "g = GatePass"
    using assms g by (cases g) (auto simp: handle_frame_def gate_deny_def Let_def case_prod_unfold
        split: option.splits)
  have sess: "srv_sessions srv1 = srv_sessions srv"
    using gate_sessions [of P env srv address frame] g by simp
  have d: "frame_type frame = Data" "TunWrite p \<in> set (snd (handle_data env srv1 address frame))"
    using assms g pass dispatch_tun [of p P env rng srv1 link address frame]
    by (simp_all add: handle_frame_def)
  then obtain d s where s: "data_decode (payload frame) = Ok d" "p = data_payload d"
    "get (srv_sessions srv) (data_session_id d) = Some s"
    "fst (accept_sequence (s_last_sequence s) (sequence frame))"
    "fst (rate_allow (env_unix_ms env) (of_nat (length p)) (s_rate s))"
    "ipv4_source p = Some (s_ipv4 s)"
    unfolding handle_data_tun_iff sess by blast
  moreover have "data_session_id d = take 16 (payload frame)" "payload frame \<noteq> []"
    using data_decode_session_id [OF s(1)] by auto
  moreover have "session_command (frame_type frame)" using d by (simp add: session_command_def)
  moreover note gate_pass [OF g [unfolded pass] this]
  ultimately show ?thesis using d by auto
qed

end
