(* ===== verification/Client.thy ===== *)
theory Client
  imports Tun
begin

text \<open>
  The client (\<open>payphone-client/src\<close>): the encrypted session file
  (\<open>session_file.rs\<close>), the handshake with resumption and token rotation
  (\<open>main.rs\<close>) and the tunnel loop (\<open>tunnel.rs\<close>).  The AEAD and
  SHA-256 are parameters; the frames a peer answers with, timeouts and failing
  writes are inputs.
\<close>

section \<open>Session file\<close>

definition FILE_MAGIC :: bytes where "FILE_MAGIC = [0x50, 0x41, 0x59, 0x45]"
definition FILE_VERSION :: u8 where [constants]: "FILE_VERSION = 1"
definition NONCE_SIZE :: nat where [constants]: "NONCE_SIZE = 12"
definition PLAINTEXT_SIZE :: nat where
  [constants]: "PLAINTEXT_SIZE = SESSION_ID_SIZE + SERVER_NONCE_SIZE"
definition TAG_SIZE :: nat where [constants]: "TAG_SIZE = 16"

record SavedSession =
  saved_session_id :: bytes
  saved_resume_token :: bytes

text \<open>ChaCha20-Poly1305 under a 32-byte key: encryption may be refused, decryption
  authenticates.\<close>

record Aead =
  aead_encrypt :: "bytes \<Rightarrow> bytes \<Rightarrow> bytes \<Rightarrow> bytes option"
  aead_decrypt :: "bytes \<Rightarrow> bytes \<Rightarrow> bytes \<Rightarrow> bytes option"

definition derive_key :: "(bytes \<Rightarrow> bytes) \<Rightarrow> bytes \<Rightarrow> bytes" where
  "derive_key sha256 psk = sha256 (map of_char ''payphone-session-v1'' @ psk)"

text \<open>\<open>rng\<close> is the nonce the operating system provides, if it does.\<close>

definition seal :: "Aead \<Rightarrow> bytes option \<Rightarrow> bytes \<Rightarrow> bytes \<Rightarrow> bytes option" where
  "seal aead rng key plaintext =
    (case rng of
       None \<Rightarrow> None
     | Some nonce \<Rightarrow>
         (case aead_encrypt aead key nonce plaintext of
            None \<Rightarrow> None
          | Some ciphertext \<Rightarrow> Some (FILE_MAGIC @ [FILE_VERSION] @ nonce @ ciphertext)))"

definition open_file :: "Aead \<Rightarrow> bytes \<Rightarrow> bytes \<Rightarrow> bytes option" where
  "open_file aead key data =
    (if length data = PLAINTEXT_SIZE then Some data
     else if length data < 4 + 1 + NONCE_SIZE + TAG_SIZE \<or> take 4 data \<noteq> FILE_MAGIC \<or>
       data ! 4 \<noteq> FILE_VERSION then None
     else
       let nonce = take NONCE_SIZE (drop 5 data) in
       case aead_decrypt aead key nonce (drop (5 + NONCE_SIZE) data) of
         None \<Rightarrow> None
       | Some plaintext \<Rightarrow> if length plaintext \<noteq> PLAINTEXT_SIZE then None else Some plaintext)"

text \<open>\<open>save\<close> yields the bytes written to the session file; \<open>load\<close> gets
  the bytes read from it, if any.\<close>

definition save_bytes :: "Aead \<Rightarrow> bytes option \<Rightarrow> bytes \<Rightarrow> SavedSession \<Rightarrow> bytes option" where
  "save_bytes aead rng key s = seal aead rng key (saved_session_id s @ saved_resume_token s)"

definition load :: "Aead \<Rightarrow> bytes \<Rightarrow> bytes option \<Rightarrow> SavedSession option" where
  "load aead key read_result =
    (case read_result of
       None \<Rightarrow> None
     | Some data \<Rightarrow>
         map_option (\<lambda>plaintext.
           \<lparr>saved_session_id = take SESSION_ID_SIZE plaintext,
            saved_resume_token = drop SESSION_ID_SIZE plaintext\<rparr>) (open_file aead key data))"

lemma length_FILE_MAGIC [simp]: "length FILE_MAGIC = 4"
  by (simp add: FILE_MAGIC_def)

lemma load_save:
  assumes "saved_session_id s = sid" "length sid = SESSION_ID_SIZE"
    and "saved_resume_token s = tok" "length tok = SERVER_NONCE_SIZE"
    and "length nonce = NONCE_SIZE"
    and "aead_encrypt aead key nonce (sid @ tok) = Some ct" "length ct = PLAINTEXT_SIZE + TAG_SIZE"
    and "aead_decrypt aead key nonce ct = Some (sid @ tok)"
  shows "\<exists>file. save_bytes aead (Some nonce) key s = Some file \<and>
    load aead key (Some file) = Some \<lparr>saved_session_id = sid, saved_resume_token = tok\<rparr>"
proof -
  let ?file = "FILE_MAGIC @ [FILE_VERSION] @ nonce @ ct"
  have "length ?file \<noteq> PLAINTEXT_SIZE" "\<not> length ?file < 4 + 1 + NONCE_SIZE + TAG_SIZE"
    using assms by (simp_all add: constants)
  moreover have "drop (5 + NONCE_SIZE) ?file = ct" "take NONCE_SIZE (drop 5 ?file) = nonce"
    "?file ! 4 = FILE_VERSION" "take 4 ?file = FILE_MAGIC"
    using assms by (simp_all add: nth_append)
  ultimately have "open_file aead key ?file = Some (sid @ tok)"
    using assms by (simp add: open_file_def constants)
  then show ?thesis
    using assms by (simp add: save_bytes_def seal_def load_def)
qed

section \<open>Keepalive interval\<close>

definition PING_INTERVAL_MIN :: nat where [constants]: "PING_INTERVAL_MIN = 7000"
definition PING_INTERVAL_JITTER :: nat where [constants]: "PING_INTERVAL_JITTER = 7000"

text \<open>In milliseconds, from the two random bytes.\<close>

definition random_ping_interval :: "bytes \<Rightarrow> nat" where
  "random_ping_interval jitter_bytes =
    (let jitter_fraction = unat (from_be jitter_bytes :: u16);
         jitter = PING_INTERVAL_JITTER * jitter_fraction div U16_MAX
     in PING_INTERVAL_MIN + jitter)"

section \<open>Client state\<close>

definition CLIENT_VERSION :: u16 where [constants]: "CLIENT_VERSION = 1"
definition CLIENT_CAPABILITIES :: u32 where
  "CLIENT_CAPABILITIES = CAP_IPV4 OR CAP_IPV6 OR CAP_DNS OR CAP_RESUME OR CAP_ROAMING"

record ActiveSession =
  act_session_id :: bytes
  act_assigned_ipv4 :: bytes
  act_mtu :: u16
  act_capabilities :: u32

text \<open>The session file is kept as the session it would load; \<open>None\<close> is a
  missing or unreadable file.\<close>

type_synonym Saved = "SavedSession option"

definition save_session :: "bool \<Rightarrow> Saved \<Rightarrow> bytes \<Rightarrow> bytes \<Rightarrow> Saved" where
  "save_session write_ok saved sid tok =
    (if write_ok then Some \<lparr>saved_session_id = sid, saved_resume_token = tok\<rparr> else saved)"

section \<open>Handshake\<close>

text \<open>A reply is the frame read in time, or nothing after a timeout or an error.\<close>

fun as_token :: "(FrameError, RekeyMsg) outcome \<Rightarrow> bytes \<Rightarrow> bytes option" where
  "as_token (Ok (RekeyToken sid nonce)) session_id = (if sid = session_id then Some nonce else None)"
| "as_token _ session_id = None"

definition rotate_resume_token ::
  "bool \<Rightarrow> bool \<Rightarrow> bool \<Rightarrow> Saved \<Rightarrow> bytes \<Rightarrow> Frame option \<Rightarrow> Frame option \<Rightarrow> Saved \<times> Frame list" where
  "rotate_resume_token send_ok write_ok write_ok2 saved sid reply1 reply2 =
    (let request = mk_frame Rekey 2 (rekey_encode (rekey_request sid)) in
     if \<not> send_ok then (saved, [request])
     else case reply1 of
       None \<Rightarrow> (saved, [request])
     | Some frame \<Rightarrow>
       (case as_token (rekey_decode (payload frame)) sid of
          None \<Rightarrow> (saved, [request])
        | Some nonce \<Rightarrow>
          (let saved1 = save_session write_ok saved sid nonce;
               confirm = mk_frame Rekey 3 (rekey_encode (rekey_token sid nonce))
           in case reply2 of
                None \<Rightarrow> (saved1, [request, confirm])
              | Some frame2 \<Rightarrow>
                (case as_token (rekey_decode (payload frame2)) sid of
                   None \<Rightarrow> (saved1, [request, confirm])
                 | Some nonce2 \<Rightarrow> (save_session write_ok2 saved1 sid nonce2, [request, confirm])))))"

datatype ResumeResult = Resumed ActiveSession | NotResumed | ResumeFailed FrameError

definition resume_frame :: "SavedSession \<Rightarrow> Frame" where
  "resume_frame saved = mk_frame BackAgainDude 1
     (back_again_dude_encode (back_again_dude_new (saved_session_id saved) (saved_resume_token saved)))"

definition try_resume :: "SavedSession \<Rightarrow> Frame option \<Rightarrow> ResumeResult" where
  "try_resume saved reply =
    (case reply of
       None \<Rightarrow> NotResumed
     | Some frame \<Rightarrow>
       (case frame_type frame of
          StillGoodDude \<Rightarrow>
            (case still_good_dude_decode (payload frame) of
               Err e \<Rightarrow> ResumeFailed e | Panic \<Rightarrow> NotResumed
             | Ok message \<Rightarrow>
                 if sgd_session_id message \<noteq> saved_session_id saved then NotResumed
                 else Resumed \<lparr>act_session_id = sgd_session_id message,
                   act_assigned_ipv4 = sgd_assigned_ipv4 message, act_mtu = sgd_mtu message,
                   act_capabilities = sgd_capabilities message\<rparr>)
        | AccessDeniedDude \<Rightarrow>
            (case access_denied_dude_decode (payload frame) of
               Err e \<Rightarrow> ResumeFailed e | _ \<Rightarrow> NotResumed)
        | _ \<Rightarrow> NotResumed))"

datatype CreateResult =
    Created ActiveSession bytes
  | CreateDenied DenyReason
  | CreateUnexpected FrameType
  | CreateTimeout
  | CreateFailed FrameError
  | CreatePanic

definition whats_up_frame :: "bytes \<Rightarrow> bytes \<Rightarrow> (FrameError, Frame) outcome" where
  "whats_up_frame token random_nonce =
     obind (whats_up_dude_encode (whats_up_dude_new CLIENT_VERSION CLIENT_CAPABILITIES token random_nonce))
       (\<lambda>body. Ok (mk_frame WhatsUpDude 1 body))"

text \<open>With the session the server nonce is returned, which is saved at once.\<close>

definition create_new_session :: "bytes \<Rightarrow> bytes \<Rightarrow> Frame option \<Rightarrow> CreateResult" where
  "create_new_session token random_nonce reply =
    (case whats_up_frame token random_nonce of
       Panic \<Rightarrow> CreatePanic | Err e \<Rightarrow> CreateFailed e
     | Ok _ \<Rightarrow>
       (case reply of
          None \<Rightarrow> CreateTimeout
        | Some frame \<Rightarrow>
          (case frame_type frame of
             AllGoodDude \<Rightarrow>
               (case all_good_dude_decode (payload frame) of
                  Err e \<Rightarrow> CreateFailed e | Panic \<Rightarrow> CreatePanic
                | Ok all_good \<Rightarrow> Created \<lparr>act_session_id = agd_session_id all_good,
                    act_assigned_ipv4 = agd_assigned_ipv4 all_good, act_mtu = agd_mtu all_good,
                    act_capabilities = agd_capabilities all_good\<rparr> (agd_server_nonce all_good))
           | AccessDeniedDude \<Rightarrow>
               (case access_denied_dude_decode (payload frame) of
                  Err e \<Rightarrow> CreateFailed e | Panic \<Rightarrow> CreatePanic
                | Ok denied \<Rightarrow> CreateDenied (add_reason denied))
           | other \<Rightarrow> CreateUnexpected other)))"

text \<open>
  \<open>establish_session\<close>: resume when a session file loads, otherwise create.
  The inputs are the replies to the resume or create frame and to the two frames
  of the rotation, and whether writing the session file succeeds.
\<close>

record HandshakeInput =
  hs_resume_reply :: "Frame option"
  hs_create_reply :: "Frame option"
  hs_rotate_reply1 :: "Frame option"
  hs_rotate_reply2 :: "Frame option"
  hs_write_ok :: bool
  hs_rotate_send_ok :: bool
  hs_rotate_write1_ok :: bool
  hs_rotate_write2_ok :: bool

datatype EstablishError = EstFrame FrameError | EstCreate CreateResult | EstSave

definition establish_new ::
  "HandshakeInput \<Rightarrow> Saved \<Rightarrow> bytes \<Rightarrow> bytes \<Rightarrow> (EstablishError, ActiveSession) outcome \<times> Saved" where
  "establish_new inp saved token random_nonce =
    (case create_new_session token random_nonce (hs_create_reply inp) of
       Created active nonce \<Rightarrow>
         if \<not> hs_write_ok inp then (Err EstSave, saved)
         else (Ok active, fst (rotate_resume_token (hs_rotate_send_ok inp)
                 (hs_rotate_write1_ok inp) (hs_rotate_write2_ok inp)
                 (save_session True saved (act_session_id active) nonce) (act_session_id active)
                 (hs_rotate_reply1 inp) (hs_rotate_reply2 inp)))
     | other \<Rightarrow> (Err (EstCreate other), saved))"

definition establish_session ::
  "HandshakeInput \<Rightarrow> bool \<Rightarrow> Saved \<Rightarrow> bytes \<Rightarrow> bytes \<Rightarrow> (EstablishError, ActiveSession) outcome \<times> Saved" where
  "establish_session inp file_exists saved token random_nonce =
    (if file_exists then
       (case saved of
          Some s \<Rightarrow>
            (case try_resume s (hs_resume_reply inp) of
               Resumed active \<Rightarrow>
                 (Ok active, fst (rotate_resume_token (hs_rotate_send_ok inp)
                    (hs_rotate_write1_ok inp) (hs_rotate_write2_ok inp) saved (saved_session_id s)
                    (hs_rotate_reply1 inp) (hs_rotate_reply2 inp)))
             | NotResumed \<Rightarrow> establish_new inp None token random_nonce
             | ResumeFailed e \<Rightarrow> (Err (EstFrame e), saved))
        | None \<Rightarrow> establish_new inp saved token random_nonce)
     else establish_new inp saved token random_nonce)"

section \<open>Tunnel loop\<close>

record ClientState =
  cl_active :: ActiveSession
  cl_packet_id :: u64
  cl_frame_sequence :: u64
  cl_ping_id :: u64
  cl_saved :: Saved

datatype ClientOut = NetSend Frame | TunDeliver bytes

datatype TunnelExit =
    Stopped
  | Disconnected
  | DeniedReplaced
  | DeniedServerClosed
  | DeniedAccess DenyReason
  | TunnelError FrameError
  | TunError

definition client_start :: "ActiveSession \<Rightarrow> Saved \<Rightarrow> ClientState" where
  "client_start active saved =
     \<lparr>cl_active = active, cl_packet_id = 1, cl_frame_sequence = 10, cl_ping_id = 1, cl_saved = saved\<rparr>"

text \<open>Each branch of the loop: whether the tunnel ends, the new state, the outputs.\<close>

definition client_on_tun ::
  "ClientState \<Rightarrow> bytes \<Rightarrow> bool \<Rightarrow> TunnelExit option \<times> ClientState \<times> ClientOut list" where
  "client_on_tun st packet send_ok =
    (if length packet = 0 then (None, st, [])
     else
       let frame = mk_frame Data (cl_frame_sequence st)
             (data_encode (data_new (act_session_id (cl_active st)) (cl_packet_id st) packet))
       in if \<not> send_ok then (Some Disconnected, st, [NetSend frame])
       else (None, st\<lparr>cl_packet_id := cl_packet_id st + 1, cl_frame_sequence := cl_frame_sequence st + 1\<rparr>,
             [NetSend frame]))"

definition client_on_frame ::
  "ClientState \<Rightarrow> bool \<Rightarrow> bool \<Rightarrow> Frame option \<Rightarrow> TunnelExit option \<times> ClientState \<times> ClientOut list" where
  "client_on_frame st write_ok tun_ok incoming =
    (let sid = act_session_id (cl_active st) in
     case incoming of
       None \<Rightarrow> (Some Disconnected, st, [])
     | Some frame \<Rightarrow>
       (case frame_type frame of
          Data \<Rightarrow>
            (case data_decode (payload frame) of
               Err e \<Rightarrow> (Some (TunnelError e), st, []) | Panic \<Rightarrow> (None, st, [])
             | Ok d \<Rightarrow> if data_session_id d \<noteq> sid then (None, st, [])
                       else (if tun_ok then None else Some TunError, st, [TunDeliver (data_payload d)]))
        | Pong \<Rightarrow>
            (case pong_decode (payload frame) of
               Err e \<Rightarrow> (Some (TunnelError e), st, []) | _ \<Rightarrow> (None, st, []))
        | Rekey \<Rightarrow>
            (case rekey_decode (payload frame) of
               Ok (RekeyToken rsid nonce) \<Rightarrow>
                 if rsid = sid then
                   let confirm = mk_frame Rekey (cl_frame_sequence st) (rekey_encode (rekey_token rsid nonce))
                   in (None, st\<lparr>cl_saved := save_session write_ok (cl_saved st) rsid nonce,
                                cl_frame_sequence := cl_frame_sequence st + 1\<rparr>, [NetSend confirm])
                 else (None, st, [])
             | _ \<Rightarrow> (None, st, []))
        | Close \<Rightarrow>
            (case close_decode (payload frame) of
               Err e \<Rightarrow> (Some (TunnelError e), st, []) | Panic \<Rightarrow> (None, st, [])
             | Ok close \<Rightarrow>
                 if close_session_id close \<noteq> sid then (None, st, [])
                 else (Some (case close_reason close of
                               Replaced \<Rightarrow> DeniedReplaced
                             | ServerShutdown \<Rightarrow> DeniedServerClosed
                             | ClientShutdown \<Rightarrow> Stopped),
                       st\<lparr>cl_saved := None\<rparr>, []))
        | AccessDeniedDude \<Rightarrow>
            (case access_denied_dude_decode (payload frame) of
               Err e \<Rightarrow> (Some (TunnelError e), st, []) | Panic \<Rightarrow> (None, st, [])
             | Ok denied \<Rightarrow> (Some (DeniedAccess (add_reason denied)), st\<lparr>cl_saved := None\<rparr>, []))
        | _ \<Rightarrow> (None, st, [])))"

definition client_on_ping_timer :: "ClientState \<Rightarrow> TunnelExit option \<times> ClientState \<times> ClientOut list" where
  "client_on_ping_timer st =
     (None, st\<lparr>cl_ping_id := cl_ping_id st + 1, cl_frame_sequence := cl_frame_sequence st + 1\<rparr>,
      [NetSend (mk_frame Ping (cl_frame_sequence st)
         (ping_encode (ping_new (act_session_id (cl_active st)) (cl_ping_id st))))])"

definition client_on_ctrl_c :: "ClientState \<Rightarrow> TunnelExit option \<times> ClientState \<times> ClientOut list" where
  "client_on_ctrl_c st =
     (Some Stopped, st\<lparr>cl_saved := None\<rparr>,
      [NetSend (mk_frame Close (cl_frame_sequence st)
         (close_encode (close_new (act_session_id (cl_active st)) ClientShutdown)))])"

text \<open>\<open>VpnSink::tun_mtu\<close>: the path budget of QUIC when known, the ceiling on TLS.\<close>

datatype VpnSink = QuicSink "nat option" | TlsSink

fun tun_mtu :: "VpnSink \<Rightarrow> u16" where
  "tun_mtu (QuicSink (Some max_datagram)) = mtu_from_datagram_budget max_datagram"
| "tun_mtu (QuicSink None) = PAYPHONE_MTU"
| "tun_mtu TlsSink = PAYPHONE_MTU_MAX"

section \<open>Facts about the loop\<close>

lemma client_saved_on_frame:
  "cl_saved (fst (snd (client_on_frame st True tun_ok (Some frame)))) =
    (if frame_type frame = Rekey then
       (case as_token (rekey_decode (payload frame)) (act_session_id (cl_active st)) of
          Some nonce \<Rightarrow> Some \<lparr>saved_session_id = act_session_id (cl_active st), saved_resume_token = nonce\<rparr>
        | None \<Rightarrow> cl_saved st)
     else if frame_type frame = Close \<and> (\<exists>c. close_decode (payload frame) = Ok c \<and>
         close_session_id c = act_session_id (cl_active st)) then None
     else if frame_type frame = AccessDeniedDude \<and> is_ok (access_denied_dude_decode (payload frame)) then None
     else cl_saved st)"
  by (cases "frame_type frame")
    (auto simp: client_on_frame_def save_session_def Let_def
      split: outcome.splits RekeyMsg.splits CloseReason.splits)

lemma client_frame_data_only:
  "TunDeliver p \<in> set (snd (snd (client_on_frame st w t (Some frame)))) \<longleftrightarrow>
    (\<exists>d. frame_type frame = Data \<and> data_decode (payload frame) = Ok d \<and>
       data_session_id d = act_session_id (cl_active st) \<and> p = data_payload d)"
  by (cases "frame_type frame")
    (auto simp: client_on_frame_def Let_def split: outcome.splits RekeyMsg.splits CloseReason.splits)

section \<open>Properties\<close>

text \<open>
  The session file.  With an AEAD that decrypts what it encrypted (sixteen
  bytes longer than the plain text), the session saved under a key is the session
  loaded with that key.
\<close>

theorem session_file_roundtrip:
  assumes aead: "\<forall>k n p. \<exists>c. aead_encrypt aead k n p = Some c \<and> length c = length p + 16 \<and>
      aead_decrypt aead k n c = Some p"
    and "length sid = SESSION_ID_SIZE" "length tok = SERVER_NONCE_SIZE" "length nonce = NONCE_SIZE"
  shows "\<exists>file_bytes. save_bytes aead (Some nonce) key \<lparr>saved_session_id = sid, saved_resume_token = tok\<rparr>
      = Some file_bytes \<and>
    load aead key (Some file_bytes) = Some \<lparr>saved_session_id = sid, saved_resume_token = tok\<rparr>"
proof -
  obtain c where "aead_encrypt aead key nonce (sid @ tok) = Some c" "length c = length (sid @ tok) + 16"
    "aead_decrypt aead key nonce c = Some (sid @ tok)" using aead by blast
  with assms(2-4) load_save [of _ sid tok nonce aead key c] show ?thesis by (simp add: constants)
qed

theorem session_file_roundtrip_witness:
  "\<exists>file_bytes. load \<lparr>aead_encrypt = (\<lambda>k n p. Some (replicate 16 0 @ p)), aead_decrypt = (\<lambda>k n c. Some (drop 16 c))\<rparr>
     [3] (Some file_bytes) = Some \<lparr>saved_session_id = replicate 16 1, saved_resume_token = replicate 32 2\<rparr>"
  using session_file_roundtrip [of "\<lparr>aead_encrypt = (\<lambda>k n p. Some (replicate 16 0 @ p)),
      aead_decrypt = (\<lambda>k n c. Some (drop 16 c))\<rparr>" "replicate 16 1" "replicate 32 2" "replicate 12 9" "[3]"]
  by (auto simp: constants)

text \<open>
  Keepalives are sent every 7 to 14 seconds, both ends included, whatever
  the two random bytes are.
\<close>

theorem ping_interval_bounds:
  "7000 \<le> random_ping_interval bs \<and> random_ping_interval bs \<le> 14000"
proof -
  have "unat (from_be bs :: u16) \<le> 65535" using unat_bound [of "from_be bs :: u16"] by simp
  then have "7000 * unat (from_be bs :: u16) div 65535 \<le> 7000 * 65535 div 65535"
    by (intro div_le_mono mult_le_mono) simp_all
  then show ?thesis by (simp add: random_ping_interval_def Let_def constants)
qed

end
