(* ===== verification/Rekey_Protocol.thy ===== *)
theory Rekey_Protocol
  imports Server_Handler Client
begin

text \<open>
  Rotation of resume tokens between one client and the server, over an ordered
  channel in each direction that may lose messages (a TLS stream that breaks, or
  datagrams that arrive in order).  The server side runs the operations of
  \<open>SessionManager\<close>, the client side does what \<open>tunnel.rs\<close> does
  with a token: save it, then confirm it.  Every other step may change the
  session as long as it leaves its tokens and its address alone.
\<close>

definition serve_rekey ::
  "Env \<Rightarrow> SessionManager \<Rightarrow> SessionId \<Rightarrow> SocketAddr \<Rightarrow> bytes \<Rightarrow> RekeyMsg \<Rightarrow> bytes option \<times> SessionManager" where
  "serve_rekey env m sid address random_nonce msg =
    (case msg of
       RekeyRequest _ \<Rightarrow> rekey_offer env m sid address random_nonce
     | RekeyToken _ n \<Rightarrow> rekey_confirm env m sid n address)"

text \<open>This is what the frame handler runs.\<close>

lemma handle_rekey_serve:
  assumes "rekey_decode (payload frame) = Ok msg"
  shows "handle_rekey env rng srv link address frame =
    (let (n, m') = serve_rekey env (srv_sessions srv) (rekey_session_id msg) address (rng_nonce rng) msg
     in (srv\<lparr>srv_sessions := m'\<rparr>,
         case n of None \<Rightarrow> [] | Some n \<Rightarrow> send_rekey link (rekey_session_id msg) n))"
  using assms
  by (cases msg) (auto simp: handle_rekey_def serve_rekey_def Let_def case_prod_unfold split: option.split)

record RekeySystem =
  rk_mgr :: SessionManager
  rk_saved :: bytes
  rk_up :: "RekeyMsg list"
  rk_down :: "bytes list"
  rk_addr :: SocketAddr
  rk_used :: "bytes set"

definition same_tokens :: "Session \<Rightarrow> Session \<Rightarrow> bool" where
  "same_tokens s s' \<longleftrightarrow> s_server_nonce s' = s_server_nonce s \<and> s_prev_nonce s' = s_prev_nonce s \<and>
     s_pending_nonce s' = s_pending_nonce s \<and> s_client_address s' = s_client_address s"

inductive rekey_step :: "SessionId \<Rightarrow> RekeySystem \<Rightarrow> RekeySystem \<Rightarrow> bool" for sid where
  serve: "rk_up r = msg # ups \<Longrightarrow> rn \<notin> rk_used r \<Longrightarrow>
    serve_rekey env (rk_mgr r) sid (rk_addr r) rn msg = (reply, m') \<Longrightarrow>
    rekey_step sid r (r\<lparr>rk_mgr := m', rk_up := ups,
      rk_down := rk_down r @ (case reply of None \<Rightarrow> [] | Some n \<Rightarrow> [n]),
      rk_used := insert rn (rk_used r)\<rparr>)"
| keepalive: "rn \<notin> rk_used r \<Longrightarrow>
    touch_session env (rk_mgr r) sid (rk_addr r) seq rn = (Some offer, m') \<Longrightarrow>
    rekey_step sid r (r\<lparr>rk_mgr := m',
      rk_down := rk_down r @ (case offer of None \<Rightarrow> [] | Some n \<Rightarrow> [n]),
      rk_used := insert rn (rk_used r)\<rparr>)"
| client: "rk_down r = n # downs \<Longrightarrow>
    rekey_step sid r (r\<lparr>rk_saved := n, rk_down := downs, rk_up := rk_up r @ [RekeyToken sid n]\<rparr>)"
| request: "rekey_step sid r (r\<lparr>rk_up := rk_up r @ [RekeyRequest sid]\<rparr>)"
| lose_up: "rk_up r = us @ x # vs \<Longrightarrow> rekey_step sid r (r\<lparr>rk_up := us @ vs\<rparr>)"
| lose_down: "rk_down r = us @ x # vs \<Longrightarrow> rekey_step sid r (r\<lparr>rk_down := us @ vs\<rparr>)"
| other: "get (rk_mgr r) sid = Some s \<Longrightarrow> get m' sid = Some s' \<Longrightarrow> same_tokens s s' \<Longrightarrow>
    rekey_step sid r (r\<lparr>rk_mgr := m'\<rparr>)"
| reconnect: "resume_session env (rk_mgr r) sid (rk_saved r) a link seq mtu = (Some sg, m') \<Longrightarrow>
    rekey_step sid r (r\<lparr>rk_mgr := m', rk_up := [], rk_down := [], rk_addr := a\<rparr>)"

text \<open>The start: a session fresh from \<open>create_session\<close>, its token saved.\<close>

definition rekey_init :: "SessionId \<Rightarrow> RekeySystem \<Rightarrow> bool" where
  "rekey_init sid r \<longleftrightarrow> (\<exists>s. get (rk_mgr r) sid = Some s \<and> s_client_address s = rk_addr r \<and>
     s_server_nonce s = rk_saved r \<and> s_prev_nonce s = None \<and> s_pending_nonce s = None) \<and>
     rk_up r = [] \<and> rk_down r = [] \<and> rk_used r = {rk_saved r}"

text \<open>
  Offered tokens travel in order: first repetitions of the current token, then of
  the pending one; a confirmation of the pending token can only be on its way when
  the client has saved it.
\<close>

definition tokens_of :: "RekeyMsg list \<Rightarrow> bytes set" where
  "tokens_of up = {n. \<exists>i. RekeyToken i n \<in> set up}"

definition rekey_ok :: "RekeySystem \<Rightarrow> Session \<Rightarrow> bool" where
  "rekey_ok r s \<longleftrightarrow> s_client_address s = rk_addr r \<and>
     (rk_saved r = s_server_nonce s \<or> s_pending_nonce s = Some (rk_saved r)) \<and>
     s_pending_nonce s \<noteq> Some (s_server_nonce s) \<and>
     (\<exists>xs ys. rk_down r = xs @ ys \<and> (\<forall>x \<in> set xs. x = s_server_nonce s) \<and>
        (\<forall>y \<in> set ys. s_pending_nonce s = Some y) \<and>
        (s_pending_nonce s = Some (rk_saved r) \<longrightarrow> xs = [])) \<and>
     (\<forall>n \<in> tokens_of (rk_up r). s_pending_nonce s = Some n \<longrightarrow> rk_saved r = n) \<and>
     insert (s_server_nonce s) (set_option (s_pending_nonce s) \<union> tokens_of (rk_up r)) \<subseteq> rk_used r"

definition rekey_inv :: "SessionId \<Rightarrow> RekeySystem \<Rightarrow> bool" where
  "rekey_inv sid r \<longleftrightarrow> (\<exists>s. get (rk_mgr r) sid = Some s \<and> rekey_ok r s)"

lemma tokens_of_simps [simp]:
  "tokens_of [] = {}" "tokens_of (RekeyRequest i # us) = tokens_of us"
  "tokens_of (RekeyToken i n # us) = insert n (tokens_of us)"
  "tokens_of (us @ vs) = tokens_of us \<union> tokens_of vs"
  by (auto simp: tokens_of_def)

lemma tokens_of_mono: "tokens_of us \<subseteq> tokens_of (x # us)"
  by (auto simp: tokens_of_def)

lemma rekey_inv_offer:
  assumes ok: "rekey_ok r s" "rk_up r = u @ ups" and fresh: "rn \<notin> rk_used r"
    and s': "same_tokens (s\<lparr>s_pending_nonce := p\<rparr>) s'"
    and p: "p = s_pending_nonce s \<or> (s_pending_nonce s = None \<and> p = Some rn)"
    and n: "n = [] \<or> (\<exists>q. p = Some q \<and> n = [q])"
  shows "rekey_ok (r\<lparr>rk_mgr := m', rk_up := ups, rk_down := rk_down r @ n, rk_used := insert rn (rk_used r)\<rparr>) s'"
proof -
  obtain xs ys where d: "rk_down r = xs @ ys" "\<forall>x \<in> set xs. x = s_server_nonce s"
    "\<forall>y \<in> set ys. s_pending_nonce s = Some y" "s_pending_nonce s = Some (rk_saved r) \<longrightarrow> xs = []"
    using ok(1) by (auto simp: rekey_ok_def)
  have down: "\<exists>xs ys. rk_down r @ n = xs @ ys \<and> (\<forall>x \<in> set xs. x = s_server_nonce s) \<and>
      (\<forall>y \<in> set ys. p = Some y) \<and> (p = Some (rk_saved r) \<longrightarrow> xs = [])"
  proof (rule exI [of _ xs], rule exI [of _ "ys @ n"], intro conjI)
    show "p = Some (rk_saved r) \<longrightarrow> xs = []"
      using d(4) p ok(1) fresh by (auto simp: rekey_ok_def)
  qed (use d p n in auto)
  have eqs: "s_server_nonce s' = s_server_nonce s" "s_pending_nonce s' = p"
    "s_client_address s' = s_client_address s" using s' by (simp_all add: same_tokens_def)
  have ups: "tokens_of ups \<subseteq> tokens_of (rk_up r)" using ok(2) by simp
  have old: "s_server_nonce s \<in> rk_used r" "tokens_of (rk_up r) \<subseteq> rk_used r"
    "set_option (s_pending_nonce s) \<subseteq> rk_used r"
    using ok(1) by (simp_all add: rekey_ok_def)
  have "set_option p \<subseteq> insert rn (rk_used r)"
    using p
  proof
    assume "p = s_pending_nonce s"
    with old(3) show ?thesis by (simp add: subset_insertI2)
  qed simp
  with old ups have used: "s_server_nonce s \<in> rk_used r" "tokens_of ups \<subseteq> rk_used r"
    "set_option p \<subseteq> insert rn (rk_used r)" by blast+
  have saved: "rk_saved r = s_server_nonce s \<or> p = Some (rk_saved r)"
    using ok(1) p by (auto simp: rekey_ok_def)
  have fresh': "p \<noteq> Some (s_server_nonce s)" using ok(1) p fresh by (auto simp: rekey_ok_def)
  have conf: "\<forall>n \<in> tokens_of ups. p = Some n \<longrightarrow> rk_saved r = n"
    using p
  proof
    assume "p = s_pending_nonce s"
    with ok(1) ups show ?thesis by (auto simp: rekey_ok_def)
  next
    assume "s_pending_nonce s = None \<and> p = Some rn"
    with used(2) fresh show ?thesis by auto
  qed
  have "tokens_of ups \<subseteq> insert rn (rk_used r)" using used(2) by blast
  with down used saved fresh' conf ok(1) show ?thesis
    unfolding rekey_ok_def eqs by simp
qed

lemma rekey_inv_confirm:
  assumes ok: "rekey_ok r s" "rk_up r = RekeyToken i n # ups" and pend: "s_pending_nonce s = Some n"
    and s': "s_server_nonce s' = n" "s_pending_nonce s' = None" "s_client_address s' = rk_addr r"
  shows "rekey_ok (r\<lparr>rk_mgr := m', rk_up := ups, rk_down := rk_down r @ [n], rk_used := insert rn (rk_used r)\<rparr>) s'"
proof -
  have saved: "rk_saved r = n" using ok pend by (auto simp: rekey_ok_def)
  then have "\<forall>y \<in> set (rk_down r @ [n]). y = n"
    using ok(1) pend by (auto simp: rekey_ok_def)
  then show ?thesis
    using ok saved s' unfolding rekey_ok_def by (auto intro!: exI [of _ "rk_down r @ [n]"])
qed

lemma rekey_ok_client:
  assumes ok: "rekey_ok r s" "rk_down r = n # downs"
  shows "rekey_ok (r\<lparr>rk_saved := n, rk_down := downs, rk_up := rk_up r @ [RekeyToken sid n]\<rparr>) s"
proof -
  obtain xs ys where d: "n # downs = xs @ ys" "\<forall>x \<in> set xs. x = s_server_nonce s"
    "\<forall>y \<in> set ys. s_pending_nonce s = Some y" "s_pending_nonce s = Some (rk_saved r) \<longrightarrow> xs = []"
    using ok by (auto simp: rekey_ok_def)
  have neq: "s_pending_nonce s \<noteq> Some (s_server_nonce s)" using ok(1) by (simp add: rekey_ok_def)
  show ?thesis
  proof (cases xs)
    case Nil
    then have "s_pending_nonce s = Some n" "\<forall>y \<in> set downs. s_pending_nonce s = Some y"
      using d by auto
    then have "\<exists>xs ys. downs = xs @ ys \<and> (\<forall>x \<in> set xs. x = s_server_nonce s) \<and>
        (\<forall>y \<in> set ys. s_pending_nonce s = Some y) \<and> (s_pending_nonce s = Some n \<longrightarrow> xs = [])"
      by (intro exI [of _ "[]"] exI [of _ downs]) simp
    with ok(1) neq \<open>s_pending_nonce s = Some n\<close> show ?thesis
      unfolding rekey_ok_def by simp
  next
    case (Cons x xs')
    then have "n = s_server_nonce s" "downs = xs' @ ys" "\<forall>x \<in> set xs'. x = s_server_nonce s"
      "s_pending_nonce s \<noteq> Some (rk_saved r)"
      using d by auto
    moreover from this have "\<exists>xs ys. downs = xs @ ys \<and> (\<forall>x \<in> set xs. x = s_server_nonce s) \<and>
        (\<forall>y \<in> set ys. s_pending_nonce s = Some y) \<and> (s_pending_nonce s = Some n \<longrightarrow> xs = [])"
      using d(3) neq by (intro exI [of _ xs'] exI [of _ ys]) simp
    ultimately show ?thesis
      using ok(1) neq unfolding rekey_ok_def by auto
  qed
qed

lemma split_sublist:
  "us @ x # vs = xs @ ys \<Longrightarrow> \<exists>xs' ys'. us @ vs = xs' @ ys' \<and> set xs' \<subseteq> set xs \<and> set ys' \<subseteq> set ys \<and> (xs = [] \<longrightarrow> xs' = [])"
proof (induction us arbitrary: xs)
  case Nil
  then show ?case
    by (cases xs) (auto intro: exI [of _ "[]"] exI [of _ "tl xs"])
next
  case (Cons u us)
  show ?case
  proof (cases xs)
    case Nil
    with Cons.prems show ?thesis by (intro exI [of _ "[]"] exI [of _ "(u # us) @ vs"]) auto
  next
    case (Cons a as)
    with Cons.prems obtain xs' ys' where "us @ vs = xs' @ ys'" "set xs' \<subseteq> set as" "set ys' \<subseteq> set ys"
      using Cons.IH [of as] by auto
    with Cons Cons.prems show ?thesis by (intro exI [of _ "u # xs'"] exI [of _ ys']) auto
  qed
qed

lemma rekey_ok_lose_down:
  assumes ok: "rekey_ok r s" "rk_down r = us @ x # vs"
  shows "rekey_ok (r\<lparr>rk_down := us @ vs\<rparr>) s"
proof -
  obtain xs ys where d: "us @ x # vs = xs @ ys" "\<forall>x \<in> set xs. x = s_server_nonce s"
    "\<forall>y \<in> set ys. s_pending_nonce s = Some y" "s_pending_nonce s = Some (rk_saved r) \<longrightarrow> xs = []"
    using ok unfolding rekey_ok_def by auto
  from split_sublist [OF d(1)] obtain xs' ys' where
    "us @ vs = xs' @ ys'" "set xs' \<subseteq> set xs" "set ys' \<subseteq> set ys" "xs = [] \<longrightarrow> xs' = []" by blast
  with d have "\<exists>xs ys. us @ vs = xs @ ys \<and> (\<forall>x \<in> set xs. x = s_server_nonce s) \<and>
      (\<forall>y \<in> set ys. s_pending_nonce s = Some y) \<and> (s_pending_nonce s = Some (rk_saved r) \<longrightarrow> xs = [])"
    by (intro exI [of _ xs'] exI [of _ ys']) auto
  with ok(1) show ?thesis unfolding rekey_ok_def by simp
qed

lemma rekey_ok_serve:
  assumes ok: "rekey_ok r s" "get (rk_mgr r) sid = Some s" and up: "rk_up r = msg # ups"
    and fresh: "rn \<notin> rk_used r"
    and serve: "serve_rekey env (rk_mgr r) sid (rk_addr r) rn msg = (reply, m')"
  shows "\<exists>s'. get m' sid = Some s' \<and> rekey_ok (r\<lparr>rk_mgr := m', rk_up := ups,
      rk_down := rk_down r @ (case reply of None \<Rightarrow> [] | Some n \<Rightarrow> [n]),
      rk_used := insert rn (rk_used r)\<rparr>) s'"
proof -
  have addr: "s_client_address s = rk_addr r" using ok(1) by (simp add: rekey_ok_def)
  have up': "rk_up r = [msg] @ ups" using up by simp
  show ?thesis
  proof (cases msg)
    case (RekeyRequest i)
    let ?p = "if s_pending_nonce s = None then Some rn else s_pending_nonce s"
    have "\<exists>s'. get m' sid = Some s' \<and> same_tokens (s\<lparr>s_pending_nonce := ?p\<rparr>) s' \<and> reply = ?p"
      using serve RekeyRequest ok(2) addr
      by (auto simp: serve_rekey_def rekey_offer_def same_tokens_def split: if_splits)
    then obtain s' where "get m' sid = Some s'" "same_tokens (s\<lparr>s_pending_nonce := ?p\<rparr>) s'" "reply = ?p"
      by blast
    then show ?thesis
      using rekey_inv_offer [OF ok(1) up' fresh, of ?p s' "case reply of None \<Rightarrow> [] | Some n \<Rightarrow> [n]" m']
      by (intro exI [of _ s']) (auto split: option.splits)
  next
    case (RekeyToken i n)
    show ?thesis
    proof (cases "s_pending_nonce s = Some n")
      case True
      then obtain s' where "get m' sid = Some s'" "reply = Some n" "s_server_nonce s' = n"
        "s_pending_nonce s' = None" "s_client_address s' = rk_addr r"
        using serve RekeyToken ok(2) addr by (auto simp: serve_rekey_def rekey_confirm_def Let_def)
      with rekey_inv_confirm [where r = r and s = s and s' = s' and n = n and ups = ups and i = i and m' = m' and rn = rn]
        ok(1) up RekeyToken True show ?thesis by auto
    next
      case False
      then have "m' = rk_mgr r" "reply = None"
        using serve RekeyToken ok(2) addr by (auto simp: serve_rekey_def rekey_confirm_def)
      with ok(2) rekey_inv_offer [OF ok(1) up' fresh, of "s_pending_nonce s" s "[]" m'] show ?thesis
        by (auto simp: same_tokens_def)
    qed
  qed
qed

lemma rekey_ok_keepalive:
  assumes ok: "rekey_ok r s" "get (rk_mgr r) sid = Some s" and fresh: "rn \<notin> rk_used r"
    and touch: "touch_session env (rk_mgr r) sid (rk_addr r) seq rn = (Some offer, m')"
  shows "\<exists>s'. get m' sid = Some s' \<and> rekey_ok (r\<lparr>rk_mgr := m',
      rk_down := rk_down r @ (case offer of None \<Rightarrow> [] | Some n \<Rightarrow> [n]),
      rk_used := insert rn (rk_used r)\<rparr>) s'"
proof -
  have addr: "s_client_address s = rk_addr r" using ok(1) by (simp add: rekey_ok_def)
  have "\<exists>s'. get m' sid = Some s' \<and> same_tokens (s\<lparr>s_pending_nonce := s_pending_nonce s'\<rparr>) s' \<and>
      (s_pending_nonce s' = s_pending_nonce s \<or> (s_pending_nonce s = None \<and> s_pending_nonce s' = Some rn)) \<and>
      (offer = None \<or> offer = s_pending_nonce s')"
    using touch ok(2) addr
    by (auto simp: touch_session_def record_activity_def same_tokens_def Let_def case_prod_unfold split: if_splits)
  then obtain s' where s': "get m' sid = Some s'" "same_tokens (s\<lparr>s_pending_nonce := s_pending_nonce s'\<rparr>) s'"
    "s_pending_nonce s' = s_pending_nonce s \<or> (s_pending_nonce s = None \<and> s_pending_nonce s' = Some rn)"
    "offer = None \<or> offer = s_pending_nonce s'" by blast
  have "rekey_ok (r\<lparr>rk_mgr := m', rk_up := rk_up r,
      rk_down := rk_down r @ (case offer of None \<Rightarrow> [] | Some n \<Rightarrow> [n]),
      rk_used := insert rn (rk_used r)\<rparr>) s'"
    using s'(4) by (intro rekey_inv_offer [OF ok(1) _ fresh s'(2,3), of "[]"]) (auto split: option.splits)
  with s'(1) show ?thesis by (intro exI [of _ s']) simp
qed

lemma rekey_ok_reconnect:
  assumes ok: "rekey_ok r s" "get (rk_mgr r) sid = Some s"
    and resume: "resume_session env (rk_mgr r) sid (rk_saved r) a link seq mtu = (Some sg, m')"
  shows "\<exists>s'. get m' sid = Some s' \<and>
    rekey_ok (r\<lparr>rk_mgr := m', rk_up := [], rk_down := [], rk_addr := a\<rparr>) s'"
proof -
  have "rk_saved r = s_server_nonce s \<or> s_pending_nonce s = Some (rk_saved r)"
    "rk_saved r \<in> rk_used r" using ok(1) by (auto simp: rekey_ok_def)
  moreover from this(1) resume ok(2) have "\<exists>s'. get m' sid = Some s' \<and> s_client_address s' = a \<and>
      s_server_nonce s' = rk_saved r \<and> s_pending_nonce s' = None"
    by (elim disjE) (auto simp: resume_session_def record_activity_def Let_def)
  ultimately show ?thesis by (auto simp: rekey_ok_def)
qed

lemma rekey_ok_up_subset:
  "rekey_ok r s \<Longrightarrow> tokens_of us \<subseteq> tokens_of (rk_up r) \<Longrightarrow> rekey_ok (r\<lparr>rk_up := us\<rparr>) s"
  unfolding rekey_ok_def by (simp, blast)

lemma rekey_ok_same_tokens:
  "rekey_ok r s \<Longrightarrow> same_tokens s s' \<Longrightarrow> rekey_ok (r\<lparr>rk_mgr := m'\<rparr>) s'"
  by (simp add: rekey_ok_def same_tokens_def)

interpretation rekeying: transition_system "rekey_init sid" "rekey_step sid" "rekey_inv sid" for sid
proof
  fix r assume "rekey_init sid r"
  then show "rekey_inv sid r" by (auto simp: rekey_init_def rekey_inv_def rekey_ok_def)
next
  fix r r' assume "rekey_inv sid r" "rekey_step sid r r'"
  then obtain s where s: "get (rk_mgr r) sid = Some s" "rekey_ok r s" by (auto simp: rekey_inv_def)
  from \<open>rekey_step sid r r'\<close> show "rekey_inv sid r'"
  proof cases
    case serve
    with rekey_ok_serve [OF s(2,1)] show ?thesis by (simp add: rekey_inv_def)
  next
    case keepalive
    with rekey_ok_keepalive [OF s(2,1)] show ?thesis by (simp add: rekey_inv_def)
  next
    case client
    with rekey_ok_client [OF s(2)] s(1) show ?thesis by (simp add: rekey_inv_def)
  next
    case request
    with rekey_ok_up_subset [OF s(2)] s(1) show ?thesis by (simp add: rekey_inv_def)
  next
    case (lose_up us x vs)
    have "tokens_of (us @ vs) \<subseteq> tokens_of (rk_up r)" using lose_up(2) by (auto simp: tokens_of_def)
    with lose_up rekey_ok_up_subset [OF s(2)] s(1) show ?thesis by (simp add: rekey_inv_def)
  next
    case lose_down
    with rekey_ok_lose_down [OF s(2)] s(1) show ?thesis by (simp add: rekey_inv_def)
  next
    case other
    with rekey_ok_same_tokens [OF s(2)] s(1) show ?thesis by (simp add: rekey_inv_def)
  next
    case reconnect
    with rekey_ok_reconnect [OF s(2,1)] show ?thesis by (simp add: rekey_inv_def)
  qed
qed

section \<open>Properties\<close>



end
