(* ===== verification/Reality_Hello.thy ===== *)
theory Reality_Hello
  imports Prelude "HOL-Library.Monad_Syntax" "HOL-Library.Multiset"
begin

text \<open>
  The TLS 1.3 ClientHello of the REALITY camouflage
  (\<open>payphone-transport/src/reality/hello.rs\<close>): the parser of a
  ClientHello record, the builder of the Chrome-shaped ClientHello with its
  random GREASE values and shuffled extensions, and the round trip between them.

  A slice \<open>body.get(i..i + n)\<close> is \<open>get_range i n body\<close>; \<open>usize\<close>
  values are natural numbers, since every offset is bounded by a 24-bit length.
  The operating system's random source is a function from positions to bytes,
  consumed in the order of the source; \<open>String::from_utf8\<close> is the byte-level
  check \<open>utf8_valid\<close>.  The ML-KEM key generation of \<open>libcrux\<close> is the
  parameter \<open>mlkem\<close>, of which the model uses the length of its public key.
\<close>

section \<open>Slices, strings and random bytes\<close>

definition get_range :: "nat \<Rightarrow> nat \<Rightarrow> bytes \<Rightarrow> bytes option" where
  "get_range i n b = (if i + n \<le> length b then Some (take n (drop i b)) else None)"

definition nth_opt :: "nat \<Rightarrow> bytes \<Rightarrow> u8 option" where
  "nth_opt i b = (if i < length b then Some (b ! i) else None)"

definition be16 :: "bytes \<Rightarrow> u16" where
  "be16 b = from_be b"

definition utf8_cont :: "u8 \<Rightarrow> bool" where
  "utf8_cont b \<longleftrightarrow> 0x80 \<le> b \<and> b \<le> 0xBF"

fun utf8_valid :: "bytes \<Rightarrow> bool" where
  "utf8_valid [] = True"
| "utf8_valid (a # r) =
    (if a < 0x80 then utf8_valid r
     else if 0xC2 \<le> a \<and> a \<le> 0xDF then
       (case r of b # r1 \<Rightarrow> utf8_cont b \<and> utf8_valid r1 | _ \<Rightarrow> False)
     else if 0xE0 \<le> a \<and> a \<le> 0xEF then
       (case r of b # c # r2 \<Rightarrow>
          utf8_cont b \<and> (a = 0xE0 \<longrightarrow> 0xA0 \<le> b) \<and> (a = 0xED \<longrightarrow> b \<le> 0x9F) \<and>
          utf8_cont c \<and> utf8_valid r2
        | _ \<Rightarrow> False)
     else if 0xF0 \<le> a \<and> a \<le> 0xF4 then
       (case r of b # c # d # r3 \<Rightarrow>
          utf8_cont b \<and> (a = 0xF0 \<longrightarrow> 0x90 \<le> b) \<and> (a = 0xF4 \<longrightarrow> b \<le> 0x8F) \<and>
          utf8_cont c \<and> utf8_cont d \<and> utf8_valid r3
        | _ \<Rightarrow> False)
     else False)"

definition from_utf8 :: "bytes \<Rightarrow> bytes option" where
  "from_utf8 b = (if utf8_valid b then Some b else None)"

type_synonym rng = "nat \<Rightarrow> u8"

definition os_fill_random :: "nat \<Rightarrow> rng \<Rightarrow> bytes \<times> rng" where
  "os_fill_random n r = (map r [0..<n], \<lambda>i. r (i + n))"

definition random_u8 :: "rng \<Rightarrow> u8 \<times> rng" where
  "random_u8 r = (r 0, \<lambda>i. r (i + 1))"

section \<open>Constants\<close>

definition SESSION_ID_OFFSET :: nat where [constants]: "SESSION_ID_OFFSET = 39"
definition SESSION_ID_LEN :: nat where [constants]: "SESSION_ID_LEN = 32"

definition EXT_SERVER_NAME :: u16 where [constants]: "EXT_SERVER_NAME = 0"
definition EXT_STATUS_REQUEST :: u16 where [constants]: "EXT_STATUS_REQUEST = 5"
definition EXT_SUPPORTED_GROUPS :: u16 where [constants]: "EXT_SUPPORTED_GROUPS = 10"
definition EXT_EC_POINT_FORMATS :: u16 where [constants]: "EXT_EC_POINT_FORMATS = 11"
definition EXT_SIGNATURE_ALGORITHMS :: u16 where [constants]: "EXT_SIGNATURE_ALGORITHMS = 13"
definition EXT_ALPN :: u16 where [constants]: "EXT_ALPN = 16"
definition EXT_SCT :: u16 where [constants]: "EXT_SCT = 18"
definition EXT_EXTENDED_MASTER_SECRET :: u16 where [constants]: "EXT_EXTENDED_MASTER_SECRET = 23"
definition EXT_COMPRESS_CERTIFICATE :: u16 where [constants]: "EXT_COMPRESS_CERTIFICATE = 27"
definition EXT_SESSION_TICKET :: u16 where [constants]: "EXT_SESSION_TICKET = 35"
definition EXT_SUPPORTED_VERSIONS :: u16 where [constants]: "EXT_SUPPORTED_VERSIONS = 43"
definition EXT_PSK_KEY_EXCHANGE_MODES :: u16 where [constants]: "EXT_PSK_KEY_EXCHANGE_MODES = 45"
definition EXT_KEY_SHARE :: u16 where [constants]: "EXT_KEY_SHARE = 51"
definition EXT_RENEGOTIATION_INFO :: u16 where [constants]: "EXT_RENEGOTIATION_INFO = 0xff01"
definition EXT_ALPS :: u16 where [constants]: "EXT_ALPS = 17513"
definition EXT_ECH :: u16 where [constants]: "EXT_ECH = 0xfe0d"

definition GROUP_X25519 :: u16 where [constants]: "GROUP_X25519 = 0x001d"
definition GROUP_SECP256R1 :: u16 where [constants]: "GROUP_SECP256R1 = 0x0017"
definition GROUP_SECP384R1 :: u16 where [constants]: "GROUP_SECP384R1 = 0x0018"
definition GROUP_X25519_MLKEM768 :: u16 where [constants]: "GROUP_X25519_MLKEM768 = 0x11ec"

definition TLS_AES_128_GCM_SHA256 :: u16 where [constants]: "TLS_AES_128_GCM_SHA256 = 0x1301"
definition TLS_AES_256_GCM_SHA384 :: u16 where [constants]: "TLS_AES_256_GCM_SHA384 = 0x1302"
definition TLS_CHACHA20_POLY1305_SHA256 :: u16
  where [constants]: "TLS_CHACHA20_POLY1305_SHA256 = 0x1303"

definition MLKEM768_PUBLIC_LEN :: nat where [constants]: "MLKEM768_PUBLIC_LEN = 1184"
definition HPKE_KDF_SHA256 :: u16 where [constants]: "HPKE_KDF_SHA256 = 1"
definition HPKE_AEAD_AES_128_GCM :: u16 where [constants]: "HPKE_AEAD_AES_128_GCM = 1"

definition GREASE :: "u16 list" where [constants]:
  "GREASE = [0x0a0a, 0x1a1a, 0x2a2a, 0x3a3a, 0x4a4a, 0x5a5a, 0x6a6a, 0x7a7a, 0x8a8a, 0x9a9a,
     0xaaaa, 0xbaba, 0xcaca, 0xdada, 0xeaea, 0xfafa]"

definition u24 :: "bytes \<Rightarrow> nat option" where
  "u24 b = (if length b < 3 then None
     else Some (unat (push_bit 16 (ucast (b ! 0) :: u64) OR push_bit 8 (ucast (b ! 1)) OR ucast (b ! 2))))"

definition u24_bytes :: "nat \<Rightarrow> bytes" where
  "u24_bytes n = (let w = of_nat n :: u64 in [ucast (drop_bit 16 w), ucast (drop_bit 8 w), ucast w])"

section \<open>Parsing a ClientHello\<close>

record ClientHelloView =
  ch_random :: bytes
  ch_session_id :: bytes
  ch_sni :: "bytes option"
  ch_x25519_public :: "bytes option"
  ch_alpn :: "bytes list"

definition handshake_from_record :: "bytes \<Rightarrow> bytes option" where
  "handshake_from_record record =
    (if length record < 5 \<or> record ! 0 \<noteq> 0x16 then None
     else let len = unat (be16 [record ! 3, record ! 4]) in
       if length record < 5 + len then None else Some (take len (drop 5 record)))"

function parse_alpn_loop :: "bytes \<Rightarrow> bytes list \<Rightarrow> bytes list" where
  "parse_alpn_loop list out =
    (if list = [] then out
     else let n = unat (hd list) in
       if length list < 1 + n then out
       else parse_alpn_loop (drop (1 + n) list) (out @ [take n (drop 1 list)]))"
  by pat_completeness auto
termination by (relation "measure (\<lambda>(list, _). length list)") auto

definition parse_alpn :: "bytes \<Rightarrow> bytes list" where
  "parse_alpn data =
    (if length data < 2 then []
     else case get_range 2 (unat (be16 (take 2 data))) data of
       None \<Rightarrow> []
     | Some list \<Rightarrow> parse_alpn_loop list [])"

definition parse_sni :: "bytes \<Rightarrow> bytes option" where
  "parse_sni data =
    (if length data < 5 then None
     else do {
       list \<leftarrow> get_range 2 (unat (be16 (take 2 data))) data;
       if nth_opt 0 list \<noteq> Some 0 then None
       else do {
         l \<leftarrow> get_range 1 2 list;
         name \<leftarrow> get_range 3 (unat (be16 l)) list;
         from_utf8 name }})"

function parse_x25519_loop :: "bytes \<Rightarrow> bytes option" where
  "parse_x25519_loop shares =
    (if length shares < 4 then None
     else let grp = be16 (take 2 shares); key_len = unat (be16 (take 2 (drop 2 shares))) in
       case get_range 4 key_len shares of
         None \<Rightarrow> None
       | Some key \<Rightarrow>
           if grp = GROUP_X25519 \<and> length key = 32 then Some key
           else if grp = GROUP_X25519_MLKEM768 \<and> 32 \<le> length key
           then Some (drop (length key - 32) key)
           else parse_x25519_loop (drop (4 + key_len) shares))"
  by pat_completeness auto
termination by (relation "measure length") auto

definition parse_x25519_share :: "bytes \<Rightarrow> bytes option" where
  "parse_x25519_share data =
    (if length data < 2 then None
     else do {
       shares \<leftarrow> get_range 2 (unat (be16 (take 2 data))) data;
       parse_x25519_loop shares })"

type_synonym ext_fields = "bytes option \<times> bytes option \<times> bytes list"

definition note_ext :: "u16 \<Rightarrow> bytes \<Rightarrow> ext_fields \<Rightarrow> ext_fields" where
  "note_ext typ data = (\<lambda>(sni, x25519, alpn).
     if typ = EXT_SERVER_NAME then (parse_sni data, x25519, alpn)
     else if typ = EXT_KEY_SHARE then (sni, parse_x25519_share data, alpn)
     else if typ = EXT_ALPN then (sni, x25519, parse_alpn data)
     else (sni, x25519, alpn))"

function parse_ext_loop :: "bytes \<Rightarrow> ext_fields \<Rightarrow> ext_fields option" where
  "parse_ext_loop exts acc =
    (if length exts < 4 then Some acc
     else let typ = be16 (take 2 exts); len = unat (be16 (take 2 (drop 2 exts))) in
       case get_range 4 len exts of
         None \<Rightarrow> None
       | Some data \<Rightarrow> parse_ext_loop (drop (4 + len) exts) (note_ext typ data acc))"
  by pat_completeness auto
termination by (relation "measure (\<lambda>(exts, _). length exts)") auto

definition parse_extensions :: "bytes \<Rightarrow> ext_fields option" where
  "parse_extensions exts = parse_ext_loop exts (None, None, [])"

definition parse_handshake :: "bytes \<Rightarrow> ClientHelloView option" where
  "parse_handshake handshake =
    (if length handshake < 42 \<or> handshake ! 0 \<noteq> 1 then None
     else do {
       body_len \<leftarrow> u24 (take 3 (drop 1 handshake));
       if length handshake < 4 + body_len then None
       else do {
         let body = take body_len (drop 4 handshake);
         random \<leftarrow> get_range 2 32 body;
         sid_len \<leftarrow> map_option unat (nth_opt 34 body);
         session_id \<leftarrow> get_range 35 sid_len body;
         let i = 35 + sid_len;
         cs_len \<leftarrow> map_option (unat \<circ> be16) (get_range i 2 body);
         let i = i + 2 + cs_len;
         comp_len \<leftarrow> map_option unat (nth_opt i body);
         let i = i + 1 + comp_len;
         ext_len \<leftarrow> map_option (unat \<circ> be16) (get_range i 2 body);
         let i = i + 2;
         exts \<leftarrow> get_range i ext_len body;
         (sni, x25519, alpn) \<leftarrow> parse_extensions exts;
         Some \<lparr>ch_random = random, ch_session_id = session_id, ch_sni = sni,
               ch_x25519_public = x25519, ch_alpn = alpn\<rparr> }})"

definition client_hello_parse :: "bytes \<Rightarrow> ClientHelloView option" where
  "client_hello_parse record = do {
     handshake \<leftarrow> handshake_from_record record;
     parse_handshake handshake }"

text \<open>The ALPN tokens \<open>h2\<close>, \<open>http/1.1\<close> and \<open>acme-tls/1\<close>.\<close>

definition ascii :: "string \<Rightarrow> bytes" where
  "ascii s = map (of_nat \<circ> of_char) s"

definition alpn_class :: "ClientHelloView \<Rightarrow> u8" where
  "alpn_class v = (case ch_alpn v of
     [] \<Rightarrow> 0
   | p # _ \<Rightarrow> if p = ascii ''h2'' then 2 else 1)"

definition has_acme_alpn :: "ClientHelloView \<Rightarrow> bool" where
  "has_acme_alpn v \<longleftrightarrow> list_ex (\<lambda>p. p = ascii ''acme-tls/1'') (ch_alpn v)"

section \<open>Building a ClientHello\<close>

definition chrome_ciphers :: "u16 \<Rightarrow> u16 list" where
  "chrome_ciphers grease =
    [grease, TLS_AES_128_GCM_SHA256, TLS_AES_256_GCM_SHA384, TLS_CHACHA20_POLY1305_SHA256,
     0xc02b, 0xc02f, 0xc02c, 0xc030, 0xcca9, 0xcca8, 0xc013, 0xc014, 0x009c, 0x009d, 0x002f, 0x0035]"

definition ext :: "u16 \<Rightarrow> bytes \<Rightarrow> bytes" where
  "ext typ data = to_be 2 typ @ to_be 2 (of_nat (length data) :: u16) @ data"

definition u16_list :: "u16 list \<Rightarrow> bytes" where
  "u16_list values = to_be 2 (of_nat (length values * 2) :: u16) @ concat (map (to_be 2) values)"

definition key_share_entry :: "u16 \<Rightarrow> bytes \<Rightarrow> bytes" where
  "key_share_entry grp key = to_be 2 grp @ to_be 2 (of_nat (length key) :: u16) @ key"

definition alpn_list :: "bytes list \<Rightarrow> bytes" where
  "alpn_list protos =
     to_be 2 (of_nat (sum_list (map (\<lambda>p. 1 + length p) protos)) :: u16) @
     concat (map (\<lambda>p. of_nat (length p) # p) protos)"

definition alpn_h2_http11 :: bytes where
  "alpn_h2_http11 = alpn_list [ascii ''h2'', ascii ''http/1.1'']"

definition sni_payload :: "bytes \<Rightarrow> bytes" where
  "sni_payload host =
     to_be 2 (of_nat (3 + length host) :: u16) @ [0] @
     to_be 2 (of_nat (length host) :: u16) @ host"

definition supported_versions :: "u16 \<Rightarrow> bytes" where
  "supported_versions grease =
     [6] @ to_be 2 grease @ to_be 2 (0x0304 :: u16) @ to_be 2 (0x0303 :: u16)"

text \<open>The external key generator \<open>mlkem\<close> maps a 64-byte seed to a public key.\<close>

definition mlkem768_public :: "(bytes \<Rightarrow> bytes) \<Rightarrow> rng \<Rightarrow> bytes \<times> rng" where
  "mlkem768_public mlkem r = (let (seed, r) = os_fill_random 64 r in (mlkem seed, r))"

definition key_share :: "(bytes \<Rightarrow> bytes) \<Rightarrow> u16 \<Rightarrow> bytes \<Rightarrow> rng \<Rightarrow> bytes \<times> rng" where
  "key_share mlkem grease public r =
    (let (pk, r) = mlkem768_public mlkem r;
         hybrid = pk @ public;
         shares = key_share_entry grease [0] @
                  key_share_entry GROUP_X25519_MLKEM768 hybrid @
                  key_share_entry GROUP_X25519 public
     in (to_be 2 (of_nat (length shares) :: u16) @ shares, r))"

text \<open>The payload of the GREASE ECH extension; \<open>encode_extensions\<close> adds its header.\<close>

definition grease_ech_data :: "rng \<Rightarrow> bytes \<times> rng" where
  "grease_ech_data r =
    (let (enc, r) = os_fill_random 32 r;
         payload_lens = [144, 176, 208, 240] :: nat list;
         (k, r) = random_u8 r;
         (pl, r) = os_fill_random (payload_lens ! (unat k mod length payload_lens)) r;
         (config_id, r) = random_u8 r
     in ([0] @ to_be 2 HPKE_KDF_SHA256 @ to_be 2 HPKE_AEAD_AES_128_GCM @ [config_id] @
         to_be 2 (of_nat (length enc) :: u16) @ enc @
         to_be 2 (of_nat (length pl) :: u16) @ pl, r))"

fun position :: "'a \<Rightarrow> 'a list \<Rightarrow> nat option" where
  "position x [] = None"
| "position x (y # ys) = (if y = x then Some 0 else map_option Suc (position x ys))"

definition grease_pair :: "rng \<Rightarrow> (u16 \<times> u16) \<times> rng" where
  "grease_pair r =
    (let (x, r) = random_u8 r; a = GREASE ! (unat x mod length GREASE);
         (y, r) = random_u8 r; b = GREASE ! (unat y mod length GREASE);
         b = (if a = b
              then GREASE ! (((case position a GREASE of Some i \<Rightarrow> i | None \<Rightarrow> 0) + 8) mod length GREASE)
              else b)
     in ((a, b), r))"


text \<open>Fisher--Yates from the last index down; \<open>n\<close> is the loop counter \<open>i\<close>.\<close>

definition swap_at :: "nat \<Rightarrow> nat \<Rightarrow> 'a list \<Rightarrow> 'a list" where
  "swap_at i j xs = xs[i := xs ! j, j := xs ! i]"

fun shuffle_loop :: "nat \<Rightarrow> 'a list \<Rightarrow> rng \<Rightarrow> 'a list \<times> rng" where
  "shuffle_loop 0 xs r = (xs, r)"
| "shuffle_loop (Suc i) xs r =
    (let (b, r) = random_u8 r; j = unat b mod (Suc i + 1)
     in shuffle_loop i (swap_at (Suc i) j xs) r)"

definition shuffle_middle :: "'a list \<Rightarrow> rng \<Rightarrow> 'a list \<times> rng" where
  "shuffle_middle exts r =
    (if length exts < 2 then (exts, r) else shuffle_loop (length exts - 1) exts r)"

definition middle_extensions ::
  "bytes \<Rightarrow> bytes \<Rightarrow> bytes \<Rightarrow> u16 \<times> u16 \<Rightarrow> (u16 \<times> bytes) list" where
  "middle_extensions sni share ech = (\<lambda>(g0, g1).
    [(EXT_SERVER_NAME, sni_payload sni),
     (EXT_EXTENDED_MASTER_SECRET, []),
     (EXT_RENEGOTIATION_INFO, [0]),
     (EXT_SUPPORTED_GROUPS,
       u16_list [g0, GROUP_X25519_MLKEM768, GROUP_X25519, GROUP_SECP256R1, GROUP_SECP384R1]),
     (EXT_EC_POINT_FORMATS, [1, 0]),
     (EXT_SESSION_TICKET, []),
     (EXT_ALPN, alpn_h2_http11),
     (EXT_STATUS_REQUEST, [1, 0, 0, 0, 0]),
     (EXT_SIGNATURE_ALGORITHMS,
       u16_list [0x0403, 0x0804, 0x0401, 0x0503, 0x0805, 0x0501, 0x0806, 0x0601]),
     (EXT_SCT, []),
     (EXT_KEY_SHARE, share),
     (EXT_PSK_KEY_EXCHANGE_MODES, [1, 1]),
     (EXT_SUPPORTED_VERSIONS, supported_versions g1),
     (EXT_COMPRESS_CERTIFICATE, [2, 0x00, 0x02]),
     (EXT_ALPS, alpn_list [ascii ''h2'']),
     (EXT_ECH, ech)])"

definition encode_extensions ::
  "(bytes \<Rightarrow> bytes) \<Rightarrow> bytes \<Rightarrow> bytes \<Rightarrow> u16 \<times> u16 \<Rightarrow> rng \<Rightarrow> bytes \<times> rng" where
  "encode_extensions mlkem sni x25519 grease r =
    (let (share, r) = key_share mlkem (fst grease) x25519 r;
         (ech, r) = grease_ech_data r;
         (middle, r) = shuffle_middle
           (map (\<lambda>(typ, data). ext typ data) (middle_extensions sni share ech grease)) r
     in (ext (fst grease) [0] @ concat middle @ ext (snd grease) [0], r))"

definition build_client_hello_handshake ::
  "(bytes \<Rightarrow> bytes) \<Rightarrow> bytes \<Rightarrow> bytes \<Rightarrow> bytes \<Rightarrow> bytes \<Rightarrow> rng \<Rightarrow> bytes \<times> rng" where
  "build_client_hello_handshake mlkem random session_id sni x25519 r =
    (let (grease, r) = grease_pair r;
         ciphers = chrome_ciphers (fst grease);
         (extensions, r) = encode_extensions mlkem sni x25519 grease r;
         body = to_be 2 (0x0303 :: u16) @ random @ [of_nat SESSION_ID_LEN] @ session_id @
                to_be 2 (of_nat (length ciphers * 2) :: u16) @ concat (map (to_be 2) ciphers) @
                [1] @ [0] @
                to_be 2 (of_nat (length extensions) :: u16) @ extensions
     in ([1] @ u24_bytes (length body) @ body, r))"

definition build_client_hello_record ::
  "(bytes \<Rightarrow> bytes) \<Rightarrow> bytes \<Rightarrow> bytes \<Rightarrow> bytes \<Rightarrow> bytes \<Rightarrow> rng \<Rightarrow> bytes \<times> rng" where
  "build_client_hello_record mlkem random session_id sni x25519 r =
    (let (handshake, r) = build_client_hello_handshake mlkem random session_id sni x25519 r
     in ([0x16] @ to_be 2 (0x0301 :: u16) @ to_be 2 (of_nat (length handshake) :: u16) @ handshake, r))"

declare word_of_length [simp del] parse_alpn_loop.simps [simp del] parse_x25519_loop.simps [simp del]
  parse_ext_loop.simps [simp del]

section \<open>Facts about slices and lengths\<close>

lemma get_range_at:
  "length a = i \<Longrightarrow> length m = n \<Longrightarrow> get_range i n (a @ m @ c) = Some m"
  by (auto simp: get_range_def)

lemma get_range_Some_iff:
  "get_range i n b = Some m \<longleftrightarrow> (\<exists>a c. b = a @ m @ c \<and> length a = i \<and> length m = n)"
proof
  assume "get_range i n b = Some m"
  then have "i + n \<le> length b" "m = take n (drop i b)"
    by (auto simp: get_range_def split: if_splits)
  then have "b = take i b @ m @ drop (i + n) b" "length (take i b) = i" "length m = n"
    by (simp_all add: add.commute [of i n] flip: drop_drop)
  then show "\<exists>a c. b = a @ m @ c \<and> length a = i \<and> length m = n" by blast
qed (auto simp: get_range_at)

lemma nth_opt_at: "length a = i \<Longrightarrow> nth_opt i (a @ x # c) = Some x"
  by (auto simp: nth_opt_def)

lemma nth_opt_Some_iff: "nth_opt i b = Some x \<longleftrightarrow> (\<exists>a c. b = a @ x # c \<and> length a = i)"
proof
  assume "nth_opt i b = Some x"
  then have "i < length b" "x = b ! i" by (auto simp: nth_opt_def split: if_splits)
  then have "b = take i b @ x # drop (Suc i) b" "length (take i b) = i"
    by (simp_all add: id_take_nth_drop)
  then show "\<exists>a c. b = a @ x # c \<and> length a = i" by blast
qed (auto simp: nth_opt_at)

lemma be16_to_be [simp]: "be16 (to_be 2 w) = w"
  by (simp add: be16_def)

lemma to_be_be16: "length b = 2 \<Longrightarrow> to_be 2 (be16 b) = b"
  using to_be_from_be [of b, where ?'a = 16] by (simp add: be16_def)

lemma unat_of_nat_u16: "n < 65536 \<Longrightarrow> unat (of_nat n :: u16) = n"
  by (simp add: unat_of_nat take_bit_nat_eq_self)

lemma unat_of_nat_u8: "n < 256 \<Longrightarrow> unat (of_nat n :: u8) = n"
  by (simp add: unat_of_nat take_bit_nat_eq_self)

lemma length_u24_bytes [simp]: "length (u24_bytes n) = 3"
  by (simp add: u24_bytes_def Let_def)

lemma u24_bytes_to_be: "u24_bytes n = to_be 3 (of_nat n :: u64)"
  by (simp add: u24_bytes_def Let_def numeral_3_eq_3 drop_bit_drop_bit)

lemma u24_from_be: "u24 [a, b, c] = Some (unat (from_be [a, b, c] :: u64))"
proof -
  have "push_bit 16 (ucast a :: u64) OR push_bit 8 (ucast b) OR ucast c = from_be [a, b, c]"
    by (rule bit_word_eqI) (auto simp: from_be_def bit_simps)
  then show ?thesis by (simp add: u24_def)
qed

lemma u24_u24_bytes [simp]: "n < 2 ^ 24 \<Longrightarrow> u24 (u24_bytes n) = Some n"
proof -
  assume n: "n < 2 ^ 24"
  obtain a b c where abc: "u24_bytes n = [a, b, c]"
    by (simp add: u24_bytes_def Let_def)
  have "(from_be (u24_bytes n) :: u64) = of_nat n"
    using n by (simp add: u24_bytes_to_be from_be_to_be_take take_bit_of_nat take_bit_nat_eq_self)
  with n abc show ?thesis
    by (simp add: u24_from_be unat_of_nat take_bit_nat_eq_self)
qed

lemma to_be_2_split: "\<exists>a b. to_be 2 (w :: u16) = [a, b]"
  by (simp add: numeral_2_eq_2)

lemma handshake_from_record_at:
  assumes "unat (w :: u16) = length hs"
  shows "handshake_from_record ([0x16] @ to_be 2 (v :: u16) @ to_be 2 w @ hs) = Some hs"
proof -
  obtain a b c d where "to_be 2 v = [a, b]" "to_be 2 w = [c, d]"
    using to_be_2_split [of v] to_be_2_split [of w] by blast
  moreover from this have "be16 [c, d] = w" by (metis be16_to_be)
  ultimately show ?thesis using assms by (simp add: handshake_from_record_def Let_def)
qed

section \<open>Parsing what the builders write\<close>

lemma length_ext [simp]: "length (ext t d) = 4 + length d"
  by (simp add: ext_def)

lemma key_share_entry_ext: "key_share_entry = ext"
  by (simp add: fun_eq_iff key_share_entry_def ext_def)

lemma ext_header:
  assumes "length d < 65536"
  shows "be16 (take 2 (ext t d @ rest)) = t"
    and "unat (be16 (take 2 (drop 2 (ext t d @ rest)))) = length d"
    and "get_range 4 (length d) (ext t d @ rest) = Some d"
    and "drop (4 + length d) (ext t d @ rest) = rest"
  using assms by (simp_all add: ext_def unat_of_nat_u16 get_range_def)

lemma parse_ext_loop_end: "length exts < 4 \<Longrightarrow> parse_ext_loop exts acc = Some acc"
  by (simp add: parse_ext_loop.simps)

lemma parse_ext_loop_ext:
  "length d < 65536 \<Longrightarrow> parse_ext_loop (ext t d @ rest) acc = parse_ext_loop rest (note_ext t d acc)"
  by (subst parse_ext_loop.simps) (simp add: ext_header Let_def del: drop_append take_append)

lemma parse_ext_loop_concat:
  "list_all (\<lambda>(t, d). length d < 65536) ps \<Longrightarrow>
     parse_ext_loop (concat (map (\<lambda>(t, d). ext t d) ps)) acc
       = Some (foldl (\<lambda>a (t, d). note_ext t d a) acc ps)"
  by (induction ps arbitrary: acc)
    (simp_all add: parse_ext_loop_end parse_ext_loop_ext split: prod.splits)

text \<open>
  The fields after a list of extensions depend only on the set of extensions,
  when each of the three types that matter occurs with one payload only.
\<close>

lemma foldl_note_sni:
  "(\<And>d. (EXT_SERVER_NAME, d) \<in> set ps \<Longrightarrow> parse_sni d = v) \<Longrightarrow>
   fst acc = v \<or> EXT_SERVER_NAME \<in> fst ` set ps \<Longrightarrow>
     fst (foldl (\<lambda>a (t, d). note_ext t d a) acc ps) = v"
proof (induction ps arbitrary: acc)
  case (Cons p ps)
  obtain t d where p: "p = (t, d)" by (cases p)
  have "fst (note_ext t d acc) = (if t = EXT_SERVER_NAME then parse_sni d else fst acc)"
    by (auto simp: note_ext_def split: prod.splits)
  then show ?case using Cons.prems p by (auto intro!: Cons.IH)
qed auto

lemma foldl_note_x25519:
  "(\<And>d. (EXT_KEY_SHARE, d) \<in> set ps \<Longrightarrow> parse_x25519_share d = v) \<Longrightarrow>
   fst (snd acc) = v \<or> EXT_KEY_SHARE \<in> fst ` set ps \<Longrightarrow>
     fst (snd (foldl (\<lambda>a (t, d). note_ext t d a) acc ps)) = v"
proof (induction ps arbitrary: acc)
  case (Cons p ps)
  obtain t d where p: "p = (t, d)" by (cases p)
  have "fst (snd (note_ext t d acc))
      = (if t = EXT_KEY_SHARE then parse_x25519_share d else fst (snd acc))"
    by (auto simp: note_ext_def constants split: prod.splits)
  then show ?case using Cons.prems p by (auto intro!: Cons.IH)
qed auto

lemma foldl_note_alpn:
  "(\<And>d. (EXT_ALPN, d) \<in> set ps \<Longrightarrow> parse_alpn d = v) \<Longrightarrow>
   snd (snd acc) = v \<or> EXT_ALPN \<in> fst ` set ps \<Longrightarrow>
     snd (snd (foldl (\<lambda>a (t, d). note_ext t d a) acc ps)) = v"
proof (induction ps arbitrary: acc)
  case (Cons p ps)
  obtain t d where p: "p = (t, d)" by (cases p)
  have "snd (snd (note_ext t d acc)) = (if t = EXT_ALPN then parse_alpn d else snd (snd acc))"
    by (auto simp: note_ext_def constants split: prod.splits)
  then show ?case using Cons.prems p by (auto intro!: Cons.IH)
qed auto

lemma parse_alpn_loop_cons:
  "length p < 256 \<Longrightarrow>
     parse_alpn_loop ((of_nat (length p) :: u8) # p @ rest) out = parse_alpn_loop rest (out @ [p])"
  by (subst parse_alpn_loop.simps) (simp add: unat_of_nat_u8)

lemma parse_alpn_loop_list:
  "list_all (\<lambda>p. length p < 256) ps \<Longrightarrow>
     parse_alpn_loop (concat (map (\<lambda>p. (of_nat (length p) :: u8) # p) ps)) out = out @ ps"
  by (induction ps arbitrary: out) (simp_all add: parse_alpn_loop_cons, simp add: parse_alpn_loop.simps)

lemma length_alpn_concat:
  "length (concat (map (\<lambda>p. (of_nat (length p) :: u8) # p) ps)) = sum_list (map (\<lambda>p. 1 + length p) ps)"
  by (induction ps) auto

lemma parse_alpn_list:
  assumes "list_all (\<lambda>p. length p < 256) ps" "sum_list (map (\<lambda>p. 1 + length p) ps) < 65536"
  shows "parse_alpn (alpn_list ps) = ps"
  using assms parse_alpn_loop_list [OF assms(1), of "[]"] length_alpn_concat [of ps]
  by (simp add: parse_alpn_def alpn_list_def unat_of_nat_u16 get_range_def)

lemma parse_sni_payload:
  assumes "length host < 65533" "utf8_valid host"
  shows "parse_sni (sni_payload host) = Some host"
proof -
  define w v where "w = (of_nat (3 + length host) :: u16)" and "v = (of_nat (length host) :: u16)"
  have wv: "unat w = 3 + length host" "unat v = length host"
    using assms(1) unfolding w_def v_def by (simp_all only: unat_of_nat_u16)
  have "sni_payload host = to_be 2 w @ [0] @ to_be 2 v @ host"
    by (simp add: sni_payload_def w_def v_def)
  with wv assms(2) show ?thesis
    by (simp add: parse_sni_def nth_opt_def get_range_def from_utf8_def)
qed

lemma parse_x25519_loop_entry:
  "length key < 65536 \<Longrightarrow> parse_x25519_loop (key_share_entry grp key @ rest) =
    (if grp = GROUP_X25519 \<and> length key = 32 then Some key
     else if grp = GROUP_X25519_MLKEM768 \<and> 32 \<le> length key then Some (drop (length key - 32) key)
     else parse_x25519_loop rest)"
  by (subst parse_x25519_loop.simps)
    (auto simp: key_share_entry_ext ext_header Let_def simp del: drop_append take_append)

lemma GREASE_not_used:
  "g \<in> set GREASE \<Longrightarrow> g \<noteq> GROUP_X25519 \<and> g \<noteq> GROUP_X25519_MLKEM768 \<and>
     g \<noteq> EXT_SERVER_NAME \<and> g \<noteq> EXT_KEY_SHARE \<and> g \<noteq> EXT_ALPN"
  by (auto simp: constants)

lemma length_key_share_entry [simp]: "length (key_share_entry g k) = 4 + length k"
  by (simp add: key_share_entry_ext)

lemma length_key_share:
  "length (fst (key_share mlkem g public r))
     = 15 + length (fst (mlkem768_public mlkem r)) + 2 * length public"
  by (simp add: key_share_def Let_def split: prod.splits)

lemma length_os_fill_random [simp]: "length (fst (os_fill_random n r)) = n"
  by (simp add: os_fill_random_def)

lemma parse_key_share:
  assumes mlkem: "\<And>s. length s = 64 \<Longrightarrow> length (mlkem s) = MLKEM768_PUBLIC_LEN"
    and g: "g \<in> set GREASE" and public: "length public = 32"
  shows "parse_x25519_share (fst (key_share mlkem g public r)) = Some public"
proof -
  define pk where "pk = fst (mlkem768_public mlkem r)"
  have pk: "length pk = 1184"
    using mlkem by (simp add: pk_def mlkem768_public_def os_fill_random_def constants)
  define shares where "shares = key_share_entry g [0] @
    key_share_entry GROUP_X25519_MLKEM768 (pk @ public) @ key_share_entry GROUP_X25519 public"
  define w where "w = (of_nat (length shares) :: u16)"
  have len: "length shares < 65536" using pk public by (simp add: shares_def)
  have w: "unat w = length shares" unfolding w_def using len by (rule unat_of_nat_u16)
  have ks: "fst (key_share mlkem g public r) = to_be 2 w @ shares"
    by (simp add: key_share_def shares_def pk_def w_def Let_def split: prod.splits)
  have "parse_x25519_loop shares = Some public"
    using pk public GREASE_not_used [OF g]
    by (simp add: shares_def parse_x25519_loop_entry)
  then show ?thesis
    unfolding ks using w by (simp add: parse_x25519_share_def get_range_def)
qed

lemma grease_pair_in:
  "fst (fst (grease_pair r)) \<in> set GREASE \<and> snd (fst (grease_pair r)) \<in> set GREASE"
proof -
  have "GREASE ! (n mod length GREASE) \<in> set GREASE" for n
    by (rule nth_mem) (simp add: GREASE_def)
  then show ?thesis by (simp add: grease_pair_def random_u8_def Let_def)
qed

lemma map_swap_at: "i < length xs \<Longrightarrow> j < length xs \<Longrightarrow> map f (swap_at i j xs) = swap_at i j (map f xs)"
  by (simp add: swap_at_def map_update)

lemma length_swap_at [simp]: "length (swap_at i j xs) = length xs"
  by (simp add: swap_at_def)

lemma mset_swap_at: "i < length xs \<Longrightarrow> j < length xs \<Longrightarrow> mset (swap_at i j xs) = mset xs"
  unfolding swap_at_def by (rule mset_swap)

lemma mod_below: "Suc n < l \<Longrightarrow> k mod Suc (Suc n) < (l :: nat)"
  using mod_less_divisor [of "Suc (Suc n)" k] by linarith

lemma shuffle_loop_perm:
  "n < length xs \<Longrightarrow> mset (fst (shuffle_loop n xs r)) = mset xs"
proof (induction n arbitrary: xs r)
  case (Suc n)
  then show ?case by (simp add: random_u8_def Let_def mset_swap_at mod_below)
qed simp

lemma shuffle_loop_map:
  "n < length xs \<Longrightarrow> shuffle_loop n (map f xs) r = map_prod (map f) (\<lambda>r. r) (shuffle_loop n xs r)"
proof (induction n arbitrary: xs r)
  case (Suc n)
  then show ?case by (simp add: random_u8_def Let_def map_swap_at [symmetric] mod_below)
qed simp

lemma shuffle_middle_perm: "mset (fst (shuffle_middle xs r)) = mset xs"
  by (cases "length xs < 2") (auto simp: shuffle_middle_def shuffle_loop_perm)

lemma shuffle_middle_map:
  "fst (shuffle_middle (map f xs) r) = map f (fst (shuffle_middle xs r))"
  by (cases "length xs < 2") (auto simp: shuffle_middle_def shuffle_loop_map)

abbreviation ext_bytes :: "(u16 \<times> bytes) list \<Rightarrow> bytes" where
  "ext_bytes ps \<equiv> concat (map (\<lambda>(t, d). ext t d) ps)"

lemma length_ext_bytes: "length (ext_bytes ps) = sum_list (map (\<lambda>(t, d). 4 + length d) ps)"
  by (induction ps) auto

lemma length_ext_bytes_perm:
  assumes "mset ps = mset qs" shows "length (ext_bytes ps) = length (ext_bytes qs)"
proof -
  have "length (ext_bytes ps) = sum_mset (image_mset (\<lambda>(t, d). 4 + length d) (mset ps))" for ps
    unfolding length_ext_bytes by (simp only: mset_map [symmetric] sum_mset_sum_list)
  with assms show ?thesis by simp
qed

lemma length_ext_payload: "(t, d) \<in> set ps \<Longrightarrow> length d \<le> length (ext_bytes ps)"
  by (induction ps) auto

lemma length_u16_list [simp]: "length (u16_list vs) = 2 + 2 * length vs"
proof -
  have "length (concat (map (to_be 2) vs)) = 2 * length vs" by (induction vs) auto
  then show ?thesis by (simp add: u16_list_def)
qed

lemma length_ascii [simp]: "length (ascii s) = length s"
  by (simp add: ascii_def)

lemma length_alpn_list [simp]: "length (alpn_list ps) = 2 + sum_list (map (\<lambda>p. 1 + length p) ps)"
  unfolding alpn_list_def length_append length_to_be length_alpn_concat ..

lemma length_grease_ech: "length (fst (grease_ech_data r)) \<le> 282"
proof -
  have "[144, 176, 208, 240] ! (n mod 4) \<le> (240 :: nat)" for n :: nat
  proof -
    have "n mod 4 \<in> {0, 1, 2, 3}" by auto
    then show ?thesis by auto
  qed
  then show ?thesis
    by (simp add: grease_ech_data_def Let_def split_beta)
qed

lemma length_middle:
  "length (ext_bytes (middle_extensions sni share ech g)) = 138 + length sni + length share + length ech"
  by (cases g) (simp add: middle_extensions_def sni_payload_def supported_versions_def
      alpn_h2_http11_def)

lemma encode_extensions_shape:
  assumes mlkem: "\<And>s. length s = 64 \<Longrightarrow> length (mlkem s) = MLKEM768_PUBLIC_LEN"
    and public: "length public = 32"
  obtains ps share ech where "fst (encode_extensions mlkem sni public (g0, g1) r)
      = ext_bytes ((g0, [0]) # ps @ [(g1, [0])])"
    and "mset ps = mset (middle_extensions sni share ech (g0, g1))"
    and "share = fst (key_share mlkem g0 public r)"
    and "length (ext_bytes ps) \<le> 1683 + length sni"
proof -
  define share where "share = fst (key_share mlkem g0 public r)"
  define r1 where "r1 = snd (key_share mlkem g0 public r)"
  define ech where "ech = fst (grease_ech_data r1)"
  define r2 where "r2 = snd (grease_ech_data r1)"
  define ps where "ps = fst (shuffle_middle (middle_extensions sni share ech (g0, g1)) r2)"
  have "length (mlkem (fst (os_fill_random 64 r))) = 1184"
    using mlkem [of "fst (os_fill_random 64 r)"] by (simp add: MLKEM768_PUBLIC_LEN_def)
  then have "length share = 1263"
    using public by (simp add: share_def length_key_share mlkem768_public_def split_beta)
  moreover have perm: "mset ps = mset (middle_extensions sni share ech (g0, g1))"
    by (simp add: ps_def shuffle_middle_perm)
  ultimately have len: "length (ext_bytes ps) \<le> 1683 + length sni"
    using length_grease_ech [of r1] length_ext_bytes_perm [OF perm]
    by (simp only: length_middle ech_def)
  have "fst (encode_extensions mlkem sni public (g0, g1) r)
      = ext_bytes ((g0, [0]) # ps @ [(g1, [0])])"
    by (simp add: encode_extensions_def Let_def split_beta shuffle_middle_map
        ps_def share_def r1_def ech_def r2_def)
  then show thesis using perm share_def len by (rule that)
qed

lemma parse_built_extensions:
  assumes mlkem: "\<And>s. length s = 64 \<Longrightarrow> length (mlkem s) = MLKEM768_PUBLIC_LEN"
    and g: "g0 \<in> set GREASE" "g1 \<in> set GREASE" and public: "length public = 32"
    and sni: "utf8_valid sni" "length sni \<le> 60000"
  shows "parse_extensions (fst (encode_extensions mlkem sni public (g0, g1) r))
      = Some (Some sni, Some public, [ascii ''h2'', ascii ''http/1.1''])"
    and "length (fst (encode_extensions mlkem sni public (g0, g1) r)) \<le> 1693 + length sni"
proof -
  obtain ps share ech where e: "fst (encode_extensions mlkem sni public (g0, g1) r)
      = ext_bytes ((g0, [0]) # ps @ [(g1, [0])])"
    and perm: "mset ps = mset (middle_extensions sni share ech (g0, g1))"
    and share: "share = fst (key_share mlkem g0 public r)"
    and len: "length (ext_bytes ps) \<le> 1683 + length sni"
    using encode_extensions_shape [OF mlkem public] .
  define qs where "qs = (g0, [0 :: u8]) # ps @ [(g1, [0])]"
  have set_ps: "set ps = set (middle_extensions sni share ech (g0, g1))"
    using perm by (rule mset_eq_setD)
  have len_qs: "length (ext_bytes qs) = 10 + length (ext_bytes ps)" by (simp add: qs_def)
  have small: "list_all (\<lambda>(t, d). length d < 65536) qs"
    using length_ext_payload [of _ _ qs] len len_qs sni(2) by (fastforce simp: list_all_iff)
  note no_grease = GREASE_not_used [OF g(1)] GREASE_not_used [OF g(2)]
  have mem: "(t, d) \<in> set qs \<longleftrightarrow> (t, d) \<in> set (middle_extensions sni share ech (g0, g1))"
    if "t \<in> {EXT_SERVER_NAME, EXT_KEY_SHARE, EXT_ALPN}" for t d
    using that no_grease by (auto simp: qs_def set_ps)
  define out where "out = foldl (\<lambda>a (t, d). note_ext t d a) (None, None, []) qs"
  have "fst out = Some sni"
    unfolding out_def using mem [of EXT_SERVER_NAME] sni
    by (intro foldl_note_sni)
      (auto simp: middle_extensions_def constants parse_sni_payload image_iff Bex_def)
  moreover have "fst (snd out) = Some public"
    unfolding out_def using mem [of EXT_KEY_SHARE] parse_key_share [OF mlkem g(1) public, where r = r]
    by (intro foldl_note_x25519)
      (auto simp: middle_extensions_def constants share image_iff Bex_def)
  moreover have "snd (snd out) = [ascii ''h2'', ascii ''http/1.1'']"
    unfolding out_def using mem [of EXT_ALPN]
    by (intro foldl_note_alpn)
      (auto simp: middle_extensions_def constants alpn_h2_http11_def parse_alpn_list image_iff Bex_def)
  ultimately have "out = (Some sni, Some public, [ascii ''h2'', ascii ''http/1.1''])"
    by (cases out) auto
  then show "parse_extensions (fst (encode_extensions mlkem sni public (g0, g1) r))
      = Some (Some sni, Some public, [ascii ''h2'', ascii ''http/1.1''])"
    using parse_ext_loop_concat [OF small] by (simp add: parse_extensions_def e out_def qs_def)
  show "length (fst (encode_extensions mlkem sni public (g0, g1) r)) \<le> 1693 + length sni"
    using len len_qs by (simp add: e qs_def)
qed

lemma parse_handshake_body:
  assumes body: "body = v @ random @ [sl] @ sid @ to_be 2 cl @ cs @ [pl] @ cm @ to_be 2 el @ exts"
    and lens: "length v = 2" "length random = 32" "unat sl = length sid"
      "unat (cl :: u16) = length cs" "unat pl = length cm" "unat (el :: u16) = length exts"
    and small: "38 \<le> length body" "length body < 2 ^ 24"
  shows "parse_handshake ([1] @ u24_bytes (length body) @ body) =
    Option.bind (parse_extensions exts) (\<lambda>(sni, x25519, alpn).
      Some \<lparr>ch_random = random, ch_session_id = sid, ch_sni = sni,
            ch_x25519_public = x25519, ch_alpn = alpn\<rparr>)"
proof -
  have "get_range 2 32 body = Some random" "nth_opt 34 body = Some sl"
    "get_range 35 (length sid) body = Some sid"
    "get_range (35 + length sid) 2 body = Some (to_be 2 cl)"
    "nth_opt (37 + (length sid + length cs)) body = Some pl"
    "get_range (38 + (length sid + (length cs + length cm))) 2 body = Some (to_be 2 el)"
    "get_range (40 + (length sid + (length cs + length cm))) (length exts) body = Some exts"
    using lens unfolding body by (simp_all add: get_range_def nth_opt_def nth_append nth_Cons' drop_Cons')
  then show ?thesis using lens small
    by (simp add: parse_handshake_def u24_u24_bytes [simplified] add.commute add.left_commute
        del: u24_u24_bytes)
qed

lemma length_chrome_ciphers [simp]: "length (chrome_ciphers g) = 16"
  by (simp add: chrome_ciphers_def)

lemma length_concat_u16: "length (concat (map (to_be 2) vs)) = 2 * length vs"
  by (induction vs) auto

lemma build_handshake_shape:
  assumes mlkem: "\<And>s. length s = 64 \<Longrightarrow> length (mlkem s) = MLKEM768_PUBLIC_LEN"
    and lens: "length random = 32" "length sid = 32" "length public = 32"
    and sni: "utf8_valid sni" "length sni \<le> 60000"
  obtains body where
    "fst (build_client_hello_handshake mlkem random sid sni public r)
       = [1] @ u24_bytes (length body) @ body"
    "take 67 body = to_be 2 (0x0303 :: u16) @ random @ [32] @ sid" "67 \<le> length body"
    "length body \<le> 1800 + length sni"
    "parse_handshake ([1] @ u24_bytes (length body) @ body) =
      Some \<lparr>ch_random = random, ch_session_id = sid, ch_sni = Some sni,
            ch_x25519_public = Some public, ch_alpn = [ascii ''h2'', ascii ''http/1.1'']\<rparr>"
proof -
  define g where "g = fst (grease_pair r)"
  define exts where "exts = fst (encode_extensions mlkem sni public g (snd (grease_pair r)))"
  define el where "el = (of_nat (length exts) :: u16)"
  define cs where "cs = concat (map (to_be 2) (chrome_ciphers (fst g)))"
  define body where "body = to_be 2 (0x0303 :: u16) @ random @ [32] @ sid @ to_be 2 (32 :: u16) @ cs @
    [1] @ [0] @ to_be 2 el @ exts"
  have g: "fst g \<in> set GREASE" "snd g \<in> set GREASE"
    using grease_pair_in [of r] by (simp_all add: g_def)
  note built = parse_built_extensions [OF mlkem g lens(3) sni, where r = "snd (grease_pair r)"]
  have exts: "length exts \<le> 1693 + length sni" "parse_extensions exts
      = Some (Some sni, Some public, [ascii ''h2'', ascii ''http/1.1''])"
    using built by (simp_all add: exts_def)
  have el: "unat el = length exts"
    unfolding el_def by (rule unat_of_nat_u16) (use exts(1) sni(2) in linarith)
  have cs: "length cs = 32" by (simp add: cs_def length_concat_u16)
  have len: "length body = 105 + length exts" using lens cs by (simp add: body_def)
  have "parse_handshake ([1] @ u24_bytes (length body) @ body) =
    Option.bind (parse_extensions exts) (\<lambda>(sni, x25519, alpn).
      Some \<lparr>ch_random = random, ch_session_id = sid, ch_sni = sni,
            ch_x25519_public = x25519, ch_alpn = alpn\<rparr>)"
    by (rule parse_handshake_body [where cm = "[0]"], rule body_def)
      (use lens cs el exts sni len in simp_all)
  moreover have "fst (build_client_hello_handshake mlkem random sid sni public r)
       = [1] @ u24_bytes (length body) @ body"
    by (simp add: build_client_hello_handshake_def body_def el_def exts_def cs_def g_def
        Let_def split_beta SESSION_ID_LEN_def)
  moreover have "take 67 body = to_be 2 (0x0303 :: u16) @ random @ [32] @ sid"
    using lens by (simp add: body_def)
  ultimately show thesis
    using that exts len by simp
qed

lemma client_hello_built:
  assumes mlkem: "\<And>s. length s = 64 \<Longrightarrow> length (mlkem s) = MLKEM768_PUBLIC_LEN"
    and lens: "length random = 32" "length sid = 32" "length public = 32"
    and sni: "utf8_valid sni" "length sni \<le> 60000"
  shows "client_hello_parse (fst (build_client_hello_record mlkem random sid sni public r)) =
      Some \<lparr>ch_random = random, ch_session_id = sid, ch_sni = Some sni,
            ch_x25519_public = Some public, ch_alpn = [ascii ''h2'', ascii ''http/1.1'']\<rparr>"
    and "get_range SESSION_ID_OFFSET SESSION_ID_LEN
           (fst (build_client_hello_handshake mlkem random sid sni public r)) = Some sid"
proof -
  obtain body where
    h: "fst (build_client_hello_handshake mlkem random sid sni public r)
       = [1] @ u24_bytes (length body) @ body"
    and pre: "take 67 body = to_be 2 (0x0303 :: u16) @ random @ [32] @ sid" "67 \<le> length body"
    and len: "length body \<le> 1800 + length sni"
    and p: "parse_handshake ([1] @ u24_bytes (length body) @ body) =
      Some \<lparr>ch_random = random, ch_session_id = sid, ch_sni = Some sni,
            ch_x25519_public = Some public, ch_alpn = [ascii ''h2'', ascii ''http/1.1'']\<rparr>"
    using build_handshake_shape [OF mlkem lens sni] .
  define hs where "hs = [1] @ u24_bytes (length body) @ body"
  define w where "w = (of_nat (length hs) :: u16)"
  have w: "unat w = length hs"
    unfolding w_def by (rule unat_of_nat_u16) (use len sni(2) in \<open>simp add: hs_def\<close>)
  have "fst (build_client_hello_record mlkem random sid sni public r)
      = [0x16] @ to_be 2 (0x0301 :: u16) @ to_be 2 w @ hs"
    using h by (simp add: build_client_hello_record_def w_def hs_def split_beta Let_def)
  moreover have "handshake_from_record ([0x16] @ to_be 2 (0x0301 :: u16) @ to_be 2 w @ hs) = Some hs"
    using w by (rule handshake_from_record_at)
  ultimately show "client_hello_parse (fst (build_client_hello_record mlkem random sid sni public r)) =
      Some \<lparr>ch_random = random, ch_session_id = sid, ch_sni = Some sni,
            ch_x25519_public = Some public, ch_alpn = [ascii ''h2'', ascii ''http/1.1'']\<rparr>"
    using p by (simp add: client_hello_parse_def hs_def)
  have "body = (to_be 2 (0x0303 :: u16) @ random @ [32]) @ sid @ drop 67 body"
    using append_take_drop_id [of 67 body] pre(1) by simp
  then have "hs = ([1] @ u24_bytes (length body) @ to_be 2 (0x0303 :: u16) @ random @ [32]) @ sid @ drop 67 body"
    by (simp add: hs_def)
  moreover have "get_range 39 32 (([1] @ u24_bytes (length body) @ to_be 2 (0x0303 :: u16) @ random @ [32])
      @ sid @ drop 67 body) = Some sid"
    by (rule get_range_at) (use lens in simp_all)
  ultimately show "get_range SESSION_ID_OFFSET SESSION_ID_LEN
           (fst (build_client_hello_handshake mlkem random sid sni public r)) = Some sid"
    unfolding h by (simp only: hs_def constants)
qed

text \<open>
  The camouflage ClientHello parses back.  Whatever random bytes the
  operating system delivers (hence for every choice of GREASE values, ECH
  payload and extension shuffle), the record built for a 32-byte random, a
  32-byte session id, a host name and an X25519 public key is parsed by the
  server to exactly these values, with the ALPN offer h2 and http/1.1, and the
  session id stands at offset 39 of the handshake message, where the server
  blanks it for authentication.
\<close>

theorem client_hello_roundtrip:
  assumes "\<And>s. length s = 64 \<Longrightarrow> length (mlkem s) = MLKEM768_PUBLIC_LEN"
    and "length random = 32" "length sid = 32" "length public = 32"
    and "utf8_valid sni" "length sni \<le> 60000"
  shows "client_hello_parse (fst (build_client_hello_record mlkem random sid sni public r)) =
      Some \<lparr>ch_random = random, ch_session_id = sid, ch_sni = Some sni,
            ch_x25519_public = Some public, ch_alpn = [ascii ''h2'', ascii ''http/1.1'']\<rparr> \<and>
    get_range SESSION_ID_OFFSET SESSION_ID_LEN
      (fst (build_client_hello_handshake mlkem random sid sni public r)) = Some sid"
  using client_hello_built [where mlkem = mlkem, OF assms(1)] assms(2-6) by blast

theorem client_hello_roundtrip_witness:
  "client_hello_parse (fst (build_client_hello_record (\<lambda>_. replicate 1184 7)
       (replicate 32 1) (replicate 32 2) (ascii ''www.example.com'') (replicate 32 3) of_nat)) =
     Some \<lparr>ch_random = replicate 32 1, ch_session_id = replicate 32 2,
           ch_sni = Some (ascii ''www.example.com''), ch_x25519_public = Some (replicate 32 3),
           ch_alpn = [ascii ''h2'', ascii ''http/1.1'']\<rparr>"
  by (rule client_hello_roundtrip [THEN conjunct1])
    (simp_all add: MLKEM768_PUBLIC_LEN_def ascii_def)

end
