(* ===== verification/Reality_Auth.thy ===== *)
theory Reality_Auth
  imports Reality_Hello Auth_Verifier
begin

text \<open>
  How a REALITY client proves itself inside its ClientHello
  (\<open>payphone-transport/src/reality/auth.rs\<close> and the server side in
  \<open>reality/mod.rs\<close>): HMAC and HKDF, the sealed session id, the client's
  hello and the server's \<open>authenticate\<close>.

  The primitives of the crypto crates are the fields of a parameter record;
  \<open>crypto_laws\<close> states what they document: Diffie--Hellman is symmetric,
  digests and keys have their lengths, and an authenticated cipher opens exactly
  what it sealed.  Functions that may panic return an \<open>outcome\<close>.
\<close>

section \<open>Cryptographic primitives\<close>

record RealityCrypto =
  x25519_base :: "bytes \<Rightarrow> bytes"
  x25519_dh :: "bytes \<Rightarrow> bytes \<Rightarrow> bytes"
  sha256 :: "bytes \<Rightarrow> bytes"
  sha384 :: "bytes \<Rightarrow> bytes"
  sha512 :: "bytes \<Rightarrow> bytes"
  aes128_seal :: "bytes \<Rightarrow> bytes \<Rightarrow> bytes \<Rightarrow> bytes \<Rightarrow> bytes"
  aes128_open :: "bytes \<Rightarrow> bytes \<Rightarrow> bytes \<Rightarrow> bytes \<Rightarrow> bytes option"
  aes256_seal :: "bytes \<Rightarrow> bytes \<Rightarrow> bytes \<Rightarrow> bytes \<Rightarrow> bytes"
  aes256_open :: "bytes \<Rightarrow> bytes \<Rightarrow> bytes \<Rightarrow> bytes \<Rightarrow> bytes option"
  chacha_seal :: "bytes \<Rightarrow> bytes \<Rightarrow> bytes \<Rightarrow> bytes \<Rightarrow> bytes"
  chacha_open :: "bytes \<Rightarrow> bytes \<Rightarrow> bytes \<Rightarrow> bytes \<Rightarrow> bytes option"

definition aead_laws ::
  "nat \<Rightarrow> (bytes \<Rightarrow> bytes \<Rightarrow> bytes \<Rightarrow> bytes \<Rightarrow> bytes) \<Rightarrow>
   (bytes \<Rightarrow> bytes \<Rightarrow> bytes \<Rightarrow> bytes \<Rightarrow> bytes option) \<Rightarrow> bool" where
  "aead_laws key_len seal opn \<longleftrightarrow>
    (\<forall>k n a m x. length k = key_len \<and> length n = 12 \<longrightarrow>
       length (seal k n a m) = length m + 16 \<and>
       (opn k n a x = Some m \<longleftrightarrow> x = seal k n a m))"

definition crypto_laws :: "RealityCrypto \<Rightarrow> bool" where
  "crypto_laws c \<longleftrightarrow>
    (\<forall>a b. length a = 32 \<and> length b = 32 \<longrightarrow>
       x25519_dh c a (x25519_base c b) = x25519_dh c b (x25519_base c a)) \<and>
    (\<forall>a b. length (x25519_base c a) = 32 \<and> length (x25519_dh c a b) = 32) \<and>
    (\<forall>x. length (sha256 c x) = 32 \<and> length (sha384 c x) = 48 \<and> length (sha512 c x) = 64) \<and>
    aead_laws 16 (aes128_seal c) (aes128_open c) \<and>
    aead_laws 32 (aes256_seal c) (aes256_open c) \<and>
    aead_laws 32 (chacha_seal c) (chacha_open c)"

section \<open>HMAC and HKDF\<close>

definition pad_key :: "nat \<Rightarrow> (bytes \<Rightarrow> bytes) \<Rightarrow> bytes \<Rightarrow> bytes" where
  "pad_key block hash key =
    (let k = (if length key > block then hash key else key)
     in k @ replicate (block - length k) 0)"

definition hmac_with :: "nat \<Rightarrow> (bytes \<Rightarrow> bytes) \<Rightarrow> bytes \<Rightarrow> bytes \<Rightarrow> bytes" where
  "hmac_with block hash key data =
    (let key_block = pad_key block hash key;
         ipad = map (\<lambda>b. 0x36 XOR b) key_block;
         opad = map (\<lambda>b. 0x5c XOR b) key_block
     in hash (opad @ hash (ipad @ data)))"

definition hmac_sha256 :: "RealityCrypto \<Rightarrow> bytes \<Rightarrow> bytes \<Rightarrow> bytes" where
  "hmac_sha256 c = hmac_with 64 (sha256 c)"

definition hmac_sha512 :: "RealityCrypto \<Rightarrow> bytes \<Rightarrow> bytes \<Rightarrow> bytes" where
  "hmac_sha512 c = hmac_with 128 (sha512 c)"

lemma u8_succ:
  fixes w :: u8
  assumes "w \<noteq> 255"
  shows "unat (w + 1) = Suc (unat w)" and "unat w < 255"
proof -
  have "unat w \<noteq> unat (255 :: u8)" using assms unsigned_word_eqI [of w 255] by blast
  then show "unat w < 255" using unat_bound [of w] by simp
  then show "unat (w + 1) = Suc (unat w)" by (simp add: unat_word_ariths)
qed

lemma u8_measure: "(w :: u8) \<noteq> 255 \<Longrightarrow> 255 - unat (w + 1) < 255 - unat w"
  using u8_succ [of w] by simp

text \<open>
  The expansion loop, over the HMAC it uses.  The output buffer is filled from
  the left; the counter is an \<open>u8\<close> whose increment panics on overflow.
\<close>

function hkdf_loop ::
  "(bytes \<Rightarrow> bytes \<Rightarrow> bytes) \<Rightarrow> bytes \<Rightarrow> bytes \<Rightarrow> nat \<Rightarrow> bytes \<Rightarrow> bytes \<Rightarrow> u8 \<Rightarrow> ('e, bytes) outcome" where
  "hkdf_loop hm prk info n previous okm counter =
    (if n \<le> length okm then Ok okm
     else let previous = hm prk (previous @ info @ [counter]);
              okm = okm @ take (n - length okm) previous
          in if counter = 255 then Panic
             else hkdf_loop hm prk info n previous okm (counter + 1))"
  by pat_completeness auto
termination
  by (relation "measure (\<lambda>(_, _, _, _, _, _, counter). 255 - unat counter)")
    (auto simp: u8_measure)

definition hkdf_expand_with ::
  "(bytes \<Rightarrow> bytes \<Rightarrow> bytes) \<Rightarrow> bytes \<Rightarrow> bytes \<Rightarrow> nat \<Rightarrow> ('e, bytes) outcome" where
  "hkdf_expand_with hm prk info n = hkdf_loop hm prk info n [] [] 1"

definition hkdf_expand :: "RealityCrypto \<Rightarrow> bytes \<Rightarrow> bytes \<Rightarrow> nat \<Rightarrow> ('e, bytes) outcome" where
  "hkdf_expand c = hkdf_expand_with (hmac_sha256 c)"

definition hkdf_sha256 :: "RealityCrypto \<Rightarrow> bytes \<Rightarrow> bytes \<Rightarrow> bytes \<Rightarrow> nat \<Rightarrow> ('e, bytes) outcome" where
  "hkdf_sha256 c ikm salt info n = hkdf_expand c (hmac_sha256 c salt ikm) info n"

definition ct_eq :: "bytes \<Rightarrow> bytes \<Rightarrow> bool" where
  "ct_eq a b \<longleftrightarrow>
    length a = length b \<and> foldl (\<lambda>acc (x, y). acc OR (x XOR y)) 0 (zip a b) = 0"

section \<open>The sealed session id\<close>

definition reality_auth_key :: "RealityCrypto \<Rightarrow> bytes \<Rightarrow> bytes \<Rightarrow> ('e, bytes) outcome" where
  "reality_auth_key c shared hello_random =
     hkdf_sha256 c shared (take 20 hello_random) (ascii ''REALITY'') 32"

definition session_id_plain :: "bytes \<Rightarrow> u32 \<Rightarrow> bytes \<Rightarrow> bytes" where
  "session_id_plain version3 unix_secs short_id = version3 @ [0] @ to_be 4 unix_secs @ short_id"

text \<open>\<open>copy_from_slice\<close> panics on a length mismatch.\<close>

definition fixed :: "nat \<Rightarrow> bytes \<Rightarrow> ('e, bytes) outcome" where
  "fixed n b = (if length b = n then Ok b else Panic)"

definition aes_gcm_seal :: "RealityCrypto \<Rightarrow> bytes \<Rightarrow> bytes \<Rightarrow> bytes \<Rightarrow> bytes \<Rightarrow> ('e, bytes) outcome" where
  "aes_gcm_seal c key nonce aad plain = fixed 32 (aes256_seal c key nonce aad plain)"

definition aes_gcm_open :: "RealityCrypto \<Rightarrow> bytes \<Rightarrow> bytes \<Rightarrow> bytes \<Rightarrow> bytes \<Rightarrow> bytes option" where
  "aes_gcm_open c key nonce aad sealed = aes256_open c key nonce aad sealed"

definition seal_session_id ::
  "RealityCrypto \<Rightarrow> bytes \<Rightarrow> bytes \<Rightarrow> bytes \<Rightarrow> bytes \<Rightarrow> bytes \<Rightarrow> ('e, bytes) outcome" where
  "seal_session_id c client_private server_public hello_random plain handshake =
     obind (reality_auth_key c (x25519_dh c client_private server_public) hello_random) (\<lambda>key.
       aes_gcm_seal c key (take 12 (drop 20 hello_random)) handshake plain)"

definition open_session_id ::
  "RealityCrypto \<Rightarrow> bytes \<Rightarrow> bytes \<Rightarrow> bytes \<Rightarrow> bytes \<Rightarrow> bytes \<Rightarrow> ('e, bytes option) outcome" where
  "open_session_id c server_private client_public hello_random sealed handshake =
    (if length sealed \<noteq> 32 then Ok None
     else if length handshake < 71 then Ok None
     else let aad = take 39 handshake @ replicate 32 0 @ drop 71 handshake in
       obind (reality_auth_key c (x25519_dh c server_private client_public) hello_random) (\<lambda>key.
         case aes_gcm_open c key (take 12 (drop 20 hello_random)) aad sealed of
           None \<Rightarrow> Ok None
         | Some plain \<Rightarrow> obind (fixed 16 plain) (\<lambda>p. Ok (Some p))))"

section \<open>Configuration and names\<close>

definition REALITY_CLIENT_VERSION :: bytes where "REALITY_CLIENT_VERSION = [0, 2, 0]"

text \<open>A \<open>Duration\<close> in nanoseconds.\<close>

definition DEFAULT_MAX_TIME_DIFF :: nat where [constants]: "DEFAULT_MAX_TIME_DIFF = 120 * 1000000000"

record RealityClientConfig =
  rc_public_key :: bytes
  rc_short_id :: bytes
  rc_server_name :: bytes

record RealityServerConfig =
  rs_dest :: ustr
  rs_private_key :: bytes
  rs_short_ids :: "bytes list"
  rs_server_names :: "bytes list"
  rs_local_names :: "bytes list"
  rs_max_time_diff :: nat
  rs_post_handshake :: "nat list list"

text \<open>The UTF-8 form of a scalar value.\<close>

definition utf8_char :: "nat \<Rightarrow> bytes" where
  "utf8_char n =
    (if n < 0x80 then [of_nat n]
     else if n < 0x800 then [of_nat (0xC0 + n div 64), of_nat (0x80 + n mod 64)]
     else if n < 0x10000 then
       [of_nat (0xE0 + n div 4096), of_nat (0x80 + n div 64 mod 64), of_nat (0x80 + n mod 64)]
     else [of_nat (0xF0 + n div 262144), of_nat (0x80 + n div 4096 mod 64),
           of_nat (0x80 + n div 64 mod 64), of_nat (0x80 + n mod 64)])"

definition utf8_encode :: "ustr \<Rightarrow> bytes" where
  "utf8_encode s = concat (map utf8_char s)"

datatype DestError = DestEmpty | ShortIdsEmpty | DestHostEmpty | DestMissingBracket

text \<open>\<open>rsplit_once(':')\<close>: the part before the last colon.\<close>

definition before_last_colon :: "ustr \<Rightarrow> ustr option" where
  "before_last_colon s =
    (if 58 \<in> set s then Some (rev (tl (dropWhile (\<lambda>ch. ch \<noteq> 58) (rev s)))) else None)"

definition dest_host :: "ustr \<Rightarrow> (DestError, ustr) outcome" where
  "dest_host d =
    (let dest = trim d in
     if dest = [] then Err DestHostEmpty
     else if hd dest = 91 then
       (if 93 \<in> set (tl dest) then Ok (takeWhile (\<lambda>ch. ch \<noteq> 93) (tl dest))
        else Err DestMissingBracket)
     else case before_last_colon dest of
         Some host \<Rightarrow> if host \<noteq> [] then Ok host else Ok dest
       | None \<Rightarrow> Ok dest)"

definition reality_server_config_new ::
  "ustr \<Rightarrow> bytes \<Rightarrow> bytes list \<Rightarrow> (DestError, RealityServerConfig) outcome" where
  "reality_server_config_new dest private short_ids =
    (if dest = [] then Err DestEmpty
     else if short_ids = [] then Err ShortIdsEmpty
     else obind (dest_host dest) (\<lambda>host.
       Ok \<lparr>rs_dest = dest, rs_private_key = private, rs_short_ids = short_ids,
           rs_server_names = [utf8_encode host], rs_local_names = [],
           rs_max_time_diff = DEFAULT_MAX_TIME_DIFF, rs_post_handshake = [[], [], []]\<rparr>))"

definition post_handshake_lens_for :: "RealityServerConfig \<Rightarrow> u8 \<Rightarrow> nat list" where
  "post_handshake_lens_for cfg cls = rs_post_handshake cfg ! min (unat cls) 2"

definition post_handshake_lens :: "RealityServerConfig \<Rightarrow> nat list" where
  "post_handshake_lens cfg = post_handshake_lens_for cfg 2"

definition to_ascii_lower :: "u8 \<Rightarrow> u8" where
  "to_ascii_lower b = (if 65 \<le> b \<and> b \<le> 90 then b + 32 else b)"

definition eq_ignore_ascii_case :: "bytes \<Rightarrow> bytes \<Rightarrow> bool" where
  "eq_ignore_ascii_case a b \<longleftrightarrow> map to_ascii_lower a = map to_ascii_lower b"

section \<open>Authentication\<close>

datatype RealityError = NotClientHello | Rejected

record AuthenticatedHello =
  ah_hello :: ClientHelloView
  ah_auth_key :: bytes

definition sni_allowed :: "RealityServerConfig \<Rightarrow> ClientHelloView \<Rightarrow> bool" where
  "sni_allowed cfg view \<longleftrightarrow>
    rs_server_names cfg = [] \<or>
    list_ex (\<lambda>name. eq_ignore_ascii_case name (case ch_sni view of Some s \<Rightarrow> s | None \<Rightarrow> []))
      (rs_server_names cfg)"

definition abs_diff :: "nat \<Rightarrow> nat \<Rightarrow> nat" where
  "abs_diff a b = (if a < b then b - a else a - b)"

text \<open>The current time is the argument \<open>now\<close>, in seconds since the epoch.\<close>

definition fresh_stamp :: "RealityServerConfig \<Rightarrow> u64 \<Rightarrow> bytes \<Rightarrow> bool" where
  "fresh_stamp cfg now plain \<longleftrightarrow>
    rs_max_time_diff cfg = 0 \<or>
    abs_diff (unat now) (unat (from_be (take 4 (drop 4 plain)) :: u32))
      \<le> rs_max_time_diff cfg div 1000000000"

definition authenticate ::
  "RealityCrypto \<Rightarrow> u64 \<Rightarrow> bytes \<Rightarrow> RealityServerConfig \<Rightarrow> (RealityError, AuthenticatedHello) outcome" where
  "authenticate c now record cfg =
    (case client_hello_parse record of
       None \<Rightarrow> Err NotClientHello
     | Some view \<Rightarrow>
       if length (ch_session_id view) \<noteq> 32 then Err Rejected
       else if \<not> sni_allowed cfg view then Err Rejected
       else case ch_x25519_public view of
         None \<Rightarrow> Err Rejected
       | Some peer \<Rightarrow>
         (case handshake_from_record record of
            None \<Rightarrow> Err NotClientHello
          | Some handshake \<Rightarrow>
            obind (open_session_id c (rs_private_key cfg) peer (ch_random view)
                     (ch_session_id view) handshake) (\<lambda>opened.
            case opened of
              None \<Rightarrow> Err Rejected
            | Some plain \<Rightarrow>
              if take 8 (drop 8 plain) \<notin> set (rs_short_ids cfg) then Err Rejected
              else if \<not> fresh_stamp cfg now plain then Err Rejected
              else obind (reality_auth_key c (x25519_dh c (rs_private_key cfg) peer) (ch_random view))
                (\<lambda>auth_key. Ok \<lparr>ah_hello = view, ah_auth_key = auth_key\<rparr>))))"

text \<open>
  The client side (\<open>Tls13Client::connect\<close> up to the first write): the
  hello is built with a blank session id, sealed, and the seal written over it.
  The result is the handshake message, its record and the shared key.
\<close>

definition client_hello_sealed ::
  "RealityCrypto \<Rightarrow> (bytes \<Rightarrow> bytes) \<Rightarrow> RealityClientConfig \<Rightarrow> bytes \<Rightarrow> bytes \<Rightarrow> u32 \<Rightarrow> rng \<Rightarrow>
   ('e, bytes \<times> bytes \<times> bytes) outcome" where
  "client_hello_sealed c mlkem cfg client_private random unix r =
    (let client_public = x25519_base c client_private;
         plain = session_id_plain REALITY_CLIENT_VERSION unix (rc_short_id cfg);
         handshake = fst (build_client_hello_handshake mlkem random (replicate 32 0)
                            (rc_server_name cfg) client_public r)
     in obind (seal_session_id c client_private (rc_public_key cfg) random plain handshake) (\<lambda>sealed.
        let handshake = take SESSION_ID_OFFSET handshake @ sealed @
                        drop (SESSION_ID_OFFSET + 32) handshake in
        obind (reality_auth_key c (x25519_dh c client_private (rc_public_key cfg)) random) (\<lambda>auth_key.
          Ok (handshake,
              [0x16] @ to_be 2 (0x0301 :: u16) @ to_be 2 (of_nat (length handshake) :: u16) @ handshake,
              auth_key))))"

declare hkdf_loop.simps [simp del]

section \<open>HKDF is RFC 5869\<close>

primrec hkdf_T :: "(bytes \<Rightarrow> bytes \<Rightarrow> bytes) \<Rightarrow> bytes \<Rightarrow> bytes \<Rightarrow> nat \<Rightarrow> bytes" where
  "hkdf_T hm prk info 0 = []"
| "hkdf_T hm prk info (Suc i) = hm prk (hkdf_T hm prk info i @ info @ [of_nat (Suc i)])"

text \<open>The blocks T(1), ..., T(i) one after the other.\<close>

definition hkdf_blocks :: "(bytes \<Rightarrow> bytes \<Rightarrow> bytes) \<Rightarrow> bytes \<Rightarrow> bytes \<Rightarrow> nat \<Rightarrow> bytes" where
  "hkdf_blocks hm prk info i = concat (map (hkdf_T hm prk info) [1..<Suc i])"

lemma hkdf_blocks_Suc:
  "hkdf_blocks hm prk info (Suc i) = hkdf_blocks hm prk info i @ hkdf_T hm prk info (Suc i)"
  by (simp add: hkdf_blocks_def)

lemma hkdf_blocks_0 [simp]: "hkdf_blocks hm prk info 0 = []"
  by (simp add: hkdf_blocks_def)

lemma length_hkdf_blocks:
  "(\<And>k d. length (hm k d) = h) \<Longrightarrow> length (hkdf_blocks hm prk info i) = i * h"
  by (induction i) (auto simp: hkdf_blocks_Suc)

lemma take_hkdf_blocks:
  assumes "\<And>k d. length (hm k d) = h" "n \<le> i * h" "i \<le> j"
  shows "take n (hkdf_blocks hm prk info j) = take n (hkdf_blocks hm prk info i)"
  using assms(3)
proof (induction j rule: dec_induct)
  case (step m)
  then have "n \<le> m * h" using order.trans [OF assms(2) mult_le_mono1 [of i m h]] by simp
  then have "n \<le> length (hkdf_blocks hm prk info m)"
    by (simp only: length_hkdf_blocks [where hm = hm, OF assms(1)])
  with step.IH show ?case by (simp only: hkdf_blocks_Suc take_append) simp
qed simp

lemma hkdf_loop_blocks:
  assumes h: "\<And>k d. length (hm k d) = h"
    and len: "\<And>i. length (hkdf_blocks hm prk info i) = i * h"
  shows "i \<le> 254 \<Longrightarrow>
    (hkdf_loop hm prk info n (hkdf_T hm prk info i) (take n (hkdf_blocks hm prk info i))
       (of_nat (Suc i)) :: ('e, bytes) outcome)
      = (if n \<le> 254 * h then Ok (take n (hkdf_blocks hm prk info 254)) else Panic)"
proof (induction "254 - i" arbitrary: i)
  case 0
  then have i: "i = 254" by simp
  show ?case
    unfolding i by (subst hkdf_loop.simps) (simp add: len Let_def)
next
  case (Suc k)
  then have i: "i < 254" by simp
  have IH: "(hkdf_loop hm prk info n (hkdf_T hm prk info (Suc i))
      (take n (hkdf_blocks hm prk info (Suc i))) (of_nat (Suc (Suc i))) :: ('e, bytes) outcome)
      = (if n \<le> 254 * h then Ok (take n (hkdf_blocks hm prk info 254)) else Panic)"
    by (rule Suc.hyps(1)) (use Suc.hyps(2) in simp_all)
  show ?case
  proof (cases "n \<le> i * h")
    case True
    then have "n \<le> 254 * h" using i by (meson le_trans less_imp_le mult_le_mono1)
    then show ?thesis
      using True take_hkdf_blocks [where hm = hm, OF h True, where j = 254] i
      by (subst hkdf_loop.simps) (simp add: len)
  next
    case False
    have "(of_nat (Suc i) :: u8) \<noteq> 255"
    proof
      assume "(of_nat (Suc i) :: u8) = 255"
      then have "unat (of_nat (Suc i) :: u8) = unat (255 :: u8)" by (rule arg_cong)
      moreover have "unat (of_nat (Suc i) :: u8) = Suc i" using i by (intro unat_of_nat_u8) simp
      moreover have "unat (255 :: u8) = 255" by simp
      ultimately show False using i by linarith
    qed
    moreover have "take n (hkdf_blocks hm prk info i) = hkdf_blocks hm prk info i"
      using False by (simp add: len)
    moreover have "take n (hkdf_blocks hm prk info (Suc i))
        = hkdf_blocks hm prk info i @ take (n - i * h) (hkdf_T hm prk info (Suc i))"
      using False by (simp only: hkdf_blocks_Suc take_append len) (simp add: len)
    moreover have "(of_nat (Suc (Suc i)) :: u8) = of_nat (Suc i) + 1" by simp
    ultimately show ?thesis
      using IH False by (subst hkdf_loop.simps)
        (simp add: len Let_def del: of_nat_Suc)
  qed
qed

lemma hkdf_expand_with_eq:
  assumes "\<And>k d. length (hm k d) = h"
  shows "hkdf_expand_with hm prk info n =
    (if n \<le> 254 * h then Ok (take n (hkdf_blocks hm prk info 254)) else Panic)"
  by (simp add: hkdf_expand_with_def hkdf_loop_blocks [where hm = hm, OF assms length_hkdf_blocks [where hm = hm, OF assms], where i = 0, simplified])

lemma hkdf_one_block:
  assumes "\<And>k d. length (hm k d) = h" "n \<le> h"
  shows "hkdf_expand_with hm prk info n = Ok (take n (hm prk (info @ [1])))"
proof -
  have "n \<le> 254 * h" using assms(2) by simp
  moreover have "take n (hkdf_blocks hm prk info 254) = take n (hm prk (info @ [1]))"
    using take_hkdf_blocks [where hm = hm and h = h and n = n and i = 1 and j = 254] assms
    by (simp add: hkdf_blocks_def)
  ultimately show ?thesis by (simp add: hkdf_expand_with_eq [where hm = hm, OF assms(1)])
qed

lemma crypto_lawsD:
  assumes "crypto_laws c"
  shows "length a = 32 \<Longrightarrow> length b = 32 \<Longrightarrow>
      x25519_dh c a (x25519_base c b) = x25519_dh c b (x25519_base c a)"
    and "length (x25519_base c a) = 32" "length (x25519_dh c a b) = 32"
    and "length (sha256 c x) = 32" "length (sha384 c x) = 48" "length (sha512 c x) = 64"
    and "aead_laws 16 (aes128_seal c) (aes128_open c)"
    and "aead_laws 32 (aes256_seal c) (aes256_open c)"
    and "aead_laws 32 (chacha_seal c) (chacha_open c)"
  using assms unfolding crypto_laws_def by blast+

lemma aead_lawsD:
  assumes "aead_laws kl seal opn" "length k = kl" "length n = 12"
  shows "length (seal k n a m) = length m + 16"
    and "opn k n a x = Some m \<longleftrightarrow> x = seal k n a m" and "opn k n a (seal k n a m) = Some m"
  using assms unfolding aead_laws_def by blast+

lemma length_hmac_sha256: "crypto_laws c \<Longrightarrow> length (hmac_sha256 c k d) = 32"
  by (simp add: hmac_sha256_def hmac_with_def Let_def crypto_lawsD)

definition auth_key_bytes :: "RealityCrypto \<Rightarrow> bytes \<Rightarrow> bytes \<Rightarrow> bytes" where
  "auth_key_bytes c shared random =
     hmac_sha256 c (hmac_sha256 c (take 20 random) shared) (ascii ''REALITY'' @ [1])"

lemma length_auth_key_bytes: "crypto_laws c \<Longrightarrow> length (auth_key_bytes c s r) = 32"
  by (simp add: auth_key_bytes_def length_hmac_sha256)

lemma reality_auth_key_Ok: "crypto_laws c \<Longrightarrow> reality_auth_key c s r = Ok (auth_key_bytes c s r)"
  using hkdf_one_block [of "hmac_sha256 c" 32 32]
  by (simp add: reality_auth_key_def hkdf_sha256_def hkdf_expand_def length_hmac_sha256 auth_key_bytes_def)

lemma xor_zero_iff: "x XOR y = 0 \<longleftrightarrow> x = (y :: u8)"
proof
  assume "x XOR y = 0"
  then have "(x XOR y) XOR y = y" by simp
  then show "x = y" by (simp add: xor.assoc)
qed simp

lemma ct_eq_iff: "ct_eq a b \<longleftrightarrow> a = b"
proof -
  have or0: "x OR y = 0 \<longleftrightarrow> x = 0 \<and> y = 0" for x y :: u8
    by (rule or_eq_0_iff)
  have "foldl (\<lambda>acc (x, y). acc OR (x XOR y)) z ps = 0 \<longleftrightarrow> z = 0 \<and> (\<forall>(x, y) \<in> set ps. x = y)"
    for z :: u8 and ps
    by (induction ps arbitrary: z) (auto simp: or0 xor_zero_iff)
  then show ?thesis
    by (auto simp: ct_eq_def list_eq_iff_zip_eq)
qed

section \<open>A sealed hello is accepted\<close>

lemma build_handshake_split:
  assumes "length random = 32" "length sid = 32" "length sid' = 32"
  shows "take 39 (fst (build_client_hello_handshake mlkem random sid sni public r)) @ sid' @
      drop 71 (fst (build_client_hello_handshake mlkem random sid sni public r))
      = fst (build_client_hello_handshake mlkem random sid' sni public r)"
  using assms by (simp add: build_client_hello_handshake_def Let_def split_beta SESSION_ID_LEN_def
      u24_bytes_def)

lemma record_of_handshake:
  "fst (build_client_hello_record mlkem random sid sni public r) =
     [0x16] @ to_be 2 (0x0301 :: u16) @
     to_be 2 (of_nat (length (fst (build_client_hello_handshake mlkem random sid sni public r))) :: u16) @
     fst (build_client_hello_handshake mlkem random sid sni public r)"
  by (simp add: build_client_hello_record_def Let_def split_beta)

lemma handshake_from_record_built:
  assumes "\<And>s. length s = 64 \<Longrightarrow> length (mlkem s) = MLKEM768_PUBLIC_LEN"
    and "length random = 32" "length sid = 32" "length public = 32"
    and "utf8_valid sni" "length sni \<le> 60000"
  shows "handshake_from_record (fst (build_client_hello_record mlkem random sid sni public r))
      = Some (fst (build_client_hello_handshake mlkem random sid sni public r))"
proof -
  obtain body where "fst (build_client_hello_handshake mlkem random sid sni public r)
      = [1] @ u24_bytes (length body) @ body" "length body \<le> 1800 + length sni"
    using build_handshake_shape [where mlkem = mlkem, OF assms] by metis
  then have "length (fst (build_client_hello_handshake mlkem random sid sni public r)) < 65536"
    using assms(6) by simp
  then show ?thesis
    unfolding record_of_handshake by (intro handshake_from_record_at unat_of_nat_u16)
qed

lemma length_session_id_plain [simp]:
  "length (session_id_plain v t s) = length v + 5 + length s"
  by (simp add: session_id_plain_def)

lemma session_id_plain_fields:
  assumes "length v = 3" "length s = 8"
  shows "take 8 (drop 8 (session_id_plain v t s)) = s"
    and "from_be (take 4 (drop 4 (session_id_plain v t s))) = t"
  using assms by (simp_all add: session_id_plain_def)

lemma blank_twice: "length b = 32 \<Longrightarrow> 71 \<le> length h \<Longrightarrow>
    take 39 (take 39 h @ b @ drop 71 h) @ z @ drop 71 (take 39 h @ b @ drop 71 h) = take 39 h @ z @ drop 71 h"
  by simp

text \<open>What the client sends, in closed form.\<close>

lemma client_hello_sealed_Ok:
  fixes client_private :: bytes and mlkem :: "bytes \<Rightarrow> bytes" and r :: rng and unix :: u32
  assumes c: "crypto_laws c" and lens: "length random = 32" "length (rc_short_id cfg) = 8"
  defines "key \<equiv> auth_key_bytes c (x25519_dh c client_private (rc_public_key cfg)) random"
  defines "blank \<equiv> fst (build_client_hello_handshake mlkem random (replicate 32 0)
      (rc_server_name cfg) (x25519_base c client_private) r)"
  defines "sealed \<equiv> aes256_seal c key (take 12 (drop 20 random)) blank
      (session_id_plain REALITY_CLIENT_VERSION unix (rc_short_id cfg))"
  shows "client_hello_sealed c mlkem cfg client_private random unix r = Ok
     (fst (build_client_hello_handshake mlkem random sealed (rc_server_name cfg) (x25519_base c client_private) r),
      fst (build_client_hello_record mlkem random sealed (rc_server_name cfg) (x25519_base c client_private) r),
      key)"
    and "length sealed = 32"
proof -
  have "length key = 32" unfolding key_def by (rule length_auth_key_bytes [OF c])
  then show len: "length sealed = 32"
    using lens aead_lawsD(1) [OF crypto_lawsD(8) [OF c], of key "take 12 (drop 20 random)"]
    by (simp add: sealed_def REALITY_CLIENT_VERSION_def)
  show "client_hello_sealed c mlkem cfg client_private random unix r = Ok
     (fst (build_client_hello_handshake mlkem random sealed (rc_server_name cfg) (x25519_base c client_private) r),
      fst (build_client_hello_record mlkem random sealed (rc_server_name cfg) (x25519_base c client_private) r),
      key)"
    using len build_handshake_split [OF lens(1) _ len, where sid = "replicate 32 0" and mlkem = mlkem
        and sni = "rc_server_name cfg" and public = "x25519_base c client_private" and r = r]
    by (simp add: client_hello_sealed_def seal_session_id_def aes_gcm_seal_def fixed_def
        reality_auth_key_Ok [OF c] record_of_handshake SESSION_ID_OFFSET_def Let_def
        del: length_append flip: key_def blank_def sealed_def)
qed

lemma sealed_hello_accepted:
  assumes c: "crypto_laws c"
    and mlkem: "\<And>s. length s = 64 \<Longrightarrow> length (mlkem s) = MLKEM768_PUBLIC_LEN"
    and keys: "length client_private = 32" "length (rs_private_key scfg) = 32"
      "rc_public_key cfg = x25519_base c (rs_private_key scfg)"
    and random: "length random = 32"
    and sid: "length (rc_short_id cfg) = 8" "rc_short_id cfg \<in> set (rs_short_ids scfg)"
    and name: "utf8_valid (rc_server_name cfg)" "length (rc_server_name cfg) \<le> 60000"
      "rc_server_name cfg \<in> set (rs_server_names scfg)"
    and clock: "abs_diff (unat now) (unat unix) \<le> rs_max_time_diff scfg div 1000000000"
  shows "\<exists>handshake record key view.
    client_hello_sealed c mlkem cfg client_private random unix r = Ok (handshake, record, key) \<and>
    client_hello_parse record = Some view \<and>
    authenticate c now record scfg = Ok \<lparr>ah_hello = view, ah_auth_key = key\<rparr>"
proof -
  let ?public = "x25519_base c client_private"
  let ?build = "\<lambda>sid. fst (build_client_hello_handshake mlkem random sid (rc_server_name cfg) ?public r)"
  define key where "key = auth_key_bytes c (x25519_dh c client_private (rc_public_key cfg)) random"
  define blank where "blank = ?build (replicate 32 0)"
  define plain where "plain = session_id_plain REALITY_CLIENT_VERSION unix (rc_short_id cfg)"
  define sealed where "sealed = aes256_seal c key (take 12 (drop 20 random)) blank plain"
  note client = client_hello_sealed_Ok [OF c random sid(1), where mlkem = mlkem and r = r and unix = unix
      and client_private = client_private, folded key_def blank_def plain_def, folded sealed_def]
  have pub: "length ?public = 32" by (rule crypto_lawsD(2) [OF c])
  define view where "view = \<lparr>ch_random = random, ch_session_id = sealed, ch_sni = Some (rc_server_name cfg),
      ch_x25519_public = Some ?public, ch_alpn = [ascii ''h2'', ascii ''http/1.1'']\<rparr>"
  define rec where "rec = fst (build_client_hello_record mlkem random sealed (rc_server_name cfg) ?public r)"
  note built = client_hello_built [where mlkem = mlkem, OF mlkem random client(2) pub name(1,2), where r = r,
      folded view_def rec_def]
  obtain hs where hs: "handshake_from_record rec = Some hs"
    using built(1) by (cases "handshake_from_record rec") (auto simp: client_hello_parse_def)
  have hs_eq: "hs = ?build sealed"
    using hs handshake_from_record_built [where mlkem = mlkem, OF mlkem random client(2) pub name(1,2), where r = r]
    by (simp add: rec_def)
  have blanked: "take 39 hs @ replicate 32 0 @ drop 71 hs = blank"
    unfolding hs_eq blank_def by (rule build_handshake_split) (use random client(2) in simp_all)
  have long: "71 \<le> length hs"
    using built(2) unfolding hs_eq [symmetric] by (simp add: get_range_def constants split: if_splits)
  have shared: "x25519_dh c (rs_private_key scfg) ?public = x25519_dh c client_private (rc_public_key cfg)"
    using crypto_lawsD(1) [OF c keys(2,1)] keys(3) by simp
  have kl: "length key = 32" unfolding key_def by (rule length_auth_key_bytes [OF c])
  have "aes256_open c key (take 12 (drop 20 random)) blank sealed = Some plain"
    unfolding sealed_def by (rule aead_lawsD(3) [OF crypto_lawsD(8) [OF c] kl]) (simp add: random)
  then have opened: "open_session_id c (rs_private_key scfg) ?public random sealed hs
      = (Ok (Some plain) :: (RealityError, bytes option) outcome)"
    using long client(2) sid(1)
    by (simp add: open_session_id_def blanked shared reality_auth_key_Ok [OF c] aes_gcm_open_def
        fixed_def plain_def REALITY_CLIENT_VERSION_def flip: key_def)
  have fields: "take 8 (drop 8 plain) = rc_short_id cfg" "from_be (take 4 (drop 4 plain)) = unix"
    unfolding plain_def by (rule session_id_plain_fields; simp add: sid REALITY_CLIENT_VERSION_def)+
  have "sni_allowed scfg view"
    using name(3) by (auto simp: sni_allowed_def view_def list_ex_iff eq_ignore_ascii_case_def)
  moreover have "fresh_stamp scfg now plain" using clock fields by (simp add: fresh_stamp_def)
  ultimately have "authenticate c now rec scfg = Ok \<lparr>ah_hello = view, ah_auth_key = key\<rparr>"
    using built(1) hs opened fields sid client(2)
    by (simp add: authenticate_def shared reality_auth_key_Ok [OF c] view_def flip: key_def)
  then show ?thesis using client(1) built(1) by (auto simp: rec_def)
qed

section \<open>Only a sealed hello is accepted\<close>

lemma get_range_length: "get_range i n b = Some m \<Longrightarrow> length m = n"
  by (auto simp: get_range_Some_iff)

lemma parse_random_length: "client_hello_parse record = Some view \<Longrightarrow> length (ch_random view) = 32"
  by (auto simp: client_hello_parse_def parse_handshake_def bind_eq_Some_conv Let_def
      dest: get_range_length split: if_splits)

lemma open_session_id_eq:
  assumes c: "crypto_laws c" and random: "length random = 32"
  shows "open_session_id c private public random sealed handshake =
    (if length sealed \<noteq> 32 \<or> length handshake < 71 then Ok None
     else Ok (aes256_open c (auth_key_bytes c (x25519_dh c private public) random) (take 12 (drop 20 random))
       (take 39 handshake @ replicate 32 0 @ drop 71 handshake) sealed))"
proof -
  define key where "key = auth_key_bytes c (x25519_dh c private public) random"
  define aad where "aad = take 39 handshake @ replicate 32 0 @ drop 71 handshake"
  define n where "n = take 12 (drop 20 random)"
  have kl: "length key = 32" unfolding key_def by (rule length_auth_key_bytes [OF c])
  have nl: "length n = 12" using random by (simp add: n_def)
  note law = aead_lawsD [OF crypto_lawsD(8) [OF c] kl nl]
  have "length plain = 16" if "aes256_open c key n aad sealed = Some plain" "length sealed = 32" for plain
    using that law(1) [of aad plain] by (simp add: law(2))
  then show ?thesis
    unfolding key_def [symmetric] aad_def [symmetric] n_def [symmetric]
    by (cases "aes256_open c key n aad sealed")
      (simp_all add: open_session_id_def reality_auth_key_Ok [OF c] aes_gcm_open_def fixed_def
        flip: key_def aad_def n_def)
qed

lemma open_session_id_Some_iff:
  assumes c: "crypto_laws c" and random: "length random = 32"
  shows "open_session_id c private public random sealed handshake = Ok (Some plain) \<longleftrightarrow>
    71 \<le> length handshake \<and> length plain = 16 \<and>
    sealed = aes256_seal c (auth_key_bytes c (x25519_dh c private public) random) (take 12 (drop 20 random))
      (take 39 handshake @ replicate 32 0 @ drop 71 handshake) plain"
proof -
  define key where "key = auth_key_bytes c (x25519_dh c private public) random"
  define aad where "aad = take 39 handshake @ replicate 32 0 @ drop 71 handshake"
  define n where "n = take 12 (drop 20 random)"
  have kl: "length key = 32" unfolding key_def by (rule length_auth_key_bytes [OF c])
  have nl: "length n = 12" using random by (simp add: n_def)
  note law = aead_lawsD [OF crypto_lawsD(8) [OF c] kl nl]
  show ?thesis
    unfolding open_session_id_eq [OF c random] key_def [symmetric] aad_def [symmetric] n_def [symmetric]
    using law(1) [of aad plain] by (auto simp: law(2))
qed

text \<open>
  C23: Nobody else gets through.  The server accepts a record exactly when it
  is a ClientHello with an X25519 share and an allowed server name whose
  session id is the AES-GCM seal, under the key both sides derive from the
  client's share and the server's private key and bound to the whole hello with
  the session id blanked, of sixteen bytes that carry a registered short id and
  a time stamp within the tolerance; the key it reports is that key.
\<close>

theorem authenticate_accepts_iff:
  assumes c: "crypto_laws c"
  shows "authenticate c now record cfg = Ok \<lparr>ah_hello = view, ah_auth_key = key\<rparr> \<longleftrightarrow>
    (\<exists>handshake peer plain.
       client_hello_parse record = Some view \<and> handshake_from_record record = Some handshake \<and>
       ch_x25519_public view = Some peer \<and> sni_allowed cfg view \<and>
       key = auth_key_bytes c (x25519_dh c (rs_private_key cfg) peer) (ch_random view) \<and>
       71 \<le> length handshake \<and> length plain = 16 \<and>
       ch_session_id view = aes256_seal c key (take 12 (drop 20 (ch_random view)))
         (take 39 handshake @ replicate 32 0 @ drop 71 handshake) plain \<and>
       take 8 (drop 8 plain) \<in> set (rs_short_ids cfg) \<and> fresh_stamp cfg now plain)"
    (is "?L \<longleftrightarrow> ?R")
proof
  assume ?L
  then obtain handshake peer plain where *: "client_hello_parse record = Some view"
    "handshake_from_record record = Some handshake" "ch_x25519_public view = Some peer" "sni_allowed cfg view"
    "key = auth_key_bytes c (x25519_dh c (rs_private_key cfg) peer) (ch_random view)"
    "open_session_id c (rs_private_key cfg) peer (ch_random view) (ch_session_id view) handshake
       = (Ok (Some plain) :: (RealityError, bytes option) outcome)"
    "take 8 (drop 8 plain) \<in> set (rs_short_ids cfg)" "fresh_stamp cfg now plain"
    by (auto simp: authenticate_def reality_auth_key_Ok [OF c] obind_eq_Ok
        split: option.splits if_splits)
  then show ?R using open_session_id_Some_iff [OF c parse_random_length [OF *(1)]] by blast
next
  assume ?R
  then obtain handshake peer plain where *: "client_hello_parse record = Some view"
    "handshake_from_record record = Some handshake" "ch_x25519_public view = Some peer" "sni_allowed cfg view"
    "key = auth_key_bytes c (x25519_dh c (rs_private_key cfg) peer) (ch_random view)"
    "71 \<le> length handshake" "length plain = 16"
    "ch_session_id view = aes256_seal c key (take 12 (drop 20 (ch_random view)))
         (take 39 handshake @ replicate 32 0 @ drop 71 handshake) plain"
    "take 8 (drop 8 plain) \<in> set (rs_short_ids cfg)" "fresh_stamp cfg now plain" by blast
  have random: "length (ch_random view) = 32" using *(1) by (rule parse_random_length)
  have kl: "length key = 32" unfolding *(5) by (rule length_auth_key_bytes [OF c])
  have "length (ch_session_id view) = 32"
    using aead_lawsD(1) [OF crypto_lawsD(8) [OF c] kl] random *(7) unfolding *(8) by simp
  moreover have "open_session_id c (rs_private_key cfg) peer (ch_random view) (ch_session_id view) handshake
       = (Ok (Some plain) :: (RealityError, bytes option) outcome)"
    using open_session_id_Some_iff [OF c random] * by blast
  ultimately show ?L
    using * by (simp add: authenticate_def reality_auth_key_Ok [OF c])
qed

lemma authenticate_never_panics: "crypto_laws c \<Longrightarrow> authenticate c now record cfg \<noteq> Panic"
proof
  assume c: "crypto_laws c" and "authenticate c now record cfg = Panic"
  then obtain view peer handshake where p: "client_hello_parse record = Some view"
    and "open_session_id c (rs_private_key cfg) peer (ch_random view) (ch_session_id view) handshake
       = (Panic :: (RealityError, bytes option) outcome)"
    by (auto simp: authenticate_def reality_auth_key_Ok [OF c] obind_eq_Panic
        split: option.splits if_splits)
  then show False by (simp add: open_session_id_eq [OF c parse_random_length [OF p]] split: if_splits)
qed


text \<open>
  A configured client gets through.  Whatever random bytes it draws, a
  client that holds the server's public key, a registered short id, an allowed
  server name and a clock within the tolerance sends a ClientHello that the
  server authenticates, and both sides derive the same REALITY key from it.
\<close>

theorem sealed_hello_authenticates:
  assumes "crypto_laws c"
    and "\<And>s. length s = 64 \<Longrightarrow> length (mlkem s) = MLKEM768_PUBLIC_LEN"
    and "length client_private = 32" "length (rs_private_key scfg) = 32"
      "rc_public_key cfg = x25519_base c (rs_private_key scfg)"
    and "length random = 32"
    and "length (rc_short_id cfg) = 8" "rc_short_id cfg \<in> set (rs_short_ids scfg)"
    and "utf8_valid (rc_server_name cfg)" "length (rc_server_name cfg) \<le> 60000"
      "rc_server_name cfg \<in> set (rs_server_names scfg)"
    and "abs_diff (unat now) (unat unix) \<le> rs_max_time_diff scfg div 1000000000"
  shows "\<exists>handshake record key view.
    client_hello_sealed c mlkem cfg client_private random unix r = Ok (handshake, record, key) \<and>
    client_hello_parse record = Some view \<and>
    authenticate c now record scfg = Ok \<lparr>ah_hello = view, ah_auth_key = key\<rparr>"
  using sealed_hello_accepted [where mlkem = mlkem, OF assms] .

section \<open>A concrete instance\<close>

text \<open>
  Stand-ins for the primitives that satisfy the laws: addition for
  Diffie--Hellman, constant digests, and a zero tag for the ciphers.
\<close>

definition zero_tag_seal :: "bytes \<Rightarrow> bytes \<Rightarrow> bytes \<Rightarrow> bytes \<Rightarrow> bytes" where
  "zero_tag_seal k n a m = m @ replicate 16 0"

definition zero_tag_open :: "bytes \<Rightarrow> bytes \<Rightarrow> bytes \<Rightarrow> bytes \<Rightarrow> bytes option" where
  "zero_tag_open k n a x =
    (if 16 \<le> length x \<and> drop (length x - 16) x = replicate 16 0
     then Some (take (length x - 16) x) else None)"

definition reality_stub :: RealityCrypto where
  "reality_stub =
    \<lparr>x25519_base = (\<lambda>a. take 32 (a @ replicate 32 0)),
     x25519_dh = (\<lambda>a b. map2 (+) (take 32 (a @ replicate 32 0)) (take 32 (b @ replicate 32 0))),
     sha256 = (\<lambda>_. replicate 32 1), sha384 = (\<lambda>_. replicate 48 2), sha512 = (\<lambda>_. replicate 64 3),
     aes128_seal = zero_tag_seal, aes128_open = zero_tag_open,
     aes256_seal = zero_tag_seal, aes256_open = zero_tag_open,
     chacha_seal = zero_tag_seal, chacha_open = zero_tag_open\<rparr>"

lemma zero_tag_laws: "aead_laws kl zero_tag_seal zero_tag_open"
proof -
  have "x = take (length x - 16) x @ replicate 16 0"
    if "drop (length x - 16) x = replicate 16 0" for x :: bytes
    using append_take_drop_id [of "length x - 16" x] that by simp
  then show ?thesis
    by (auto simp: aead_laws_def zero_tag_seal_def zero_tag_open_def)
qed

lemma reality_stub_laws: "crypto_laws reality_stub"
proof -
  have "map2 (+) a b = map2 (+) b (a :: bytes)" for a b
    by (rule nth_equalityI) (auto simp: add.commute)
  then show ?thesis
    by (simp add: crypto_laws_def reality_stub_def zero_tag_laws, simp add: min_def)
qed

definition sample_reality_server :: RealityServerConfig where
  "sample_reality_server =
    \<lparr>rs_dest = [97], rs_private_key = replicate 32 4, rs_short_ids = [replicate 8 9],
     rs_server_names = [ascii ''www.example.com''], rs_local_names = [],
     rs_max_time_diff = DEFAULT_MAX_TIME_DIFF, rs_post_handshake = [[], [], []]\<rparr>"

definition sample_reality_client :: RealityClientConfig where
  "sample_reality_client =
    \<lparr>rc_public_key = x25519_base reality_stub (replicate 32 4), rc_short_id = replicate 8 9,
     rc_server_name = ascii ''www.example.com''\<rparr>"

theorem sealed_hello_authenticates_witness:
  "\<exists>handshake record key view.
    client_hello_sealed reality_stub (\<lambda>_. replicate 1184 7) sample_reality_client (replicate 32 5)
      (replicate 32 6) 1000000 of_nat = Ok (handshake, record, key) \<and>
    client_hello_parse record = Some view \<and>
    authenticate reality_stub 1000090 record sample_reality_server
      = Ok \<lparr>ah_hello = view, ah_auth_key = key\<rparr>"
  by (rule sealed_hello_authenticates [OF reality_stub_laws])
    (simp_all add: MLKEM768_PUBLIC_LEN_def sample_reality_server_def sample_reality_client_def ascii_def
      abs_diff_def DEFAULT_MAX_TIME_DIFF_def)


theorem authenticate_accepts_iff_witness:
  "\<exists>record view key handshake peer plain.
     authenticate reality_stub 1000090 record sample_reality_server
       = Ok \<lparr>ah_hello = view, ah_auth_key = key\<rparr> \<and>
     handshake_from_record record = Some handshake \<and> ch_x25519_public view = Some peer \<and>
     ch_session_id view = aes256_seal reality_stub key (take 12 (drop 20 (ch_random view)))
       (take 39 handshake @ replicate 32 0 @ drop 71 handshake) plain \<and>
     take 8 (drop 8 plain) = replicate 8 9"
proof -
  have "\<exists>handshake record key view.
    client_hello_sealed reality_stub (\<lambda>_. replicate 1184 7) sample_reality_client (replicate 32 5)
      (replicate 32 6) 1000000 of_nat = Ok (handshake, record, key) \<and>
    client_hello_parse record = Some view \<and>
    authenticate reality_stub 1000090 record sample_reality_server
      = Ok \<lparr>ah_hello = view, ah_auth_key = key\<rparr>"
    by (rule sealed_hello_accepted [OF reality_stub_laws])
      (simp_all add: MLKEM768_PUBLIC_LEN_def sample_reality_server_def sample_reality_client_def ascii_def
        abs_diff_def DEFAULT_MAX_TIME_DIFF_def)
  then obtain rcd view key where a: "authenticate reality_stub 1000090 rcd sample_reality_server
      = Ok \<lparr>ah_hello = view, ah_auth_key = key\<rparr>" by blast
  moreover have "set (rs_short_ids sample_reality_server) = {replicate 8 9}"
    by (simp add: sample_reality_server_def)
  ultimately show ?thesis
    using authenticate_accepts_iff [OF reality_stub_laws, of 1000090 rcd sample_reality_server view key]
    by (metis singletonD)
qed

end
