(* ===== verification/Reality_Keys.thy ===== *)
theory Reality_Keys
  imports Reality_Auth
begin

text \<open>
  Key material of the REALITY layer as text
  (\<open>payphone-transport/src/reality/keys.rs\<close>): 32-byte keys as raw bytes, hex
  or base64, from the environment or from a file, short identifiers, and the two
  encoders.  Text is a list of Unicode scalar values; what the file system holds
  under a name is an argument.
\<close>

section \<open>Keys\<close>

record RealityKeypair =
  kp_private :: bytes
  kp_public :: bytes

definition generate_keypair :: "RealityCrypto \<Rightarrow> rng \<Rightarrow> RealityKeypair" where
  "generate_keypair c r =
    (let private = fst (os_fill_random 32 r) in \<lparr>kp_private = private, kp_public = x25519_base c private\<rparr>)"

definition public_from_private :: "RealityCrypto \<Rightarrow> bytes \<Rightarrow> bytes" where
  "public_from_private c private = x25519_base c private"

datatype KeyError = KeyEmpty | KeyFileError | KeyNotText | KeyNotEncoded | KeyLength nat | OddHex | InvalidHex
  | ShortIdLength | ShortIdNotHex | ShortIdsNone

section \<open>Text of valid UTF-8\<close>

text \<open>The scalar values of a byte string that \<open>utf8_valid\<close> accepts.\<close>

fun utf8_chars :: "bytes \<Rightarrow> ustr" where
  "utf8_chars [] = []"
| "utf8_chars (a # r) =
    (if a < 0x80 then unat a # utf8_chars r
     else if a < 0xE0 then
       (case r of b # r1 \<Rightarrow> ((unat a - 0xC0) * 64 + (unat b - 0x80)) # utf8_chars r1 | _ \<Rightarrow> [])
     else if a < 0xF0 then
       (case r of b # c # r2 \<Rightarrow>
          ((unat a - 0xE0) * 4096 + (unat b - 0x80) * 64 + (unat c - 0x80)) # utf8_chars r2
        | _ \<Rightarrow> [])
     else
       (case r of b # c # d # r3 \<Rightarrow>
          ((unat a - 0xF0) * 262144 + (unat b - 0x80) * 4096 + (unat c - 0x80) * 64 + (unat d - 0x80)) # utf8_chars r3
        | _ \<Rightarrow> []))"

definition str_from_utf8 :: "bytes \<Rightarrow> ustr option" where
  "str_from_utf8 b = (if utf8_valid b then Some (utf8_chars b) else None)"

definition byte_hexdigit :: "u8 \<Rightarrow> bool" where
  "byte_hexdigit b = is_ascii_hexdigit (unat b)"

section \<open>Hex\<close>

text \<open>\<open>u8::from_str_radix(_, 16)\<close> on two bytes: a leading plus sign is allowed.\<close>

definition radix16 :: "u8 \<Rightarrow> u8 \<Rightarrow> u8 option" where
  "radix16 a b =
    (if byte_hexdigit b then
       (if byte_hexdigit a then Some (of_nat (16 * hex_value (unat a) + hex_value (unat b)))
        else if a = 43 then Some (of_nat (hex_value (unat b)))
        else None)
     else None)"

text \<open>A slice that does not fall on character boundaries panics.\<close>

fun hex_decode_loop :: "bytes \<Rightarrow> (KeyError, bytes) outcome" where
  "hex_decode_loop (a # b # s) =
    (if utf8_cont a \<or> (s \<noteq> [] \<and> utf8_cont (hd s)) then Panic
     else case radix16 a b of
       None \<Rightarrow> Err InvalidHex
     | Some x \<Rightarrow> obind (hex_decode_loop s) (\<lambda>xs. Ok (x # xs)))"
| "hex_decode_loop _ = Ok []"

definition hex_decode :: "bytes \<Rightarrow> (KeyError, bytes) outcome" where
  "hex_decode text = (if length text mod 2 \<noteq> 0 then Err OddHex else hex_decode_loop text)"

text \<open>\<open>copy_from_slice\<close> panics on any other length.\<close>

definition hex_decode_32 :: "bytes \<Rightarrow> (KeyError, bytes) outcome" where
  "hex_decode_32 text = obind (hex_decode text) (\<lambda>raw. if length raw = 32 then Ok raw else Panic)"

definition encode_hex :: "bytes \<Rightarrow> ustr" where
  "encode_hex bs = concat (map (\<lambda>b. [hex_digit (unat b div 16), hex_digit (unat b mod 16)]) bs)"

section \<open>Base64\<close>

definition B64_STD :: bytes where
  "B64_STD = ascii ''ABCDEFGHIJKLMNOPQRSTUVWXYZabcdefghijklmnopqrstuvwxyz0123456789+/''"
definition B64_URL :: bytes where
  "B64_URL = ascii ''ABCDEFGHIJKLMNOPQRSTUVWXYZabcdefghijklmnopqrstuvwxyz0123456789-_''"

fun b64_encode_loop :: "bytes \<Rightarrow> bytes \<Rightarrow> bytes" where
  "b64_encode_loop table [] = []"
| "b64_encode_loop table [b0] =
    [table ! unat (drop_bit 2 b0), table ! unat (push_bit 4 (b0 AND 0x03))]"
| "b64_encode_loop table [b0, b1] =
    [table ! unat (drop_bit 2 b0), table ! unat (push_bit 4 (b0 AND 0x03) OR drop_bit 4 b1),
     table ! unat (push_bit 2 (b1 AND 0x0F))]"
| "b64_encode_loop table (b0 # b1 # b2 # bs) =
    [table ! unat (drop_bit 2 b0), table ! unat (push_bit 4 (b0 AND 0x03) OR drop_bit 4 b1),
     table ! unat (push_bit 2 (b1 AND 0x0F) OR drop_bit 6 b2), table ! unat (b2 AND 0x3F)]
    @ b64_encode_loop table bs"

definition b64_encode :: "bytes \<Rightarrow> bool \<Rightarrow> ustr" where
  "b64_encode bs url = map unat (b64_encode_loop (if url then B64_URL else B64_STD) bs)"

definition encode_b64url :: "bytes \<Rightarrow> ustr" where
  "encode_b64url bs = b64_encode bs True"

definition b64_val :: "u8 \<Rightarrow> u8 option" where
  "b64_val ch =
    (if 65 \<le> ch \<and> ch \<le> 90 then Some (ch - 65)
     else if 97 \<le> ch \<and> ch \<le> 122 then Some (ch - 97 + 26)
     else if 48 \<le> ch \<and> ch \<le> 57 then Some (ch - 48 + 52)
     else if ch = 43 then Some 62
     else if ch = 47 then Some 63
     else None)"

definition b64_canon :: "nat \<Rightarrow> nat" where
  "b64_canon ch = (if ch = 45 then 43 else if ch = 95 then 47 else ch)"

text \<open>The bytes of one group: the first two characters, then as many more as decode.\<close>

definition b64_group :: "u8 \<Rightarrow> u8 \<Rightarrow> bytes \<Rightarrow> bytes" where
  "b64_group a b more_chars =
    (push_bit 2 a OR drop_bit 4 b) #
    (case Option.bind (nth_opt 0 more_chars) b64_val of
       None \<Rightarrow> []
     | Some c \<Rightarrow> (push_bit 4 b OR drop_bit 2 c) #
        (case Option.bind (nth_opt 1 more_chars) b64_val of
           None \<Rightarrow> []
         | Some d \<Rightarrow> [push_bit 6 c OR d]))"

function b64_decode_loop :: "bytes \<Rightarrow> bytes option" where
  "b64_decode_loop [] = Some []"
| "b64_decode_loop [a] = None"
| "b64_decode_loop (ca # cb # more_chars) =
    do { a \<leftarrow> b64_val ca; b \<leftarrow> b64_val cb;
         rest \<leftarrow> b64_decode_loop (drop 2 more_chars);
         Some (b64_group a b more_chars @ rest) }"
  by pat_completeness auto
termination by (relation "measure length") auto

definition b64_decode :: "ustr \<Rightarrow> bytes option" where
  "b64_decode text =
    b64_decode_loop (utf8_encode (map b64_canon (filter (\<lambda>ch. \<not> is_whitespace ch \<and> ch \<noteq> 61) text)))"

section \<open>Parsers\<close>

definition parse_32_bytes_raw :: "bytes \<Rightarrow> (KeyError, bytes) outcome" where
  "parse_32_bytes_raw bs =
    (if length bs = 32 then Ok bs
     else case str_from_utf8 bs of
       None \<Rightarrow> Err KeyNotText
     | Some s \<Rightarrow>
       (let txt = trim s in
        if length (utf8_encode txt) = 64 \<and> list_all byte_hexdigit (utf8_encode txt)
        then hex_decode_32 (utf8_encode txt)
        else case b64_decode txt of
          None \<Rightarrow> Err KeyNotEncoded
        | Some decoded \<Rightarrow> if length decoded \<noteq> 32 then Err (KeyLength (length decoded)) else Ok decoded))"

text \<open>What a name denotes: no regular file, a file that cannot be read, or its bytes.\<close>

datatype NamedFile = NoFile | UnreadableFile | FileBytes bytes

definition parse_32_bytes :: "(ustr \<Rightarrow> NamedFile) \<Rightarrow> ustr \<Rightarrow> (KeyError, bytes) outcome" where
  "parse_32_bytes fs inp =
    (let inp = trim inp in
     if inp = [] then Err KeyEmpty
     else case fs inp of
       FileBytes bs \<Rightarrow> parse_32_bytes_raw bs
     | UnreadableFile \<Rightarrow> Err KeyFileError
     | NoFile \<Rightarrow> parse_32_bytes_raw (utf8_encode inp))"

definition parse_short_id :: "ustr \<Rightarrow> (KeyError, bytes) outcome" where
  "parse_short_id inp =
    (let txt = utf8_encode (trim_start_0x (trim inp)) in
     if txt = [] \<or> length txt > 16 \<or> length txt mod 2 \<noteq> 0 then Err ShortIdLength
     else if \<not> list_all byte_hexdigit txt then Err ShortIdNotHex
     else obind (hex_decode txt) (\<lambda>raw. Ok (raw @ replicate (8 - length raw) 0)))"

text \<open>\<open>split\<close> on the separators comma, space and semicolon.\<close>

definition is_separator :: "nat \<Rightarrow> bool" where
  "is_separator c \<longleftrightarrow> c = 44 \<or> c = 32 \<or> c = 59"

lemma dropWhile_rest_shorter: "dropWhile P s = x # rest \<Longrightarrow> length rest < length s"
  by (metis Suc_le_lessD length_Cons length_dropWhile_le)

function split_parts :: "ustr \<Rightarrow> ustr list" where
  "split_parts s =
    (case dropWhile (\<lambda>c. \<not> is_separator c) s of
       [] \<Rightarrow> [s]
     | _ # rest \<Rightarrow> takeWhile (\<lambda>c. \<not> is_separator c) s # split_parts rest)"
  by pat_completeness auto
termination by (relation "measure length") (simp_all add: dropWhile_rest_shorter)

declare split_parts.simps [simp del]

fun parse_short_id_parts :: "ustr list \<Rightarrow> (KeyError, bytes list) outcome" where
  "parse_short_id_parts [] = Ok []"
| "parse_short_id_parts (part # parts) =
    (if trim part = [] then parse_short_id_parts parts
     else obind (parse_short_id (trim part)) (\<lambda>i. obind (parse_short_id_parts parts) (\<lambda>ids. Ok (i # ids))))"

definition parse_short_ids :: "ustr \<Rightarrow> (KeyError, bytes list) outcome" where
  "parse_short_ids inp =
    obind (parse_short_id_parts (split_parts inp)) (\<lambda>ids. if ids = [] then Err ShortIdsNone else Ok ids)"

section \<open>Base64 round trip\<close>

text \<open>What decoding needs of a character of the output: it is ASCII and survives the filter.\<close>

definition b64_char_ok :: "nat \<Rightarrow> nat \<Rightarrow> bool" where
  "b64_char_ok ch n \<longleftrightarrow> ch < 128 \<and> \<not> is_whitespace ch \<and> ch \<noteq> 61 \<and> b64_val (of_nat (b64_canon ch)) = Some (of_nat n)"

definition b64_table_ok :: "bytes \<Rightarrow> bool" where
  "b64_table_ok table \<longleftrightarrow> list_all2 (\<lambda>ch n. b64_char_ok (unat ch) n) table [0..<64]"

lemmas b64_char_defs = b64_char_ok_def is_whitespace_def b64_canon_def b64_val_def

lemma b64_tables: "b64_table_ok B64_STD" "b64_table_ok B64_URL"
  by (simp_all add: b64_table_ok_def B64_STD_def B64_URL_def ascii_def upt_rec b64_char_defs)

lemma b64_table_char:
  assumes "b64_table_ok table" "(x :: u8) < 64"
  shows "b64_char_ok (unat (table ! unat x)) (unat x)"
proof -
  have "unat x < 64" using assms(2) by (simp add: word_less_nat_alt)
  with assms(1) show ?thesis by (auto simp: b64_table_ok_def list_all2_conv_all_nth)
qed

lemma utf8_encode_ascii: "list_all (\<lambda>n. n < 128) s \<Longrightarrow> utf8_encode s = map of_nat s"
  by (induction s) (simp_all add: utf8_encode_def utf8_char_def)

lemma eight_cases: "n < 8 \<longleftrightarrow> n = 0 \<or> n = 1 \<or> n = 2 \<or> n = 3 \<or> n = 4 \<or> n = 5 \<or> n = 6 \<or> n = (7 :: nat)"
  by auto

lemma u8_bit_eqI: "(\<And>n. n \<in> {0, 1, 2, 3, 4, 5, 6, 7} \<Longrightarrow> bit x n = bit y n) \<Longrightarrow> x = (y :: u8)"
  by (rule bit_word_eqI) (auto simp: eight_cases)

lemma b64_masks:
  "b AND 3 = take_bit 2 (b :: u8)" "b AND 0xF = take_bit 4 b" "b AND 0x3F = take_bit 6 b"
  by (simp_all add: take_bit_eq_mask mask_numeral)

lemma below64:
  assumes "\<And>n. n \<in> {6, 7} \<Longrightarrow> \<not> bit (x :: u8) n"
  shows "x < 64"
proof -
  have "take_bit 6 x = x" by (rule u8_bit_eqI) (use assms in \<open>auto simp: bit_simps\<close>)
  then have "unat x < 2 ^ 6" by (metis take_bit_nat_less_exp unsigned_take_bit_eq)
  then show ?thesis by (simp add: word_less_nat_alt)
qed

lemma six_bits:
  fixes b0 b1 b2 :: u8
  shows "drop_bit 2 b0 < 64" "push_bit 4 (b0 AND 0x03) < 64" "push_bit 4 (b0 AND 0x03) OR drop_bit 4 b1 < 64"
    "push_bit 2 (b1 AND 0x0F) < 64" "push_bit 2 (b1 AND 0x0F) OR drop_bit 6 b2 < 64" "b2 AND 0x3F < 64"
  unfolding b64_masks by (rule below64; auto simp: bit_simps dest: bit_imp_le_length)+

lemma b64_join:
  fixes b0 b1 b2 :: u8
  shows "push_bit 2 (drop_bit 2 b0) OR drop_bit 4 (push_bit 4 (b0 AND 0x03)) = b0"
    "push_bit 2 (drop_bit 2 b0) OR drop_bit 4 (push_bit 4 (b0 AND 0x03) OR drop_bit 4 b1) = b0"
    "push_bit 4 (push_bit 4 (b0 AND 0x03) OR drop_bit 4 b1) OR drop_bit 2 (push_bit 2 (b1 AND 0x0F)) = b1"
    "push_bit 4 (push_bit 4 (b0 AND 0x03) OR drop_bit 4 b1) OR
       drop_bit 2 (push_bit 2 (b1 AND 0x0F) OR drop_bit 6 b2) = b1"
    "push_bit 6 (push_bit 2 (b1 AND 0x0F) OR drop_bit 6 b2) OR (b2 AND 0x3F) = b2"
  unfolding b64_masks by (rule u8_bit_eqI; auto simp: bit_simps simp flip: numeral_2_eq_2)+

definition b64_back :: "u8 \<Rightarrow> u8" where
  "b64_back ch = of_nat (b64_canon (unat ch))"

lemma b64_back_val: "b64_table_ok table \<Longrightarrow> x < 64 \<Longrightarrow> b64_val (b64_back (table ! unat x)) = Some x"
  using b64_table_char [of table x] by (simp add: b64_char_ok_def b64_back_def)

lemma sextet_char: "(x :: u8) < 64 \<Longrightarrow> \<exists>y < 64. table ! unat x = table ! unat (y :: u8)"
  by blast

lemma b64_encode_chars:
  assumes "b64_table_ok table" "ch \<in> set (b64_encode_loop table bs)"
  shows "unat ch < 128 \<and> \<not> is_whitespace (unat ch) \<and> unat ch \<noteq> 61"
proof -
  have "\<exists>x < 64. ch = table ! unat (x :: u8)"
    using assms(2)
    by (induction table bs rule: b64_encode_loop.induct)
      (auto simp del: push_bit_and intro: six_bits sextet_char)
  then show ?thesis using b64_table_char [OF assms(1)] by (auto simp: b64_char_ok_def)
qed

lemma b64_decode_groups:
  assumes "b64_table_ok table" "x < 64" "y < 64" "z < 64" "w < 64"
  shows "b64_decode_loop [b64_back (table ! unat x), b64_back (table ! unat y)] = Some [push_bit 2 x OR drop_bit 4 y]"
    "b64_decode_loop [b64_back (table ! unat x), b64_back (table ! unat y), b64_back (table ! unat z)]
      = Some [push_bit 2 x OR drop_bit 4 y, push_bit 4 y OR drop_bit 2 z]"
    "b64_decode_loop (b64_back (table ! unat x) # b64_back (table ! unat y) # b64_back (table ! unat z) #
        b64_back (table ! unat w) # rest)
      = map_option (\<lambda>bs. (push_bit 2 x OR drop_bit 4 y) # (push_bit 4 y OR drop_bit 2 z) # (push_bit 6 z OR w) # bs)
          (b64_decode_loop rest)"
  using assms by (simp_all add: b64_back_val b64_group_def nth_opt_def split: bind_split)

lemma b64_decode_encode_loop:
  assumes t: "b64_table_ok table"
  shows "b64_decode_loop (map b64_back (b64_encode_loop table bs)) = Some bs"
  using t
proof (induction table bs rule: b64_encode_loop.induct)
  case (2 table b0)
  show ?case
    by (simp only: b64_encode_loop.simps list.map b64_join
        b64_decode_groups(1) [OF 2 six_bits(1,2) six_bits(6,6)])
next
  case (3 table b0 b1)
  show ?case
    by (simp only: b64_encode_loop.simps list.map b64_join
        b64_decode_groups(2) [OF 3 six_bits(1,3,4) six_bits(6)])
next
  case (4 table b0 b1 b2 bs)
  show ?case
    by (simp only: b64_encode_loop.simps list.map append_Cons append_Nil b64_join 4(1) [OF 4(2)] option.map
        b64_decode_groups(3) [OF 4(2) six_bits(1,3,5,6)])
qed simp

lemma b64_canon_small: "n < 128 \<Longrightarrow> b64_canon n < 128"
  by (simp add: b64_canon_def)

lemma b64_decode_encode: "b64_decode (b64_encode bs url) = Some bs"
proof -
  define table where "table = (if url then B64_URL else B64_STD)"
  have t: "b64_table_ok table" using b64_tables by (simp add: table_def)
  define out where "out = b64_encode_loop table bs"
  have ok: "\<forall>ch \<in> set out. unat ch < 128 \<and> \<not> is_whitespace (unat ch) \<and> unat ch \<noteq> 61"
    using b64_encode_chars [OF t] by (auto simp: out_def)
  then have "filter (\<lambda>ch. \<not> is_whitespace ch \<and> ch \<noteq> 61) (map unat out) = map unat out"
    by (auto intro!: filter_True)
  moreover have "list_all (\<lambda>n. n < 128) (map b64_canon (map unat out))"
    using ok b64_canon_small by (auto simp: list_all_iff)
  ultimately have "b64_decode (b64_encode bs url) = b64_decode_loop (map b64_back out)"
    by (simp add: b64_decode_def b64_encode_def utf8_encode_ascii b64_back_def [abs_def] comp_def flip: table_def out_def)
  then show ?thesis using b64_decode_encode_loop [OF t] by (simp add: out_def)
qed

section \<open>Parsing what was encoded\<close>

lemma utf8_ascii:
  assumes "list_all (\<lambda>n. n < 128) s"
  shows "utf8_encode s = map of_nat s" "utf8_valid (map of_nat s)" "utf8_chars (map of_nat s) = s"
proof -
  show "utf8_encode s = map of_nat s" using assms by (rule utf8_encode_ascii)
  have "(of_nat n :: u8) < 0x80" "unat (of_nat n :: u8) = n" if "n < 128" for n
    using that by (simp_all add: word_less_nat_alt unat_of_nat)
  then show "utf8_valid (map of_nat s)" "utf8_chars (map of_nat s) = s"
    using assms by (induction s) simp_all
qed

lemma encode_hex_eq: "encode_hex k = token_id_hex k"
  by (simp add: encode_hex_def token_id_hex_def)

lemma hex_ascii: "is_ascii_hexdigit c \<Longrightarrow> c < 128 \<and> \<not> is_whitespace c"
  by (auto simp: is_ascii_hexdigit_def is_whitespace_def)

lemma encode_hex_chars: "list_all is_ascii_hexdigit (encode_hex k)"
  using token_id_hex_chars by (auto simp: encode_hex_eq list_all_iff)

lemma length_encode_hex [simp]: "length (encode_hex k) = 2 * length k"
  by (induction k) (simp_all add: encode_hex_def)

lemma length_b64_encode [simp]: "length (b64_encode k url) = (4 * length k + 2) div 3"
proof -
  have "length (b64_encode_loop t k) = (4 * length k + 2) div 3" for t
    by (induction t k rule: b64_encode_loop.induct) simp_all
  then show ?thesis by (simp add: b64_encode_def)
qed

lemma b64_encode_ascii: "list_all (\<lambda>c. c < 128 \<and> \<not> is_whitespace c) (b64_encode k url)"
  using b64_encode_chars [OF b64_tables(1)] b64_encode_chars [OF b64_tables(2)]
  by (auto simp: b64_encode_def list_all_iff)

lemma hex_decode_digits:
  assumes "list_all byte_hexdigit s" "even (length s)"
  shows "hex_decode s = Ok (hex_pairs (map unat s))"
proof -
  have "\<not> utf8_cont b" if "byte_hexdigit b" for b
    using hex_ascii that by (auto simp: byte_hexdigit_def utf8_cont_def word_le_nat_alt dest!: hex_ascii)
  then have "hex_decode_loop s = Ok (hex_pairs (map unat s))"
    using assms
    by (induction s rule: hex_decode_loop.induct) (auto simp: radix16_def neq_Nil_conv split: list.splits)
  then show ?thesis using assms(2) by (simp add: hex_decode_def even_iff_mod_2_eq_zero)
qed

lemma trim_padded:
  assumes "list_all (\<lambda>c. \<not> is_whitespace c) s" "list_all is_whitespace ws" "s \<noteq> []"
  shows "trim (s @ ws) = s"
proof -
  have "dropWhile is_whitespace (s @ ws) = s @ ws" using assms(1,3) by (cases s) auto
  moreover have "dropWhile is_whitespace (rev ws @ rev s) = dropWhile is_whitespace (rev s)"
    using assms(2) by (subst dropWhile_append2) (auto simp: list_all_iff)
  moreover have "dropWhile is_whitespace (rev s) = rev s"
    using assms(1,3) by (cases s rule: rev_cases) auto
  ultimately show ?thesis by (simp add: trim_def)
qed

text \<open>Raw text of one token and trailing white space, as the parser sees it.\<close>

lemma key_text:
  assumes "list_all (\<lambda>c. c < 128 \<and> \<not> is_whitespace c) s" "s \<noteq> []"
    "list_all (\<lambda>c. c < 128 \<and> is_whitespace c) ws"
  shows "str_from_utf8 (utf8_encode (s @ ws)) = Some (s @ ws)" "trim (s @ ws) = s"
    "utf8_encode s = map of_nat s" "length (utf8_encode (s @ ws)) = length s + length ws"
proof -
  have "list_all (\<lambda>n. n < 128) (s @ ws)" "list_all (\<lambda>n. n < 128) s" using assms by (auto simp: list_all_iff)
  then show "str_from_utf8 (utf8_encode (s @ ws)) = Some (s @ ws)" "utf8_encode s = map of_nat s"
      "length (utf8_encode (s @ ws)) = length s + length ws"
    by (simp_all add: utf8_ascii str_from_utf8_def del: map_append)
  show "trim (s @ ws) = s" using assms by (intro trim_padded) (auto simp: list_all_iff)
qed

lemma hexdigit_bytes: "list_all is_ascii_hexdigit s \<Longrightarrow> list_all byte_hexdigit (map of_nat s) \<and> map unat (map of_nat s :: bytes) = s"
proof (induction s)
  case (Cons c s)
  then have "c < 128" using hex_ascii by auto
  then have "unat (of_nat c :: u8) = c" by (simp add: unat_of_nat)
  with Cons show ?case by (simp add: byte_hexdigit_def)
qed simp

lemma parse_hex_key:
  assumes k: "length k = 32" and ws: "list_all (\<lambda>c. c < 128 \<and> is_whitespace c) ws"
  shows "parse_32_bytes_raw (utf8_encode (encode_hex k @ ws)) = Ok k"
proof -
  have "list_all (\<lambda>c. c < 128 \<and> \<not> is_whitespace c) (encode_hex k)"
    using encode_hex_chars hex_ascii by (auto simp: list_all_iff)
  moreover have len: "length (encode_hex k) = 64" using k by simp
  then have "encode_hex k \<noteq> []" by (metis list.size(3) zero_neq_numeral)
  ultimately have t: "str_from_utf8 (utf8_encode (encode_hex k @ ws)) = Some (encode_hex k @ ws)"
      "trim (encode_hex k @ ws) = encode_hex k" "utf8_encode (encode_hex k) = map of_nat (encode_hex k)"
      "length (utf8_encode (encode_hex k @ ws)) = length (encode_hex k) + length ws"
    using key_text [OF _ _ ws] by blast+
  have "hex_decode (map of_nat (encode_hex k)) = Ok k"
    using hexdigit_bytes [OF encode_hex_chars, of k] by (simp add: hex_decode_digits encode_hex_eq)
  then show ?thesis
    using t k hexdigit_bytes [OF encode_hex_chars, of k]
    by (simp add: parse_32_bytes_raw_def hex_decode_32_def Let_def)
qed

lemma parse_b64_key:
  assumes k: "length k = 32" and ws: "list_all (\<lambda>c. c < 128 \<and> is_whitespace c) ws"
  shows "parse_32_bytes_raw (utf8_encode (b64_encode k url @ ws)) = Ok k"
proof -
  have len: "length (b64_encode k url) = 43" using k by simp
  then have "b64_encode k url \<noteq> []" by (metis list.size(3) zero_neq_numeral)
  then have t: "str_from_utf8 (utf8_encode (b64_encode k url @ ws)) = Some (b64_encode k url @ ws)"
      "trim (b64_encode k url @ ws) = b64_encode k url" "utf8_encode (b64_encode k url) = map of_nat (b64_encode k url)"
      "length (utf8_encode (b64_encode k url @ ws)) = length (b64_encode k url) + length ws"
    using key_text [OF b64_encode_ascii _ ws] by blast+
  then show ?thesis using k len by (simp add: parse_32_bytes_raw_def b64_decode_encode Let_def)
qed

lemma parse_raw_total:
  "case parse_32_bytes_raw bs of Ok k \<Rightarrow> length k = 32 | Err _ \<Rightarrow> True | Panic \<Rightarrow> False"
proof -
  have "hex_decode_32 s = Ok (hex_pairs (map unat s)) \<and> length (hex_pairs (map unat s)) = 32"
    if "length s = 64" "list_all byte_hexdigit s" for s
    using that by (simp add: hex_decode_32_def hex_decode_digits length_hex_pairs)
  then show ?thesis by (auto simp: parse_32_bytes_raw_def Let_def split: option.split)
qed

lemma parse_short_id_total:
  "case parse_short_id s of Ok i \<Rightarrow> length i = 8 | Err _ \<Rightarrow> True | Panic \<Rightarrow> False"
proof -
  define t where "t = utf8_encode (trim_start_0x (trim s))"
  show ?thesis
  proof (cases "t = [] \<or> length t > 16 \<or> length t mod 2 \<noteq> 0 \<or> \<not> list_all byte_hexdigit t")
    case True
    then show ?thesis by (auto simp: parse_short_id_def simp flip: t_def)
  next
    case False
    then have "even (length t)" "length (hex_pairs (map unat t)) \<le> 8" by (auto simp: length_hex_pairs)
    with False show ?thesis by (simp add: parse_short_id_def hex_decode_digits flip: t_def)
  qed
qed

lemma parse_short_id_parts_total:
  "case parse_short_id_parts ps of Ok ids \<Rightarrow> list_all (\<lambda>i. length i = 8) ids | Err _ \<Rightarrow> True | Panic \<Rightarrow> False"
proof (induction ps)
  case (Cons p ps)
  then show ?case using parse_short_id_total [of "trim p"] by (auto split: outcome.splits)
qed simp

section \<open>What the parsers guarantee\<close>

text \<open>
  Keys survive as text.  A 32-byte key is read back from its raw bytes, from
  its hex form and from both base64 forms, with or without trailing white space
  such as the newline of a key file.
\<close>

theorem key_text_roundtrip:
  assumes "length k = 32" "list_all (\<lambda>c. c < 128 \<and> is_whitespace c) ws"
  shows "parse_32_bytes_raw k = Ok k \<and>
    parse_32_bytes_raw (utf8_encode (encode_hex k @ ws)) = Ok k \<and>
    parse_32_bytes_raw (utf8_encode (b64_encode k url @ ws)) = Ok k"
  using assms parse_hex_key [OF assms] parse_b64_key [OF assms] by (simp add: parse_32_bytes_raw_def)

theorem key_text_roundtrip_witness:
  "parse_32_bytes_raw (replicate 32 17) = Ok (replicate 32 17) \<and>
   parse_32_bytes_raw (utf8_encode (encode_hex (replicate 32 17) @ [10])) = Ok (replicate 32 17) \<and>
   parse_32_bytes_raw (utf8_encode (b64_encode (replicate 32 17) True @ [10])) = Ok (replicate 32 17)"
  by (rule key_text_roundtrip) (simp_all add: is_whitespace_def)

text \<open>
  Key parsing is total.  Whatever the text and whatever the file system holds,
  parsing a key or a list of short identifiers never panics; an accepted key has 32
  bytes, an accepted list is not empty and its identifiers have eight bytes each.
\<close>

theorem key_parsers_total:
  "(case parse_32_bytes fs s of Ok k \<Rightarrow> length k = 32 | Err _ \<Rightarrow> True | Panic \<Rightarrow> False) \<and>
   (case parse_short_ids t of Ok ids \<Rightarrow> ids \<noteq> [] \<and> list_all (\<lambda>i. length i = 8) ids | Err _ \<Rightarrow> True | Panic \<Rightarrow> False)"
proof
  show "case parse_32_bytes fs s of Ok k \<Rightarrow> length k = 32 | Err _ \<Rightarrow> True | Panic \<Rightarrow> False"
    using parse_raw_total by (auto simp: parse_32_bytes_def Let_def split: NamedFile.split)
  show "case parse_short_ids t of Ok ids \<Rightarrow> ids \<noteq> [] \<and> list_all (\<lambda>i. length i = 8) ids | Err _ \<Rightarrow> True | Panic \<Rightarrow> False"
    using parse_short_id_parts_total [of "split_parts t"] by (auto simp: parse_short_ids_def split: outcome.splits)
qed

lemma bang_groups_decode: "b64_decode (concat (replicate n [65, 65, 33, 33])) = Some (replicate n 0)"
proof -
  have "utf8_encode (map b64_canon (filter (\<lambda>ch. \<not> is_whitespace ch \<and> ch \<noteq> 61) (concat (replicate n [65, 65, 33, 33]))))
      = concat (replicate n [65, 65, 33, 33])"
    by (induction n) (simp_all add: is_whitespace_def b64_canon_def utf8_encode_def utf8_char_def)
  moreover have "b64_decode_loop (concat (replicate n [65, 65, 33, 33])) = Some (replicate n 0)"
    by (induction n) (simp_all add: b64_val_def b64_group_def nth_opt_def)
  ultimately show ?thesis by (simp add: b64_decode_def)
qed

text \<open>
  Invalid base64 is skipped, not refused.  The decoder drops the rest of a
  group whose third or fourth character is outside the alphabet, so a text full of
  exclamation marks is accepted as a key.
\<close>

theorem invalid_base64_accepted:
  "b64_val 33 = None \<and>
   parse_32_bytes_raw (concat (replicate 32 [65, 65, 33, 33])) = Ok (replicate 32 0)"
proof -
  define s :: ustr where "s = concat (replicate 32 [65, 65, 33, 33])"
  have b: "concat (replicate 32 [65, 65, 33, 33]) = (map of_nat s :: bytes)" by (simp add: s_def map_concat)
  have s: "list_all (\<lambda>c. c < 128 \<and> \<not> is_whitespace c) s" "length s = 128"
    by (auto simp: s_def list_all_iff is_whitespace_def length_concat sum_list_replicate)
  then have ne: "s \<noteq> []" by (metis list.size(3) zero_neq_numeral)
  note t = key_text [OF s(1) ne, of "[]"]
  have "b64_decode s = Some (replicate 32 0)" unfolding s_def by (rule bang_groups_decode)
  then show ?thesis using t s(2) by (simp add: b b64_val_def parse_32_bytes_raw_def Let_def)
qed

end
