(* ===== verification/Ip_Text.thy ===== *)
theory Ip_Text
  imports Auth_Verifier "HOL-Library.Monad_Syntax"
begin

text \<open>
  Internet addresses and their text, as the standard library prints and parses
  them (\<open>core::net\<close>): used by the routing commands, the settings and the
  DNS relay.  Text is a list of Unicode scalar values.
\<close>

text \<open>A string literal as text.\<close>

definition us :: "string \<Rightarrow> ustr" where
  "us s = map of_char s"

lemma us_eq [simp]: "us s = us t \<longleftrightarrow> s = t"
  by (simp add: us_def inj_map_eq_map inj_def)

datatype IpAddr = IpV4 u8 u8 u8 u8 | IpV6 "u16 list"

type_synonym SockAddr = "IpAddr \<times> u16"

section \<open>Numbers\<close>

fun digits_of :: "nat \<Rightarrow> nat \<Rightarrow> ustr" where
  "digits_of radix n =
    (if radix \<le> 1 \<or> n < radix then [hex_digit n] else digits_of radix (n div radix) @ [hex_digit (n mod radix)])"

declare digits_of.simps [simp del]

definition digit_value :: "nat \<Rightarrow> nat \<Rightarrow> nat option" where
  "digit_value radix c =
    (if is_ascii_hexdigit c \<and> hex_value c < radix then Some (hex_value c) else None)"

definition digits_value :: "nat \<Rightarrow> nat list \<Rightarrow> nat" where
  "digits_value radix ds = foldl (\<lambda>acc d. acc * radix + d) 0 ds"

text \<open>
  \<open>read_number\<close>: all following digits, at most \<open>max_digits\<close> of them, no
  leading zero unless allowed, and a value of at most \<open>max_value\<close>.
\<close>

definition read_number :: "nat \<Rightarrow> nat \<Rightarrow> bool \<Rightarrow> nat \<Rightarrow> ustr \<Rightarrow> (nat \<times> ustr) option" where
  "read_number radix max_digits allow_zero max_value s =
    (let ds = takeWhile (\<lambda>c. digit_value radix c \<noteq> None) s;
         v = digits_value radix (map (\<lambda>c. the (digit_value radix c)) ds)
     in if ds = [] \<or> length ds > max_digits \<or> (\<not> allow_zero \<and> hd ds = 48 \<and> length ds > 1) \<or> v > max_value
        then None
        else Some (v, drop (length ds) s))"

definition read_given :: "nat \<Rightarrow> ustr \<Rightarrow> ustr option" where
  "read_given c s = (case s of x # r \<Rightarrow> if x = c then Some r else None | [] \<Rightarrow> None)"

section \<open>Parsing\<close>

definition read_octet :: "ustr \<Rightarrow> (nat \<times> ustr) option" where
  "read_octet = read_number 10 3 False 255"

definition read_ipv4 :: "ustr \<Rightarrow> ((u8 \<times> u8 \<times> u8 \<times> u8) \<times> ustr) option" where
  "read_ipv4 s =
     do { (a, s) \<leftarrow> read_octet s; s \<leftarrow> read_given 46 s;
          (b, s) \<leftarrow> read_octet s; s \<leftarrow> read_given 46 s;
          (c, s) \<leftarrow> read_octet s; s \<leftarrow> read_given 46 s;
          (d, s) \<leftarrow> read_octet s;
          Some ((of_nat a, of_nat b, of_nat c, of_nat d), s) }"

text \<open>
  \<open>read_groups\<close>: the groups from index \<open>i\<close> on, with an embedded IPv4
  address where two are left; the flag says that one was read.
\<close>

fun read_groups :: "nat \<Rightarrow> nat \<Rightarrow> ustr \<Rightarrow> u16 list \<times> bool \<times> ustr" where
  "read_groups 0 i s = ([], False, s)"
| "read_groups (Suc todo) i s =
    (let sep = (if i = 0 then Some s else read_given 58 s);
         v4 = (if todo = 0 then None else Option.bind sep read_ipv4)
     in case v4 of
          Some ((a, b, c, d), r) \<Rightarrow> ([ucast a * 256 + ucast b, ucast c * 256 + ucast d], True, r)
        | None \<Rightarrow>
          (case Option.bind sep (read_number 16 4 True 0xFFFF) of
             None \<Rightarrow> ([], False, s)
           | Some (g, r) \<Rightarrow>
               (let (gs, v4, r) = read_groups todo (Suc i) r in (of_nat g # gs, v4, r))))"

definition read_ipv6 :: "ustr \<Rightarrow> (u16 list \<times> ustr) option" where
  "read_ipv6 s =
    (let (head, head_v4, r) = read_groups 8 0 s in
     if length head = 8 then Some (head, r)
     else if head_v4 then None
     else do { r \<leftarrow> read_given 58 r; r \<leftarrow> read_given 58 r;
               let (tail_groups, _, r) = read_groups (8 - (length head + 1)) 0 r
               in Some (head @ replicate (8 - length head - length tail_groups) 0 @ tail_groups, r) })"

definition read_ip :: "ustr \<Rightarrow> (IpAddr \<times> ustr) option" where
  "read_ip s =
    (case read_ipv4 s of
       Some ((a, b, c, d), r) \<Rightarrow> Some (IpV4 a b c d, r)
     | None \<Rightarrow> map_option (\<lambda>(g, r). (IpV6 g, r)) (read_ipv6 s))"

definition parse_ipv4 :: "ustr \<Rightarrow> IpAddr option" where
  "parse_ipv4 s = (case read_ipv4 s of Some ((a, b, c, d), []) \<Rightarrow> Some (IpV4 a b c d) | _ \<Rightarrow> None)"

definition parse_ip :: "ustr \<Rightarrow> IpAddr option" where
  "parse_ip s = (case read_ip s of Some (ip, []) \<Rightarrow> Some ip | _ \<Rightarrow> None)"

definition read_port :: "ustr \<Rightarrow> (u16 \<times> ustr) option" where
  "read_port s =
     do { s \<leftarrow> read_given 58 s;
          (p, s) \<leftarrow> (let ds = takeWhile (\<lambda>c. digit_value 10 c \<noteq> None) s;
                        v = digits_value 10 (map (\<lambda>c. the (digit_value 10 c)) ds)
                    in if ds = [] \<or> v > 0xFFFF then None else Some (v, drop (length ds) s));
          Some (of_nat p, s) }"

definition parse_socket_addr :: "ustr \<Rightarrow> SockAddr option" where
  "parse_socket_addr s =
    (case do { ((a, b, c, d), r) \<leftarrow> read_ipv4 s; (port, r) \<leftarrow> read_port r; Some ((IpV4 a b c d, port), r) } of
       Some (sa, r) \<Rightarrow> (if r = [] then Some sa else None)
     | None \<Rightarrow>
       (case do { r \<leftarrow> read_given 91 s; (g, r) \<leftarrow> read_ipv6 r; r \<leftarrow> read_given 93 r;
                  (port, r) \<leftarrow> read_port r; Some ((IpV6 g, port), r) } of
          Some (sa, []) \<Rightarrow> Some sa
        | _ \<Rightarrow> None))"

section \<open>Printing\<close>

definition show_nat :: "nat \<Rightarrow> ustr" where
  "show_nat n = digits_of 10 n"

definition show_v4 :: "u8 \<Rightarrow> u8 \<Rightarrow> u8 \<Rightarrow> u8 \<Rightarrow> ustr" where
  "show_v4 a b c d = show_nat (unat a) @ [46] @ show_nat (unat b) @ [46] @ show_nat (unat c) @ [46] @ show_nat (unat d)"

fun join_with :: "ustr \<Rightarrow> ustr list \<Rightarrow> ustr" where
  "join_with sep [] = []"
| "join_with sep [x] = x"
| "join_with sep (x # xs) = x @ sep @ join_with sep xs"

text \<open>The longest run of zero groups, the first of several: start and length.\<close>

fun zero_run :: "u16 list \<Rightarrow> nat \<Rightarrow> nat \<times> nat \<Rightarrow> nat \<times> nat \<Rightarrow> nat \<times> nat" where
  "zero_run [] i cur best = best"
| "zero_run (g # gs) i (start, len) best =
    (if g = 0 then
       let cur = (if len = 0 then (i, 1) else (start, len + 1))
       in zero_run gs (i + 1) cur (if snd cur > snd best then cur else best)
     else zero_run gs (i + 1) (0, 0) best)"

definition show_groups :: "u16 list \<Rightarrow> ustr" where
  "show_groups gs = join_with [58] (map (\<lambda>g. digits_of 16 (unat g)) gs)"

definition show_v6 :: "u16 list \<Rightarrow> ustr" where
  "show_v6 gs =
    (if take 6 gs = [0, 0, 0, 0, 0, 0xFFFF] then
       us ''::ffff:'' @ show_v4 (ucast (drop_bit 8 (gs ! 6))) (ucast (gs ! 6)) (ucast (drop_bit 8 (gs ! 7))) (ucast (gs ! 7))
     else let (start, len) = zero_run gs 0 (0, 0) (0, 0) in
       if len > 1 then show_groups (take start gs) @ us ''::'' @ show_groups (drop (start + len) gs)
       else show_groups gs)"

fun show_ip :: "IpAddr \<Rightarrow> ustr" where
  "show_ip (IpV4 a b c d) = show_v4 a b c d"
| "show_ip (IpV6 gs) = show_v6 gs"

fun is_unspecified :: "IpAddr \<Rightarrow> bool" where
  "is_unspecified (IpV4 a b c d) = (a = 0 \<and> b = 0 \<and> c = 0 \<and> d = 0)"
| "is_unspecified (IpV6 gs) = (gs = replicate 8 0)"

fun is_loopback :: "IpAddr \<Rightarrow> bool" where
  "is_loopback (IpV4 a b c d) = (a = 127)"
| "is_loopback (IpV6 gs) = (gs = replicate 7 0 @ [1])"

section \<open>Words of a line\<close>

text \<open>\<open>split_whitespace\<close>.\<close>

function split_whitespace :: "ustr \<Rightarrow> ustr list" where
  "split_whitespace s =
    (case dropWhile is_whitespace s of
       [] \<Rightarrow> []
     | c # r \<Rightarrow> takeWhile (\<lambda>x. \<not> is_whitespace x) (c # r) # split_whitespace (dropWhile (\<lambda>x. \<not> is_whitespace x) r))"
  by pat_completeness auto
termination
proof (relation "measure length", goal_cases)
  case (2 s c r)
  have "length (dropWhile (\<lambda>x. \<not> is_whitespace x) r) < length (c # r)"
    using length_dropWhile_le [of "\<lambda>x. \<not> is_whitespace x" r] by simp
  also have "length (c # r) \<le> length s" using length_dropWhile_le [of is_whitespace s] 2 by simp
  finally show ?case by simp
qed simp

declare split_whitespace.simps [simp del]

section \<open>Addresses survive as text\<close>

lemma hex_digit_value:
  assumes "n < radix" "radix \<le> 16"
  shows "digit_value radix (hex_digit n) = Some n"
  using assms hex_value_digit [of n] by (simp add: digit_value_def is_ascii_hexdigit_def hex_digit_def)

lemma digits_value_snoc: "digits_value radix (ds @ [d]) = digits_value radix ds * radix + d"
  by (simp add: digits_value_def)

lemma digits_of_value:
  assumes "1 < radix" "radix \<le> 16"
  shows "list_all (\<lambda>c. digit_value radix c \<noteq> None) (digits_of radix n) \<and> digits_of radix n \<noteq> [] \<and>
    digits_value radix (map (\<lambda>c. the (digit_value radix c)) (digits_of radix n)) = n \<and>
    (radix \<le> n \<longrightarrow> hd (digits_of radix n) \<noteq> 48)"
  using assms
proof (induction radix n rule: digits_of.induct)
  case (1 radix n)
  show ?case
  proof (cases "n < radix")
    case True
    then show ?thesis using 1(2,3) by (simp add: digits_of.simps [of radix n] hex_digit_value digits_value_def)
  next
    case False
    define m where "m = n div radix"
    have d: "digits_of radix n = digits_of radix m @ [hex_digit (n mod radix)]"
      using False 1(2) by (simp add: digits_of.simps [of radix n] m_def)
    have IH: "list_all (\<lambda>c. digit_value radix c \<noteq> None) (digits_of radix m) \<and> digits_of radix m \<noteq> [] \<and>
        digits_value radix (map (\<lambda>c. the (digit_value radix c)) (digits_of radix m)) = m \<and>
        (radix \<le> m \<longrightarrow> hd (digits_of radix m) \<noteq> 48)"
      using 1(1) [OF _ 1(2,3)] False 1(2) by (simp add: m_def)
    have "n mod radix < radix" using 1(2) by simp
    then have last: "digit_value radix (hex_digit (n mod radix)) = Some (n mod radix)"
      using 1(3) by (rule hex_digit_value)
    have "0 < m" using False 1(2) by (simp add: m_def div_greater_zero_iff)
    then have "hd (digits_of radix m) \<noteq> 48"
      using IH by (cases "radix \<le> m") (auto simp: digits_of.simps [of radix m] hex_digit_def)
    then show ?thesis using IH last 1(2) unfolding d by (simp add: digits_value_snoc m_def)
  qed
qed

lemma length_show_nat: "n < 1000 \<Longrightarrow> length (show_nat n) \<le> 3"
  unfolding show_nat_def
  by (subst digits_of.simps, simp, subst digits_of.simps, simp, subst digits_of.simps, simp)

text \<open>A number is read back when no digit follows.\<close>

definition no_digit :: "nat \<Rightarrow> ustr \<Rightarrow> bool" where
  "no_digit radix s \<longleftrightarrow> (case s of [] \<Rightarrow> True | c # _ \<Rightarrow> digit_value radix c = None)"

lemma no_digit_simps [simp]: "no_digit radix []" "no_digit radix (c # s) \<longleftrightarrow> digit_value radix c = None"
  by (simp_all add: no_digit_def)

lemma takeWhile_digits:
  assumes "1 < radix" "radix \<le> 16" "no_digit radix s"
  shows "takeWhile (\<lambda>c. digit_value radix c \<noteq> None) (digits_of radix n @ s) = digits_of radix n"
  using digits_of_value [OF assms(1,2), of n] assms(3)
  by (subst takeWhile_append2) (auto simp: list_all_iff no_digit_def split: list.splits)

lemma read_octet_show:
  assumes "n \<le> 255" "no_digit 10 s"
  shows "read_octet (show_nat n @ s) = Some (n, s)"
proof -
  have v: "show_nat n \<noteq> []" "digits_value 10 (map (\<lambda>c. the (digit_value 10 c)) (show_nat n)) = n"
      "10 \<le> n \<longrightarrow> hd (show_nat n) \<noteq> 48"
    using digits_of_value [of 10 n] by (simp_all add: show_nat_def)
  have l: "length (show_nat n) \<le> 3" "n < 10 \<longrightarrow> length (show_nat n) = 1"
    using length_show_nat [of n] assms(1) by (simp_all add: show_nat_def digits_of.simps)
  have "takeWhile (\<lambda>c. digit_value 10 c \<noteq> None) (show_nat n @ s) = show_nat n"
    using takeWhile_digits [of 10 s n] assms(2) by (simp add: show_nat_def)
  then show ?thesis
    using v l assms(1) by (auto simp: read_octet_def read_number_def Let_def)
qed

lemma digit_value_sep [simp]: "digit_value 10 46 = None" "digit_value 10 58 = None" "digit_value 16 58 = None"
  by (simp_all add: digit_value_def is_ascii_hexdigit_def)

lemma unat_u8: "unat (a :: u8) \<le> 255"
  using unat_bound [of a] by simp

lemma read_ipv4_show: "no_digit 10 s \<Longrightarrow> read_ipv4 (show_v4 a b c d @ s) = Some ((a, b, c, d), s)"
  by (simp add: read_ipv4_def show_v4_def read_octet_show unat_u8 read_given_def)

text \<open>An IPv4 address is read back from its text.\<close>

lemma parse_show_v4: "parse_ip (show_ip (IpV4 a b c d)) = Some (IpV4 a b c d)"
  using read_ipv4_show [of "[]" a b c d] by (simp add: parse_ip_def read_ip_def)

lemma parse_show_v4_socket:
  "parse_socket_addr (show_v4 a b c d @ 58 # show_nat (unat (p :: u16))) = Some (IpV4 a b c d, p)"
proof -
  have v: "show_nat (unat p) \<noteq> []"
      "digits_value 10 (map (\<lambda>ch. the (digit_value 10 ch)) (show_nat (unat p))) = unat p"
    using digits_of_value [of 10 "unat p"] by (simp_all add: show_nat_def)
  have tw: "takeWhile (\<lambda>ch. digit_value 10 ch \<noteq> None) (show_nat (unat p)) = show_nat (unat p)"
    unfolding show_nat_def by (rule takeWhile_digits [of 10 "[]" "unat p", simplified append_Nil2]) simp_all
  have "unat p \<le> 0xFFFF" using unat_bound [of p] by simp
  then have "read_port (58 # show_nat (unat p)) = Some (p, [])"
    using v by (simp add: read_port_def read_given_def Let_def tw del: takeWhile_eq_all_conv not_None_eq)
  then show ?thesis
    using read_ipv4_show [of "58 # show_nat (unat p)" a b c d] by (simp add: parse_socket_addr_def)
qed

text \<open>The other form, on examples with and without a compressed run.\<close>

lemma show_v6_examples:
  "show_ip (IpV6 [0x2001, 0xdb8, 0, 0, 1, 0, 0, 1]) = us ''2001:db8::1:0:0:1''"
  "show_ip (IpV6 [0, 0, 0, 0, 0, 0xFFFF, 0x0A4D, 1]) = us ''::ffff:10.77.0.1''"
  by (simp_all add: us_def show_v6_def show_groups_def show_v4_def show_nat_def digits_of.simps hex_digit_def)

end
