(* ===== verification/Routing.thy ===== *)
theory Routing
  imports Prelude Ip_Text
begin

text \<open>
  Full-tunnel routing (\<open>payphone-tun/src/routing.rs\<close>): running the
  operating system's tools, reading their output, the server's forwarding rules, and
  the Linux routes of the client with their two guards.  The operating system is the
  parameter \<open>os\<close>, which maps a command and the state of the kernel to the
  outcome of the command and the new state.  The operations work on the history of
  the kernel's states, newest first, so that what holds between two commands can
  be stated.
\<close>

section \<open>Running commands\<close>

datatype Command = Cmd "ustr list" | CmdIn "ustr list" ustr

datatype CmdResult = SpawnFailed | Exited bool ustr ustr

type_synonym 'k os = "Command \<Rightarrow> 'k \<Rightarrow> CmdResult \<times> 'k"

datatype RouteError = SpawnError | CommandFailed | BadGateway | NoGateway | NoInterface | ForwardingReadOnly
  | Unsupported

definition exec :: "'k os \<Rightarrow> Command \<Rightarrow> 'k list \<Rightarrow> CmdResult \<times> 'k list" where
  "exec os cmd h = (case os cmd (hd h) of (r, k) \<Rightarrow> (r, k # h))"

definition run_tool :: "ustr \<Rightarrow> 'k os \<Rightarrow> ustr list \<Rightarrow> 'k list \<Rightarrow> (RouteError, unit) outcome \<times> 'k list" where
  "run_tool tool os args h =
    (case exec os (Cmd (tool # args)) h of
       (SpawnFailed, h) \<Rightarrow> (Err SpawnError, h)
     | (Exited ok _ _, h) \<Rightarrow> ((if ok then Ok () else Err CommandFailed), h))"

text \<open>Standard output of a command that succeeds.\<close>

definition tool_output :: "'k os \<Rightarrow> ustr list \<Rightarrow> 'k list \<Rightarrow> (RouteError, ustr) outcome \<times> 'k list" where
  "tool_output os cmd h =
    (case exec os (Cmd cmd) h of
       (SpawnFailed, h) \<Rightarrow> (Err SpawnError, h)
     | (Exited ok out _, h) \<Rightarrow> ((if ok then Ok out else Err CommandFailed), h))"

text \<open>Steps one after the other: all of them, ignoring failures (\<open>let _ =\<close>), or up to the first failure (\<open>?\<close>).\<close>

fun run_all :: "('k list \<Rightarrow> ('e, 'a) outcome \<times> 'k list) list \<Rightarrow> 'k list \<Rightarrow> 'k list" where
  "run_all [] h = h"
| "run_all (s # ss) h = run_all ss (snd (s h))"

definition and_then ::
  "('e, 'a) outcome \<times> 's \<Rightarrow> ('a \<Rightarrow> 's \<Rightarrow> ('e, 'b) outcome \<times> 's) \<Rightarrow> ('e, 'b) outcome \<times> 's" where
  "and_then r f = (case r of (Ok x, h) \<Rightarrow> f x h | (Err e, h) \<Rightarrow> (Err e, h) | (Panic, h) \<Rightarrow> (Panic, h))"

section \<open>Reading the tools' output\<close>

fun find_via :: "ustr list \<Rightarrow> (RouteError, IpAddr) outcome" where
  "find_via [] = Err NoGateway"
| "find_via (field # flds) =
    (if field = us ''via'' then
       (case flds of
          [] \<Rightarrow> Err NoGateway
        | value # _ \<Rightarrow> (case parse_ip value of Some ip \<Rightarrow> Ok ip | None \<Rightarrow> Err BadGateway))
     else find_via flds)"

fun field_after_dev :: "ustr list \<Rightarrow> ustr option" where
  "field_after_dev [] = None"
| "field_after_dev (field # flds) =
    (if field = us ''dev'' then (case flds of [] \<Rightarrow> None | value # _ \<Rightarrow> Some value) else field_after_dev flds)"

definition parse_linux_default_iface :: "ustr \<Rightarrow> ustr option" where
  "parse_linux_default_iface txt = field_after_dev (split_whitespace txt)"

fun windows_gateway_line :: "ustr list \<Rightarrow> IpAddr option" where
  "windows_gateway_line cols =
    (if length cols \<ge> 3 \<and> cols ! 0 = us ''0.0.0.0'' \<and> cols ! 1 = us ''0.0.0.0'' then
       (case parse_ip (cols ! 2) of
          Some gateway \<Rightarrow> if is_unspecified gateway then None else Some gateway
        | None \<Rightarrow> None)
     else None)"

definition parse_windows_route_print_gateway :: "ustr \<Rightarrow> IpAddr option" where
  "parse_windows_route_print_gateway txt =
    (case List.map_filter (windows_gateway_line \<circ> split_whitespace) (lines txt) of
       [] \<Rightarrow> None | gateway # _ \<Rightarrow> Some gateway)"

fun windows_iface_lines :: "ustr list list \<Rightarrow> IpAddr option" where
  "windows_iface_lines [] = None"
| "windows_iface_lines (cols # later) =
    (if length cols \<ge> 4 \<and> cols ! 0 = us ''0.0.0.0'' \<and> cols ! 1 = us ''0.0.0.0'' then
       (case parse_ip (cols ! 2) of
          None \<Rightarrow> None
        | Some gateway \<Rightarrow>
            if is_unspecified gateway then windows_iface_lines later
            else (case parse_ipv4 (cols ! 3) of
                Some ip \<Rightarrow> if \<not> is_unspecified ip \<and> \<not> is_loopback ip then Some ip
                           else windows_iface_lines later
              | None \<Rightarrow> windows_iface_lines later))
     else windows_iface_lines later)"

definition parse_windows_route_print_iface_ipv4 :: "ustr \<Rightarrow> IpAddr option" where
  "parse_windows_route_print_iface_ipv4 txt = windows_iface_lines (map split_whitespace (lines txt))"

text \<open>\<open>parse::<u32>\<close>: an optional plus sign and decimal digits.\<close>

definition parse_u32 :: "ustr \<Rightarrow> u32 option" where
  "parse_u32 s =
    (let ds = (case s of c # r \<Rightarrow> if c = 43 \<and> r \<noteq> [] then r else s | [] \<Rightarrow> []);
         v = digits_value 10 (map (\<lambda>c. the (digit_value 10 c)) ds)
     in if ds = [] \<or> \<not> list_all (\<lambda>c. digit_value 10 c \<noteq> None) ds \<or> v \<ge> 2 ^ 32 then None else Some (of_nat v))"

definition char_ascii_lower :: "nat \<Rightarrow> nat" where
  "char_ascii_lower c = (if 65 \<le> c \<and> c \<le> 90 then c + 32 else c)"

definition netsh_line :: "ustr \<Rightarrow> ustr list \<Rightarrow> u32 option" where
  "netsh_line want parts =
    (case parts of
       [] \<Rightarrow> None
     | col # _ \<Rightarrow>
       (case parse_u32 col of
          None \<Rightarrow> None
        | Some idx \<Rightarrow>
            if map char_ascii_lower (join_with [32] (drop 4 parts)) = map char_ascii_lower want then Some idx
            else None))"

definition parse_netsh_interface_index :: "ustr \<Rightarrow> ustr \<Rightarrow> u32 option" where
  "parse_netsh_interface_index txt tun_name =
    (let want = trim tun_name in
     if want = [] then None
     else (case List.map_filter (netsh_line want \<circ> split_whitespace) (lines txt) of [] \<Rightarrow> None | idx # _ \<Rightarrow> Some idx))"

section \<open>Server: forwarding and address translation\<close>

definition PAYPHONE_SUBNET_CIDR :: ustr where "PAYPHONE_SUBNET_CIDR = us ''10.77.0.0/24''"
definition TUNNEL_GATEWAY :: ustr where "TUNNEL_GATEWAY = us ''10.77.0.1''"
definition SERVER_TUN_IPV4 :: IpAddr where "SERVER_TUN_IPV4 = IpV4 10 77 0 1"

fun position_of :: "ustr \<Rightarrow> ustr list \<Rightarrow> nat option" where
  "position_of x [] = None"
| "position_of x (y # ys) = (if y = x then Some 0 else map_option Suc (position_of x ys))"

definition ensure_iptables_rule ::
  "'k os \<Rightarrow> ustr list \<Rightarrow> 'k list \<Rightarrow> (RouteError, unit) outcome \<times> 'k list" where
  "ensure_iptables_rule os append_args h =
    (case position_of (us ''-A'') append_args of
       None \<Rightarrow> (Panic, h)
     | Some pos \<Rightarrow>
       (case exec os (Cmd (us ''iptables'' # append_args[pos := us ''-C''])) h of
          (Exited True _ _, h) \<Rightarrow> (Ok (), h)
        | (_, h) \<Rightarrow>
          (case exec os (Cmd (us ''iptables'' # append_args)) h of
             (SpawnFailed, h) \<Rightarrow> (Err SpawnError, h)
           | (Exited ok _ _, h) \<Rightarrow> ((if ok then Ok () else Err CommandFailed), h))))"

definition masquerade_rule :: "ustr \<Rightarrow> ustr list" where
  "masquerade_rule subnet =
     [us ''-t'', us ''nat'', us ''-A'', us ''POSTROUTING'', us ''-s'', subnet, us ''-j'', us ''MASQUERADE'']"

definition forward_rule :: "string \<Rightarrow> ustr \<Rightarrow> ustr list" where
  "forward_rule flag subnet = [us ''-A'', us ''FORWARD'', us flag, subnet, us ''-j'', us ''ACCEPT'']"

definition clamp_rule :: "ustr list" where
  "clamp_rule =
     [us ''-t'', us ''mangle'', us ''-A'', us ''FORWARD'', us ''-p'', us ''tcp'', us ''--tcp-flags'',
      us ''SYN,RST'', us ''SYN'', us ''-j'', us ''TCPMSS'', us ''--clamp-mss-to-pmtu'']"

text \<open>
  \<open>/proc/sys/net/ipv4/ip_forward\<close>: \<open>forward_flag\<close> reads it, \<open>set_forward\<close>
  writes 1 and may fail.
\<close>

definition enable_server_forwarding ::
  "'k os \<Rightarrow> ('k \<Rightarrow> ustr option) \<Rightarrow> ('k \<Rightarrow> 'k option) \<Rightarrow> ustr \<Rightarrow> 'k list \<Rightarrow> (RouteError, unit) outcome \<times> 'k list" where
  "enable_server_forwarding os forward_flag set_forward subnet h =
    (let already = (case forward_flag (hd h) of Some v \<Rightarrow> trim v = us ''1'' | None \<Rightarrow> False);
         written = (if already then (Ok (), h)
                    else case set_forward (hd h) of
                      Some k \<Rightarrow> (Ok (), k # h)
                    | None \<Rightarrow> (Err ForwardingReadOnly, h))
     in and_then written (\<lambda>_ h.
        and_then (ensure_iptables_rule os (masquerade_rule subnet) h) (\<lambda>_ h.
        and_then (ensure_iptables_rule os (forward_rule ''-s'' subnet) h) (\<lambda>_ h.
        and_then (ensure_iptables_rule os (forward_rule ''-d'' subnet) h) (\<lambda>_ h.
        ensure_iptables_rule os clamp_rule h)))))"

section \<open>Linux: commands\<close>

definition linux_default_gateway :: "'k os \<Rightarrow> 'k list \<Rightarrow> (RouteError, IpAddr) outcome \<times> 'k list" where
  "linux_default_gateway os h =
     and_then (tool_output os [us ''ip'', us ''route'', us ''show'', us ''default''] h)
       (\<lambda>out h. (find_via (split_whitespace out), h))"

definition linux_default_interface :: "'k os \<Rightarrow> 'k list \<Rightarrow> (RouteError, ustr) outcome \<times> 'k list" where
  "linux_default_interface os h =
     and_then (tool_output os [us ''ip'', us ''route'', us ''show'', us ''default''] h)
       (\<lambda>out h. ((case parse_linux_default_iface out of Some i \<Rightarrow> Ok i | None \<Rightarrow> Err NoInterface), h))"

definition run_ip :: "'k os \<Rightarrow> ustr list \<Rightarrow> 'k list \<Rightarrow> (RouteError, unit) outcome \<times> 'k list" where
  "run_ip os args h = run_tool (us ''ip'') os args h"

definition resolvectl :: "'k os \<Rightarrow> ustr list \<Rightarrow> 'k list \<Rightarrow> (RouteError, unit) outcome \<times> 'k list" where
  "resolvectl os args h = run_tool (us ''resolvectl'') os args h"

definition pin_dns :: "'k os \<Rightarrow> ustr \<Rightarrow> 'k list \<Rightarrow> 'k list" where
  "pin_dns os tun_name =
     run_all [resolvectl os [us ''dns'', tun_name, show_ip SERVER_TUN_IPV4],
              resolvectl os [us ''domain'', tun_name, us ''~.''],
              resolvectl os [us ''default-route'', tun_name, us ''yes'']]"

definition clear_dns :: "'k os \<Rightarrow> ustr \<Rightarrow> 'k list \<Rightarrow> 'k list" where
  "clear_dns os tun_name = run_all [resolvectl os [us ''revert'', tun_name]]"

definition host_bypass :: "'k os \<Rightarrow> IpAddr \<Rightarrow> IpAddr \<Rightarrow> 'k list \<Rightarrow> (RouteError, unit) outcome \<times> 'k list" where
  "host_bypass os server_ip gateway =
     run_ip os [us ''route'', us ''replace'', show_ip server_ip, us ''via'', show_ip gateway]"

definition half_to_tun :: "'k os \<Rightarrow> string \<Rightarrow> ustr \<Rightarrow> 'k list \<Rightarrow> (RouteError, unit) outcome \<times> 'k list" where
  "half_to_tun os half tun_name = run_ip os [us ''route'', us ''replace'', us half, us ''dev'', tun_name]"

definition add_ipv4_blackholes :: "'k os \<Rightarrow> 'k list \<Rightarrow> 'k list" where
  "add_ipv4_blackholes os =
     run_all [run_ip os [us ''route'', us ''replace'', us ''blackhole'', us ''0.0.0.0/1''],
              run_ip os [us ''route'', us ''replace'', us ''blackhole'', us ''128.0.0.0/1'']]"

definition remove_ipv4_blackholes :: "'k os \<Rightarrow> 'k list \<Rightarrow> 'k list" where
  "remove_ipv4_blackholes os =
     run_all [run_ip os [us ''route'', us ''del'', us ''blackhole'', us ''0.0.0.0/1''],
              run_ip os [us ''route'', us ''del'', us ''blackhole'', us ''128.0.0.0/1'']]"

definition add_ipv6_blackholes :: "'k os \<Rightarrow> 'k list \<Rightarrow> 'k list" where
  "add_ipv6_blackholes os =
     run_all [run_ip os [us ''-6'', us ''route'', us ''replace'', us ''blackhole'', us ''::/1''],
              run_ip os [us ''-6'', us ''route'', us ''replace'', us ''blackhole'', us ''8000::/1'']]"

definition remove_ipv6_blackholes :: "'k os \<Rightarrow> 'k list \<Rightarrow> 'k list" where
  "remove_ipv6_blackholes os =
     run_all [run_ip os [us ''-6'', us ''route'', us ''del'', us ''blackhole'', us ''::/1''],
              run_ip os [us ''-6'', us ''route'', us ''del'', us ''blackhole'', us ''8000::/1'']]"

definition linux_rearm_kill_switch :: "'k os \<Rightarrow> IpAddr \<Rightarrow> IpAddr \<Rightarrow> 'k list \<Rightarrow> 'k list" where
  "linux_rearm_kill_switch os server_ip gateway h =
     add_ipv6_blackholes os (add_ipv4_blackholes os (run_all [host_bypass os server_ip gateway] h))"

definition linux_restore_tunnel_routes :: "'k os \<Rightarrow> IpAddr \<Rightarrow> IpAddr \<Rightarrow> ustr \<Rightarrow> 'k list \<Rightarrow> 'k list" where
  "linux_restore_tunnel_routes os server_ip gateway tun_name h =
     pin_dns os tun_name (add_ipv6_blackholes os
       (run_all [host_bypass os server_ip gateway, half_to_tun os ''0.0.0.0/1'' tun_name,
                 half_to_tun os ''128.0.0.0/1'' tun_name] h))"

section \<open>Linux: the two guards\<close>

record FullTunnelGuard =
  ft_server_ip :: IpAddr
  ft_original_gateway :: IpAddr
  ft_tun_name :: ustr
  ft_kill_switch :: bool

definition full_tunnel_install ::
  "'k os \<Rightarrow> SockAddr \<Rightarrow> ustr \<Rightarrow> bool \<Rightarrow> 'k list \<Rightarrow> (RouteError, FullTunnelGuard) outcome \<times> 'k list" where
  "full_tunnel_install os server_address tun_name kill_switch h =
    (let server_ip = fst server_address in
     and_then (linux_default_gateway os h) (\<lambda>gateway h.
     and_then (host_bypass os server_ip gateway h) (\<lambda>_ h.
     and_then (half_to_tun os ''0.0.0.0/1'' tun_name h) (\<lambda>_ h.
     and_then (half_to_tun os ''128.0.0.0/1'' tun_name h) (\<lambda>_ h.
       (Ok \<lparr>ft_server_ip = server_ip, ft_original_gateway = gateway, ft_tun_name = tun_name,
            ft_kill_switch = kill_switch\<rparr>,
        pin_dns os tun_name (add_ipv6_blackholes os h)))))))"

definition ensure_tunnel_routes :: "'k os \<Rightarrow> FullTunnelGuard \<Rightarrow> 'k list \<Rightarrow> 'k list" where
  "ensure_tunnel_routes os g =
     linux_restore_tunnel_routes os (ft_server_ip g) (ft_original_gateway g) (ft_tun_name g)"

definition full_tunnel_drop :: "'k os \<Rightarrow> FullTunnelGuard \<Rightarrow> 'k list \<Rightarrow> 'k list" where
  "full_tunnel_drop os g h =
    (if ft_kill_switch g then linux_rearm_kill_switch os (ft_server_ip g) (ft_original_gateway g) h
     else run_all
       [run_ip os [us ''route'', us ''del'', us ''128.0.0.0/1'', us ''dev'', ft_tun_name g],
        run_ip os [us ''route'', us ''del'', us ''0.0.0.0/1'', us ''dev'', ft_tun_name g],
        run_ip os [us ''route'', us ''del'', show_ip (ft_server_ip g), us ''via'', show_ip (ft_original_gateway g)]]
       (remove_ipv6_blackholes os (clear_dns os (ft_tun_name g) h)))"

record KillSwitchGuard =
  ks_server_ip :: IpAddr
  ks_original_gateway :: IpAddr
  ks_physical_iface :: ustr

definition kill_switch_install ::
  "'k os \<Rightarrow> SockAddr \<Rightarrow> 'k list \<Rightarrow> (RouteError, KillSwitchGuard) outcome \<times> 'k list" where
  "kill_switch_install os server_address h =
    (let server_ip = fst server_address in
     and_then (linux_default_gateway os h) (\<lambda>gateway h.
     and_then (linux_default_interface os h) (\<lambda>iface h.
     and_then (host_bypass os server_ip gateway h) (\<lambda>_ h.
       (Ok \<lparr>ks_server_ip = server_ip, ks_original_gateway = gateway, ks_physical_iface = iface\<rparr>,
        pin_dns os iface (add_ipv6_blackholes os (add_ipv4_blackholes os h)))))))"

definition kill_switch_ensure :: "'k os \<Rightarrow> KillSwitchGuard \<Rightarrow> 'k list \<Rightarrow> 'k list" where
  "kill_switch_ensure os g h =
     pin_dns os (ks_physical_iface g) (linux_rearm_kill_switch os (ks_server_ip g) (ks_original_gateway g) h)"

definition kill_switch_drop :: "'k os \<Rightarrow> KillSwitchGuard \<Rightarrow> 'k list \<Rightarrow> 'k list" where
  "kill_switch_drop os g h =
     run_all [run_ip os [us ''route'', us ''del'', show_ip (ks_server_ip g), us ''via'', show_ip (ks_original_gateway g)]]
       (remove_ipv4_blackholes os (remove_ipv6_blackholes os (clear_dns os (ks_physical_iface g) h)))"

end
