(* ===== verification/Kill_Switch.thy ===== *)
theory Kill_Switch
  imports Routing "HOL-Library.Sublist"
begin

text \<open>
  What the Linux guards of \<open>Routing\<close> do to the traffic.  The kernel's IPv4
  table is a map from prefixes (lists of bits) to targets, looked up by the longest
  matching prefix; the documented behaviour of \<open>ip route replace\<close> and
  \<open>ip route del\<close> on it is the hypothesis \<open>ip_route_laws\<close>.
\<close>

section \<open>The routing table\<close>

datatype Target = ViaGw IpAddr | DevIf ustr | Blackhole

type_synonym fib = "bool list \<rightharpoonup> Target"

definition byte_bits :: "u8 \<Rightarrow> bool list" where
  "byte_bits b = map (bit b) [7, 6, 5, 4, 3, 2, 1, 0]"

fun ip_bits :: "IpAddr \<Rightarrow> bool list" where
  "ip_bits (IpV4 a b c d) = byte_bits a @ byte_bits b @ byte_bits c @ byte_bits d"
| "ip_bits (IpV6 gs) = concat (map (\<lambda>g. byte_bits (ucast (drop_bit 8 g)) @ byte_bits (ucast g)) gs)"

definition lpm :: "fib \<Rightarrow> bool list \<Rightarrow> Target option" where
  "lpm table addr =
    (case filter (\<lambda>p. table p \<noteq> None) (rev (prefixes addr)) of [] \<Rightarrow> None | p # _ \<Rightarrow> table p)"

text \<open>The routes more specific than half the address space.\<close>

definition specific :: "fib \<Rightarrow> fib" where
  "specific table p = (if length p \<ge> 2 then table p else None)"

section \<open>The tool\<close>

datatype Net = Host u8 u8 u8 u8 | Half bool

fun net_text :: "Net \<Rightarrow> ustr" where
  "net_text (Host a b c d) = show_v4 a b c d"
| "net_text (Half upper) = us (if upper then ''128.0.0.0/1'' else ''0.0.0.0/1'')"

fun net_bits :: "Net \<Rightarrow> bool list" where
  "net_bits (Host a b c d) = ip_bits (IpV4 a b c d)"
| "net_bits (Half upper) = [upper]"

fun route_args :: "string \<Rightarrow> Net \<Rightarrow> Target \<Rightarrow> ustr list" where
  "route_args verb n (ViaGw g) = [us ''route'', us verb, net_text n, us ''via'', show_ip g]"
| "route_args verb n (DevIf d) = [us ''route'', us verb, net_text n, us ''dev'', d]"
| "route_args verb n Blackhole = [us ''route'', us verb, us ''blackhole'', net_text n]"

text \<open>An IPv4 destination has an IPv4 gateway, a device or no way out.\<close>

fun routable :: "Target \<Rightarrow> bool" where
  "routable (ViaGw (IpV6 gs)) = False"
| "routable _ = True"

fun succeeded :: "CmdResult \<Rightarrow> bool" where
  "succeeded (Exited ok out err) = ok"
| "succeeded SpawnFailed = False"

definition ip_cmd :: "ustr list \<Rightarrow> Command" where
  "ip_cmd args = Cmd (us ''ip'' # args)"

definition ip_route_laws :: "'k os \<Rightarrow> ('k \<Rightarrow> fib) \<Rightarrow> bool" where
  "ip_route_laws os table \<longleftrightarrow>
    (\<forall>k n t. table (snd (os (ip_cmd (route_args ''replace'' n t)) k)) =
       (if succeeded (fst (os (ip_cmd (route_args ''replace'' n t)) k)) \<and> routable t
        then (table k)(net_bits n \<mapsto> t) else table k)) \<and>
    (\<forall>k n t. table (snd (os (ip_cmd (route_args ''del'' n t)) k)) =
       (if succeeded (fst (os (ip_cmd (route_args ''del'' n t)) k))
        then (table k)(net_bits n := None) else table k)) \<and>
    (\<forall>k args. table (snd (os (ip_cmd (us ''-6'' # us ''route'' # args)) k)) = table k) \<and>
    (\<forall>k. table (snd (os (ip_cmd [us ''route'', us ''show'', us ''default'']) k)) = table k) \<and>
    (\<forall>k args. table (snd (os (Cmd (us ''resolvectl'' # args)) k)) = table k)"

definition accepts_route :: "'k os \<Rightarrow> Net \<Rightarrow> Target \<Rightarrow> bool" where
  "accepts_route os n t \<longleftrightarrow> (\<forall>k. succeeded (fst (os (ip_cmd (route_args ''replace'' n t)) k)))"

definition rejects_route :: "'k os \<Rightarrow> Net \<Rightarrow> Target \<Rightarrow> bool" where
  "rejects_route os n t \<longleftrightarrow> (\<forall>k. \<not> succeeded (fst (os (ip_cmd (route_args ''replace'' n t)) k)))"

section \<open>Longest prefixes\<close>

lemma lpm_Some_longest:
  assumes "prefix p addr" "table p = Some t" "\<And>q. prefix q addr \<Longrightarrow> length p < length q \<Longrightarrow> table q = None"
  shows "lpm table addr = Some t"
proof -
  obtain s where addr: "addr = p @ s" using assms(1) by (auto simp: prefix_def)
  have "prefixes addr = prefixes p @ map ((@) p) (tl (prefixes s))"
    unfolding addr by (rule prefixes_append)
  moreover have "prefixes p = butlast (prefixes p) @ [p]" by (metis append_butlast_last_id last_prefixes prefixes_not_Nil)
  ultimately have rev: "rev (prefixes addr) = rev (map ((@) p) (tl (prefixes s))) @ p # rev (butlast (prefixes p))"
    by (metis append.assoc append_Cons append_Nil rev.simps(2) rev_append rev_rev_ident)
  have "table q = None" if "q \<in> set (map ((@) p) (tl (prefixes s)))" for q
  proof -
    from that have "q \<in> (@) p ` set (tl (prefixes s))" by (simp only: set_map)
    then obtain r where r: "q = p @ r" "r \<in> set (tl (prefixes s))" by (elim imageE)
    have "r \<noteq> []" using r(2) by (cases s) auto
    moreover have "prefix r s" using r(2) by (metis in_set_prefixes list.set_sel(2) prefixes_not_Nil)
    ultimately show ?thesis using assms(3) [of q] by (simp add: r addr)
  qed
  then have "filter (\<lambda>q. table q \<noteq> None) (rev (map ((@) p) (tl (prefixes s)))) = []"
    by (auto simp: filter_empty_conv)
  then show ?thesis using assms(2) by (simp add: lpm_def rev)
qed

lemma lpm_cases:
  obtains (none) "lpm table addr = None" "\<And>q. prefix q addr \<Longrightarrow> table q = None"
  | (some) p t where "lpm table addr = Some t" "prefix p addr" "table p = Some t"
      "\<And>q. prefix q addr \<Longrightarrow> length p < length q \<Longrightarrow> table q = None"
proof (cases "\<exists>p. prefix p addr \<and> table p \<noteq> None")
  case False
  then have "filter (\<lambda>p. table p \<noteq> None) (rev (prefixes addr)) = []" by (auto simp: filter_empty_conv)
  then show thesis using False by (intro none) (auto simp: lpm_def)
next
  case True
  define ls where "ls = {length p |p. prefix p addr \<and> table p \<noteq> None}"
  have "ls \<subseteq> {.. length addr}" by (auto simp: ls_def prefix_length_le)
  then have fin: "finite ls" by (rule finite_subset) simp
  have "ls \<noteq> {}" using True by (auto simp: ls_def)
  then obtain p t where p: "prefix p addr" "table p = Some t" "length p = Max ls"
    using Max_in [OF fin] by (auto simp: ls_def)
  have "table q = None" if "prefix q addr" "length p < length q" for q
  proof (rule ccontr)
    assume "table q \<noteq> None"
    then have "length q \<in> ls" using that(1) by (auto simp: ls_def)
    then show False using Max_ge [OF fin] p(3) that(2) by fastforce
  qed
  with p show thesis by (intro some [OF lpm_Some_longest]) auto
qed

text \<open>Routes for both halves catch what no more specific route does.\<close>

lemma lpm_halves:
  assumes "length addr \<ge> 2" "table [hd addr] = Some t"
  shows "lpm table addr = (case lpm (specific table) addr of Some u \<Rightarrow> Some u | None \<Rightarrow> Some t)"
proof (cases rule: lpm_cases [of "specific table" addr])
  case none
  obtain b rest where addr: "addr = b # rest" using assms(1) by (cases addr) auto
  have "lpm table addr = Some t"
  proof (rule lpm_Some_longest [of "[b]"])
    show "prefix [b] addr" by (simp add: addr)
    show "table [b] = Some t" using assms(2) by (simp add: addr)
    show "table q = None" if "prefix q addr" "length [b] < length q" for q
      using none(2) [OF that(1)] that(2) by (simp add: specific_def)
  qed
  with none show ?thesis by simp
next
  case (some p u)
  have p: "2 \<le> length p" "table p = Some u" using some(3) by (auto simp: specific_def split: if_splits)
  have "table q = None" if "prefix q addr" "length p < length q" for q
    using some(4) [OF that] that(2) p(1) by (simp add: specific_def)
  then have "lpm table addr = Some u" using lpm_Some_longest [of p addr table u] some(2) p(2) by blast
  with some show ?thesis by simp
qed

text \<open>A host route decides only the host's own address.\<close>

lemma prefix_full_length: "prefix p q \<Longrightarrow> length p = length q \<Longrightarrow> p = q"
  by (auto simp: prefix_def)

lemma lpm_cong:
  assumes "\<And>p. prefix p addr \<Longrightarrow> t1 p = t2 p"
  shows "lpm t1 addr = lpm t2 addr"
proof (cases rule: lpm_cases [of t2 addr])
  case none
  then have "filter (\<lambda>p. t1 p \<noteq> None) (rev (prefixes addr)) = []" using assms by (auto simp: filter_empty_conv)
  with none show ?thesis by (simp add: lpm_def)
next
  case (some p t)
  then have "lpm t1 addr = Some t" using assms by (intro lpm_Some_longest) auto
  with some show ?thesis by simp
qed

lemma lpm_other_host:
  assumes "length host = length addr" "addr \<noteq> host"
  shows "lpm (table(host := x)) addr = lpm table addr"
  using assms by (intro lpm_cong) (auto dest: prefix_full_length)

lemma lpm_own_host:
  assumes "table host = Some t"
  shows "lpm table host = Some t"
  by (rule lpm_Some_longest [of host]) (use assms in \<open>auto dest: prefix_length_le\<close>)

section \<open>What each step does to the table\<close>

lemma run_ip_result [simp]:
  "fst (run_ip os args h) = Ok () \<longleftrightarrow> succeeded (fst (os (ip_cmd args) (hd h)))"
  by (simp add: run_ip_def run_tool_def exec_def ip_cmd_def split: prod.split CmdResult.split)

lemma run_ip_history [simp]: "snd (run_ip os args h) = snd (os (ip_cmd args) (hd h)) # h"
  by (simp add: run_ip_def run_tool_def exec_def ip_cmd_def split: prod.split CmdResult.split)

lemma resolvectl_history [simp]: "snd (resolvectl os args h) = snd (os (Cmd (us ''resolvectl'' # args)) (hd h)) # h"
  by (simp add: resolvectl_def run_tool_def exec_def split: prod.split CmdResult.split)

lemma tool_output_history [simp]: "snd (tool_output os cmd h) = snd (os (Cmd cmd) (hd h)) # h"
  by (simp add: tool_output_def exec_def split: prod.split CmdResult.split)

text \<open>The commands of the code, as routes.\<close>

lemma host_bypass_route:
  "host_bypass os (IpV4 a b c d) gw = run_ip os (route_args ''replace'' (Host a b c d) (ViaGw gw))"
  by (rule ext) (simp add: host_bypass_def)

lemma half_to_tun_route:
  "half_to_tun os ''0.0.0.0/1'' d = run_ip os (route_args ''replace'' (Half False) (DevIf d))"
  "half_to_tun os ''128.0.0.0/1'' d = run_ip os (route_args ''replace'' (Half True) (DevIf d))"
  by (rule ext, simp add: half_to_tun_def)+

lemma ipv4_blackholes_route:
  "add_ipv4_blackholes os h = run_all [run_ip os (route_args ''replace'' (Half False) Blackhole),
                                     run_ip os (route_args ''replace'' (Half True) Blackhole)] h"
  "remove_ipv4_blackholes os h = run_all [run_ip os (route_args ''del'' (Half False) Blackhole),
                                        run_ip os (route_args ''del'' (Half True) Blackhole)] h"
  by (simp_all add: add_ipv4_blackholes_def remove_ipv4_blackholes_def)

declare route_args.simps [simp del]

lemma laws_replace:
  "ip_route_laws os table \<Longrightarrow> table (snd (os (ip_cmd (route_args ''replace'' n t)) k)) =
     (if succeeded (fst (os (ip_cmd (route_args ''replace'' n t)) k)) \<and> routable t
      then (table k)(net_bits n \<mapsto> t) else table k)"
  by (simp add: ip_route_laws_def)

lemma laws_del:
  "ip_route_laws os table \<Longrightarrow> table (snd (os (ip_cmd (route_args ''del'' n t)) k)) =
     (if succeeded (fst (os (ip_cmd (route_args ''del'' n t)) k))
      then (table k)(net_bits n := None) else table k)"
  by (simp add: ip_route_laws_def)

lemma laws_other:
  assumes "ip_route_laws os table"
  shows "table (snd (os (ip_cmd (us ''-6'' # us ''route'' # args)) k)) = table k"
    "table (snd (os (ip_cmd [us ''route'', us ''show'', us ''default'']) k)) = table k"
    "table (snd (os (Cmd [us ''ip'', us ''route'', us ''show'', us ''default'']) k)) = table k"
    "table (snd (os (Cmd (us ''resolvectl'' # args)) k)) = table k"
  using assms by (auto simp: ip_route_laws_def ip_cmd_def)

lemma table_kept:
  assumes "ip_route_laws os table"
  shows "table (hd (add_ipv6_blackholes os h)) = table (hd h)"
    "table (hd (remove_ipv6_blackholes os h)) = table (hd h)"
    "table (hd (pin_dns os tun h)) = table (hd h)"
    "table (hd (clear_dns os tun h)) = table (hd h)"
  by (simp_all add: add_ipv6_blackholes_def remove_ipv6_blackholes_def pin_dns_def clear_dns_def laws_other [OF assms])


lemma and_then_Ok:
  "and_then r f = (Ok y, h') \<longleftrightarrow> (\<exists>x h1. r = (Ok x, h1) \<and> f x h1 = (Ok y, h'))"
  by (auto simp: and_then_def split: prod.split outcome.split)

lemma queries_kept:
  assumes "ip_route_laws os table"
  shows "table (hd (snd (linux_default_gateway os h))) = table (hd h)"
    "table (hd (snd (linux_default_interface os h))) = table (hd h)"
proof -
  let ?q = "snd (os (Cmd [us ''ip'', us ''route'', us ''show'', us ''default'']) (hd h)) # h"
  have "snd (linux_default_gateway os h) = ?q" "snd (linux_default_interface os h) = ?q"
    by (simp_all add: linux_default_gateway_def linux_default_interface_def and_then_def
          tool_output_history [symmetric] del: tool_output_history split: prod.split outcome.split)
  then show "table (hd (snd (linux_default_gateway os h))) = table (hd h)"
    "table (hd (snd (linux_default_interface os h))) = table (hd h)"
    by (simp_all add: laws_other [OF assms])
qed

lemma blackholes_in_table:
  assumes "ip_route_laws os table" "accepts_route os (Half False) Blackhole" "accepts_route os (Half True) Blackhole"
  shows "table (hd (add_ipv4_blackholes os h)) = (table (hd h))([False] \<mapsto> Blackhole, [True] \<mapsto> Blackhole)"
  using assms(2,3) by (simp add: ipv4_blackholes_route laws_replace [OF assms(1)] accepts_route_def)

lemma rejected_blackholes:
  assumes "ip_route_laws os table" "rejects_route os (Half False) Blackhole" "rejects_route os (Half True) Blackhole"
  shows "table (hd (add_ipv4_blackholes os h)) = table (hd h)"
  using assms(2,3) by (simp add: ipv4_blackholes_route laws_replace [OF assms(1)] rejects_route_def)

text \<open>A step that succeeds puts its route in the table.\<close>

lemma run_ip_replace:
  assumes "ip_route_laws os table" "run_ip os (route_args ''replace'' n t) h = (Ok x, h')" "routable t"
  shows "table (hd h') = (table (hd h))(net_bits n \<mapsto> t)"
proof -
  have "h' = snd (run_ip os (route_args ''replace'' n t) h)" "fst (run_ip os (route_args ''replace'' n t) h) = Ok ()"
    using assms(2) by simp_all
  then show ?thesis using assms(3) by (simp add: laws_replace [OF assms(1)])
qed

text \<open>The kill switch: every step of its installation.\<close>

lemma kill_switch_install_steps:
  assumes laws: "ip_route_laws os table"
    and install: "kill_switch_install os (IpV4 a b c d, port) h = (Ok g, h')" "routable (ViaGw (ks_original_gateway g))"
  obtains h1 where "table (hd h1) = (table (hd h))(ip_bits (IpV4 a b c d) \<mapsto> ViaGw (ks_original_gateway g))"
    "h' = pin_dns os (ks_physical_iface g) (add_ipv6_blackholes os (add_ipv4_blackholes os h1))"
    "ks_server_ip g = IpV4 a b c d"
proof -
  obtain gw h1 iface h2 x h3 where steps: "linux_default_gateway os h = (Ok gw, h1)" "linux_default_interface os h1 = (Ok iface, h2)"
    "host_bypass os (IpV4 a b c d) gw h2 = (Ok x, h3)"
    "g = \<lparr>ks_server_ip = IpV4 a b c d, ks_original_gateway = gw, ks_physical_iface = iface\<rparr>"
    "h' = pin_dns os iface (add_ipv6_blackholes os (add_ipv4_blackholes os h3))"
    using install(1) by (auto simp: kill_switch_install_def and_then_Ok Let_def)
  have "table (hd h2) = table (hd h)" using queries_kept [OF laws, of h] queries_kept [OF laws, of h1] steps(1,2) by simp
  then have "table (hd h3) = (table (hd h))(ip_bits (IpV4 a b c d) \<mapsto> ViaGw gw)"
    using run_ip_replace [OF laws steps(3) [unfolded host_bypass_route]] install(2) steps(4) by simp
  with steps show thesis by (intro that [of h3]) simp_all
qed

lemma full_tunnel_install_steps:
  assumes laws: "ip_route_laws os table"
    and install: "full_tunnel_install os (IpV4 a b c d, port) tun kill h = (Ok g, h')" "routable (ViaGw (ft_original_gateway g))"
  shows "table (hd h') = (table (hd h))(ip_bits (IpV4 a b c d) \<mapsto> ViaGw (ft_original_gateway g), [False] \<mapsto> DevIf tun, [True] \<mapsto> DevIf tun)"
    and "ft_server_ip g = IpV4 a b c d \<and> ft_tun_name g = tun \<and> ft_kill_switch g = kill"
proof -
  obtain gw h1 x2 h2 x3 h3 x4 h4 where steps: "linux_default_gateway os h = (Ok gw, h1)"
    "host_bypass os (IpV4 a b c d) gw h1 = (Ok x2, h2)"
    "half_to_tun os ''0.0.0.0/1'' tun h2 = (Ok x3, h3)" "half_to_tun os ''128.0.0.0/1'' tun h3 = (Ok x4, h4)"
    "g = \<lparr>ft_server_ip = IpV4 a b c d, ft_original_gateway = gw, ft_tun_name = tun, ft_kill_switch = kill\<rparr>"
    "h' = pin_dns os tun (add_ipv6_blackholes os h4)"
    using install(1) by (auto simp: full_tunnel_install_def and_then_Ok Let_def)
  have "table (hd h1) = table (hd h)" using queries_kept [OF laws, of h] steps(1) by simp
  moreover have "table (hd h2) = (table (hd h1))(ip_bits (IpV4 a b c d) \<mapsto> ViaGw gw)"
    using run_ip_replace [OF laws steps(2) [unfolded host_bypass_route]] install(2) steps(5) by simp
  moreover have "table (hd h3) = (table (hd h2))([False] \<mapsto> DevIf tun)"
    using run_ip_replace [OF laws steps(3) [unfolded half_to_tun_route]] by simp
  moreover have "table (hd h4) = (table (hd h3))([True] \<mapsto> DevIf tun)"
    using run_ip_replace [OF laws steps(4) [unfolded half_to_tun_route]] by simp
  ultimately show "table (hd h') = (table (hd h))(ip_bits (IpV4 a b c d) \<mapsto> ViaGw (ft_original_gateway g), [False] \<mapsto> DevIf tun, [True] \<mapsto> DevIf tun)"
    by (simp add: steps(5,6) table_kept [OF laws])
  show "ft_server_ip g = IpV4 a b c d \<and> ft_tun_name g = tun \<and> ft_kill_switch g = kill" by (simp add: steps(5))
qed


section \<open>What the guards promise\<close>

lemma length_byte_bits [simp]: "length (byte_bits b) = 8"
  by (simp add: byte_bits_def)

lemma length_ip_bits [simp]: "length (ip_bits (IpV4 a b c d)) = 32"
  by simp

lemma host_not_half [simp]: "ip_bits (IpV4 a b c d) \<noteq> [x]" "[x] \<noteq> ip_bits (IpV4 a b c d)"
  using length_ip_bits [of a b c d] by (metis One_nat_def length_Cons list.size(3) numeral_eq_one_iff semiring_norm(83))+

lemma specific_upd_half [simp]: "specific (m([x] \<mapsto> t)) = specific m"
  by (rule ext) (simp add: specific_def)

lemma specific_upd_host [simp]: "specific (m(ip_bits (IpV4 a b c d) \<mapsto> t)) = (specific m)(ip_bits (IpV4 a b c d) \<mapsto> t)"
  by (rule ext) (simp add: specific_def del: ip_bits.simps)

lemma lpm_specific_own_host: "lpm (m(host \<mapsto> t)) host = Some t"
  by (rule lpm_own_host) simp

text \<open>With a route to the server and both halves sent to \<open>t\<close>, every other address goes where a more
  specific route that was there before sends it, or to \<open>t\<close>.\<close>

lemma captured:
  assumes "length addr = 32"
    "m' = m(ip_bits (IpV4 a b c d) \<mapsto> gw, [False] \<mapsto> t, [True] \<mapsto> t)"
  shows "lpm m' addr =
    (if addr = ip_bits (IpV4 a b c d) then Some gw
     else case lpm (specific m) addr of Some u \<Rightarrow> Some u | None \<Rightarrow> Some t)"
proof (cases "addr = ip_bits (IpV4 a b c d)")
  case True
  then have "m' addr = Some gw" using assms(2) by (simp del: ip_bits.simps)
  then show ?thesis using True lpm_own_host by simp
next
  case False
  have "m' [hd addr] = Some t" using assms(2) by (cases "hd addr") (simp_all del: ip_bits.simps)
  then have "lpm m' addr = (case lpm (specific m') addr of Some u \<Rightarrow> Some u | None \<Rightarrow> Some t)"
    using assms(1) by (intro lpm_halves) simp_all
  moreover have "lpm (specific m') addr = lpm (specific m) addr"
    using False assms lpm_other_host [of "ip_bits (IpV4 a b c d)" addr] by (simp del: ip_bits.simps)
  ultimately show ?thesis using False by (simp del: ip_bits.simps)
qed

lemma kill_switch_table:
  assumes laws: "ip_route_laws os table"
    and accepts: "accepts_route os (Half False) Blackhole" "accepts_route os (Half True) Blackhole"
    and install: "kill_switch_install os (IpV4 a b c d, port) h = (Ok g, h')" "routable (ViaGw (ks_original_gateway g))"
  shows "table (hd h') = (table (hd h))(ip_bits (IpV4 a b c d) \<mapsto> ViaGw (ks_original_gateway g),
     [False] \<mapsto> Blackhole, [True] \<mapsto> Blackhole)"
  by (rule kill_switch_install_steps [OF laws install])
    (simp add: table_kept [OF laws] blackholes_in_table [OF laws accepts] del: ip_bits.simps)

lemma kill_switch_blocks_aux:
  assumes "ip_route_laws os table"
    and "accepts_route os (Half False) Blackhole" "accepts_route os (Half True) Blackhole"
    and "kill_switch_install os (IpV4 a b c d, port) h = (Ok g, h')" "routable (ViaGw (ks_original_gateway g))"
    and "length addr = 32"
  shows "lpm (table (hd h')) addr =
    (if addr = ip_bits (IpV4 a b c d) then Some (ViaGw (ks_original_gateway g))
     else case lpm (specific (table (hd h))) addr of Some u \<Rightarrow> Some u | None \<Rightarrow> Some Blackhole)"
  using captured [OF assms(6) kill_switch_table [OF assms(1-5)]] .

lemma tunnel_captures_aux:
  assumes "ip_route_laws os table"
    and "full_tunnel_install os (IpV4 a b c d, port) tun kill h = (Ok g, h')" "routable (ViaGw (ft_original_gateway g))"
    and "length addr = 32"
  shows "lpm (table (hd h')) addr =
    (if addr = ip_bits (IpV4 a b c d) then Some (ViaGw (ft_original_gateway g))
     else case lpm (specific (table (hd h))) addr of Some u \<Rightarrow> Some u | None \<Rightarrow> Some (DevIf tun))"
  using captured [OF assms(4) full_tunnel_install_steps(1) [OF assms(1-3)]] .


text \<open>Rejected blackholes are not noticed.\<close>

lemma kill_switch_fails_open_aux:
  assumes laws: "ip_route_laws os table"
    and rejects: "rejects_route os (Half False) Blackhole" "rejects_route os (Half True) Blackhole"
    and install: "kill_switch_install os (IpV4 a b c d, port) h = (Ok g, h')" "routable (ViaGw (ks_original_gateway g))"
    and addr: "length addr = 32" "addr \<noteq> ip_bits (IpV4 a b c d)"
  shows "lpm (table (hd h')) addr = lpm (table (hd h)) addr"
proof (rule kill_switch_install_steps [OF laws install])
  fix h1
  assume "table (hd h1) = (table (hd h))(ip_bits (IpV4 a b c d) \<mapsto> ViaGw (ks_original_gateway g))"
    "h' = pin_dns os (ks_physical_iface g) (add_ipv6_blackholes os (add_ipv4_blackholes os h1))"
  then have "table (hd h') = (table (hd h))(ip_bits (IpV4 a b c d) \<mapsto> ViaGw (ks_original_gateway g))"
    by (simp add: table_kept [OF laws] rejected_blackholes [OF laws rejects] del: ip_bits.simps)
  then show ?thesis using addr lpm_other_host [of "ip_bits (IpV4 a b c d)" addr] by (simp del: ip_bits.simps)
qed

text \<open>An installation that fails at its last route leaves the others.\<close>

lemma run_ip_rejected:
  assumes "ip_route_laws os table" "rejects_route os n t"
  obtains e h' where "run_ip os (route_args ''replace'' n t) h = (Err e, h')" "table (hd h') = table (hd h)"
proof -
  let ?r = "run_ip os (route_args ''replace'' n t) h"
  have "\<not> succeeded (fst (os (ip_cmd (route_args ''replace'' n t)) (hd h)))" using assms(2) by (simp add: rejects_route_def)
  then have "fst ?r \<noteq> Ok ()" "fst ?r \<noteq> Panic" "table (hd (snd ?r)) = table (hd h)"
    by (simp, simp add: run_ip_def run_tool_def split: prod.split CmdResult.split, simp add: laws_replace [OF assms(1)])
  then show thesis by (cases ?r; cases "fst ?r") (auto intro: that)
qed

lemma run_ip_accepted:
  assumes "ip_route_laws os table" "accepts_route os n t" "routable t"
  obtains h' where "run_ip os (route_args ''replace'' n t) h = (Ok (), h')" "table (hd h') = (table (hd h))(net_bits n \<mapsto> t)"
proof -
  let ?r = "run_ip os (route_args ''replace'' n t) h"
  have "fst ?r = Ok ()" using assms(2) by (simp add: accepts_route_def)
  then have r: "?r = (Ok (), snd ?r)" by (metis prod.collapse)
  with run_ip_replace [OF assms(1) r assms(3)] show thesis by (intro that)
qed

lemma partial_install_aux:
  assumes laws: "ip_route_laws os table"
    and gw: "linux_default_gateway os h = (Ok gw, h1)" "routable (ViaGw gw)"
    and accepts: "accepts_route os (Host a b c d) (ViaGw gw)" "accepts_route os (Half False) (DevIf tun)"
    and rejects: "rejects_route os (Half True) (DevIf tun)"
  shows "\<exists>e h'. full_tunnel_install os (IpV4 a b c d, port) tun kill h = (Err e, h') \<and>
    table (hd h') = (table (hd h))(ip_bits (IpV4 a b c d) \<mapsto> ViaGw gw, [False] \<mapsto> DevIf tun)"
proof -
  obtain h2 where h2: "host_bypass os (IpV4 a b c d) gw h1 = (Ok (), h2)"
      "table (hd h2) = (table (hd h1))(ip_bits (IpV4 a b c d) \<mapsto> ViaGw gw)"
    using run_ip_accepted [OF laws accepts(1) gw(2), of h1] by (auto simp: host_bypass_route simp del: ip_bits.simps)
  obtain h3 where h3: "half_to_tun os ''0.0.0.0/1'' tun h2 = (Ok (), h3)" "table (hd h3) = (table (hd h2))([False] \<mapsto> DevIf tun)"
    using run_ip_accepted [OF laws accepts(2), of h2] by (auto simp: half_to_tun_route)
  obtain e h4 where h4: "half_to_tun os ''128.0.0.0/1'' tun h3 = (Err e, h4)" "table (hd h4) = table (hd h3)"
    using run_ip_rejected [OF laws rejects, of h3] by (auto simp: half_to_tun_route)
  have "table (hd h1) = table (hd h)" using queries_kept(1) [OF laws, of h] gw(1) by simp
  then show ?thesis using gw(1) h2 h3 h4
    by (simp add: full_tunnel_install_def and_then_def del: ip_bits.simps)
qed

section \<open>Taking the routes out again\<close>

text \<open>A route that is in the table can be deleted.\<close>

definition deletes_route :: "'k os \<Rightarrow> ('k \<Rightarrow> fib) \<Rightarrow> Net \<Rightarrow> Target \<Rightarrow> bool" where
  "deletes_route os table n t \<longleftrightarrow>
    (\<forall>k. table k (net_bits n) = Some t \<longrightarrow> succeeded (fst (os (ip_cmd (route_args ''del'' n t)) k)))"

lemma run_ip_del:
  assumes "ip_route_laws os table" "deletes_route os table n t" "table (hd h) (net_bits n) = Some t"
  shows "table (hd (snd (run_ip os (route_args ''del'' n t) h))) = (table (hd h))(net_bits n := None)"
  using assms(2,3) by (simp add: laws_del [OF assms(1)] deletes_route_def)


lemma full_tunnel_drop_table:
  assumes laws: "ip_route_laws os table"
    and guard: "ft_server_ip g = IpV4 a b c d" "ft_tun_name g = tun" "ft_original_gateway g = gw" "\<not> ft_kill_switch g"
    and deletes: "deletes_route os table (Half False) (DevIf tun)" "deletes_route os table (Half True) (DevIf tun)"
      "deletes_route os table (Host a b c d) (ViaGw gw)"
    and routes: "table (hd h) [False] = Some (DevIf tun)" "table (hd h) [True] = Some (DevIf tun)"
      "table (hd h) (ip_bits (IpV4 a b c d)) = Some (ViaGw gw)"
  shows "table (hd (full_tunnel_drop os g h)) = (table (hd h))(ip_bits (IpV4 a b c d) := None, [False] := None, [True] := None)"
proof -
  let ?del = "\<lambda>n t h. snd (run_ip os (route_args ''del'' n t) h)"
  define h1 where "h1 = remove_ipv6_blackholes os (clear_dns os tun h)"
  have h1: "table (hd h1) = table (hd h)" by (simp add: h1_def table_kept [OF laws])
  have drop: "full_tunnel_drop os g h =
      ?del (Host a b c d) (ViaGw gw) (?del (Half False) (DevIf tun) (?del (Half True) (DevIf tun) h1))"
    using guard by (simp add: full_tunnel_drop_def h1_def route_args.simps del: run_ip_history)
  have t2: "table (hd (?del (Half True) (DevIf tun) h1)) = (table (hd h))([True] := None)"
    using run_ip_del [OF laws deletes(2), of h1] routes(2) h1 by (simp del: run_ip_history)
  have t3: "table (hd (?del (Half False) (DevIf tun) (?del (Half True) (DevIf tun) h1))) = (table (hd h))([True] := None, [False] := None)"
    using run_ip_del [OF laws deletes(1), of "?del (Half True) (DevIf tun) h1"] routes(1) t2 by (simp del: run_ip_history)
  show ?thesis
    using run_ip_del [OF laws deletes(3), of "?del (Half False) (DevIf tun) (?del (Half True) (DevIf tun) h1)"] routes(3) t3
    by (simp add: drop fun_upd_twist del: run_ip_history ip_bits.simps)
qed

lemma kill_switch_drop_table:
  assumes laws: "ip_route_laws os table"
    and guard: "ks_server_ip g = IpV4 a b c d" "ks_original_gateway g = gw"
    and deletes: "deletes_route os table (Half False) Blackhole" "deletes_route os table (Half True) Blackhole"
      "deletes_route os table (Host a b c d) (ViaGw gw)"
    and routes: "table (hd h) [False] = Some Blackhole" "table (hd h) [True] = Some Blackhole"
      "table (hd h) (ip_bits (IpV4 a b c d)) = Some (ViaGw gw)"
  shows "table (hd (kill_switch_drop os g h)) = (table (hd h))(ip_bits (IpV4 a b c d) := None, [False] := None, [True] := None)"
proof -
  let ?del = "\<lambda>n t h. snd (run_ip os (route_args ''del'' n t) h)"
  define h1 where "h1 = remove_ipv6_blackholes os (clear_dns os (ks_physical_iface g) h)"
  have h1: "table (hd h1) = table (hd h)" by (simp add: h1_def table_kept [OF laws])
  have drop: "kill_switch_drop os g h =
      ?del (Host a b c d) (ViaGw gw) (?del (Half True) Blackhole (?del (Half False) Blackhole h1))"
    using guard by (simp add: kill_switch_drop_def ipv4_blackholes_route h1_def) (simp add: route_args.simps)
  have t2: "table (hd (?del (Half False) Blackhole h1)) = (table (hd h))([False] := None)"
    using run_ip_del [OF laws deletes(1), of h1] routes(1) h1 by (simp del: run_ip_history)
  have t3: "table (hd (?del (Half True) Blackhole (?del (Half False) Blackhole h1))) = (table (hd h))([False] := None, [True] := None)"
    using run_ip_del [OF laws deletes(2), of "?del (Half False) Blackhole h1"] routes(2) t2 by (simp del: run_ip_history)
  show ?thesis
    using run_ip_del [OF laws deletes(3), of "?del (Half True) Blackhole (?del (Half False) Blackhole h1)"] routes(3) t3
    by (simp add: drop fun_upd_twist del: run_ip_history ip_bits.simps)
qed

lemma rearm_table:
  assumes laws: "ip_route_laws os table"
    and accepts: "accepts_route os (Half False) Blackhole" "accepts_route os (Half True) Blackhole"
    and route: "table (hd h) (ip_bits (IpV4 a b c d)) = Some (ViaGw gw)"
  shows "table (hd (linux_rearm_kill_switch os (IpV4 a b c d) gw h)) = (table (hd h))([False] \<mapsto> Blackhole, [True] \<mapsto> Blackhole)"
proof -
  have "table (hd (run_all [host_bypass os (IpV4 a b c d) gw] h)) = table (hd h)"
    using route by (simp add: host_bypass_route laws_replace [OF laws] fun_upd_idem del: ip_bits.simps)
  then show ?thesis
    by (simp add: linux_rearm_kill_switch_def table_kept [OF laws] blackholes_in_table [OF laws accepts] del: run_all.simps)
qed

lemma full_tunnel_round_trip_aux:
  assumes laws: "ip_route_laws os table"
    and install: "full_tunnel_install os (IpV4 a b c d, port) tun False h = (Ok g, h')" "routable (ViaGw (ft_original_gateway g))"
    and deletes: "deletes_route os table (Half False) (DevIf tun)" "deletes_route os table (Half True) (DevIf tun)"
      "deletes_route os table (Host a b c d) (ViaGw (ft_original_gateway g))"
    and free: "table (hd h) [False] = None" "table (hd h) [True] = None" "table (hd h) (ip_bits (IpV4 a b c d)) = None"
  shows "table (hd (full_tunnel_drop os g h')) = table (hd h)"
proof -
  note up = full_tunnel_install_steps [OF laws install]
  have "table (hd (full_tunnel_drop os g h')) = (table (hd h'))(ip_bits (IpV4 a b c d) := None, [False] := None, [True] := None)"
    using up by (intro full_tunnel_drop_table [OF laws _ _ _ _ deletes]) (simp_all del: ip_bits.simps)
  then show ?thesis using free by (simp add: up(1) fun_eq_iff del: ip_bits.simps)
qed

lemma kill_switch_round_trip_aux:
  assumes laws: "ip_route_laws os table"
    and armed: "kill_switch_install os (IpV4 a b c d, port) h = (Ok ks, h1)"
    and up: "full_tunnel_install os (IpV4 a b c d, port) tun True h1 = (Ok g, h2)"
    and gw: "ft_original_gateway g = ks_original_gateway ks" "routable (ViaGw (ks_original_gateway ks))"
    and accepts: "accepts_route os (Half False) Blackhole" "accepts_route os (Half True) Blackhole"
    and deletes: "deletes_route os table (Half False) Blackhole" "deletes_route os table (Half True) Blackhole"
      "deletes_route os table (Host a b c d) (ViaGw (ks_original_gateway ks))"
    and free: "table (hd h) [False] = None" "table (hd h) [True] = None" "table (hd h) (ip_bits (IpV4 a b c d)) = None"
  shows "table (hd (kill_switch_drop os ks (full_tunnel_drop os g h2))) = table (hd h)"
proof -
  have server: "ks_server_ip ks = IpV4 a b c d" using kill_switch_install_steps [OF laws armed gw(2)] .
  note t1 = kill_switch_table [OF laws accepts armed gw(2)]
  have rg: "routable (ViaGw (ft_original_gateway g))" using gw by simp
  note t2 = full_tunnel_install_steps [OF laws up rg]
  let ?h3 = "full_tunnel_drop os g h2"
  have t3: "table (hd ?h3) = (table (hd h2))([False] \<mapsto> Blackhole, [True] \<mapsto> Blackhole)"
    using t2 by (simp add: full_tunnel_drop_def rearm_table [OF laws accepts] del: ip_bits.simps)
  have "table (hd (kill_switch_drop os ks ?h3)) = (table (hd ?h3))(ip_bits (IpV4 a b c d) := None, [False] := None, [True] := None)"
    using t2(1) t3 gw(1) by (intro kill_switch_drop_table [OF laws server _ deletes]) (simp_all del: ip_bits.simps)
  then show ?thesis using free by (simp add: t3 t2(1) t1 fun_eq_iff del: ip_bits.simps)
qed


section \<open>The kill switch over the client's life\<close>

text \<open>
  The client with its kill switch armed: the guard of the tunnel, when there is one, and
  the states of the kernel since the kill switch was armed.  It asserts the kill switch
  before each connection attempt, brings the tunnel up, asserts its routes every 400 ms and
  takes it down; other processes may change the table but for the two halves.
\<close>

type_synonym 'k client_routes = "FullTunnelGuard option \<times> 'k list"

definition armed :: "'k os \<Rightarrow> SockAddr \<Rightarrow> 'k client_routes \<Rightarrow> bool" where
  "armed os server s \<longleftrightarrow> fst s = None \<and> (\<exists>h g h'. kill_switch_install os server h = (Ok g, h') \<and> snd s = [hd h'])"

inductive client_routes_step ::
  "'k os \<Rightarrow> ('k \<Rightarrow> fib) \<Rightarrow> SockAddr \<Rightarrow> ustr \<Rightarrow> 'k client_routes \<Rightarrow> 'k client_routes \<Rightarrow> bool"
  for os table server tun where
  ensure: "ks_server_ip g = fst server \<Longrightarrow>
     client_routes_step os table server tun (None, h) (None, kill_switch_ensure os g h)"
| up: "full_tunnel_install os server tun True h = (Ok ft, h') \<Longrightarrow>
     client_routes_step os table server tun (None, h) (Some ft, h')"
| up_failed: "full_tunnel_install os server tun True h = (Err e, h') \<Longrightarrow>
     client_routes_step os table server tun (None, h) (None, h')"
| watch: "client_routes_step os table server tun (Some ft, h) (Some ft, ensure_tunnel_routes os ft h)"
| down: "client_routes_step os table server tun (Some ft, h) (None, full_tunnel_drop os ft h)"
| others: "(\<And>b. table k [b] = table (hd h) [b]) \<Longrightarrow> client_routes_step os table server tun (full, h) (full, k # h)"

inductive_cases client_routes_stepE: "client_routes_step os table server tun s t"

text \<open>
  In every state but the oldest \<open>since\<close> each half is blocked or in the tunnel.
\<close>

definition halves_guarded :: "('k \<Rightarrow> fib) \<Rightarrow> ustr \<Rightarrow> 'k \<Rightarrow> bool" where
  "halves_guarded table tun k \<longleftrightarrow> (\<forall>b. table k [b] = Some Blackhole \<or> table k [b] = Some (DevIf tun))"

definition guarded :: "('k \<Rightarrow> fib) \<Rightarrow> ustr \<Rightarrow> nat \<Rightarrow> 'k list \<Rightarrow> bool" where
  "guarded table tun since h \<longleftrightarrow> since < length h \<and> list_all (halves_guarded table tun) (take (length h - since) h)"

lemma guarded_Cons:
  assumes "guarded table tun since h" "\<And>b. table k [b] = table (hd h) [b] \<or> table k [b] = Some Blackhole \<or> table k [b] = Some (DevIf tun)"
  shows "guarded table tun since (k # h)"
proof -
  have "halves_guarded table tun (hd h)" using assms(1) by (cases h) (auto simp: guarded_def Suc_diff_le)
  then have "halves_guarded table tun k" using assms(2) unfolding halves_guarded_def by metis
  then show ?thesis using assms(1) by (simp add: guarded_def Suc_diff_le)
qed

lemma run_all_guarded:
  assumes "\<And>s h. s \<in> set ss \<Longrightarrow> guarded table tun since h \<Longrightarrow> guarded table tun since (snd (s h))" "guarded table tun since h"
  shows "guarded table tun since (run_all ss h)"
  using assms by (induction ss arbitrary: h) auto

lemma route_guarded:
  assumes "ip_route_laws os table" "(\<exists>a b c d. n = Host a b c d) \<or> t = Blackhole \<or> t = DevIf tun" "guarded table tun since h"
  shows "guarded table tun since (snd (run_ip os (route_args ''replace'' n t) h))"
proof -
  have "table (snd (os (ip_cmd (route_args ''replace'' n t)) (hd h))) [b] = table (hd h) [b] \<or>
        table (snd (os (ip_cmd (route_args ''replace'' n t)) (hd h))) [b] = Some Blackhole \<or>
        table (snd (os (ip_cmd (route_args ''replace'' n t)) (hd h))) [b] = Some (DevIf tun)" for b
    using assms(2) by (auto simp: laws_replace [OF assms(1)] simp del: ip_bits.simps)
  then show ?thesis using guarded_Cons [OF assms(3)] by simp
qed

lemma other_commands_guarded:
  assumes "ip_route_laws os table" "guarded table tun since h"
  shows "guarded table tun since (add_ipv6_blackholes os h)" "guarded table tun since (pin_dns os iface h)"
    "guarded table tun since (snd (linux_default_gateway os h))"
proof -
  have kept: "guarded table tun since (k # h)" if "table k = table (hd h)" "guarded table tun since h" for k h
    using guarded_Cons [OF that(2)] that(1) by simp
  show "guarded table tun since (add_ipv6_blackholes os h)" "guarded table tun since (pin_dns os iface h)"
    unfolding add_ipv6_blackholes_def pin_dns_def
    by (rule run_all_guarded [OF _ assms(2)]; auto intro!: kept simp: laws_other [OF assms(1)])+
  have "snd (linux_default_gateway os h) = snd (os (Cmd [us ''ip'', us ''route'', us ''show'', us ''default'']) (hd h)) # h"
    by (simp add: linux_default_gateway_def and_then_def tool_output_history [symmetric] del: tool_output_history
          split: prod.split outcome.split)
  then show "guarded table tun since (snd (linux_default_gateway os h))"
    using assms(2) by (auto intro!: kept simp: laws_other [OF assms(1)])
qed



lemma and_then_guarded:
  assumes "guarded table tun since (snd r)" "\<And>x h. guarded table tun since h \<Longrightarrow> guarded table tun since (snd (f x h))"
  shows "guarded table tun since (snd (and_then r f))"
  using assms by (cases r; cases "fst r") (auto simp: and_then_def)

lemma rearm_guarded:
  assumes "ip_route_laws os table" "guarded table tun since h"
  shows "guarded table tun since (linux_rearm_kill_switch os (IpV4 a b c d) gw h)"
proof -
  have "guarded table tun since (run_all [host_bypass os (IpV4 a b c d) gw] h)"
    by (rule run_all_guarded [OF _ assms(2)]) (auto simp: host_bypass_route simp del: run_ip_history intro!: route_guarded [OF assms(1)])
  moreover have "guarded table tun since (add_ipv4_blackholes os h)" if "guarded table tun since h" for h
    unfolding ipv4_blackholes_route
    by (rule run_all_guarded [OF _ that]) (auto simp del: run_ip_history intro!: route_guarded [OF assms(1)])
  ultimately show ?thesis unfolding linux_rearm_kill_switch_def
    by (intro other_commands_guarded [OF assms(1)])
qed

lemma ensure_tunnel_guarded:
  assumes "ip_route_laws os table" "guarded table tun since h"
  shows "guarded table tun since (linux_restore_tunnel_routes os (IpV4 a b c d) gw tun h)"
proof -
  have "guarded table tun since (run_all [host_bypass os (IpV4 a b c d) gw, half_to_tun os ''0.0.0.0/1'' tun,
                 half_to_tun os ''128.0.0.0/1'' tun] h)"
    by (rule run_all_guarded [OF _ assms(2)])
      (auto simp: host_bypass_route half_to_tun_route simp del: run_ip_history intro!: route_guarded [OF assms(1)])
  then show ?thesis unfolding linux_restore_tunnel_routes_def by (intro other_commands_guarded [OF assms(1)])
qed

lemma install_guarded:
  assumes "ip_route_laws os table" "guarded table tun since h"
  shows "guarded table tun since (snd (full_tunnel_install os (IpV4 a b c d, port) tun kill h))"
proof -
  note route = route_guarded [OF assms(1)]
  have "guarded table tun since (snd (host_bypass os (IpV4 a b c d) gw h))" if "guarded table tun since h" for gw h
    unfolding host_bypass_route by (rule route) (use that in auto)
  moreover have "guarded table tun since (snd (half_to_tun os ''0.0.0.0/1'' tun h))" if "guarded table tun since h" for h
    unfolding half_to_tun_route by (rule route) (use that in auto)
  moreover have "guarded table tun since (snd (half_to_tun os ''128.0.0.0/1'' tun h))" if "guarded table tun since h" for h
    unfolding half_to_tun_route by (rule route) (use that in auto)
  ultimately show ?thesis using other_commands_guarded [OF assms(1)] assms(2)
    unfolding full_tunnel_install_def Let_def fst_conv
    by (intro and_then_guarded) simp_all
qed

lemma armed_since:
  assumes "ip_route_laws os table" "accepts_route os (Half False) Blackhole" "accepts_route os (Half True) Blackhole"
    and "kill_switch_install os server h = (Ok g, h')"
  shows "h' \<noteq> [] \<and> halves_guarded table tun (hd h')"
proof -
  obtain iface h1 where h': "h' = pin_dns os iface (add_ipv6_blackholes os (add_ipv4_blackholes os h1))"
    using assms(4) by (auto simp: kill_switch_install_def and_then_Ok Let_def)
  then have t: "table (hd h') = (table (hd h1))([False] \<mapsto> Blackhole, [True] \<mapsto> Blackhole)"
    by (simp add: table_kept [OF assms(1)] blackholes_in_table [OF assms(1-3)])
  have "table (hd h') [b] = Some Blackhole" for b using t by (cases b) simp_all
  moreover have "h' \<noteq> []" by (simp add: h' pin_dns_def)
  ultimately show ?thesis by (simp add: halves_guarded_def)
qed

lemma armed_guarded:
  assumes "ip_route_laws os table" "accepts_route os (Half False) Blackhole" "accepts_route os (Half True) Blackhole"
    and "kill_switch_install os server h = (Ok g, h')"
  shows "guarded table tun 0 [hd h']" "guarded table tun (length h' - 1) h'"
  using armed_since [OF assms, of tun] by (cases h'; simp add: guarded_def)+

definition client_routes_inv :: "'k os \<Rightarrow> ('k \<Rightarrow> fib) \<Rightarrow> IpAddr \<Rightarrow> ustr \<Rightarrow> 'k client_routes \<Rightarrow> bool" where
  "client_routes_inv os table server_ip tun s \<longleftrightarrow>
    (ip_route_laws os table \<and> accepts_route os (Half False) Blackhole \<and> accepts_route os (Half True) Blackhole \<longrightarrow>
     guarded table tun 0 (snd s) \<and>
     (\<forall>ft. fst s = Some ft \<longrightarrow> ft_server_ip ft = server_ip \<and> ft_tun_name ft = tun \<and> ft_kill_switch ft))"

lemma client_routes_inv_step:
  assumes "client_routes_inv os table (IpV4 a b c d) tun s" "client_routes_step os table (IpV4 a b c d, port) tun s t"
  shows "client_routes_inv os table (IpV4 a b c d) tun t"
proof (unfold client_routes_inv_def, intro impI, elim conjE)
  assume laws: "ip_route_laws os table" and accepts: "accepts_route os (Half False) Blackhole" "accepts_route os (Half True) Blackhole"
  with assms(1) have inv: "guarded table tun 0 (snd s)"
      "\<And>ft. fst s = Some ft \<Longrightarrow> ft_server_ip ft = IpV4 a b c d \<and> ft_tun_name ft = tun \<and> ft_kill_switch ft"
    by (simp_all add: client_routes_inv_def)
  from assms(2) inv show "guarded table tun 0 (snd t) \<and>
     (\<forall>ft. fst t = Some ft \<longrightarrow> ft_server_ip ft = IpV4 a b c d \<and> ft_tun_name ft = tun \<and> ft_kill_switch ft)"
  proof cases
    case (ensure g h)
    then show ?thesis using inv by (simp add: kill_switch_ensure_def rearm_guarded other_commands_guarded laws)
  next
    case (up h ft h')
    have "ft_server_ip ft = IpV4 a b c d \<and> ft_tun_name ft = tun \<and> ft_kill_switch ft"
      using up(3) by (auto simp: full_tunnel_install_def and_then_Ok Let_def)
    then show ?thesis using up inv install_guarded [OF laws, of tun 0 h a b c d port True] by simp
  next
    case (up_failed h e h')
    then show ?thesis using inv install_guarded [OF laws, of tun 0 h a b c d port True] by simp
  next
    case (watch ft h)
    then show ?thesis using inv by (simp add: ensure_tunnel_routes_def ensure_tunnel_guarded laws)
  next
    case (down ft h)
    then show ?thesis using inv by (simp add: full_tunnel_drop_def rearm_guarded laws)
  next
    case (others k h full)
    then show ?thesis using inv guarded_Cons [of table tun 0 h k] by simp
  qed
qed

interpretation routes: transition_system "armed os (IpV4 a b c d, port)" "client_routes_step os table (IpV4 a b c d, port) tun"
    "client_routes_inv os table (IpV4 a b c d) tun" for os table a b c d port tun
proof (unfold_locales, goal_cases)
  case (1 s)
  then obtain h g h' where "kill_switch_install os (IpV4 a b c d, port) h = (Ok g, h')" "snd s = [hd h']" "fst s = None"
    by (auto simp: armed_def)
  then show ?case by (auto simp: client_routes_inv_def intro: armed_guarded)
next
  case (2 s t)
  then show ?case by (rule client_routes_inv_step)
qed

lemma never_leaks_aux:
  assumes "ip_route_laws os table" "accepts_route os (Half False) Blackhole" "accepts_route os (Half True) Blackhole"
    and "reachable (armed os (IpV4 a b c d, port)) (client_routes_step os table (IpV4 a b c d, port) tun) (full, h)"
    and "k \<in> set h" "length addr = 32" "lpm (specific (table k)) addr = None"
  shows "lpm (table k) addr \<in> {Some Blackhole, Some (DevIf tun)}"
proof -
  have "client_routes_inv os table (IpV4 a b c d) tun (full, h)" using assms(4) by (rule routes.inv_reachable)
  then have "halves_guarded table tun k" using assms(1-3,5) by (auto simp: client_routes_inv_def guarded_def list_all_iff)
  then obtain t where t: "table k [hd addr] = Some t" "t = Blackhole \<or> t = DevIf tun" by (auto simp: halves_guarded_def)
  then show ?thesis using assms(6,7) lpm_halves [of addr "table k" t] by auto
qed


text \<open>The TUN device goes away, and its routes with it.\<close>

definition without_device :: "ustr \<Rightarrow> fib \<Rightarrow> fib" where
  "without_device tun m p = (if m p = Some (DevIf tun) then None else m p)"

lemma lpm_None:
  assumes "lpm m addr = None" "prefix p addr"
  shows "m p = None"
  using assms by (cases rule: lpm_cases [of m addr]) auto

lemma device_loss_aux:
  assumes laws: "ip_route_laws os table"
    and accepts: "accepts_route os (Half False) Blackhole" "accepts_route os (Half True) Blackhole"
    and armed: "kill_switch_install os (IpV4 a b c d, port) h = (Ok ks, h1)" "routable (ViaGw (ks_original_gateway ks))"
    and up: "full_tunnel_install os (IpV4 a b c d, port) tun True h1 = (Ok g, h2)" "routable (ViaGw (ft_original_gateway g))"
    and before: "table (hd h) [] = Some dflt" "dflt \<noteq> DevIf tun" "lpm (specific (table (hd h))) addr = None"
    and addr: "length addr = 32" "addr \<noteq> ip_bits (IpV4 a b c d)"
  shows "lpm (without_device tun (table (hd h2))) addr = Some dflt"
proof (rule lpm_Some_longest [of "[]"])
  note t2 = full_tunnel_install_steps(1) [OF laws up] and t1 = kill_switch_table [OF laws accepts armed]
  have host: "ip_bits (IpV4 a b c d) \<noteq> []" using length_ip_bits [of a b c d] by (metis length_0_conv zero_neq_numeral)
  show "without_device tun (table (hd h2)) [] = Some dflt"
    using before(1,2) host by (auto simp: t2 t1 without_device_def simp del: ip_bits.simps)
  show "without_device tun (table (hd h2)) q = None" if q: "prefix q addr" "length ([] :: bool list) < length q" for q
  proof (cases "length q = 1")
    case True
    then obtain x where "q = [x]" by (auto simp: length_Suc_conv)
    then show ?thesis by (cases x) (simp_all add: t2 without_device_def del: ip_bits.simps)
  next
    case False
    then have "2 \<le> length q" using q(2) unfolding list.size by linarith
    moreover have "q \<noteq> ip_bits (IpV4 a b c d)" using q(1) addr prefix_full_length [of q addr] by (auto simp del: ip_bits.simps)
    moreover have "specific (table (hd h)) q = None" using lpm_None [OF before(3) q(1)] .
    ultimately show ?thesis by (auto simp: t2 t1 without_device_def specific_def simp del: ip_bits.simps)
  qed
qed (simp)

section \<open>A kernel that keeps the laws\<close>

text \<open>
  A routing table with the tool's text interface: it reads the argument lists, refuses the
  routes \<open>ok\<close> does not allow, and answers the other commands with success.
\<close>

definition net_of :: "ustr \<Rightarrow> bool list option" where
  "net_of s = (if s = us ''0.0.0.0/1'' then Some [False] else if s = us ''128.0.0.0/1'' then Some [True]
     else map_option ip_bits (parse_ip s))"

definition target_of :: "ustr \<Rightarrow> ustr \<Rightarrow> Target option" where
  "target_of kind value = (if kind = us ''via'' then
       (if 46 \<in> set value \<and> 58 \<notin> set value then map_option ViaGw (parse_ip value) else None)
     else if kind = us ''dev'' then Some (DevIf value) else None)"

fun route_of :: "ustr list \<Rightarrow> (bool list \<times> Target) option" where
  "route_of [x, net] = (if x = us ''blackhole'' then map_option (\<lambda>p. (p, Blackhole)) (net_of net) else None)"
| "route_of [net, kind, value] =
     (case (net_of net, target_of kind value) of (Some p, Some t) \<Rightarrow> Some (p, t) | _ \<Rightarrow> None)"
| "route_of _ = None"

definition sim_replace :: "(bool list \<Rightarrow> Target \<Rightarrow> bool) \<Rightarrow> ustr list \<Rightarrow> fib \<Rightarrow> CmdResult \<times> fib" where
  "sim_replace ok args m =
    (case route_of args of
       Some (p, t) \<Rightarrow> if ok p t then (Exited True [] [], m(p \<mapsto> t)) else (Exited False [] [], m)
     | None \<Rightarrow> (Exited False [] [], m))"

definition sim_del :: "ustr list \<Rightarrow> fib \<Rightarrow> CmdResult \<times> fib" where
  "sim_del args m =
    (case route_of args of
       Some (p, t) \<Rightarrow> if m p = Some t then (Exited True [] [], m(p := None)) else (Exited False [] [], m)
     | None \<Rightarrow> (Exited False [] [], m))"

fun sim_os :: "(bool list \<Rightarrow> Target \<Rightarrow> bool) \<Rightarrow> fib os" where
  "sim_os ok (Cmd (tool # args)) m =
    (if tool \<noteq> us ''ip'' then (Exited True [] [], m)
     else if args = [us ''route'', us ''show'', us ''default''] then
       (Exited True (us ''default via 192.168.0.1 dev eth0'') [], m)
     else if take 2 args = [us ''route'', us ''replace''] then sim_replace ok (drop 2 args) m
     else if take 2 args = [us ''route'', us ''del''] then sim_del (drop 2 args) m
     else (Exited True [] [], m))"
| "sim_os ok _ m = (SpawnFailed, m)"

lemma net_of_text [simp]: "net_of (net_text n) = Some (net_bits n)"
proof (cases n)
  case (Host a b c d)
  have "parse_ip (us ''0.0.0.0/1'') = None" "parse_ip (us ''128.0.0.0/1'') = None" by code_simp+
  then show ?thesis using parse_show_v4 [of a b c d] by (auto simp: net_of_def Host simp del: ip_bits.simps)
qed (simp add: net_of_def)


lemma hex_digit_sep: "n < 16 \<Longrightarrow> hex_digit n \<noteq> 46 \<and> hex_digit n \<noteq> 58"
  by (auto simp: hex_digit_def)

lemma digits_of_chars: "x \<in> set (digits_of radix n) \<Longrightarrow> 2 \<le> radix \<Longrightarrow> radix \<le> 16 \<Longrightarrow> x \<noteq> 46 \<and> x \<noteq> 58"
proof (induction radix n rule: digits_of.induct)
  case (1 radix n)
  have "n mod radix < 16" using 1(3,4) using mod_less_divisor [of radix n] by linarith
  with 1 show ?case
    using hex_digit_sep [of n] hex_digit_sep [of "n mod radix"] by (auto simp: digits_of.simps [of radix n] split: if_splits)
qed

lemma show_v6_chars: "58 \<in> set (show_v6 gs) \<or> 46 \<notin> set (show_v6 gs)"
proof -
  have groups: "46 \<notin> set (show_groups gs)" for gs
  proof -
    have "46 \<notin> set (join_with [58] xs)" if "\<And>x. x \<in> set xs \<Longrightarrow> 46 \<notin> set x" for xs
      using that by (induction "[58] :: ustr" xs rule: join_with.induct) auto
    from this [of "map (\<lambda>g. digits_of 16 (unat g)) gs"] show ?thesis
      using digits_of_chars [of 46 16] by (auto simp: show_groups_def)
  qed
  have "58 \<in> set (us ''::ffff:'')" "58 \<in> set (us ''::'')" by code_simp+
  then show ?thesis using groups by (auto simp: show_v6_def Let_def split: prod.split)
qed

lemma show_v4_chars: "46 \<in> set (show_v4 a b c d)" "58 \<notin> set (show_v4 a b c d)"
  using digits_of_chars by (fastforce simp: show_v4_def show_nat_def)+

lemma target_of_via: "target_of (us ''via'') (show_ip g) = (if routable (ViaGw g) then Some (ViaGw g) else None)"
proof (cases g)
  case (IpV4 a b c d)
  then show ?thesis using parse_show_v4 [of a b c d] show_v4_chars [of a b c d] by (simp add: target_of_def)
next
  case (IpV6 gs)
  then show ?thesis using show_v6_chars [of gs] by (auto simp: target_of_def)
qed

lemma route_of_args:
  "route_of (drop 2 (route_args verb n t)) = (if routable t then Some (net_bits n, t) else None)"
  by (cases t) (simp_all add: route_args.simps target_of_via, simp_all add: target_of_def)

lemma take_route_args [simp]: "take 2 (route_args verb n t) = [us ''route'', us verb]"
  by (cases t) (simp_all add: route_args.simps)

lemma route_args_not_query:
  "verb \<noteq> ''show'' \<Longrightarrow> route_args verb n t \<noteq> [us ''route'', us ''show'', us ''default'']"
  by (cases t) (simp_all add: route_args.simps)

lemma sim_os_replace:
  "sim_os ok (ip_cmd (route_args ''replace'' n t)) m =
    (if routable t \<and> ok (net_bits n) t then (Exited True [] [], m(net_bits n \<mapsto> t)) else (Exited False [] [], m))"
  by (simp add: ip_cmd_def route_args_not_query sim_replace_def route_of_args)

lemma sim_os_del:
  "sim_os ok (ip_cmd (route_args ''del'' n t)) m =
    (if routable t \<and> m (net_bits n) = Some t then (Exited True [] [], m(net_bits n := None)) else (Exited False [] [], m))"
  by (simp add: ip_cmd_def route_args_not_query sim_del_def route_of_args)

lemma sim_os_laws: "ip_route_laws (sim_os ok) (\<lambda>m. m)"
proof -
  have "snd (sim_os ok (ip_cmd (us ''-6'' # us ''route'' # args)) m) = m" for args m
    by (simp add: ip_cmd_def)
  moreover have "snd (sim_os ok (ip_cmd [us ''route'', us ''show'', us ''default'']) m) = m" for m
    by (simp add: ip_cmd_def)
  moreover have "snd (sim_os ok (Cmd (us ''resolvectl'' # args)) m) = m" for args m
    by simp
  ultimately show ?thesis unfolding ip_route_laws_def by (simp add: sim_os_replace sim_os_del)
qed

lemma sim_os_accepts: "accepts_route (sim_os ok) n t \<longleftrightarrow> routable t \<and> ok (net_bits n) t"
  by (simp add: accepts_route_def sim_os_replace)

lemma sim_os_rejects: "rejects_route (sim_os ok) n t \<longleftrightarrow> \<not> (routable t \<and> ok (net_bits n) t)"
  by (simp add: rejects_route_def sim_os_replace)

lemma sim_os_deletes: "routable t \<Longrightarrow> deletes_route (sim_os ok) (\<lambda>m. m) n t"
  by (simp add: deletes_route_def sim_os_del)


text \<open>An example: a LAN of 192.168.0.0/16 and a default route.\<close>

definition demo_table :: fib where
  "demo_table = [[] \<mapsto> ViaGw (IpV4 192 168 0 1), byte_bits 192 @ byte_bits 168 \<mapsto> DevIf (us ''eth0'')]"

definition demo_guard :: KillSwitchGuard where
  "demo_guard = \<lparr>ks_server_ip = IpV4 203 0 113 5, ks_original_gateway = IpV4 192 168 0 1, ks_physical_iface = us ''eth0''\<rparr>"

definition demo_tunnel :: "bool \<Rightarrow> FullTunnelGuard" where
  "demo_tunnel kill = \<lparr>ft_server_ip = IpV4 203 0 113 5, ft_original_gateway = IpV4 192 168 0 1,
     ft_tun_name = us ''tun0'', ft_kill_switch = kill\<rparr>"

lemma demo_words:
  "split_whitespace (us ''default via 192.168.0.1 dev eth0'') =
     [us ''default'', us ''via'', show_ip (IpV4 192 168 0 1), us ''dev'', us ''eth0'']"
  by (simp add: us_def split_whitespace.simps is_whitespace_def show_v4_def show_nat_def digits_of.simps hex_digit_def)

lemma demo_reads:
  "find_via (split_whitespace (us ''default via 192.168.0.1 dev eth0'')) = Ok (IpV4 192 168 0 1)"
  "parse_linux_default_iface (us ''default via 192.168.0.1 dev eth0'') = Some (us ''eth0'')"
proof -
  have "46 \<notin> set (us ''dev'')" by (simp add: us_def)
  then have "show_ip (IpV4 192 168 0 1) \<noteq> us ''dev''" using show_v4_chars(1) [of 192 168 0 1] by auto
  then show "find_via (split_whitespace (us ''default via 192.168.0.1 dev eth0'')) = Ok (IpV4 192 168 0 1)"
    "parse_linux_default_iface (us ''default via 192.168.0.1 dev eth0'') = Some (us ''eth0'')"
    unfolding demo_words parse_linux_default_iface_def by (simp_all add: parse_show_v4 del: show_ip.simps)
qed

lemma demo_queries:
  "\<exists>k. linux_default_gateway (sim_os ok) h = (Ok (IpV4 192 168 0 1), k # h)"
  "\<exists>k. linux_default_interface (sim_os ok) h = (Ok (us ''eth0''), k # h)"
  by (simp_all add: linux_default_gateway_def linux_default_interface_def tool_output_def exec_def and_then_def demo_reads)

lemma demo_bits:
  "byte_bits 8 = [False, False, False, False, True, False, False, False]"
  "byte_bits 192 = [True, True, False, False, False, False, False, False]"
  "byte_bits 168 = [True, False, True, False, True, False, False, False]"
  "byte_bits 203 = [True, True, False, False, True, False, True, True]"
  by (simp_all add: byte_bits_def)

lemma demo_addresses:
  "lpm (specific demo_table) (ip_bits (IpV4 8 8 8 8)) = None"
  "lpm demo_table (ip_bits (IpV4 8 8 8 8)) = Some (ViaGw (IpV4 192 168 0 1))"
  "ip_bits (IpV4 8 8 8 8) \<noteq> ip_bits (IpV4 203 0 113 5)"
  by (simp_all add: demo_bits demo_table_def lpm_def specific_def)


lemma demo_host_bypass:
  "ok (ip_bits (IpV4 203 0 113 5)) (ViaGw (IpV4 192 168 0 1)) \<Longrightarrow>
    \<exists>k. host_bypass (sim_os ok) (IpV4 203 0 113 5) (IpV4 192 168 0 1) h = (Ok (), k # h)"
  using run_ip_accepted [OF sim_os_laws, of ok "Host 203 0 113 5" "ViaGw (IpV4 192 168 0 1)" h]
  by (metis host_bypass_route net_bits.simps(1) routable.simps(2) run_ip_history sim_os_accepts snd_conv)

lemma demo_half:
  "ok [False] (DevIf tun) \<Longrightarrow> \<exists>k. half_to_tun (sim_os ok) ''0.0.0.0/1'' tun h = (Ok (), k # h)"
  "ok [True] (DevIf tun) \<Longrightarrow> \<exists>k. half_to_tun (sim_os ok) ''128.0.0.0/1'' tun h = (Ok (), k # h)"
  using run_ip_accepted [OF sim_os_laws, of ok "Half False" "DevIf tun" h]
    run_ip_accepted [OF sim_os_laws, of ok "Half True" "DevIf tun" h]
  by (metis half_to_tun_route net_bits.simps(2) routable.simps(3) run_ip_history sim_os_accepts snd_conv)+

lemma demo_armed:
  assumes "ok (ip_bits (IpV4 203 0 113 5)) (ViaGw (IpV4 192 168 0 1))"
  shows "\<exists>h'. kill_switch_install (sim_os ok) (IpV4 203 0 113 5, 443) h = (Ok demo_guard, h')"
proof -
  obtain k1 where k1: "linux_default_gateway (sim_os ok) h = (Ok (IpV4 192 168 0 1), k1 # h)" using demo_queries(1) by blast
  obtain k2 where k2: "linux_default_interface (sim_os ok) (k1 # h) = (Ok (us ''eth0''), k2 # k1 # h)" using demo_queries(2) by blast
  obtain k3 where k3: "host_bypass (sim_os ok) (IpV4 203 0 113 5) (IpV4 192 168 0 1) (k2 # k1 # h) = (Ok (), k3 # k2 # k1 # h)"
    using demo_host_bypass [where ok = ok] assms by blast
  show ?thesis by (simp add: kill_switch_install_def and_then_def k1 k2 k3 demo_guard_def)
qed

lemma demo_up:
  assumes "ok (ip_bits (IpV4 203 0 113 5)) (ViaGw (IpV4 192 168 0 1))" "ok [False] (DevIf (us ''tun0''))" "ok [True] (DevIf (us ''tun0''))"
  shows "\<exists>h'. full_tunnel_install (sim_os ok) (IpV4 203 0 113 5, 443) (us ''tun0'') kill h = (Ok (demo_tunnel kill), h')"
proof -
  obtain k1 where k1: "linux_default_gateway (sim_os ok) h = (Ok (IpV4 192 168 0 1), k1 # h)" using demo_queries(1) by blast
  obtain k2 where k2: "host_bypass (sim_os ok) (IpV4 203 0 113 5) (IpV4 192 168 0 1) (k1 # h) = (Ok (), k2 # k1 # h)"
    using demo_host_bypass [where ok = ok] assms by blast
  obtain k3 where k3: "half_to_tun (sim_os ok) ''0.0.0.0/1'' (us ''tun0'') (k2 # k1 # h) = (Ok (), k3 # k2 # k1 # h)"
    using demo_half(1) [where ok = ok] assms by blast
  obtain k4 where k4: "half_to_tun (sim_os ok) ''128.0.0.0/1'' (us ''tun0'') (k3 # k2 # k1 # h) = (Ok (), k4 # k3 # k2 # k1 # h)"
    using demo_half(2) [where ok = ok] assms by blast
  show ?thesis by (simp add: full_tunnel_install_def and_then_def k1 k2 k3 k4 demo_tunnel_def)
qed

section \<open>Properties\<close>

text \<open>
  C27: the kill switch on Linux.  When the installation succeeds and the tool accepts the
  two blackholes, a packet to the server leaves by the original gateway, a packet that an
  earlier more specific route covers follows that route, and every other IPv4 packet
  is dropped.
\<close>

theorem kill_switch_blocks:
  assumes "ip_route_laws os table"
    and "accepts_route os (Half False) Blackhole" "accepts_route os (Half True) Blackhole"
    and "kill_switch_install os (IpV4 a b c d, port) h = (Ok g, h')" "routable (ViaGw (ks_original_gateway g))"
    and "length addr = 32"
  shows "lpm (table (hd h')) addr =
    (if addr = ip_bits (IpV4 a b c d) then Some (ViaGw (ks_original_gateway g))
     else case lpm (specific (table (hd h))) addr of Some u \<Rightarrow> Some u | None \<Rightarrow> Some Blackhole)"
  using kill_switch_blocks_aux [OF assms] .

theorem kill_switch_blocks_witness:
  "\<exists>h'. kill_switch_install (sim_os (\<lambda>p t. True)) (IpV4 203 0 113 5, 443) [demo_table] = (Ok demo_guard, h') \<and>
     lpm (hd h') (ip_bits (IpV4 8 8 8 8)) = Some Blackhole"
proof -
  obtain h' where h': "kill_switch_install (sim_os (\<lambda>p t. True)) (IpV4 203 0 113 5, 443) [demo_table] = (Ok demo_guard, h')"
    using demo_armed [where ok = "\<lambda>p t. True" and h = "[demo_table]"] by auto
  have "lpm (hd h') (ip_bits (IpV4 8 8 8 8)) = Some Blackhole"
    using kill_switch_blocks [OF sim_os_laws _ _ h' _ length_ip_bits, of 8 8 8 8] demo_addresses
    by (simp add: sim_os_accepts demo_guard_def del: ip_bits.simps)
  with h' show ?thesis by blast
qed

text \<open>
  The full tunnel on Linux.  After a successful installation every IPv4
  packet enters the TUN device, but for packets to the server and those with a more
  specific route.
\<close>

theorem tunnel_captures:
  assumes "ip_route_laws os table"
    and "full_tunnel_install os (IpV4 a b c d, port) tun kill h = (Ok g, h')" "routable (ViaGw (ft_original_gateway g))"
    and "length addr = 32"
  shows "lpm (table (hd h')) addr =
    (if addr = ip_bits (IpV4 a b c d) then Some (ViaGw (ft_original_gateway g))
     else case lpm (specific (table (hd h))) addr of Some u \<Rightarrow> Some u | None \<Rightarrow> Some (DevIf tun))"
  using tunnel_captures_aux [OF assms] .

theorem tunnel_captures_witness:
  "\<exists>h'. full_tunnel_install (sim_os (\<lambda>p t. True)) (IpV4 203 0 113 5, 443) (us ''tun0'') False [demo_table] = (Ok (demo_tunnel False), h') \<and>
     lpm (hd h') (ip_bits (IpV4 8 8 8 8)) = Some (DevIf (us ''tun0''))"
proof -
  obtain h' where h': "full_tunnel_install (sim_os (\<lambda>p t. True)) (IpV4 203 0 113 5, 443) (us ''tun0'') False [demo_table] = (Ok (demo_tunnel False), h')"
    using demo_up [where ok = "\<lambda>p t. True" and h = "[demo_table]" and kill = False] by auto
  have "lpm (hd h') (ip_bits (IpV4 8 8 8 8)) = Some (DevIf (us ''tun0''))"
    using tunnel_captures [OF sim_os_laws h' _ length_ip_bits, of 8 8 8 8] demo_addresses
    by (simp add: demo_tunnel_def del: ip_bits.simps)
  with h' show ?thesis by blast
qed


text \<open>
  No leak, at any moment.  From the arming of the kill switch on, in every state of the
  kernel (between any two commands of any connection, reconnection, failed
  installation or tear-down, whatever command fails and whatever other processes do
  outside the two halves of the address space) an IPv4 packet that no specific
  route covers is dropped or enters the TUN device: it never follows the default route.
\<close>

theorem kill_switch_never_leaks:
  assumes "ip_route_laws os table" "accepts_route os (Half False) Blackhole" "accepts_route os (Half True) Blackhole"
    and "reachable (armed os (IpV4 a b c d, port)) (client_routes_step os table (IpV4 a b c d, port) tun) (full, h)"
    and "k \<in> set h" "length addr = 32" "lpm (specific (table k)) addr = None"
  shows "lpm (table k) addr \<in> {Some Blackhole, Some (DevIf tun)}"
  using never_leaks_aux [OF assms] .

theorem kill_switch_never_leaks_witness:
  "\<exists>full h k. reachable (armed (sim_os (\<lambda>p t. True)) (IpV4 203 0 113 5, 443))
       (client_routes_step (sim_os (\<lambda>p t. True)) (\<lambda>m. m) (IpV4 203 0 113 5, 443) (us ''tun0'')) (full, h) \<and>
     k \<in> set h \<and> lpm k (ip_bits (IpV4 8 8 8 8)) \<in> {Some Blackhole, Some (DevIf (us ''tun0''))}"
proof -
  let ?os = "sim_os (\<lambda>p t. True)"
  obtain h' where h': "kill_switch_install ?os (IpV4 203 0 113 5, 443) [demo_table] = (Ok demo_guard, h')"
    using demo_armed [where ok = "\<lambda>p t. True" and h = "[demo_table]"] by auto
  have "armed ?os (IpV4 203 0 113 5, 443) (None, [hd h'])" using h' by (auto simp: armed_def)
  then have r: "reachable (armed ?os (IpV4 203 0 113 5, 443))
      (client_routes_step ?os (\<lambda>m. m) (IpV4 203 0 113 5, 443) (us ''tun0'')) (None, [hd h'])"
    by (rule reachable.intros)
  have "hd h' = demo_table(ip_bits (IpV4 203 0 113 5) \<mapsto> ViaGw (IpV4 192 168 0 1), [False] \<mapsto> Blackhole, [True] \<mapsto> Blackhole)"
    using kill_switch_table [OF sim_os_laws _ _ h'] by (simp add: sim_os_accepts demo_guard_def del: ip_bits.simps)
  then have s: "lpm (specific (hd h')) (ip_bits (IpV4 8 8 8 8)) = None"
    using demo_addresses lpm_other_host [of "ip_bits (IpV4 203 0 113 5)" "ip_bits (IpV4 8 8 8 8)"]
    by (simp del: ip_bits.simps)
  have "lpm (hd h') (ip_bits (IpV4 8 8 8 8)) \<in> {Some Blackhole, Some (DevIf (us ''tun0''))}"
    using kill_switch_never_leaks [OF sim_os_laws _ _ r _ length_ip_bits, of "hd h'" 8 8 8 8] s
    by (simp add: sim_os_accepts del: ip_bits.simps)
  with r show ?thesis by (intro exI [of _ None] exI [of _ "[hd h']"] exI [of _ "hd h'"]) simp
qed

text \<open>
  The kill switch fails open.  When the tool rejects both blackholes the installation
  still reports success, and every packet but those to the server is routed as
  before it.
\<close>

theorem kill_switch_fails_open:
  assumes "ip_route_laws os table"
    and "rejects_route os (Half False) Blackhole" "rejects_route os (Half True) Blackhole"
    and "kill_switch_install os (IpV4 a b c d, port) h = (Ok g, h')" "routable (ViaGw (ks_original_gateway g))"
    and "length addr = 32" "addr \<noteq> ip_bits (IpV4 a b c d)"
  shows "lpm (table (hd h')) addr = lpm (table (hd h)) addr"
  using kill_switch_fails_open_aux [OF assms] .

theorem kill_switch_fails_open_witness:
  "\<exists>h'. kill_switch_install (sim_os (\<lambda>p t. t \<noteq> Blackhole)) (IpV4 203 0 113 5, 443) [demo_table] = (Ok demo_guard, h') \<and>
     lpm (hd h') (ip_bits (IpV4 8 8 8 8)) = Some (ViaGw (IpV4 192 168 0 1))"
proof -
  obtain h' where h': "kill_switch_install (sim_os (\<lambda>p t. t \<noteq> Blackhole)) (IpV4 203 0 113 5, 443) [demo_table] = (Ok demo_guard, h')"
    using demo_armed [where ok = "\<lambda>p t. t \<noteq> Blackhole" and h = "[demo_table]"] by auto
  have "lpm (hd h') (ip_bits (IpV4 8 8 8 8)) = Some (ViaGw (IpV4 192 168 0 1))"
    using kill_switch_fails_open [OF sim_os_laws _ _ h' _ length_ip_bits, of 8 8 8 8] demo_addresses
    by (simp add: sim_os_rejects demo_guard_def del: ip_bits.simps)
  with h' show ?thesis by blast
qed

text \<open>
  An installation of the tunnel routes that fails at its last route has no guard to
  undo the others: the route to the server and the one that sends the lower half of the
  addresses into the tunnel stay.
\<close>

theorem failed_install_leaves_routes:
  assumes "ip_route_laws os table"
    and "linux_default_gateway os h = (Ok gw, h1)" "routable (ViaGw gw)"
    and "accepts_route os (Host a b c d) (ViaGw gw)" "accepts_route os (Half False) (DevIf tun)"
    and "rejects_route os (Half True) (DevIf tun)"
  shows "\<exists>e h'. full_tunnel_install os (IpV4 a b c d, port) tun kill h = (Err e, h') \<and>
    table (hd h') = (table (hd h))(ip_bits (IpV4 a b c d) \<mapsto> ViaGw gw, [False] \<mapsto> DevIf tun)"
  using partial_install_aux [OF assms] .

theorem failed_install_leaves_routes_witness:
  "\<exists>e h'. full_tunnel_install (sim_os (\<lambda>p t. p \<noteq> [True])) (IpV4 203 0 113 5, 443) (us ''tun0'') False [Map.empty] = (Err e, h') \<and>
     hd h' = [ip_bits (IpV4 203 0 113 5) \<mapsto> ViaGw (IpV4 192 168 0 1), [False] \<mapsto> DevIf (us ''tun0'')]"
proof -
  obtain k where "linux_default_gateway (sim_os (\<lambda>p t. p \<noteq> [True])) [Map.empty] = (Ok (IpV4 192 168 0 1), k # [Map.empty])"
    using demo_queries(1) by blast
  from failed_install_leaves_routes [OF sim_os_laws this, of 203 0 113 5 "us ''tun0''" 443 False]
  show ?thesis by (simp add: sim_os_accepts sim_os_rejects del: ip_bits.simps)
qed


text \<open>
  Routing is restored.  Arming the kill switch, bringing the tunnel up, taking it down
  and disarming give back the IPv4 table of before, when it had no route of its own
  to the server or to either half.
\<close>

theorem kill_switch_round_trip:
  assumes "ip_route_laws os table"
    and "kill_switch_install os (IpV4 a b c d, port) h = (Ok ks, h1)"
    and "full_tunnel_install os (IpV4 a b c d, port) tun True h1 = (Ok g, h2)"
    and "ft_original_gateway g = ks_original_gateway ks" "routable (ViaGw (ks_original_gateway ks))"
    and "accepts_route os (Half False) Blackhole" "accepts_route os (Half True) Blackhole"
    and "deletes_route os table (Half False) Blackhole" "deletes_route os table (Half True) Blackhole"
      "deletes_route os table (Host a b c d) (ViaGw (ks_original_gateway ks))"
    and "table (hd h) [False] = None" "table (hd h) [True] = None" "table (hd h) (ip_bits (IpV4 a b c d)) = None"
  shows "table (hd (kill_switch_drop os ks (full_tunnel_drop os g h2))) = table (hd h)"
  using kill_switch_round_trip_aux [OF assms] .

lemma demo_free:
  "demo_table [False] = None" "demo_table [True] = None" "demo_table (ip_bits (IpV4 203 0 113 5)) = None"
  "demo_table [] = Some (ViaGw (IpV4 192 168 0 1))"
  by (simp_all add: demo_table_def demo_bits)

theorem kill_switch_round_trip_witness:
  "\<exists>h1 h2. kill_switch_install (sim_os (\<lambda>p t. True)) (IpV4 203 0 113 5, 443) [demo_table] = (Ok demo_guard, h1) \<and>
     full_tunnel_install (sim_os (\<lambda>p t. True)) (IpV4 203 0 113 5, 443) (us ''tun0'') True h1 = (Ok (demo_tunnel True), h2) \<and>
     hd (kill_switch_drop (sim_os (\<lambda>p t. True)) demo_guard
          (full_tunnel_drop (sim_os (\<lambda>p t. True)) (demo_tunnel True) h2)) = demo_table"
proof -
  obtain h1 where h1: "kill_switch_install (sim_os (\<lambda>p t. True)) (IpV4 203 0 113 5, 443) [demo_table] = (Ok demo_guard, h1)"
    using demo_armed [where ok = "\<lambda>p t. True" and h = "[demo_table]"] by auto
  obtain h2 where h2: "full_tunnel_install (sim_os (\<lambda>p t. True)) (IpV4 203 0 113 5, 443) (us ''tun0'') True h1 = (Ok (demo_tunnel True), h2)"
    using demo_up [where ok = "\<lambda>p t. True" and h = h1 and kill = True] by auto
  show ?thesis
    using h1 h2 kill_switch_round_trip [OF sim_os_laws h1 h2]
    by (simp add: sim_os_accepts sim_os_deletes demo_guard_def demo_tunnel_def demo_free del: ip_bits.simps)
qed

text \<open>
  Without the kill switch, dropping the guard of the tunnel takes out exactly the three
  routes its installation put in.
\<close>

theorem full_tunnel_round_trip:
  assumes "ip_route_laws os table"
    and "full_tunnel_install os (IpV4 a b c d, port) tun False h = (Ok g, h')" "routable (ViaGw (ft_original_gateway g))"
    and "deletes_route os table (Half False) (DevIf tun)" "deletes_route os table (Half True) (DevIf tun)"
      "deletes_route os table (Host a b c d) (ViaGw (ft_original_gateway g))"
    and "table (hd h) [False] = None" "table (hd h) [True] = None" "table (hd h) (ip_bits (IpV4 a b c d)) = None"
  shows "table (hd (full_tunnel_drop os g h')) = table (hd h)"
  using full_tunnel_round_trip_aux [OF assms] .

theorem full_tunnel_round_trip_witness:
  "\<exists>h'. full_tunnel_install (sim_os (\<lambda>p t. True)) (IpV4 203 0 113 5, 443) (us ''tun0'') False [demo_table] = (Ok (demo_tunnel False), h') \<and>
     hd (full_tunnel_drop (sim_os (\<lambda>p t. True)) (demo_tunnel False) h') = demo_table"
proof -
  obtain h' where h': "full_tunnel_install (sim_os (\<lambda>p t. True)) (IpV4 203 0 113 5, 443) (us ''tun0'') False [demo_table] = (Ok (demo_tunnel False), h')"
    using demo_up [where ok = "\<lambda>p t. True" and h = "[demo_table]" and kill = False] by auto
  show ?thesis
    using h' full_tunnel_round_trip [OF sim_os_laws h']
    by (simp add: sim_os_deletes demo_tunnel_def demo_free del: ip_bits.simps)
qed

text \<open>
  Losing the TUN device exposes the client.  The routes of the tunnel replaced the
  blackholes of the kill switch; when the device goes, and its routes with it, every
  address without a specific route follows the default route of before, although the
  kill switch is armed.
\<close>

theorem device_loss_exposes:
  assumes "ip_route_laws os table"
    and "accepts_route os (Half False) Blackhole" "accepts_route os (Half True) Blackhole"
    and "kill_switch_install os (IpV4 a b c d, port) h = (Ok ks, h1)" "routable (ViaGw (ks_original_gateway ks))"
    and "full_tunnel_install os (IpV4 a b c d, port) tun True h1 = (Ok g, h2)" "routable (ViaGw (ft_original_gateway g))"
    and "table (hd h) [] = Some dflt" "dflt \<noteq> DevIf tun" "lpm (specific (table (hd h))) addr = None"
    and "length addr = 32" "addr \<noteq> ip_bits (IpV4 a b c d)"
  shows "lpm (without_device tun (table (hd h2))) addr = Some dflt"
  using device_loss_aux [OF assms] .

theorem device_loss_exposes_witness:
  "\<exists>h1 h2. kill_switch_install (sim_os (\<lambda>p t. True)) (IpV4 203 0 113 5, 443) [demo_table] = (Ok demo_guard, h1) \<and>
     full_tunnel_install (sim_os (\<lambda>p t. True)) (IpV4 203 0 113 5, 443) (us ''tun0'') True h1 = (Ok (demo_tunnel True), h2) \<and>
     lpm (without_device (us ''tun0'') (hd h2)) (ip_bits (IpV4 8 8 8 8)) = Some (ViaGw (IpV4 192 168 0 1))"
proof -
  obtain h1 where h1: "kill_switch_install (sim_os (\<lambda>p t. True)) (IpV4 203 0 113 5, 443) [demo_table] = (Ok demo_guard, h1)"
    using demo_armed [where ok = "\<lambda>p t. True" and h = "[demo_table]"] by auto
  obtain h2 where h2: "full_tunnel_install (sim_os (\<lambda>p t. True)) (IpV4 203 0 113 5, 443) (us ''tun0'') True h1 = (Ok (demo_tunnel True), h2)"
    using demo_up [where ok = "\<lambda>p t. True" and h = h1 and kill = True] by auto
  show ?thesis
    using h1 h2 device_loss_exposes [OF sim_os_laws _ _ h1 _ h2 _ _ _ _ length_ip_bits, of _ 8 8 8 8] demo_addresses
    by (simp add: sim_os_accepts demo_guard_def demo_tunnel_def demo_free del: ip_bits.simps)
qed

end
