(* ===== verification/Routing_Desktop.thy ===== *)
theory Routing_Desktop
  imports Kill_Switch
begin

text \<open>
  The macOS and Windows halves of \<open>payphone-tun/src/routing.rs\<close> (modules
  \<open>macos\<close> and \<open>windows_route\<close>, and their branches of the two guards), over
  the same parameter \<open>os\<close> and the same histories of the kernel as
  \<open>Routing\<close>; and what their order of commands does to a kill switch.
\<close>

section \<open>Text\<close>

definition strip_prefix :: "ustr \<Rightarrow> ustr \<Rightarrow> ustr option" where
  "strip_prefix p s = (if prefix p s then Some (drop (length p) s) else None)"

fun labelled :: "ustr \<Rightarrow> ustr list \<Rightarrow> ustr option" where
  "labelled label [] = None"
| "labelled label (line # ls) =
    (case strip_prefix label (trim line) of Some v \<Rightarrow> Some (trim v) | None \<Rightarrow> labelled label ls)"

section \<open>macOS: commands\<close>

definition route_get_default :: "'k os \<Rightarrow> 'k list \<Rightarrow> (RouteError, ustr) outcome \<times> 'k list" where
  "route_get_default os h = tool_output os [us ''route'', us ''-n'', us ''get'', us ''default''] h"

definition mac_default_gateway :: "'k os \<Rightarrow> 'k list \<Rightarrow> (RouteError, IpAddr) outcome \<times> 'k list" where
  "mac_default_gateway os h =
     and_then (route_get_default os h) (\<lambda>out h.
       ((case labelled (us ''gateway:'') (lines out) of
           Some v \<Rightarrow> (case parse_ip v of Some ip \<Rightarrow> Ok ip | None \<Rightarrow> Err BadGateway)
         | None \<Rightarrow> Err NoGateway), h))"

definition mac_default_interface :: "'k os \<Rightarrow> 'k list \<Rightarrow> (RouteError, ustr) outcome \<times> 'k list" where
  "mac_default_interface os h =
     and_then (route_get_default os h) (\<lambda>out h.
       ((case labelled (us ''interface:'') (lines out) of Some v \<Rightarrow> Ok v | None \<Rightarrow> Err NoInterface), h))"

text \<open>A route that already exists, or is already gone, counts as success.\<close>

definition mac_run_route :: "'k os \<Rightarrow> ustr list \<Rightarrow> 'k list \<Rightarrow> (RouteError, unit) outcome \<times> 'k list" where
  "mac_run_route os args h =
    (case exec os (Cmd (us ''route'' # args)) h of
       (SpawnFailed, h) \<Rightarrow> (Err SpawnError, h)
     | (Exited ok _ err, h) \<Rightarrow>
         ((if ok \<or> sublist (us ''File exists'') err \<or> sublist (us ''not in table'') err then Ok () else Err CommandFailed), h))"

definition mac_host_bypass ::
  "'k os \<Rightarrow> IpAddr \<Rightarrow> IpAddr \<Rightarrow> ustr \<Rightarrow> 'k list \<Rightarrow> (RouteError, unit) outcome \<times> 'k list" where
  "mac_host_bypass os server_ip gateway iface h =
    (let dest = show_ip server_ip; gw = show_ip gateway;
         h = run_all
           [mac_run_route os [us ''delete'', us ''-ifscope'', iface, us ''-inet'', us ''-host'', dest],
            mac_run_route os [us ''delete'', us ''-inet'', us ''-host'', dest]] h
     in and_then (mac_run_route os [us ''add'', us ''-inet'', us ''-host'', dest, gw] h) (\<lambda>_ h.
        (Ok (), run_all
           [mac_run_route os [us ''add'', us ''-ifscope'', iface, us ''-inet'', us ''-host'', dest, gw]] h)))"

definition half_text :: "bool \<Rightarrow> ustr" where
  "half_text upper = us (if upper then ''128.0.0.0/1'' else ''0.0.0.0/1'')"

definition mac_delete_blackhole :: "bool \<Rightarrow> ustr list" where
  "mac_delete_blackhole b = [us ''delete'', us ''-inet'', us ''-blackhole'', half_text b]"

definition mac_delete_net :: "bool \<Rightarrow> ustr list" where
  "mac_delete_net b = [us ''delete'', us ''-inet'', us ''-net'', half_text b]"

definition mac_delete_tunnel :: "bool \<Rightarrow> ustr list" where
  "mac_delete_tunnel b = [us ''delete'', us ''-inet'', us ''-net'', half_text b, TUNNEL_GATEWAY]"

definition mac_add_tunnel :: "bool \<Rightarrow> ustr list" where
  "mac_add_tunnel b = [us ''add'', us ''-inet'', us ''-net'', half_text b, TUNNEL_GATEWAY]"

definition mac_add_blackhole :: "bool \<Rightarrow> ustr list" where
  "mac_add_blackhole b = [us ''add'', us ''-inet'', us ''-blackhole'', half_text b]"

definition mac_install_tunnel_routes ::
  "'k os \<Rightarrow> IpAddr \<Rightarrow> IpAddr \<Rightarrow> ustr \<Rightarrow> 'k list \<Rightarrow> (RouteError, unit) outcome \<times> 'k list" where
  "mac_install_tunnel_routes os server_ip gateway iface h =
     and_then (mac_host_bypass os server_ip gateway iface h) (\<lambda>_ h.
       let h = run_all (map (mac_run_route os)
                 [mac_delete_blackhole False, mac_delete_blackhole True, mac_delete_net False, mac_delete_net True]) h
       in and_then (mac_run_route os (mac_add_tunnel False) h) (\<lambda>_ h.
          and_then (mac_run_route os (mac_add_tunnel True) h) (\<lambda>_ h.
          mac_host_bypass os server_ip gateway iface h)))"

text \<open>The gateway and the interface of the route to an address: the last line of each kind.\<close>

definition last_labelled :: "ustr \<Rightarrow> ustr list \<Rightarrow> ustr option" where
  "last_labelled label ls = labelled label (rev ls)"

definition route_get_inet :: "'k os \<Rightarrow> ustr \<Rightarrow> 'k list \<Rightarrow> (ustr option \<times> ustr option) option \<times> 'k list" where
  "route_get_inet os dest h =
    (case tool_output os [us ''route'', us ''-n'', us ''get'', us ''-inet'', dest] h of
       (Ok out, h) \<Rightarrow> (Some (last_labelled (us ''gateway:'') (lines out), last_labelled (us ''interface:'') (lines out)), h)
     | (_, h) \<Rightarrow> (None, h))"

definition host_route_ok :: "'k os \<Rightarrow> IpAddr \<Rightarrow> IpAddr \<Rightarrow> 'k list \<Rightarrow> bool \<times> 'k list" where
  "host_route_ok os server_ip expected_gateway h =
    (case route_get_inet os (show_ip server_ip) h of
       (Some (Some gateway, iface), h) \<Rightarrow>
         (parse_ip gateway = Some expected_gateway \<and>
          (case iface of Some i \<Rightarrow> \<not> (prefix (us ''utun'') i \<or> i = us ''lo0'') | None \<Rightarrow> True), h)
     | (_, h) \<Rightarrow> (False, h))"

definition split_default_ok :: "'k os \<Rightarrow> 'k list \<Rightarrow> bool \<times> 'k list" where
  "split_default_ok os h =
    (case route_get_inet os (us ''8.8.8.8'') h of
       (Some (gateway, iface), h) \<Rightarrow>
         (gateway = Some TUNNEL_GATEWAY \<or> (case iface of Some i \<Rightarrow> prefix (us ''utun'') i | None \<Rightarrow> False), h)
     | (None, h) \<Rightarrow> (False, h))"

definition mac_add_ipv6_blackholes :: "'k os \<Rightarrow> 'k list \<Rightarrow> 'k list" where
  "mac_add_ipv6_blackholes os =
     run_all [mac_run_route os [us ''add'', us ''-inet6'', us ''-blackhole'', us ''::/1''],
              mac_run_route os [us ''add'', us ''-inet6'', us ''-blackhole'', us ''8000::/1'']]"

definition mac_remove_ipv6_blackholes :: "'k os \<Rightarrow> 'k list \<Rightarrow> 'k list" where
  "mac_remove_ipv6_blackholes os =
     run_all [mac_run_route os [us ''delete'', us ''-inet6'', us ''::/1''],
              mac_run_route os [us ''delete'', us ''-inet6'', us ''8000::/1'']]"

definition mac_add_ipv4_blackholes :: "'k os \<Rightarrow> 'k list \<Rightarrow> 'k list" where
  "mac_add_ipv4_blackholes os =
     run_all (map (mac_run_route os)
       [mac_delete_tunnel False, mac_delete_tunnel True, mac_delete_net False, mac_delete_net True,
        mac_add_blackhole False, mac_add_blackhole True])"

definition ipv6_blackholes_ok :: "'k os \<Rightarrow> 'k list \<Rightarrow> bool \<times> 'k list" where
  "ipv6_blackholes_ok os h =
    (case tool_output os [us ''route'', us ''-n'', us ''get'', us ''-inet6'', us ''2001:4860:4860::8888''] h of
       (Ok out, h) \<Rightarrow>
         (let low = map char_ascii_lower out in
          sublist (us ''blackhole'') low \<or> sublist (us ''interface: lo0'') low, h)
     | (_, h) \<Rightarrow> (True, h))"

definition scutil :: "'k os \<Rightarrow> ustr \<Rightarrow> 'k list \<Rightarrow> 'k list" where
  "scutil os script h = snd (exec os (CmdIn [us ''scutil''] script) h)"

definition flush_dns :: "'k os \<Rightarrow> 'k list \<Rightarrow> 'k list" where
  "flush_dns os h = snd (exec os (Cmd [us ''killall'', us ''-HUP'', us ''mDNSResponder'']) h)"

definition set_dns_scutil :: "'k os \<Rightarrow> 'k list \<Rightarrow> 'k list" where
  "set_dns_scutil os =
     scutil os (us ''d.init'' @ [10] @ us ''d.add ServerAddresses * '' @ show_ip SERVER_TUN_IPV4 @ [10] @
       us ''d.add SupplementalMatchDomains * '' @ [34, 34, 10] @ us ''set State:/Network/Service/PAYPHONE/DNS'' @ [10])"

definition pin_dns_scutil :: "'k os \<Rightarrow> 'k list \<Rightarrow> 'k list" where
  "pin_dns_scutil os h = flush_dns os (set_dns_scutil os h)"

definition clear_dns_scutil :: "'k os \<Rightarrow> 'k list \<Rightarrow> 'k list" where
  "clear_dns_scutil os h =
     flush_dns os (scutil os (us ''remove State:/Network/Service/PAYPHONE/DNS'' @ [10] @
       us ''remove Setup:/Network/Service/PAYPHONE/DNS'' @ [10]) h)"

definition mac_restore_tunnel_routes :: "'k os \<Rightarrow> IpAddr \<Rightarrow> IpAddr \<Rightarrow> ustr \<Rightarrow> 'k list \<Rightarrow> 'k list" where
  "mac_restore_tunnel_routes os server_ip gateway iface h =
    (let bypass = mac_host_bypass os server_ip gateway iface;
         (host_ok, h) = host_route_ok os server_ip gateway h;
         h = (if host_ok then h else run_all [bypass] h);
         (split_ok, h) = split_default_ok os h;
         h = (if split_ok then h
              else run_all [bypass, mac_run_route os (mac_add_tunnel False), mac_run_route os (mac_add_tunnel True), bypass] h);
         (v6_ok, h) = ipv6_blackholes_ok os h;
         h = (if v6_ok then h else mac_add_ipv6_blackholes os h)
     in set_dns_scutil os h)"

definition mac_rearm_kill_switch :: "'k os \<Rightarrow> IpAddr \<Rightarrow> IpAddr \<Rightarrow> ustr \<Rightarrow> 'k list \<Rightarrow> 'k list" where
  "mac_rearm_kill_switch os server_ip gateway iface h =
     pin_dns_scutil os (mac_add_ipv6_blackholes os (mac_add_ipv4_blackholes os
       (run_all [mac_host_bypass os server_ip gateway iface] h)))"

definition lan_default_ok :: "'k os \<Rightarrow> 'k list \<Rightarrow> bool \<times> 'k list" where
  "lan_default_ok os h =
    (case route_get_default os h of
       (Ok out, h) \<Rightarrow> (sublist (us ''gateway:'') out \<and> \<not> sublist (us ''interface: utun'') out, h)
     | (_, h) \<Rightarrow> (False, h))"

definition ensure_lan_default :: "'k os \<Rightarrow> IpAddr \<Rightarrow> ustr \<Rightarrow> 'k list \<Rightarrow> 'k list" where
  "ensure_lan_default os gateway iface h =
    (case lan_default_ok os h of
       (True, h) \<Rightarrow> h
     | (False, h) \<Rightarrow> run_all
         [mac_run_route os [us ''delete'', us ''default''],
          mac_run_route os [us ''add'', us ''default'', show_ip gateway],
          mac_run_route os [us ''add'', us ''-ifscope'', iface, us ''default'', show_ip gateway]] h)"

definition mac_teardown_tunnel :: "'k os \<Rightarrow> IpAddr \<Rightarrow> IpAddr \<Rightarrow> ustr \<Rightarrow> 'k list \<Rightarrow> 'k list" where
  "mac_teardown_tunnel os server_ip gateway iface h =
    (let dest = show_ip server_ip;
         h = run_all (map (mac_run_route os)
           [mac_delete_tunnel True, mac_delete_tunnel False, mac_delete_net True, mac_delete_net False,
            [us ''delete'', us ''-ifscope'', iface, us ''-inet'', us ''-host'', dest],
            [us ''delete'', us ''-inet'', us ''-host'', dest]]) h;
         h = run_all (map (mac_run_route os)
           [[us ''delete'', us ''-inet6'', us ''-blackhole'', us ''::/1''],
            [us ''delete'', us ''-inet6'', us ''-blackhole'', us ''8000::/1'']]) (mac_remove_ipv6_blackholes os h)
     in ensure_lan_default os gateway iface (clear_dns_scutil os h))"

section \<open>macOS: the guards\<close>

record MacTunnelGuard = FullTunnelGuard +
  ft_physical_iface :: ustr

definition mac_full_tunnel_install ::
  "'k os \<Rightarrow> SockAddr \<Rightarrow> ustr \<Rightarrow> bool \<Rightarrow> 'k list \<Rightarrow> (RouteError, MacTunnelGuard) outcome \<times> 'k list" where
  "mac_full_tunnel_install os server_address tun_name kill_switch h =
    (let server_ip = fst server_address in
     and_then (mac_default_gateway os h) (\<lambda>gateway h.
     and_then (mac_default_interface os h) (\<lambda>iface h.
     and_then (mac_install_tunnel_routes os server_ip gateway iface h) (\<lambda>_ h.
       (Ok \<lparr>ft_server_ip = server_ip, ft_original_gateway = gateway, ft_tun_name = tun_name,
            ft_kill_switch = kill_switch, ft_physical_iface = iface\<rparr>,
        pin_dns_scutil os (mac_add_ipv6_blackholes os h))))))"

definition mac_ensure_tunnel_routes :: "'k os \<Rightarrow> MacTunnelGuard \<Rightarrow> 'k list \<Rightarrow> 'k list" where
  "mac_ensure_tunnel_routes os g =
     mac_restore_tunnel_routes os (ft_server_ip g) (ft_original_gateway g) (ft_physical_iface g)"

definition mac_full_tunnel_drop :: "'k os \<Rightarrow> MacTunnelGuard \<Rightarrow> 'k list \<Rightarrow> 'k list" where
  "mac_full_tunnel_drop os g =
    (if ft_kill_switch g then mac_rearm_kill_switch os (ft_server_ip g) (ft_original_gateway g) (ft_physical_iface g)
     else mac_teardown_tunnel os (ft_server_ip g) (ft_original_gateway g) (ft_physical_iface g))"

definition mac_kill_switch_install ::
  "'k os \<Rightarrow> SockAddr \<Rightarrow> 'k list \<Rightarrow> (RouteError, KillSwitchGuard) outcome \<times> 'k list" where
  "mac_kill_switch_install os server_address h =
    (let server_ip = fst server_address in
     and_then (mac_default_gateway os h) (\<lambda>gateway h.
     and_then (mac_default_interface os h) (\<lambda>iface h.
     and_then (mac_host_bypass os server_ip gateway iface h) (\<lambda>_ h.
       (Ok \<lparr>ks_server_ip = server_ip, ks_original_gateway = gateway, ks_physical_iface = iface\<rparr>,
        pin_dns_scutil os (mac_add_ipv6_blackholes os (mac_add_ipv4_blackholes os h)))))))"

definition mac_kill_switch_ensure :: "'k os \<Rightarrow> KillSwitchGuard \<Rightarrow> 'k list \<Rightarrow> 'k list" where
  "mac_kill_switch_ensure os g = mac_rearm_kill_switch os (ks_server_ip g) (ks_original_gateway g) (ks_physical_iface g)"

definition mac_kill_switch_drop :: "'k os \<Rightarrow> KillSwitchGuard \<Rightarrow> 'k list \<Rightarrow> 'k list" where
  "mac_kill_switch_drop os g = mac_teardown_tunnel os (ks_server_ip g) (ks_original_gateway g) (ks_physical_iface g)"

text \<open>The address of the default interface, to bind the QUIC socket to.\<close>

definition mac_outbound_ipv4 :: "'k os \<Rightarrow> 'k list \<Rightarrow> IpAddr option \<times> 'k list" where
  "mac_outbound_ipv4 os h =
    (case mac_default_interface os h of
       (Ok iface, h) \<Rightarrow>
         (case tool_output os [us ''ipconfig'', us ''getifaddr'', iface] h of
            (Ok out, h) \<Rightarrow> (parse_ipv4 (trim out), h)
          | (_, h) \<Rightarrow> (None, h))
     | (_, h) \<Rightarrow> (None, h))"

definition mac_default_physical_interface :: "'k os \<Rightarrow> 'k list \<Rightarrow> ustr option \<times> 'k list" where
  "mac_default_physical_interface os h =
    (case mac_default_interface os h of (Ok iface, h) \<Rightarrow> (Some iface, h) | (_, h) \<Rightarrow> (None, h))"

section \<open>Windows: commands\<close>

definition win_route :: "'k os \<Rightarrow> ustr list \<Rightarrow> 'k list \<Rightarrow> (RouteError, unit) outcome \<times> 'k list" where
  "win_route os args h = run_tool (us ''route'') os args h"

definition run_netsh :: "'k os \<Rightarrow> ustr list \<Rightarrow> 'k list \<Rightarrow> (RouteError, unit) outcome \<times> 'k list" where
  "run_netsh os args h = run_tool (us ''netsh'') os args h"

definition win_default_gateway :: "'k os \<Rightarrow> 'k list \<Rightarrow> (RouteError, IpAddr) outcome \<times> 'k list" where
  "win_default_gateway os h =
     and_then (tool_output os [us ''route'', us ''print'', us ''-4''] h)
       (\<lambda>out h. ((case parse_windows_route_print_gateway out of Some g \<Rightarrow> Ok g | None \<Rightarrow> Err NoGateway), h))"

definition win_interface_index :: "'k os \<Rightarrow> ustr \<Rightarrow> 'k list \<Rightarrow> u32 option \<times> 'k list" where
  "win_interface_index os tun_name h =
    (case tool_output os [us ''netsh'', us ''interface'', us ''ipv4'', us ''show'', us ''interfaces''] h of
       (Ok out, h) \<Rightarrow> (parse_netsh_interface_index out tun_name, h)
     | (_, h) \<Rightarrow> (None, h))"

definition win_outbound_ipv4 :: "'k os \<Rightarrow> 'k list \<Rightarrow> IpAddr option \<times> 'k list" where
  "win_outbound_ipv4 os h =
    (case tool_output os [us ''route'', us ''print'', us ''-4''] h of
       (Ok out, h) \<Rightarrow> (parse_windows_route_print_iface_ipv4 out, h)
     | (_, h) \<Rightarrow> (None, h))"

definition win_host_bypass :: "'k os \<Rightarrow> IpAddr \<Rightarrow> IpAddr \<Rightarrow> 'k list \<Rightarrow> (RouteError, unit) outcome \<times> 'k list" where
  "win_host_bypass os server_ip gateway h =
    (let ip = show_ip server_ip; gw = show_ip gateway in
     win_route os [us ''add'', ip, us ''mask'', us ''255.255.255.255'', gw, us ''metric'', us ''1'']
       (run_all [win_route os [us ''delete'', ip, us ''mask'', us ''255.255.255.255'', gw]] h))"

definition half_net :: "bool \<Rightarrow> ustr" where
  "half_net upper = us (if upper then ''128.0.0.0'' else ''0.0.0.0'')"

definition if_args :: "u32 option \<Rightarrow> ustr list" where
  "if_args if_index = (case if_index of Some idx \<Rightarrow> [us ''IF'', show_nat (unat idx)] | None \<Rightarrow> [])"

definition win_add_split :: "'k os \<Rightarrow> bool \<Rightarrow> u32 option \<Rightarrow> 'k list \<Rightarrow> (RouteError, unit) outcome \<times> 'k list" where
  "win_add_split os upper if_index h =
     win_route os ([us ''add'', half_net upper, us ''mask'', us ''128.0.0.0'', TUNNEL_GATEWAY, us ''metric'', us ''1''] @ if_args if_index)
       (run_all [win_route os ([us ''delete'', half_net upper, us ''mask'', us ''128.0.0.0'', TUNNEL_GATEWAY] @ if_args if_index)] h)"

definition win_add_split_default :: "'k os \<Rightarrow> u32 option \<Rightarrow> 'k list \<Rightarrow> (RouteError, unit) outcome \<times> 'k list" where
  "win_add_split_default os if_index h =
     and_then (win_add_split os False if_index h) (\<lambda>_ h. win_add_split os True if_index h)"

definition win_delete_half :: "bool \<Rightarrow> ustr list" where
  "win_delete_half upper = [us ''delete'', half_net upper, us ''mask'', us ''128.0.0.0'']"

definition win_block_half :: "bool \<Rightarrow> ustr list" where
  "win_block_half upper =
     [us ''add'', half_net upper, us ''mask'', us ''128.0.0.0'', us ''127.0.0.1'', us ''metric'', us ''400'']"

definition win_add_ipv4_blackholes :: "'k os \<Rightarrow> 'k list \<Rightarrow> (RouteError, unit) outcome \<times> 'k list" where
  "win_add_ipv4_blackholes os h =
     and_then (win_route os (win_block_half False)
        (run_all [win_route os (win_delete_half False), win_route os (win_delete_half True)] h))
       (\<lambda>_ h. win_route os (win_block_half True) h)"

definition ipv6_half :: "bool \<Rightarrow> ustr" where
  "ipv6_half upper = us (if upper then ''8000::/1'' else ''::/1'')"

definition win_add_ipv6_blackholes :: "'k os \<Rightarrow> 'k list \<Rightarrow> 'k list" where
  "win_add_ipv6_blackholes os =
     run_all (map (\<lambda>b. run_netsh os [us ''interface'', us ''ipv6'', us ''add'', us ''route'', ipv6_half b,
        us ''interface=1'', us ''metric=1'', us ''store=active'']) [False, True])"

definition win_remove_ipv6_blackholes :: "'k os \<Rightarrow> 'k list \<Rightarrow> 'k list" where
  "win_remove_ipv6_blackholes os =
     run_all (map (\<lambda>b. run_netsh os [us ''interface'', us ''ipv6'', us ''delete'', us ''route'', ipv6_half b,
        us ''interface=1'', us ''store=active'']) [False, True])"

definition win_rearm_kill_switch :: "'k os \<Rightarrow> IpAddr \<Rightarrow> IpAddr \<Rightarrow> 'k list \<Rightarrow> 'k list" where
  "win_rearm_kill_switch os server_ip gateway h =
     win_add_ipv6_blackholes os (run_all [win_host_bypass os server_ip gateway, win_add_ipv4_blackholes os] h)"

definition win_disarm_kill_switch :: "'k os \<Rightarrow> IpAddr \<Rightarrow> IpAddr \<Rightarrow> 'k list \<Rightarrow> 'k list" where
  "win_disarm_kill_switch os server_ip gateway h =
     run_all [win_route os [us ''delete'', show_ip server_ip, us ''mask'', us ''255.255.255.255'', show_ip gateway]]
      (win_remove_ipv6_blackholes os
       (run_all [win_route os [us ''delete'', us ''0.0.0.0'', us ''mask'', us ''128.0.0.0'', us ''127.0.0.1''],
                 win_route os [us ''delete'', us ''128.0.0.0'', us ''mask'', us ''128.0.0.0'', us ''127.0.0.1'']] h))"

text \<open>
  The name-resolution rule: the process remembers the name of the rule it added, when
  there is one, so the watchdog adds none twice.  The state is that slot and the history.
\<close>

type_synonym 'k win = "ustr option \<times> 'k list"

definition nrpt_add_script :: ustr where
  "nrpt_add_script =
     (let q = [39 :: nat]; dns = show_ip SERVER_TUN_IPV4 in
      us ''Add-DnsClientNrptRule -Namespace '' @ q @ [46] @ q @ us '' -NameServers '' @ q @ dns @ q @
      us '' | Out-Null; (Get-DnsClientNrptRule | Where-Object { $_.NameServers -contains '' @ q @ dns @ q @
      us '' } | Select-Object -Last 1).Name'')"

definition powershell :: "ustr \<Rightarrow> Command" where
  "powershell script = Cmd [us ''powershell'', us ''-NoProfile'', us ''-NonInteractive'', us ''-Command'', script]"

definition pin_nrpt :: "'k os \<Rightarrow> 'k win \<Rightarrow> 'k win" where
  "pin_nrpt os s =
    (case s of
       (Some rule, h) \<Rightarrow> s
     | (None, h) \<Rightarrow>
       (case exec os (powershell nrpt_add_script) h of
          (SpawnFailed, h) \<Rightarrow> (None, h)
        | (Exited _ out _, h) \<Rightarrow> ((if trim out = [] then None else Some (trim out)), h)))"

definition clear_nrpt :: "'k os \<Rightarrow> 'k win \<Rightarrow> 'k win" where
  "clear_nrpt os s =
    (case s of
       (None, h) \<Rightarrow> s
     | (Some rule, h) \<Rightarrow>
         (None, snd (exec os (powershell (us ''Remove-DnsClientNrptRule -Name '' @ [39] @ rule @ [39] @ us '' -Force'')) h)))"

definition win_pin_dns :: "'k os \<Rightarrow> ustr \<Rightarrow> 'k win \<Rightarrow> 'k win" where
  "win_pin_dns os tun_name s =
     pin_nrpt os (fst s, run_all [run_netsh os [us ''interface'', us ''ipv4'', us ''set'', us ''dnsservers'',
        us ''name='' @ tun_name, us ''static'', show_ip SERVER_TUN_IPV4, us ''validate=no'']] (snd s))"

definition win_clear_dns :: "'k os \<Rightarrow> ustr \<Rightarrow> 'k win \<Rightarrow> 'k win" where
  "win_clear_dns os tun_name s =
    (case clear_nrpt os s of (slot, h) \<Rightarrow>
      (slot, run_all [run_netsh os [us ''interface'', us ''ipv4'', us ''set'', us ''dnsservers'',
         us ''name='' @ tun_name, us ''source=dhcp'']] h))"

definition win_restore_tunnel_routes :: "'k os \<Rightarrow> IpAddr \<Rightarrow> IpAddr \<Rightarrow> ustr \<Rightarrow> 'k win \<Rightarrow> 'k win" where
  "win_restore_tunnel_routes os server_ip gateway tun_name s =
    (let h = run_all [win_host_bypass os server_ip gateway] (snd s);
         (idx, h) = win_interface_index os tun_name h;
         h = win_add_ipv6_blackholes os (run_all [win_add_split_default os idx] h)
     in win_pin_dns os tun_name (fst s, h))"

definition win_teardown :: "'k os \<Rightarrow> IpAddr \<Rightarrow> IpAddr \<Rightarrow> ustr \<Rightarrow> 'k win \<Rightarrow> 'k win" where
  "win_teardown os server_ip gateway tun_name s =
    (case win_clear_dns os tun_name s of (slot, h) \<Rightarrow>
      (slot, run_all
        [win_route os [us ''delete'', us ''128.0.0.0'', us ''mask'', us ''128.0.0.0'', TUNNEL_GATEWAY],
         win_route os [us ''delete'', us ''0.0.0.0'', us ''mask'', us ''128.0.0.0'', TUNNEL_GATEWAY],
         win_route os [us ''delete'', show_ip server_ip, us ''mask'', us ''255.255.255.255'', show_ip gateway]]
        (win_remove_ipv6_blackholes os h)))"

section \<open>Windows: the guards\<close>

definition with_slot :: "ustr option \<Rightarrow> ('e, 'a) outcome \<times> 'k list \<Rightarrow> ('e, 'a) outcome \<times> 'k win" where
  "with_slot slot r = (fst r, slot, snd r)"

definition win_full_tunnel_install ::
  "'k os \<Rightarrow> SockAddr \<Rightarrow> ustr \<Rightarrow> bool \<Rightarrow> 'k win \<Rightarrow> (RouteError, FullTunnelGuard) outcome \<times> 'k win" where
  "win_full_tunnel_install os server_address tun_name kill_switch s =
    (let server_ip = fst server_address in
     case and_then (win_default_gateway os (snd s)) (\<lambda>gateway h.
          and_then (win_host_bypass os server_ip gateway h) (\<lambda>_ h.
            (case win_interface_index os tun_name h of (idx, h) \<Rightarrow>
          and_then (win_add_split_default os idx h) (\<lambda>_ h.
            (Ok \<lparr>ft_server_ip = server_ip, ft_original_gateway = gateway, ft_tun_name = tun_name,
                 ft_kill_switch = kill_switch\<rparr>,
             win_add_ipv6_blackholes os h))))) of
       (Ok g, h) \<Rightarrow> (Ok g, win_pin_dns os tun_name (fst s, h))
     | r \<Rightarrow> with_slot (fst s) r)"

definition win_full_tunnel_drop :: "'k os \<Rightarrow> FullTunnelGuard \<Rightarrow> 'k win \<Rightarrow> 'k win" where
  "win_full_tunnel_drop os g s =
    (if ft_kill_switch g then (fst s, win_rearm_kill_switch os (ft_server_ip g) (ft_original_gateway g) (snd s))
     else win_teardown os (ft_server_ip g) (ft_original_gateway g) (ft_tun_name g) s)"

definition win_kill_switch_install ::
  "'k os \<Rightarrow> SockAddr \<Rightarrow> 'k win \<Rightarrow> (RouteError, KillSwitchGuard) outcome \<times> 'k win" where
  "win_kill_switch_install os server_address s =
    (let server_ip = fst server_address in
     case and_then (win_default_gateway os (snd s)) (\<lambda>gateway h.
          and_then (win_host_bypass os server_ip gateway h) (\<lambda>_ h.
          and_then (win_add_ipv4_blackholes os h) (\<lambda>_ h.
            (Ok \<lparr>ks_server_ip = server_ip, ks_original_gateway = gateway, ks_physical_iface = []\<rparr>,
             win_add_ipv6_blackholes os h)))) of
       (Ok g, h) \<Rightarrow> (Ok g, pin_nrpt os (fst s, h))
     | r \<Rightarrow> with_slot (fst s) r)"

definition win_kill_switch_ensure :: "'k os \<Rightarrow> KillSwitchGuard \<Rightarrow> 'k win \<Rightarrow> 'k win" where
  "win_kill_switch_ensure os g s =
     pin_nrpt os (fst s, win_rearm_kill_switch os (ks_server_ip g) (ks_original_gateway g) (snd s))"

definition win_kill_switch_drop :: "'k os \<Rightarrow> KillSwitchGuard \<Rightarrow> 'k win \<Rightarrow> 'k win" where
  "win_kill_switch_drop os g s =
     clear_nrpt os (fst s, win_disarm_kill_switch os (ks_server_ip g) (ks_original_gateway g) (snd s))"

section \<open>The kill switch on these systems\<close>


text \<open>
  Whether a half of the address space has a route (\<open>covered\<close>), under commands that are
  carried out: deleting a half leaves it without one, adding the block gives it one, and the
  commands of \<open>keep\<close> touch neither half.
\<close>

definition half_laws ::
  "'k os \<Rightarrow> ('k \<Rightarrow> bool \<Rightarrow> bool) \<Rightarrow> (bool \<Rightarrow> Command) \<Rightarrow> (bool \<Rightarrow> Command) \<Rightarrow> (Command \<Rightarrow> bool) \<Rightarrow> bool" where
  "half_laws os covered del add keep \<longleftrightarrow>
    (\<forall>k b. covered (snd (os (del b) k)) = (covered k)(b := False)) \<and>
    (\<forall>k b. covered (snd (os (add b) k)) = (covered k)(b := True) \<and> succeeded (fst (os (add b) k))) \<and>
    (\<forall>cmd k. keep cmd \<longrightarrow> covered (snd (os cmd k)) = covered k)"

definition mac_keeps :: "Command \<Rightarrow> bool" where
  "mac_keeps cmd \<longleftrightarrow>
    (\<exists>args script. cmd = CmdIn args script) \<or> (\<exists>args. cmd = Cmd (us ''killall'' # args)) \<or>
    (\<exists>verb args. cmd = Cmd (us ''route'' # verb # us ''-inet6'' # args))"

definition mac_half_laws :: "'k os \<Rightarrow> ('k \<Rightarrow> bool \<Rightarrow> bool) \<Rightarrow> bool" where
  "mac_half_laws os covered \<longleftrightarrow>
    half_laws os covered (\<lambda>b. Cmd (us ''route'' # mac_delete_net b)) (\<lambda>b. Cmd (us ''route'' # mac_add_blackhole b)) mac_keeps"

definition win_keeps :: "Command \<Rightarrow> bool" where
  "win_keeps cmd \<longleftrightarrow>
    (\<exists>args. cmd = Cmd (us ''netsh'' # args)) \<or> (\<exists>args. cmd = Cmd (us ''powershell'' # args))"

definition win_half_laws :: "'k os \<Rightarrow> ('k \<Rightarrow> bool \<Rightarrow> bool) \<Rightarrow> bool" where
  "win_half_laws os covered \<longleftrightarrow>
    half_laws os covered (\<lambda>b. Cmd (us ''route'' # win_delete_half b)) (\<lambda>b. Cmd (us ''route'' # win_block_half b)) win_keeps"

lemma mac_run_route_history [simp]: "snd (mac_run_route os args h) = snd (os (Cmd (us ''route'' # args)) (hd h)) # h"
  by (simp add: mac_run_route_def exec_def split: prod.split CmdResult.split)

lemma win_route_history [simp]: "snd (win_route os args h) = snd (os (Cmd (us ''route'' # args)) (hd h)) # h"
  by (simp add: win_route_def run_tool_def exec_def split: prod.split CmdResult.split)

lemma run_netsh_history [simp]: "snd (run_netsh os args h) = snd (os (Cmd (us ''netsh'' # args)) (hd h)) # h"
  by (simp add: run_netsh_def run_tool_def exec_def split: prod.split CmdResult.split)

text \<open>Every operation extends the history.\<close>

definition extends :: "'k list \<Rightarrow> 'k list \<Rightarrow> bool" where
  "extends h h' \<longleftrightarrow> (\<exists>new. h' = new @ h)"

lemma extends_refl [simp]: "extends h h"
  by (simp add: extends_def)

lemma extends_Cons: "extends h h' \<Longrightarrow> extends h (k # h')"
  by (auto simp: extends_def)

lemma extends_trans: "extends h h' \<Longrightarrow> extends h' h'' \<Longrightarrow> extends h h''"
  by (auto simp: extends_def)

lemma extends_and_then:
  assumes "extends h (snd r)" "\<And>x h'. extends h h' \<Longrightarrow> extends h (snd (f x h'))"
  shows "extends h (snd (and_then r f))"
  using assms by (cases r; cases "fst r") (auto simp: and_then_def)

lemma extends_run_all:
  assumes "\<And>s h'. s \<in> set ss \<Longrightarrow> extends h h' \<Longrightarrow> extends h (snd (s h'))" "extends h h'"
  shows "extends h (run_all ss h')"
  using assms by (induction ss arbitrary: h') auto

lemma mac_host_bypass_extends: "extends h h' \<Longrightarrow> extends h (snd (mac_host_bypass os ip gw iface h'))"
  unfolding mac_host_bypass_def Let_def
  by (intro extends_and_then) (auto intro!: extends_Cons)

lemma win_host_bypass_extends: "extends h h' \<Longrightarrow> extends h (snd (win_host_bypass os ip gw h'))"
  by (simp add: win_host_bypass_def Let_def extends_Cons)

text \<open>The stretch of commands that blocks both halves: first both are deleted.\<close>

lemma in_between:
  assumes "extends h (k # h1)" "extends (k # h1) h'" "length h < length (k # h1)"
  shows "\<exists>new. h' = new @ h \<and> k \<in> set new"
proof -
  obtain new1 where new1: "k # h1 = new1 @ h" using assms(1) by (auto simp: extends_def)
  obtain new2 where new2: "h' = new2 @ k # h1" using assms(2) by (auto simp: extends_def)
  have "new1 \<noteq> []" using new1 assms(3) by (metis append_Nil less_irrefl)
  then have "k \<in> set new1" using new1 by (metis hd_append2 hd_in_set list.sel(1))
  then show ?thesis using new1 new2 by (intro exI [of _ "new2 @ new1"]) simp
qed

lemma mac_blackholes_window:
  assumes "mac_half_laws os covered" "extends h h1"
  shows "\<exists>new. mac_add_ipv4_blackholes os h1 = new @ h \<and> (\<exists>k \<in> set new. \<forall>b. \<not> covered k b)"
    and "covered (hd (mac_add_ipv4_blackholes os h1)) b"
proof -
  define h2 where "h2 = run_all (map (mac_run_route os) [mac_delete_tunnel False, mac_delete_tunnel True, mac_delete_net False]) h1"
  define k where "k = snd (os (Cmd (us ''route'' # mac_delete_net True)) (hd h2))"
  have all: "mac_add_ipv4_blackholes os h1 =
      run_all (map (mac_run_route os) [mac_add_blackhole False, mac_add_blackhole True]) (k # h2)"
    by (simp add: mac_add_ipv4_blackholes_def h2_def k_def)
  have del: "covered (snd (os (Cmd (us ''route'' # mac_delete_net b)) k)) = (covered k)(b := False)"
    and add: "covered (snd (os (Cmd (us ''route'' # mac_add_blackhole b)) k)) = (covered k)(b := True)" for b k
    using assms(1) by (simp_all add: mac_half_laws_def half_laws_def)
  have un: "\<not> covered k b" for b by (cases b) (simp_all add: k_def h2_def del)
  have e: "extends h (k # h2)" "length h < length (k # h2)" "extends (k # h2) (mac_add_ipv4_blackholes os h1)"
    using assms(2) by (auto simp: h2_def all extends_def)
  from in_between [OF e(1,3,2)] obtain new where "mac_add_ipv4_blackholes os h1 = new @ h" "k \<in> set new" by auto
  then show "\<exists>new. mac_add_ipv4_blackholes os h1 = new @ h \<and> (\<exists>k \<in> set new. \<forall>b. \<not> covered k b)"
    using un by auto
  show "covered (hd (mac_add_ipv4_blackholes os h1)) b" by (cases b) (simp_all add: all add)
qed

lemma win_blackholes_window:
  assumes "win_half_laws os covered" "extends h h1"
  shows "\<exists>new. snd (win_add_ipv4_blackholes os h1) = new @ h \<and> (\<exists>k \<in> set new. \<forall>b. \<not> covered k b)"
    and "fst (win_add_ipv4_blackholes os h1) = Ok x \<Longrightarrow> covered (hd (snd (win_add_ipv4_blackholes os h1))) b"
proof -
  define h2 where "h2 = run_all [win_route os (win_delete_half False)] h1"
  define k where "k = snd (os (Cmd (us ''route'' # win_delete_half True)) (hd h2))"
  have all: "win_add_ipv4_blackholes os h1 =
      and_then (win_route os (win_block_half False) (k # h2)) (\<lambda>_ h. win_route os (win_block_half True) h)"
    by (simp add: win_add_ipv4_blackholes_def h2_def k_def)
  have del: "covered (snd (os (Cmd (us ''route'' # win_delete_half b)) k)) = (covered k)(b := False)"
    and add: "covered (snd (os (Cmd (us ''route'' # win_block_half b)) k)) = (covered k)(b := True)" for b k
    using assms(1) by (simp_all add: win_half_laws_def half_laws_def)
  have un: "\<not> covered k b" for b by (cases b) (simp_all add: k_def h2_def del)
  have "extends (k # h2) (snd (win_add_ipv4_blackholes os h1))"
    unfolding all by (intro extends_and_then) (simp_all add: extends_Cons)
  moreover have "extends h (k # h2)" "length h < length (k # h2)" using assms(2) by (auto simp: h2_def extends_def)
  ultimately obtain new where "snd (win_add_ipv4_blackholes os h1) = new @ h" "k \<in> set new"
    using in_between [of h k h2] by auto
  then show "\<exists>new. snd (win_add_ipv4_blackholes os h1) = new @ h \<and> (\<exists>k \<in> set new. \<forall>b. \<not> covered k b)"
    using un by auto
  assume "fst (win_add_ipv4_blackholes os h1) = Ok x"
  then obtain h3 where r: "win_route os (win_block_half False) (k # h2) = (Ok (), h3)"
    "win_add_ipv4_blackholes os h1 = win_route os (win_block_half True) h3"
    unfolding all and_then_def by (auto split: prod.splits outcome.splits)
  from arg_cong [OF r(1), of snd] have "covered (hd h3) False" by (auto simp: add)
  then show "covered (hd (snd (win_add_ipv4_blackholes os h1))) b" by (cases b) (simp_all add: r(2) add)
qed


lemma mac_keeps_covered:
  assumes "mac_half_laws os covered"
  shows "covered (hd (pin_dns_scutil os h)) = covered (hd h)"
    "covered (hd (mac_add_ipv6_blackholes os h)) = covered (hd h)"
proof -
  have keep: "covered (snd (os cmd k)) = covered k" if "mac_keeps cmd" for cmd k
    using assms that by (simp add: mac_half_laws_def half_laws_def)
  show "covered (hd (pin_dns_scutil os h)) = covered (hd h)"
    "covered (hd (mac_add_ipv6_blackholes os h)) = covered (hd h)"
    by (simp_all add: pin_dns_scutil_def flush_dns_def set_dns_scutil_def scutil_def mac_add_ipv6_blackholes_def
        exec_def keep mac_keeps_def split: prod.split) (metis keep mac_keeps_def snd_conv)+
qed

lemma win_keeps_covered:
  assumes "win_half_laws os covered"
  shows "covered (hd (snd (pin_nrpt os s))) = covered (hd (snd s))"
    "covered (hd (win_add_ipv6_blackholes os h)) = covered (hd h)"
proof -
  have keep: "covered (snd (os cmd k)) = covered k" if "win_keeps cmd" for cmd k
    using assms that by (simp add: win_half_laws_def half_laws_def)
  have "win_keeps (powershell x)" for x by (simp add: win_keeps_def powershell_def)
  then have "covered (snd (os (powershell x) k)) = covered k" for x k by (rule keep)
  then show "covered (hd (snd (pin_nrpt os s))) = covered (hd (snd s))"
    by (cases s) (auto simp: pin_nrpt_def exec_def split: option.split prod.split CmdResult.split, (metis snd_conv)+)
  show "covered (hd (win_add_ipv6_blackholes os h)) = covered (hd h)"
    by (simp add: win_add_ipv6_blackholes_def keep win_keeps_def)
qed

lemma pin_dns_scutil_extends: "extends h h' \<Longrightarrow> extends h (pin_dns_scutil os h')"
  by (simp add: pin_dns_scutil_def flush_dns_def set_dns_scutil_def scutil_def exec_def extends_Cons split: prod.split)

lemma pin_nrpt_extends: "extends h (snd s) \<Longrightarrow> extends h (snd (pin_nrpt os s))"
  by (cases s) (auto simp: pin_nrpt_def exec_def extends_Cons split: option.split prod.split CmdResult.split)

lemma win_adds_ok:
  assumes "win_half_laws os covered"
  shows "fst (win_add_ipv4_blackholes os h) = Ok ()"
proof -
  have add: "succeeded (fst (os (Cmd (us ''route'' # win_block_half b)) k))" for b k
    using assms by (simp add: win_half_laws_def half_laws_def)
  have "fst (win_route os (win_block_half b) h) = Ok ()" for b h
    using add [of b "hd h"]
    by (cases "fst (os (Cmd (us ''route'' # win_block_half b)) (hd h))")
      (auto simp: win_route_def run_tool_def exec_def split: prod.split)
  then have "\<exists>h'. win_route os (win_block_half b) h = (Ok (), h')" for b h by (metis prod.collapse)
  then obtain f where "win_route os (win_block_half b) h = (Ok (), f b h)" for b h by metis
  then show ?thesis by (simp add: win_add_ipv4_blackholes_def and_then_def)
qed


lemma mac_rearm_window:
  assumes "mac_half_laws os covered"
  shows "\<exists>new. mac_rearm_kill_switch os ip gw iface h = new @ h \<and> (\<exists>k \<in> set new. \<forall>b. \<not> covered k b)"
    and "covered (hd (mac_rearm_kill_switch os ip gw iface h)) b"
proof -
  let ?h1 = "run_all [mac_host_bypass os ip gw iface] h"
  have "extends h ?h1" by (intro extends_run_all) (auto intro: mac_host_bypass_extends)
  from mac_blackholes_window(1) [OF assms this] obtain new where
    new: "mac_add_ipv4_blackholes os ?h1 = new @ h" "\<exists>k \<in> set new. \<forall>b. \<not> covered k b" by blast
  have "extends (new @ h) (mac_rearm_kill_switch os ip gw iface h)"
    unfolding mac_rearm_kill_switch_def new(1)
    by (auto simp: mac_add_ipv6_blackholes_def intro!: pin_dns_scutil_extends extends_Cons)
  then obtain new' where "mac_rearm_kill_switch os ip gw iface h = new' @ new @ h" by (auto simp: extends_def)
  then show "\<exists>new. mac_rearm_kill_switch os ip gw iface h = new @ h \<and> (\<exists>k \<in> set new. \<forall>b. \<not> covered k b)"
    using new(2) by (intro exI [of _ "new' @ new"]) auto
  show "covered (hd (mac_rearm_kill_switch os ip gw iface h)) b"
    by (simp add: mac_rearm_kill_switch_def mac_keeps_covered [OF assms] mac_blackholes_window(2) [OF assms extends_refl])
qed

lemma win_rearm_window:
  assumes "win_half_laws os covered"
  shows "\<exists>new. win_rearm_kill_switch os ip gw h = new @ h \<and> (\<exists>k \<in> set new. \<forall>b. \<not> covered k b)"
    and "covered (hd (win_rearm_kill_switch os ip gw h)) b"
proof -
  let ?h1 = "snd (win_host_bypass os ip gw h)"
  have "extends h ?h1" by (intro win_host_bypass_extends) simp
  from win_blackholes_window(1) [OF assms this] obtain new where
    new: "snd (win_add_ipv4_blackholes os ?h1) = new @ h" "\<exists>k \<in> set new. \<forall>b. \<not> covered k b" by blast
  have "extends (new @ h) (win_rearm_kill_switch os ip gw h)"
    unfolding win_rearm_kill_switch_def run_all.simps new(1)
    by (auto simp: win_add_ipv6_blackholes_def intro!: extends_Cons)
  then obtain new' where "win_rearm_kill_switch os ip gw h = new' @ new @ h" by (auto simp: extends_def)
  then show "\<exists>new. win_rearm_kill_switch os ip gw h = new @ h \<and> (\<exists>k \<in> set new. \<forall>b. \<not> covered k b)"
    using new(2) by (intro exI [of _ "new' @ new"]) auto
  show "covered (hd (win_rearm_kill_switch os ip gw h)) b"
    using win_blackholes_window(2) [OF assms extends_refl win_adds_ok [OF assms]]
    by (simp add: win_rearm_kill_switch_def win_keeps_covered [OF assms])
qed

text \<open>
  Re-arming opens a window on macOS.  The client asserts its kill switch before every
  connection attempt, and the guard of the tunnel when it is dropped; both end with the two
  halves blocked, but pass through a state of the kernel in which neither half has a
  route, so that packets follow the default route.
\<close>

theorem mac_kill_switch_window:
  assumes "mac_half_laws os covered"
  shows "(\<exists>new. mac_kill_switch_ensure os g h = new @ h \<and> (\<exists>k \<in> set new. \<forall>b. \<not> covered k b)) \<and>
    (\<exists>new. mac_full_tunnel_drop os (t\<lparr>ft_kill_switch := True\<rparr>) h = new @ h \<and> (\<exists>k \<in> set new. \<forall>b. \<not> covered k b)) \<and>
    covered (hd (mac_kill_switch_ensure os g h)) b \<and> covered (hd (mac_full_tunnel_drop os (t\<lparr>ft_kill_switch := True\<rparr>) h)) b"
  using mac_rearm_window [OF assms] by (simp add: mac_kill_switch_ensure_def mac_full_tunnel_drop_def)

text \<open>
  The same window on Windows, where the halves are deleted before they are blocked again.
\<close>

theorem win_kill_switch_window:
  assumes "win_half_laws os covered"
  shows "(\<exists>new. snd (win_kill_switch_ensure os g (slot, h)) = new @ h \<and> (\<exists>k \<in> set new. \<forall>b. \<not> covered k b)) \<and>
    covered (hd (snd (win_kill_switch_ensure os g (slot, h)))) b"
proof
  let ?h1 = "win_rearm_kill_switch os (ks_server_ip g) (ks_original_gateway g) h"
  obtain new where new: "?h1 = new @ h" "\<exists>k \<in> set new. \<forall>b. \<not> covered k b"
    using win_rearm_window(1) [OF assms, of "ks_server_ip g" "ks_original_gateway g" h] by blast
  have "extends (new @ h) (snd (win_kill_switch_ensure os g (slot, h)))"
    by (simp add: win_kill_switch_ensure_def new(1) pin_nrpt_extends)
  then obtain new' where "snd (win_kill_switch_ensure os g (slot, h)) = new' @ new @ h" by (auto simp: extends_def)
  then show "\<exists>new. snd (win_kill_switch_ensure os g (slot, h)) = new @ h \<and> (\<exists>k \<in> set new. \<forall>b. \<not> covered k b)"
    using new(2) by (intro exI [of _ "new' @ new"]) auto
  show "covered (hd (snd (win_kill_switch_ensure os g (slot, h)))) b"
    by (simp add: win_kill_switch_ensure_def win_keeps_covered [OF assms] win_rearm_window(2) [OF assms])
qed

text \<open>A kernel with the two halves.\<close>

fun sim_halves :: "(bool \<Rightarrow> Command) \<Rightarrow> (bool \<Rightarrow> Command) \<Rightarrow> (bool \<Rightarrow> bool) os" where
  "sim_halves del add cmd k =
    (Exited True [] [],
     if cmd = del False then k(False := False) else if cmd = del True then k(True := False)
     else if cmd = add False then k(False := True) else if cmd = add True then k(True := True) else k)"

theorem mac_kill_switch_window_witness:
  "let os = sim_halves (\<lambda>b. Cmd (us ''route'' # mac_delete_net b)) (\<lambda>b. Cmd (us ''route'' # mac_add_blackhole b));
       h = [\<lambda>_. True]
   in (\<exists>k \<in> set (mac_kill_switch_ensure os demo_guard h). \<forall>b. \<not> k b) \<and> hd (mac_kill_switch_ensure os demo_guard h) True"
proof -
  let ?os = "sim_halves (\<lambda>b. Cmd (us ''route'' # mac_delete_net b)) (\<lambda>b. Cmd (us ''route'' # mac_add_blackhole b))"
  have laws: "mac_half_laws ?os (\<lambda>k. k)"
    by (auto simp: mac_half_laws_def half_laws_def mac_keeps_def mac_delete_net_def mac_add_blackhole_def half_text_def
        split: bool.splits)
  obtain new where "mac_kill_switch_ensure ?os demo_guard [\<lambda>_. True] = new @ [\<lambda>_. True]" "\<exists>k \<in> set new. \<forall>b. \<not> k b"
    using mac_kill_switch_window [OF laws, of demo_guard "[\<lambda>_. True]"] by blast
  then show ?thesis using mac_kill_switch_window [OF laws, of demo_guard "[\<lambda>_. True]" _ True] by auto
qed

theorem win_kill_switch_window_witness:
  "let os = sim_halves (\<lambda>b. Cmd (us ''route'' # win_delete_half b)) (\<lambda>b. Cmd (us ''route'' # win_block_half b));
       h = [\<lambda>_. True]
   in (\<exists>k \<in> set (snd (win_kill_switch_ensure os demo_guard (None, h))). \<forall>b. \<not> k b) \<and>
      hd (snd (win_kill_switch_ensure os demo_guard (None, h))) True"
proof -
  let ?os = "sim_halves (\<lambda>b. Cmd (us ''route'' # win_delete_half b)) (\<lambda>b. Cmd (us ''route'' # win_block_half b))"
  have laws: "win_half_laws ?os (\<lambda>k. k)"
    by (auto simp: win_half_laws_def half_laws_def win_keeps_def win_delete_half_def win_block_half_def half_net_def
        split: bool.splits)
  obtain new where "snd (win_kill_switch_ensure ?os demo_guard (None, [\<lambda>_. True])) = new @ [\<lambda>_. True]" "\<exists>k \<in> set new. \<forall>b. \<not> k b"
    using win_kill_switch_window [OF laws, of demo_guard None "[\<lambda>_. True]"] by blast
  then show ?thesis using win_kill_switch_window [OF laws, of demo_guard None "[\<lambda>_. True]" True] by auto
qed

end
