(* ===== verification/Reality_Suite.thy ===== *)
theory Reality_Suite
  imports Reality_Auth
begin

text \<open>
  The TLS 1.3 record layer and key schedule of the REALITY path
  (\<open>payphone-transport/src/reality/suite.rs\<close>): cipher suites, the
  transcript hash, traffic keys, padded records and their decryption.
  A transcript is the list of bytes absorbed by its digest.
\<close>

section \<open>Suites and transcript\<close>

datatype Suite = Aes128GcmSha256 | Aes256GcmSha384 | ChaCha20Poly1305Sha256

definition suite_from_id :: "u16 \<Rightarrow> Suite option" where
  "suite_from_id i =
    (if i = TLS_AES_128_GCM_SHA256 then Some Aes128GcmSha256
     else if i = TLS_AES_256_GCM_SHA384 then Some Aes256GcmSha384
     else if i = TLS_CHACHA20_POLY1305_SHA256 then Some ChaCha20Poly1305Sha256
     else None)"

fun hash_len :: "Suite \<Rightarrow> nat" where
  "hash_len Aes256GcmSha384 = 48"
| "hash_len _ = 32"

fun key_len :: "Suite \<Rightarrow> nat" where
  "key_len Aes128GcmSha256 = 16"
| "key_len _ = 32"

fun suite_sha384 :: "Suite \<Rightarrow> bool" where
  "suite_sha384 Aes256GcmSha384 = True"
| "suite_sha384 _ = False"

record Transcript =
  tr_suite :: Suite
  tr_sha256 :: bytes
  tr_sha384 :: bytes

definition transcript_new :: "Suite \<Rightarrow> Transcript" where
  "transcript_new s = \<lparr>tr_suite = s, tr_sha256 = [], tr_sha384 = []\<rparr>"

definition transcript_update :: "Transcript \<Rightarrow> bytes \<Rightarrow> Transcript" where
  "transcript_update t msg =
    (if suite_sha384 (tr_suite t) then t\<lparr>tr_sha384 := tr_sha384 t @ msg\<rparr>
     else t\<lparr>tr_sha256 := tr_sha256 t @ msg\<rparr>)"

definition transcript_hash :: "RealityCrypto \<Rightarrow> Transcript \<Rightarrow> bytes" where
  "transcript_hash c t =
    (if suite_sha384 (tr_suite t) then sha384 c (tr_sha384 t) else sha256 c (tr_sha256 t))"

section \<open>Key schedule\<close>

record TrafficKeys =
  tk_suite :: Suite
  tk_key :: bytes
  tk_iv :: bytes
  tk_seq :: u64

record HsKeys =
  hk_keys :: TrafficKeys
  hk_secret :: bytes

definition hmac_sha384 :: "RealityCrypto \<Rightarrow> bytes \<Rightarrow> bytes \<Rightarrow> bytes" where
  "hmac_sha384 c = hmac_with 128 (sha384 c)"

definition suite_hmac :: "RealityCrypto \<Rightarrow> Suite \<Rightarrow> bytes \<Rightarrow> bytes \<Rightarrow> bytes" where
  "suite_hmac c s = (if suite_sha384 s then hmac_sha384 c else hmac_sha256 c)"

definition hash_empty :: "RealityCrypto \<Rightarrow> Suite \<Rightarrow> bytes" where
  "hash_empty c s = (if suite_sha384 s then sha384 c [] else sha256 c [])"

definition suite_hkdf_expand :: "RealityCrypto \<Rightarrow> Suite \<Rightarrow> bytes \<Rightarrow> bytes \<Rightarrow> nat \<Rightarrow> ('e, bytes) outcome" where
  "suite_hkdf_expand c s = hkdf_expand_with (suite_hmac c s)"

definition hkdf_label :: "bytes \<Rightarrow> bytes \<Rightarrow> nat \<Rightarrow> bytes" where
  "hkdf_label label context n =
     to_be 2 (of_nat n :: u16) @ [of_nat (6 + length label)] @ ascii ''tls13 '' @ label @
     [of_nat (length context)] @ context"

definition hkdf_expand_label ::
  "RealityCrypto \<Rightarrow> Suite \<Rightarrow> bytes \<Rightarrow> bytes \<Rightarrow> bytes \<Rightarrow> nat \<Rightarrow> ('e, bytes) outcome" where
  "hkdf_expand_label c s secret label context n =
     suite_hkdf_expand c s secret (hkdf_label label context n) n"

definition derive_secret ::
  "RealityCrypto \<Rightarrow> Suite \<Rightarrow> bytes \<Rightarrow> bytes \<Rightarrow> bytes \<Rightarrow> ('e, bytes) outcome" where
  "derive_secret c s secret label hash = hkdf_expand_label c s secret label hash (hash_len s)"

definition traffic_keys :: "RealityCrypto \<Rightarrow> Suite \<Rightarrow> bytes \<Rightarrow> ('e, TrafficKeys) outcome" where
  "traffic_keys c s secret =
     obind (hkdf_expand_label c s secret (ascii ''key'') [] (key_len s)) (\<lambda>key.
     obind (hkdf_expand_label c s secret (ascii ''iv'') [] 12) (\<lambda>iv_bytes.
     obind (fixed 12 iv_bytes) (\<lambda>iv.
       Ok \<lparr>tk_suite = s, tk_key = key, tk_iv = iv, tk_seq = 0\<rparr>)))"

definition handshake_traffic_keys ::
  "RealityCrypto \<Rightarrow> Suite \<Rightarrow> bytes \<Rightarrow> bytes \<Rightarrow> ('e, HsKeys \<times> HsKeys \<times> bytes) outcome" where
  "handshake_traffic_keys c s shared hello_hash =
    (let zeros = replicate (hash_len s) 0;
         early = suite_hmac c s zeros zeros
     in obind (derive_secret c s early (ascii ''derived'') (hash_empty c s)) (\<lambda>derived.
        let handshake_secret = suite_hmac c s derived shared in
        obind (derive_secret c s handshake_secret (ascii ''c hs traffic'') hello_hash) (\<lambda>client_secret.
        obind (derive_secret c s handshake_secret (ascii ''s hs traffic'') hello_hash) (\<lambda>server_secret.
        obind (traffic_keys c s client_secret) (\<lambda>client_keys.
        obind (traffic_keys c s server_secret) (\<lambda>server_keys.
          Ok (\<lparr>hk_keys = client_keys, hk_secret = client_secret\<rparr>,
              \<lparr>hk_keys = server_keys, hk_secret = server_secret\<rparr>, handshake_secret)))))))"

definition application_traffic_keys ::
  "RealityCrypto \<Rightarrow> Suite \<Rightarrow> bytes \<Rightarrow> bytes \<Rightarrow> ('e, TrafficKeys \<times> TrafficKeys) outcome" where
  "application_traffic_keys c s handshake_secret hash =
     obind (derive_secret c s handshake_secret (ascii ''derived'') (hash_empty c s)) (\<lambda>derived.
       let master = suite_hmac c s derived (replicate (hash_len s) 0) in
       obind (derive_secret c s master (ascii ''c ap traffic'') hash) (\<lambda>client.
       obind (derive_secret c s master (ascii ''s ap traffic'') hash) (\<lambda>server.
       obind (traffic_keys c s client) (\<lambda>ck.
       obind (traffic_keys c s server) (\<lambda>sk. Ok (ck, sk))))))"

definition finished_verify :: "RealityCrypto \<Rightarrow> Suite \<Rightarrow> bytes \<Rightarrow> bytes \<Rightarrow> ('e, bytes) outcome" where
  "finished_verify c s base_secret hash =
     obind (hkdf_expand_label c s base_secret (ascii ''finished'') [] (hash_len s)) (\<lambda>finished_key.
       Ok (suite_hmac c s finished_key hash))"

section \<open>Records\<close>

definition nonce :: "bytes \<Rightarrow> u64 \<Rightarrow> bytes" where
  "nonce iv seq = take 4 iv @ map2 (XOR) (drop 4 iv) (to_be 8 seq)"

text \<open>
  The ciphers take a key of the suite's length (the \<open>expect\<close> on
  \<open>new_from_slice\<close>); \<open>keys_wf\<close> below states that every key of the
  schedule has it.
\<close>

fun aead_seal :: "RealityCrypto \<Rightarrow> Suite \<Rightarrow> bytes \<Rightarrow> bytes \<Rightarrow> bytes \<Rightarrow> bytes \<Rightarrow> bytes" where
  "aead_seal c Aes128GcmSha256 = aes128_seal c"
| "aead_seal c Aes256GcmSha384 = aes256_seal c"
| "aead_seal c ChaCha20Poly1305Sha256 = chacha_seal c"

fun aead_open :: "RealityCrypto \<Rightarrow> Suite \<Rightarrow> bytes \<Rightarrow> bytes \<Rightarrow> bytes \<Rightarrow> bytes \<Rightarrow> bytes option" where
  "aead_open c Aes128GcmSha256 = aes128_open c"
| "aead_open c Aes256GcmSha384 = aes256_open c"
| "aead_open c ChaCha20Poly1305Sha256 = chacha_open c"

datatype TlsError =
    DecryptFailed | EmptyInner | InvalidRecordLength | TlsEof | TlsIo | TlsAlert
  | UnexpectedInner u8 | UnexpectedRecord u8 | TlsWriteZero | TlsBad string

definition record_header :: "nat \<Rightarrow> bytes" where
  "record_header ct_len = [0x17, 0x03, 0x03, of_nat (ct_len div 256), of_nat ct_len]"

definition pad_inner :: "bytes \<Rightarrow> nat option \<Rightarrow> bytes" where
  "pad_inner inner pad = (case pad of
     None \<Rightarrow> inner
   | Some target \<Rightarrow>
       if target > 5 + length inner + 16
       then inner @ replicate (target - 5 - 16 - length inner) 0 else inner)"

definition encrypt_app_padded ::
  "RealityCrypto \<Rightarrow> TrafficKeys \<Rightarrow> u8 \<Rightarrow> bytes \<Rightarrow> nat option \<Rightarrow> bytes" where
  "encrypt_app_padded c tkeys inner_type plaintext pad =
    (let inner = pad_inner (plaintext @ [inner_type]) pad;
         header = record_header (length inner + 16)
     in header @ aead_seal c (tk_suite tkeys) (tk_key tkeys) (nonce (tk_iv tkeys) (tk_seq tkeys)) header inner)"

definition encrypt_app :: "RealityCrypto \<Rightarrow> TrafficKeys \<Rightarrow> u8 \<Rightarrow> bytes \<Rightarrow> bytes" where
  "encrypt_app c tkeys inner_type plaintext = encrypt_app_padded c tkeys inner_type plaintext None"

definition split_inner :: "bytes \<Rightarrow> (TlsError, u8 \<times> bytes) outcome" where
  "split_inner plain =
    (let p = rev (dropWhile (\<lambda>b. b = 0) (rev plain)) in
     if p = [] then Err EmptyInner else Ok (last p, butlast p))"

definition decrypt_app :: "RealityCrypto \<Rightarrow> TrafficKeys \<Rightarrow> bytes \<Rightarrow> (TlsError, u8 \<times> bytes) outcome" where
  "decrypt_app c tkeys body =
    (case aead_open c (tk_suite tkeys) (tk_key tkeys) (nonce (tk_iv tkeys) (tk_seq tkeys))
            (record_header (length body)) body of
       None \<Rightarrow> Err DecryptFailed
     | Some plain \<Rightarrow> split_inner plain)"

definition next_seq :: "TrafficKeys \<Rightarrow> TrafficKeys" where
  "next_seq tkeys = tkeys\<lparr>tk_seq := tk_seq tkeys + 1\<rparr>"

definition keys_encrypt_padded ::
  "RealityCrypto \<Rightarrow> TrafficKeys \<Rightarrow> u8 \<Rightarrow> bytes \<Rightarrow> nat option \<Rightarrow> bytes \<times> TrafficKeys" where
  "keys_encrypt_padded c tkeys inner_type plaintext pad =
     (encrypt_app_padded c tkeys inner_type plaintext pad, next_seq tkeys)"

definition keys_encrypt :: "RealityCrypto \<Rightarrow> TrafficKeys \<Rightarrow> u8 \<Rightarrow> bytes \<Rightarrow> bytes \<times> TrafficKeys" where
  "keys_encrypt c tkeys inner_type plaintext = keys_encrypt_padded c tkeys inner_type plaintext None"

definition keys_decrypt ::
  "RealityCrypto \<Rightarrow> TrafficKeys \<Rightarrow> bytes \<Rightarrow> (TlsError, (u8 \<times> bytes) \<times> TrafficKeys) outcome" where
  "keys_decrypt c tkeys body = obind (decrypt_app c tkeys body) (\<lambda>out. Ok (out, next_seq tkeys))"

section \<open>The schedule never fails\<close>

definition keys_wf :: "TrafficKeys \<Rightarrow> bool" where
  "keys_wf k \<longleftrightarrow> length (tk_key k) = key_len (tk_suite k) \<and> length (tk_iv k) = 12"

lemma length_suite_hmac: "crypto_laws c \<Longrightarrow> length (suite_hmac c s k d) = hash_len s"
  by (cases s) (simp_all add: suite_hmac_def length_hmac_sha256 hmac_sha384_def hmac_with_def
      Let_def crypto_lawsD)

definition label_bytes :: "RealityCrypto \<Rightarrow> Suite \<Rightarrow> bytes \<Rightarrow> bytes \<Rightarrow> bytes \<Rightarrow> nat \<Rightarrow> bytes" where
  "label_bytes c s secret label context n =
     take n (suite_hmac c s secret (hkdf_label label context n @ [1]))"

lemma hkdf_expand_label_Ok:
  assumes "crypto_laws c" "n \<le> hash_len s"
  shows "hkdf_expand_label c s secret label context n = Ok (label_bytes c s secret label context n)"
  unfolding hkdf_expand_label_def suite_hkdf_expand_def label_bytes_def
  by (rule hkdf_one_block) (use assms in \<open>simp_all add: length_suite_hmac\<close>)

lemma length_label_bytes:
  "crypto_laws c \<Longrightarrow> n \<le> hash_len s \<Longrightarrow> length (label_bytes c s secret label context n) = n"
  by (simp add: label_bytes_def length_suite_hmac)

lemma key_len_le: "key_len s \<le> hash_len s" "12 \<le> hash_len s"
  by (cases s; simp)+

lemma derive_secret_Ok:
  "crypto_laws c \<Longrightarrow> derive_secret c s secret label hash = Ok (label_bytes c s secret label hash (hash_len s))"
  by (simp add: derive_secret_def hkdf_expand_label_Ok)

lemma traffic_keys_Ok:
  assumes "crypto_laws c"
  shows "traffic_keys c s secret =
    Ok \<lparr>tk_suite = s, tk_key = label_bytes c s secret (ascii ''key'') [] (key_len s),
        tk_iv = label_bytes c s secret (ascii ''iv'') [] 12, tk_seq = 0\<rparr>"
  using assms by (simp add: traffic_keys_def hkdf_expand_label_Ok key_len_le fixed_def length_label_bytes)

lemma traffic_keys_wf:
  "crypto_laws c \<Longrightarrow> traffic_keys c s secret = Ok k \<Longrightarrow> keys_wf k \<and> tk_suite k = s"
  by (auto simp: traffic_keys_Ok keys_wf_def length_label_bytes key_len_le)

lemma handshake_traffic_keys_Ok:
  assumes c: "crypto_laws c"
  shows "\<exists>ck sk hs. handshake_traffic_keys c s shared hash = Ok (ck, sk, hs) \<and>
    keys_wf (hk_keys ck) \<and> keys_wf (hk_keys sk)"
  using c by (simp add: handshake_traffic_keys_def derive_secret_Ok traffic_keys_Ok Let_def keys_wf_def
      length_label_bytes key_len_le)

lemma application_traffic_keys_Ok:
  assumes c: "crypto_laws c"
  shows "\<exists>ck sk. application_traffic_keys c s hs hash = Ok (ck, sk) \<and> keys_wf ck \<and> keys_wf sk"
  using c by (simp add: application_traffic_keys_def derive_secret_Ok traffic_keys_Ok Let_def keys_wf_def
      length_label_bytes key_len_le)

lemma finished_verify_Ok:
  assumes c: "crypto_laws c"
  shows "\<exists>v. finished_verify c s secret hash = Ok v \<and> length v = hash_len s"
  using c by (simp add: finished_verify_def hkdf_expand_label_Ok length_suite_hmac)

section \<open>Records round trip\<close>

lemma length_nonce: "length iv = 12 \<Longrightarrow> length (nonce iv s) = 12"
  by (simp add: nonce_def)

lemma suite_aead_laws: "crypto_laws c \<Longrightarrow> aead_laws (key_len s) (aead_seal c s) (aead_open c s)"
  by (cases s) (simp_all add: crypto_lawsD)

lemma keys_aead:
  assumes "crypto_laws c" "keys_wf k"
  shows "length (aead_seal c (tk_suite k) (tk_key k) (nonce (tk_iv k) q) a m) = length m + 16"
    and "aead_open c (tk_suite k) (tk_key k) (nonce (tk_iv k) q) a x = Some m \<longleftrightarrow>
      x = aead_seal c (tk_suite k) (tk_key k) (nonce (tk_iv k) q) a m"
    and "aead_open c (tk_suite k) (tk_key k) (nonce (tk_iv k) q) a
      (aead_seal c (tk_suite k) (tk_key k) (nonce (tk_iv k) q) a m) = Some m"
  using assms aead_lawsD [OF suite_aead_laws [OF assms(1), of "tk_suite k"], of "tk_key k" "nonce (tk_iv k) q"]
  by (simp_all add: keys_wf_def length_nonce)

lemma split_inner_pad: "t \<noteq> 0 \<Longrightarrow> split_inner (p @ t # replicate n 0) = Ok (t, p)"
proof -
  assume "t \<noteq> 0"
  then have "dropWhile (\<lambda>b. b = 0) (replicate n 0 @ [t] @ rev p) = t # rev p"
    by (induction n) simp_all
  then show ?thesis by (simp add: split_inner_def)
qed

lemma split_inner_Ok_iff:
  "split_inner plain = Ok (t, p) \<longleftrightarrow> t \<noteq> 0 \<and> (\<exists>n. plain = p @ t # replicate n 0)"
proof
  assume ok: "split_inner plain = Ok (t, p)"
  define q where "q = rev (dropWhile (\<lambda>b. b = 0) (rev plain))"
  have q: "q \<noteq> []" "last q = t" "butlast q = p"
    using ok by (auto simp: split_inner_def q_def Let_def split: if_splits)
  then have "rev q \<noteq> []" "hd (rev q) = t" by (simp_all add: hd_rev)
  then have t: "t \<noteq> 0" using hd_dropWhile [of "\<lambda>b. b = 0" "rev plain"] by (auto simp: q_def)
  have "rev plain = takeWhile (\<lambda>b. b = 0) (rev plain) @ rev q"
    by (simp add: q_def)
  moreover have "takeWhile (\<lambda>b. b = 0) (rev plain) = replicate (length (takeWhile (\<lambda>b. b = 0) (rev plain))) 0"
    by (rule replicate_eqI) (auto dest: set_takeWhileD)
  ultimately have "plain = q @ replicate (length (takeWhile (\<lambda>b. b = 0) (rev plain))) 0"
    by (metis rev_append rev_replicate rev_rev_ident)
  moreover have "q = p @ [t]" using q by (metis append_butlast_last_id)
  ultimately show "t \<noteq> 0 \<and> (\<exists>n. plain = p @ t # replicate n 0)" using t by auto
qed (auto simp: split_inner_pad)

lemma pad_inner_shape: "\<exists>n. pad_inner x pad = x @ replicate n 0"
  by (auto simp: pad_inner_def split: option.split intro: exI [of _ 0])

lemma length_record_header [simp]: "length (record_header n) = 5"
  by (simp add: record_header_def)

lemma length_pad_inner:
  "length (pad_inner x pad) = (case pad of None \<Rightarrow> length x | Some t \<Rightarrow> max (length x) (t - 21))"
  by (auto simp: pad_inner_def split: option.split)

lemma encrypt_record_length:
  assumes "crypto_laws c" "keys_wf k"
  shows "length (encrypt_app_padded c k t p pad)
      = (case pad of None \<Rightarrow> length p + 22 | Some n \<Rightarrow> max (length p + 22) n)"
  using keys_aead(1) [OF assms]
  by (auto simp: encrypt_app_padded_def length_pad_inner Let_def split: option.split)

lemma decrypt_encrypted:
  assumes "crypto_laws c" "keys_wf k" "t \<noteq> 0"
  shows "decrypt_app c k (drop 5 (encrypt_app_padded c k t p pad)) = Ok (t, p)"
proof -
  obtain n where n: "pad_inner (p @ [t]) pad = p @ t # replicate n 0"
    using pad_inner_shape [of "p @ [t]" pad] by auto
  show ?thesis
    using keys_aead(1,3) [OF assms(1,2)] assms(3)
    by (simp add: encrypt_app_padded_def decrypt_app_def Let_def n split_inner_pad)
qed

text \<open>
  A flight of records: each is sealed under the next sequence number, and the
  receiver, starting from the same keys, opens them in order.
\<close>

fun encrypt_all :: "RealityCrypto \<Rightarrow> TrafficKeys \<Rightarrow> (u8 \<times> bytes \<times> nat option) list \<Rightarrow> bytes list" where
  "encrypt_all c k [] = []"
| "encrypt_all c k ((t, p, pad) # ms) = encrypt_app_padded c k t p pad # encrypt_all c (next_seq k) ms"

fun decrypt_all ::
  "RealityCrypto \<Rightarrow> TrafficKeys \<Rightarrow> bytes list \<Rightarrow> (TlsError, (u8 \<times> bytes) list \<times> TrafficKeys) outcome" where
  "decrypt_all c k [] = Ok ([], k)"
| "decrypt_all c k (b # bs) =
    obind (keys_decrypt c k b) (\<lambda>(m, k'). obind (decrypt_all c k' bs) (\<lambda>(ms, k''). Ok (m # ms, k'')))"

lemma keys_wf_next [simp]: "keys_wf (next_seq k) = keys_wf k"
  by (simp add: keys_wf_def next_seq_def)

lemma next_seq_iter: "(next_seq ^^ n) k = k\<lparr>tk_seq := tk_seq k + of_nat n\<rparr>"
  by (induction n) (simp_all add: next_seq_def)

text \<open>
  Records round trip and hit the destination's sizes.  A flight of
  messages of non-zero content type, each with an optional target length, is
  received as exactly these messages in order and leaves the receiver at the
  next sequence number; each record has exactly the target length when the
  message leaves room for it, and its natural length otherwise.
\<close>

theorem record_flight_roundtrip:
  assumes "crypto_laws c" "keys_wf k" "list_all (\<lambda>(t, p, pad). t \<noteq> 0) ms"
  shows "decrypt_all c k (map (drop 5) (encrypt_all c k ms))
      = Ok (map (\<lambda>(t, p, pad). (t, p)) ms, (next_seq ^^ length ms) k) \<and>
    map length (encrypt_all c k ms)
      = map (\<lambda>(t, p, pad). case pad of None \<Rightarrow> length p + 22 | Some n \<Rightarrow> max (length p + 22) n) ms"
  using assms(2,3)
proof (induction ms arbitrary: k)
  case (Cons m ms)
  obtain t p pad where m: "m = (t, p, pad)" by (cases m)
  show ?case
    using Cons.IH [of "next_seq k"] Cons.prems decrypt_encrypted [OF assms(1) Cons.prems(1), of t p pad]
      encrypt_record_length [OF assms(1) Cons.prems(1), of t p pad]
    by (simp add: m keys_decrypt_def funpow_swap1)
qed simp

text \<open>
  Nothing else is accepted.  A record body decrypts to a content type and
  a message exactly when it is the seal, under the receiver's key and current
  sequence number and the header of its own length, of that message followed by
  the non-zero type and padding zeros.
\<close>

theorem decrypt_accepts_iff:
  assumes "crypto_laws c" "keys_wf k"
  shows "decrypt_app c k body = Ok (t, p) \<longleftrightarrow>
    t \<noteq> 0 \<and> (\<exists>n. body = aead_seal c (tk_suite k) (tk_key k) (nonce (tk_iv k) (tk_seq k))
      (record_header (length body)) (p @ t # replicate n 0))"
proof -
  have "decrypt_app c k body = Ok (t, p) \<longleftrightarrow>
    (\<exists>plain. aead_open c (tk_suite k) (tk_key k) (nonce (tk_iv k) (tk_seq k))
       (record_header (length body)) body = Some plain \<and> split_inner plain = Ok (t, p))"
    by (auto simp: decrypt_app_def split: option.splits)
  then show ?thesis
    unfolding split_inner_Ok_iff keys_aead(2) [OF assms] by blast
qed

definition sample_traffic :: TrafficKeys where
  "sample_traffic = \<lparr>tk_suite = Aes128GcmSha256, tk_key = replicate 16 1, tk_iv = replicate 12 2, tk_seq = 7\<rparr>"

lemma sample_traffic_wf: "keys_wf sample_traffic"
  by (simp add: keys_wf_def sample_traffic_def)

theorem record_flight_roundtrip_witness:
  "decrypt_all reality_stub sample_traffic
      (map (drop 5) (encrypt_all reality_stub sample_traffic [(0x16, [1, 2, 3], Some 600), (0x17, [0, 0], None)]))
     = Ok ([(0x16, [1, 2, 3]), (0x17, [0, 0])], sample_traffic\<lparr>tk_seq := 9\<rparr>) \<and>
   map length (encrypt_all reality_stub sample_traffic [(0x16, [1, 2, 3], Some 600), (0x17, [0, 0], None)])
     = [600, 24]"
  using record_flight_roundtrip [OF reality_stub_laws sample_traffic_wf,
      of "[(0x16, [1, 2, 3], Some 600), (0x17, [0, 0], None)]"]
  by (simp add: next_seq_def sample_traffic_def)

theorem decrypt_accepts_iff_witness:
  "decrypt_app reality_stub sample_traffic ([42, 0x17, 0] @ replicate 16 0) = Ok (0x17, [42])"
  unfolding decrypt_accepts_iff [OF reality_stub_laws sample_traffic_wf]
  by (auto simp: sample_traffic_def reality_stub_def zero_tag_seal_def intro!: exI [of _ 1])

end
