(* ===== verification/Reality_Server_Hello.thy ===== *)
theory Reality_Server_Hello
  imports Reality_Hello
begin

text \<open>
  The TLS 1.3 ServerHello of the REALITY camouflage (the second half of
  \<open>payphone-transport/src/reality/hello.rs\<close>): its parser, the in-place
  patch of the key share that lets the server answer with the destination's own
  ServerHello, and the builder of a ServerHello of its own.
\<close>

section \<open>The ServerHello\<close>

definition HRR_RANDOM :: bytes where
  "HRR_RANDOM =
    [0xCF, 0x21, 0xAD, 0x74, 0xE5, 0x9A, 0x61, 0x11, 0xBE, 0x1D, 0x8C, 0x02, 0x1E, 0x65, 0xB8, 0x91,
     0xC2, 0xA2, 0x11, 0x16, 0x7A, 0xBB, 0x8C, 0x5E, 0x07, 0x9E, 0x09, 0xE2, 0xC8, 0xA8, 0x33, 0x9C]"

record ServerHelloView =
  sh_random :: bytes
  sh_session_id :: bytes
  sh_cipher :: u16
  sh_extensions :: "u16 list"
  sh_x25519_public :: "bytes option"

definition parse_server_share :: "bytes \<Rightarrow> bytes option" where
  "parse_server_share data =
    (if length data < 4 then None
     else do {
       let grp = be16 (take 2 data);
       key \<leftarrow> get_range 4 (unat (be16 (take 2 (drop 2 data)))) data;
       if grp = GROUP_X25519 \<and> length key = 32 then Some key
       else if grp = GROUP_X25519_MLKEM768 \<and> 32 \<le> length key
       then Some (drop (length key - 32) key)
       else None })"

function server_ext_loop ::
  "bytes \<Rightarrow> u16 list \<Rightarrow> bytes option \<Rightarrow> (u16 list \<times> bytes option) option" where
  "server_ext_loop exts types x25519 =
    (if length exts < 4 then Some (types, x25519)
     else let typ = be16 (take 2 exts); len = unat (be16 (take 2 (drop 2 exts))) in
       case get_range 4 len exts of
         None \<Rightarrow> None
       | Some data \<Rightarrow>
           server_ext_loop (drop (4 + len) exts) (types @ [typ])
             (if typ = EXT_KEY_SHARE then parse_server_share data else x25519))"
  by pat_completeness auto
termination by (relation "measure (\<lambda>(exts, _, _). length exts)") auto

definition server_hello_parse :: "bytes \<Rightarrow> ServerHelloView option" where
  "server_hello_parse msg =
    (if length msg < 6 \<or> msg ! 0 \<noteq> 2 then None
     else do {
       body_len \<leftarrow> u24 (take 3 (drop 1 msg));
       body \<leftarrow> get_range 4 body_len msg;
       random \<leftarrow> get_range 2 32 body;
       if random = HRR_RANDOM then None
       else do {
         sid_len \<leftarrow> map_option unat (nth_opt 34 body);
         session_id \<leftarrow> get_range 35 sid_len body;
         let i = 35 + sid_len;
         cipher \<leftarrow> map_option be16 (get_range i 2 body);
         let i = i + 3;
         ext_len \<leftarrow> map_option (unat \<circ> be16) (get_range i 2 body);
         let i = i + 2;
         exts \<leftarrow> get_range i ext_len body;
         (types, x25519) \<leftarrow> server_ext_loop exts [] None;
         Some \<lparr>sh_random = random, sh_session_id = session_id, sh_cipher = cipher,
               sh_extensions = types, sh_x25519_public = x25519\<rparr> }})"

definition ja3s :: "ServerHelloView \<Rightarrow> u16 \<times> u16 \<times> u16 list" where
  "ja3s v = (0x0303, sh_cipher v, sh_extensions v)"

text \<open>
  The patch works on indices of the body; it returns the changed body, or
  \<open>None\<close> for the \<open>false\<close> results, which leave the message as it was.
\<close>

definition write_at :: "nat \<Rightarrow> bytes \<Rightarrow> bytes \<Rightarrow> bytes" where
  "write_at i v b = take i b @ v @ drop (i + length v) b"

function patch_loop :: "bytes \<Rightarrow> nat \<Rightarrow> nat \<Rightarrow> bytes \<Rightarrow> bytes option" where
  "patch_loop body i end_at public =
    (if end_at < i + 4 then None
     else let typ = be16 (take 2 (drop i body));
              len = unat (be16 (take 2 (drop (i + 2) body)));
              data_at = i + 4 in
       if end_at < data_at + len then None
       else if typ = EXT_KEY_SHARE \<and> 4 \<le> len then
         (let grp = be16 (take 2 (drop data_at body));
              key_len = unat (be16 (take 2 (drop (data_at + 2) body)));
              key_at = data_at + 4 in
          if data_at + len < key_at + key_len then None
          else if grp = GROUP_X25519 \<and> key_len = 32 then Some (write_at key_at public body)
          else if grp = GROUP_X25519_MLKEM768 \<and> 32 \<le> key_len
          then Some (write_at (key_at + key_len - 32) public body)
          else None)
       else patch_loop body (data_at + len) end_at public)"
  by pat_completeness auto
termination by (relation "measure (\<lambda>(_, i, end_at, _). end_at - i)") auto

definition patch_server_hello_x25519 :: "bytes \<Rightarrow> bytes \<Rightarrow> bool \<times> bytes" where
  "patch_server_hello_x25519 msg public =
    (if length msg < 6 \<or> msg ! 0 \<noteq> 2 then (False, msg)
     else case do {
       body_len \<leftarrow> u24 (take 3 (drop 1 msg));
       body \<leftarrow> get_range 4 body_len msg;
       sid_len \<leftarrow> map_option unat (nth_opt 34 body);
       let i = 34 + (1 + sid_len + 2 + 1);
       ext_len \<leftarrow> map_option (unat \<circ> be16) (get_range i 2 body);
       let i = i + 2;
       if length body < i + ext_len then None
       else map_option (\<lambda>b. (body_len, b)) (patch_loop body i (i + ext_len) public) } of
       None \<Rightarrow> (False, msg)
     | Some (body_len, body) \<Rightarrow> (True, take 4 msg @ body @ drop (4 + body_len) msg))"

definition server_versions_ext :: bytes where
  "server_versions_ext = ext EXT_SUPPORTED_VERSIONS (to_be 2 (0x0304 :: u16))"

definition server_share_ext :: "bytes \<Rightarrow> bytes" where
  "server_share_ext public =
     ext EXT_KEY_SHARE (to_be 2 GROUP_X25519 @ to_be 2 (32 :: u16) @ public)"

definition server_extensions :: "bytes \<Rightarrow> u16 list \<Rightarrow> bytes" where
  "server_extensions public order =
     concat (map (\<lambda>typ. if typ = EXT_SUPPORTED_VERSIONS then server_versions_ext
                        else if typ = EXT_KEY_SHARE then server_share_ext public else []) order) @
     (if EXT_SUPPORTED_VERSIONS \<in> set order then [] else server_versions_ext) @
     (if EXT_KEY_SHARE \<in> set order then [] else server_share_ext public)"

definition build_server_hello_handshake ::
  "bytes \<Rightarrow> bytes \<Rightarrow> u16 \<Rightarrow> bytes \<Rightarrow> u16 list \<Rightarrow> bytes" where
  "build_server_hello_handshake random session_id cipher server_public order =
    (let exts = server_extensions server_public order;
         body = to_be 2 (0x0303 :: u16) @ random @ [of_nat (length session_id)] @ session_id @
                to_be 2 cipher @ [0] @
                to_be 2 (of_nat (length exts) :: u16) @ exts
     in [2] @ u24_bytes (length body) @ body)"

declare server_ext_loop.simps [simp del] patch_loop.simps [simp del]

section \<open>Extension lists\<close>

text \<open>
  A block of extensions is a list of type and payload, followed by at most
  three bytes that the parsers ignore.  Both the parser and the patch of a
  ServerHello are described on such lists.
\<close>

fun patch_share :: "bytes \<Rightarrow> bytes \<Rightarrow> bytes option" where
  "patch_share data public =
    (let grp = be16 (take 2 data); key_len = unat (be16 (take 2 (drop 2 data))) in
     if length data < 4 + key_len then None
     else if grp = GROUP_X25519 \<and> key_len = 32 then Some (write_at 4 public data)
     else if grp = GROUP_X25519_MLKEM768 \<and> 32 \<le> key_len
     then Some (write_at (4 + key_len - 32) public data)
     else None)"

fun patch_list :: "(u16 \<times> bytes) list \<Rightarrow> bytes \<Rightarrow> (u16 \<times> bytes) list option" where
  "patch_list [] public = None"
| "patch_list ((t, d) # ps) public =
    (if t = EXT_KEY_SHARE \<and> 4 \<le> length d
     then map_option (\<lambda>d'. (t, d') # ps) (patch_share d public)
     else map_option ((#) (t, d)) (patch_list ps public))"

definition last_share :: "(u16 \<times> bytes) list \<Rightarrow> bytes option \<Rightarrow> bytes option" where
  "last_share ps x = foldl (\<lambda>x (t, d). if t = EXT_KEY_SHARE then parse_server_share d else x) x ps"

abbreviation ext_sized :: "(u16 \<times> bytes) list \<Rightarrow> bool" where
  "ext_sized ps \<equiv> list_all (\<lambda>(t, d). length d < 65536) ps"

lemma ext_of_bytes:
  assumes "4 \<le> length b" "4 + unat (be16 (take 2 (drop 2 b))) \<le> length b"
  shows "b = ext (be16 (take 2 b)) (take (unat (be16 (take 2 (drop 2 b)))) (drop 4 b)) @
      drop (4 + unat (be16 (take 2 (drop 2 b)))) b"
proof -
  define n where "n = unat (be16 (take 2 (drop 2 b)))"
  have "to_be 2 (be16 (take 2 b)) = take 2 b"
    "to_be 2 (be16 (take 2 (drop 2 b))) = take 2 (drop 2 b)"
    using assms(1) by (simp_all add: to_be_be16)
  moreover have "length (take n (drop 4 b)) = n" using assms by (simp add: n_def)
  moreover have "(of_nat n :: u16) = be16 (take 2 (drop 2 b))" by (simp add: n_def)
  moreover have "b = take 2 b @ take 2 (drop 2 b) @ take n (drop 4 b) @ drop (4 + n) b"
    using assms(1) by (simp add: add.commute [of 4 n] flip: drop_drop)
      (metis append_take_drop_id drop_drop numeral_Bit0)
  ultimately show ?thesis unfolding n_def [symmetric] ext_def by simp
qed

lemma server_ext_loop_ext:
  "length d < 65536 \<Longrightarrow> server_ext_loop (ext t d @ rest) types x
     = server_ext_loop rest (types @ [t]) (if t = EXT_KEY_SHARE then parse_server_share d else x)"
  by (subst server_ext_loop.simps) (simp add: ext_header Let_def del: drop_append take_append)

lemma server_ext_loop_list:
  "ext_sized ps \<Longrightarrow> length rst < 4 \<Longrightarrow>
     server_ext_loop (ext_bytes ps @ rst) types x = Some (types @ map fst ps, last_share ps x)"
proof (induction ps arbitrary: types x)
  case Nil
  then show ?case by (simp add: server_ext_loop.simps [of rst] last_share_def)
next
  case (Cons p ps)
  then show ?case by (cases p) (simp add: server_ext_loop_ext last_share_def)
qed

lemma server_ext_loop_inv:
  "server_ext_loop exts types x = Some out \<Longrightarrow>
     \<exists>ps rst. exts = ext_bytes ps @ rst \<and> ext_sized ps \<and> length rst < 4"
proof (induction exts types x rule: server_ext_loop.induct)
  case (1 exts types x)
  show ?case
  proof (cases "length exts < 4")
    case True
    then show ?thesis by (intro exI [of _ "[]"] exI [of _ exts]) simp
  next
    case False
    define n where "n = unat (be16 (take 2 (drop 2 exts)))"
    from 1(2) False have n: "4 + n \<le> length exts"
      by (subst (asm) server_ext_loop.simps)
        (auto simp: get_range_def n_def Let_def split: if_splits)
    from 1(2) False n have "server_ext_loop (drop (4 + n) exts) (types @ [be16 (take 2 exts)])
        (if be16 (take 2 exts) = EXT_KEY_SHARE then parse_server_share (take n (drop 4 exts)) else x) = Some out"
      by (subst (asm) server_ext_loop.simps)
        (auto simp: get_range_def Let_def simp flip: n_def)
    with 1(1) [OF False refl, folded n_def, OF refl, of "take n (drop 4 exts)"] n
    obtain ps rst where ps: "drop (4 + n) exts = ext_bytes ps @ rst" "ext_sized ps" "length rst < 4"
      by (auto simp: get_range_def)
    have "n < 65536" using unat_bound [of "be16 (take 2 (drop 2 exts))"] by (simp add: n_def)
    then have "ext_sized ((be16 (take 2 exts), take n (drop 4 exts)) # ps)" using ps(2) by simp
    moreover have "exts = ext_bytes ((be16 (take 2 exts), take n (drop 4 exts)) # ps) @ rst"
      using ext_of_bytes [of exts, folded n_def] False n ps(1) by simp
    ultimately show ?thesis using ps(3) by blast
  qed
qed

section \<open>The patched ServerHello\<close>

lemma length_write_at: "i + length v \<le> length b \<Longrightarrow> length (write_at i v b) = length b"
  by (simp add: write_at_def)

lemma write_at_inside:
  assumes "j + length v \<le> length m"
  shows "write_at (length a + j) v (a @ m @ c) = a @ write_at j v m @ c"
  using assms by (simp add: write_at_def)

lemma patch_share_Some:
  assumes "patch_share d public = Some d'" "length public = 32"
  shows "length d' = length d" and "parse_server_share d' = Some public"
proof -
  define n where "n = unat (be16 (take 2 (drop 2 d)))"
  have n: "4 + n \<le> length d" and d': "be16 (take 2 d) = GROUP_X25519 \<and> n = 32 \<and> d' = write_at 4 public d
      \<or> be16 (take 2 d) = GROUP_X25519_MLKEM768 \<and> 32 \<le> n \<and> d' = write_at (4 + n - 32) public d"
    using assms(1) by (auto simp: n_def Let_def split: if_splits)
  then obtain k where k: "d' = write_at (4 + k) public d" "k + 32 = n"
    by (elim disjE) (auto intro: that [of 0] that [of "n - 32"])
  then have hd: "take 2 d' = take 2 d" "take 2 (drop 2 d') = take 2 (drop 2 d)"
    "length d' = length d"
    using n assms(2) by (simp_all add: write_at_def drop_take numeral_2_eq_2)
  moreover have "take n (drop 4 d') = take k (drop 4 d) @ public"
    using k n assms(2) by (simp add: write_at_def drop_take)
  ultimately show "parse_server_share d' = Some public" "length d' = length d"
    using n d' k assms(2)
    by (auto simp: parse_server_share_def get_range_def Let_def constants simp flip: n_def)
qed

lemma patch_share_None:
  "4 \<le> length d \<Longrightarrow> patch_share d public = None \<longleftrightarrow> parse_server_share d = None"
  by (auto simp: parse_server_share_def get_range_def Let_def constants)

lemma parse_server_share_short: "length d < 4 \<Longrightarrow> parse_server_share d = None"
  by (simp add: parse_server_share_def)

lemma patch_list_Some:
  assumes "patch_list ps public = Some qs" "length public = 32"
  shows "map fst qs = map fst ps" "map (length \<circ> snd) qs = map (length \<circ> snd) ps"
    and "distinct (map fst ps) \<Longrightarrow> last_share qs x = Some public"
proof -
  have "map fst qs = map fst ps \<and> map (length \<circ> snd) qs = map (length \<circ> snd) ps \<and>
      (distinct (map fst ps) \<longrightarrow> last_share qs x = Some public)"
    using assms(1)
  proof (induction ps arbitrary: qs x)
    case (Cons p ps)
    obtain t d where p: "p = (t, d)" by (cases p)
    have rest: "EXT_KEY_SHARE \<notin> fst ` set ps \<Longrightarrow> last_share ps y = y" for y ps
      by (induction ps) (auto simp: last_share_def)
    show ?case
    proof (cases "t = EXT_KEY_SHARE \<and> 4 \<le> length d")
      case True
      with Cons.prems p obtain d' where d': "patch_share d public = Some d'" "qs = (t, d') # ps"
        by auto
      with patch_share_Some [OF d'(1) assms(2)] True p show ?thesis
        using rest [of ps "Some public"] by (auto simp: last_share_def)
    next
      case False
      with Cons.prems p obtain qs' where "patch_list ps public = Some qs'" "qs = (t, d) # qs'"
        by auto
      with Cons.IH [of qs'] p show ?thesis by (auto simp: last_share_def)
    qed
  qed simp
  then show "map fst qs = map fst ps" "map (length \<circ> snd) qs = map (length \<circ> snd) ps"
    "distinct (map fst ps) \<Longrightarrow> last_share qs x = Some public" by blast+
qed

lemma patch_list_None:
  "distinct (map fst ps) \<Longrightarrow> patch_list ps public = None \<longleftrightarrow> last_share ps None = None"
proof (induction ps)
  case (Cons p ps)
  obtain t d where p: "p = (t, d)" by (cases p)
  have rest: "EXT_KEY_SHARE \<notin> fst ` set ps \<Longrightarrow> last_share ps y = y" for y
    by (induction ps) (auto simp: last_share_def)
  have none: "EXT_KEY_SHARE \<notin> fst ` set ps \<Longrightarrow> patch_list ps public = None"
    by (induction ps) auto
  have "last_share (p # ps) None = last_share ps (if t = EXT_KEY_SHARE then parse_server_share d else None)"
    by (simp add: last_share_def p)
  then show ?case
    using Cons p rest none
    by (cases "t = EXT_KEY_SHARE"; cases "4 \<le> length d")
      (auto simp: patch_share_None parse_server_share_short simp del: patch_share.simps)
qed (simp add: last_share_def)

lemma ext_at:
  assumes "length pre = i" "length d < 65536"
  shows "take 2 (drop i (pre @ ext t d @ post)) = to_be 2 t"
    and "take 2 (drop (i + 2) (pre @ ext t d @ post)) = to_be 2 (of_nat (length d) :: u16)"
    and "4 \<le> length d \<Longrightarrow> take 2 (drop (i + 4) (pre @ ext t d @ post)) = take 2 d"
    and "4 \<le> length d \<Longrightarrow> take 2 (drop (i + 4 + 2) (pre @ ext t d @ post)) = take 2 (drop 2 d)"
    and "unat (be16 (to_be 2 (of_nat (length d) :: u16))) = length d"
  using assms by (simp_all add: ext_def unat_of_nat_u16)

lemma write_at_ext:
  assumes "length pre = i" "j + length v \<le> length d"
  shows "write_at (i + 4 + j) v (pre @ ext t d @ post) = pre @ ext t (write_at j v d) @ post"
  using write_at_inside [OF assms(2), where a = "pre @ to_be 2 t @ to_be 2 (of_nat (length d) :: u16)"] assms
  by (simp add: ext_def length_write_at)

lemma patch_loop_ext:
  assumes "length pre = i" "length d < 65536" "length public = 32"
    and "end_at = i + length (ext t d @ rest)"
  shows "patch_loop (pre @ ext t d @ rest @ post) i end_at public =
    (if t = EXT_KEY_SHARE \<and> 4 \<le> length d
     then map_option (\<lambda>d'. pre @ ext t d' @ rest @ post) (patch_share d public)
     else patch_loop ((pre @ ext t d) @ rest @ post) (length (pre @ ext t d)) end_at public)"
proof -
  define kl where "kl = unat (be16 (take 2 (drop 2 d)))"
  have w: "write_at (i + 4 + 4) public (pre @ ext t d @ rest @ post)
        = pre @ ext t (write_at 4 public d) @ rest @ post" if "4 + kl \<le> length d" "kl = 32"
    using write_at_ext [of pre i 4 public d t "rest @ post"] assms that by simp
  have w': "write_at (i + 4 + 4 + kl - 32) public (pre @ ext t d @ rest @ post)
        = pre @ ext t (write_at (4 + kl - 32) public d) @ rest @ post"
    if "4 + kl \<le> length d" "32 \<le> kl"
    using write_at_ext [of pre i "4 + kl - 32" public d t "rest @ post"] assms that by simp
  define b where "b = pre @ ext t d @ rest @ post"
  have at: "be16 (take 2 (drop i b)) = t" "unat (be16 (take 2 (drop (i + 2) b))) = length d"
    "4 \<le> length d \<Longrightarrow> take 2 (drop (i + 4) b) = take 2 d"
    "4 \<le> length d \<Longrightarrow> unat (be16 (take 2 (drop (i + 4 + 2) b))) = kl"
    using ext_at [OF assms(1,2)] by (simp_all only: b_def kl_def be16_to_be)
  have room: "i + 4 + length d \<le> end_at" using assms(4) by simp
  have next_at: "length (pre @ ext t d) = i + 4 + length d" using assms(1) by simp
  have "patch_loop b i end_at public =
    (if t = EXT_KEY_SHARE \<and> 4 \<le> length d
     then map_option (\<lambda>d'. pre @ ext t d' @ rest @ post) (patch_share d public)
     else patch_loop b (i + 4 + length d) end_at public)"
  proof (cases "t = EXT_KEY_SHARE \<and> 4 \<le> length d")
    case True
    then show ?thesis
      using at room w [folded b_def] w' [folded b_def]
      by (subst patch_loop.simps) (simp add: Let_def flip: kl_def, blast)
  next
    case False
    then show ?thesis
      using at(1,2) room by (subst patch_loop.simps) (auto simp: Let_def simp del: patch_share.simps)
  qed
  then show ?thesis using next_at by (simp only: b_def append_assoc)
qed

lemma patch_loop_list:
  "length pre = i \<Longrightarrow> ext_sized ps \<Longrightarrow> length public = 32 \<Longrightarrow> length rst < 4 \<Longrightarrow>
   end_at = i + length (ext_bytes ps @ rst) \<Longrightarrow>
     patch_loop (pre @ ext_bytes ps @ rst @ post) i end_at public
       = map_option (\<lambda>qs. pre @ ext_bytes qs @ rst @ post) (patch_list ps public)"
proof (induction ps arbitrary: pre i)
  case Nil
  then show ?case by (simp add: patch_loop.simps)
next
  case (Cons p ps)
  obtain t d where p: "p = (t, d)" by (cases p)
  have IH: "patch_loop ((pre @ ext t d) @ ext_bytes ps @ rst @ post) (length (pre @ ext t d)) end_at public
      = map_option (\<lambda>qs. (pre @ ext t d) @ ext_bytes qs @ rst @ post) (patch_list ps public)"
    using Cons.prems p by (intro Cons.IH) auto
  show ?case
    using patch_loop_ext [of pre i d public end_at t "ext_bytes ps @ rst" post] Cons.prems IH
    by (simp add: p option.map_comp comp_def del: patch_share.simps)
qed

abbreviation server_hello_body :: "bytes \<Rightarrow> bytes \<Rightarrow> bytes \<Rightarrow> u16 \<Rightarrow> u8 \<Rightarrow> bytes \<Rightarrow> bytes \<Rightarrow> bytes" where
  "server_hello_body v random sid cipher cm exts post \<equiv>
     v @ random @ [of_nat (length sid)] @ sid @ to_be 2 cipher @ [cm] @
     to_be 2 (of_nat (length exts) :: u16) @ exts @ post"

lemma server_body_fields:
  assumes "body = server_hello_body v random sid cipher cm exts post"
    and "length v = 2" "length random = 32" "length sid < 256" "length exts < 65536"
  shows "get_range 2 32 body = Some random" "nth_opt 34 body = Some (of_nat (length sid))"
    "get_range 35 (length sid) body = Some sid"
    "get_range (35 + length sid) 2 body = Some (to_be 2 cipher)"
    "get_range (38 + length sid) 2 body = Some (to_be 2 (of_nat (length exts) :: u16))"
    "get_range (40 + length sid) (length exts) body = Some exts"
    "40 + length sid + length exts \<le> length body"
  using assms by (simp_all add: get_range_def nth_opt_def nth_append nth_Cons' drop_Cons' unat_of_nat_u8)

lemma server_hello_parse_body:
  assumes body: "body = server_hello_body v random sid cipher cm exts post"
    and lens: "length v = 2" "length random = 32" "length sid < 256" "length exts < 65536"
    and hdr: "length hdr = 3" "u24 hdr = Some (length body)"
  shows "server_hello_parse ([2] @ hdr @ body @ trailer) =
    (if random = HRR_RANDOM then None
     else map_option (\<lambda>(types, x). \<lparr>sh_random = random, sh_session_id = sid, sh_cipher = cipher,
            sh_extensions = types, sh_x25519_public = x\<rparr>) (server_ext_loop exts [] None))"
proof -
  note f = server_body_fields [OF body lens]
  have "get_range 4 (length body) ([2] @ hdr @ body @ trailer) = Some body"
    using get_range_at [of "[2] @ hdr" 4 body "length body" trailer] hdr by simp
  then show ?thesis
    using f hdr lens
    by (cases "server_ext_loop exts [] None")
      (simp_all add: server_hello_parse_def Let_def unat_of_nat_u16 unat_of_nat_u8 split_beta add.commute)
qed

lemma split_range: "i + n \<le> length b \<Longrightarrow> drop i b = take n (drop i b) @ drop (i + n) b"
  by (simp add: add.commute [of i n] flip: drop_drop)

lemma server_body_shape:
  assumes r: "get_range 2 32 body = Some random"
    and sl: "nth_opt 34 body = Some sl" and sid: "get_range 35 (unat sl) body = Some sid"
    and c: "get_range (35 + unat sl) 2 body = Some c"
    and el: "get_range (38 + unat sl) 2 body = Some el"
    and exts: "get_range (40 + unat sl) (unat (be16 el)) body = Some exts"
  shows "body = server_hello_body (take 2 body) random sid (be16 c) (body ! (37 + unat sl)) exts
      (drop (40 + unat sl + unat (be16 el)) body)"
    and "length (take 2 body) = 2" "length random = 32" "length sid < 256" "length exts < 65536"
    and "unat sl = length sid" "unat (be16 el) = length exts"
proof -
  define n where "n = unat sl"
  have len: "40 + n + unat (be16 el) \<le> length body" "exts = take (unat (be16 el)) (drop (40 + n) body)"
    using exts by (auto simp: get_range_def n_def split: if_splits)
  have parts: "random = take 32 (drop 2 body)" "sl = body ! 34" "sid = take n (drop 35 body)"
    "c = take 2 (drop (35 + n) body)" "el = take 2 (drop (38 + n) body)"
    using r sl sid c el by (auto simp: get_range_def nth_opt_def n_def split: if_splits)
  show lens: "length (take 2 body) = 2" "length random = 32" "unat sl = length sid"
    "unat (be16 el) = length exts"
    using len parts by (simp_all add: n_def)
  show small: "length sid < 256" "length exts < 65536"
    using lens(3,4) unat_bound [of sl] unat_bound [of "be16 el"] by simp_all
  have be: "to_be 2 (be16 c) = c" "to_be 2 (be16 el) = el"
    using parts len by (simp_all add: to_be_be16)
  have words: "of_nat (length sid) = sl" "of_nat (length exts) = be16 el"
    by (simp_all flip: lens(3,4))
  have "body = take 2 body @ drop 2 body" by simp
  also have "drop 2 body = random @ drop 34 body"
    using split_range [of 2 32 body] len parts by simp
  also have "drop 34 body = sl # drop 35 body"
    using len parts Cons_nth_drop_Suc [of 34 body] by simp
  also have "drop 35 body = sid @ drop (35 + n) body"
    using split_range [of 35 n body] len parts by simp
  also have "drop (35 + n) body = c @ drop (37 + n) body"
    using split_range [of "35 + n" 2 body] len parts by simp
  also have "drop (37 + n) body = body ! (37 + n) # drop (38 + n) body"
    using len Cons_nth_drop_Suc [of "37 + n" body] by simp
  also have "drop (38 + n) body = el @ drop (40 + n) body"
    using split_range [of "38 + n" 2 body] len parts by simp
  also have "drop (40 + n) body = exts @ drop (40 + n + unat (be16 el)) body"
    using split_range [of "40 + n" "unat (be16 el)" body] len by simp
  finally show "body = server_hello_body (take 2 body) random sid (be16 c) (body ! (37 + unat sl)) exts
      (drop (40 + unat sl + unat (be16 el)) body)"
    unfolding words be n_def by simp
qed

lemma server_hello_shape:
  assumes "server_hello_parse msg = Some v"
  obtains hdr v2 cm exts post trailer where
    "msg = [2] @ hdr @ server_hello_body v2 (sh_random v) (sh_session_id v) (sh_cipher v) cm exts post @ trailer"
    "length hdr = 3"
    "u24 hdr = Some (length (server_hello_body v2 (sh_random v) (sh_session_id v) (sh_cipher v) cm exts post))"
    "length v2 = 2" "length (sh_random v) = 32" "length (sh_session_id v) < 256" "length exts < 65536"
    "sh_random v \<noteq> HRR_RANDOM"
    "server_ext_loop exts [] None = Some (sh_extensions v, sh_x25519_public v)"
proof -
  from assms obtain n body random sl sid c el exts where
    m: "6 \<le> length msg" "msg ! 0 = 2" "u24 (take 3 (drop 1 msg)) = Some n"
      "get_range 4 n msg = Some body"
    and b: "get_range 2 32 body = Some random" "nth_opt 34 body = Some sl"
      "get_range 35 (unat sl) body = Some sid"
      "get_range (35 + unat sl) 2 body = Some c" "get_range (38 + unat sl) 2 body = Some el"
      "get_range (40 + unat sl) (unat (be16 el)) body = Some exts"
    and e: "random \<noteq> HRR_RANDOM"
      "server_ext_loop exts [] None = Some (sh_extensions v, sh_x25519_public v)"
    and v: "sh_random v = random" "sh_session_id v = sid" "sh_cipher v = be16 c"
    by (auto simp: server_hello_parse_def Let_def bind_eq_Some_conv add.commute split: if_splits prod.splits)
  note shape = server_body_shape [OF b]
  have n: "4 + n \<le> length msg" "body = take n (drop 4 msg)"
    using m(4) by (auto simp: get_range_def split: if_splits)
  have "msg = msg ! 0 # take 3 (drop 1 msg) @ body @ drop (4 + n) msg"
    using n m(1) split_range [of 4 n msg] split_range [of 1 3 msg] by (cases msg) auto
  then have msg: "msg = [2] @ take 3 (drop 1 msg) @ body @ drop (4 + n) msg" using m(2) by simp
  have "length body = n" "length (take 3 (drop 1 msg)) = 3" using n m(1) by simp_all
  then show thesis
    using that [of "take 3 (drop 1 msg)" "take 2 body" "body ! (37 + unat sl)" exts
        "drop (40 + unat sl + unat (be16 el)) body" "drop (4 + n) msg"]
      msg m(3) shape e v by metis
qed

lemma ext_sized_same:
  assumes "map (length \<circ> snd) qs = map (length \<circ> snd) ps"
  shows "ext_sized qs = ext_sized ps" and "length (ext_bytes qs) = length (ext_bytes ps)"
proof -
  have "ext_sized ps \<longleftrightarrow> list_all (\<lambda>n. n < 65536) (map (length \<circ> snd) ps)" for ps :: "(u16 \<times> bytes) list"
    by (induction ps) auto
  with assms show "ext_sized qs = ext_sized ps" by simp
  have "length (ext_bytes ps) = sum_list (map ((+) 4) (map (length \<circ> snd) ps))" for ps
    by (induction ps) auto
  with assms show "length (ext_bytes qs) = length (ext_bytes ps)" by (simp del: map_map)
qed

lemma patch_body:
  assumes body: "body = server_hello_body v2 random sid cipher cm (ext_bytes ps @ rst) post"
    and lens: "length v2 = 2" "length random = 32" "length sid < 256"
      "length (ext_bytes ps @ rst) < 65536"
    and hdr: "length hdr = 3" "u24 hdr = Some (length body)"
    and ps: "ext_sized ps" "length rst < 4" "length public = 32"
  shows "patch_server_hello_x25519 ([2] @ hdr @ body @ trailer) public =
    (case patch_list ps public of
       None \<Rightarrow> (False, [2] @ hdr @ body @ trailer)
     | Some qs \<Rightarrow> (True, [2] @ hdr @
         server_hello_body v2 random sid cipher cm (ext_bytes qs @ rst) post @ trailer))"
proof -
  define exts where "exts = ext_bytes ps @ rst"
  note f = server_body_fields [OF body lens]
  define pre where "pre = v2 @ random @ [of_nat (length sid)] @ sid @ to_be 2 cipher @ [cm] @
     to_be 2 (of_nat (length exts) :: u16)"
  have "length pre = 40 + length sid" using lens by (simp add: pre_def)
  from patch_loop_list [OF this ps(1,3,2) refl, of post]
  have loop: "patch_loop body (40 + length sid) (40 + length sid + length exts) public
      = map_option (\<lambda>qs. pre @ ext_bytes qs @ rst @ post) (patch_list ps public)"
    by (simp add: body pre_def exts_def)
  have "get_range 4 (length body) ([2] @ hdr @ body @ trailer) = Some body"
    using get_range_at [of "[2] @ hdr" 4 body "length body" trailer] hdr by simp
  moreover have "drop (4 + length body) ([2] @ hdr @ body @ trailer) = trailer"
    using hdr by (simp add: drop_Cons')
  moreover have "length exts < 65536" using lens(4) by (simp add: exts_def)
  ultimately have p: "patch_server_hello_x25519 ([2] @ hdr @ body @ trailer) public =
    (case patch_list ps public of
       None \<Rightarrow> (False, [2] @ hdr @ body @ trailer)
     | Some qs \<Rightarrow> (True, [2] @ hdr @ (pre @ ext_bytes qs @ rst @ post) @ trailer))"
    using f hdr lens loop
    by (cases "patch_list ps public")
      (simp_all add: patch_server_hello_x25519_def Let_def unat_of_nat_u16 unat_of_nat_u8
        drop_Cons' flip: exts_def)
  have same: "pre @ ext_bytes qs @ rst @ post
      = server_hello_body v2 random sid cipher cm (ext_bytes qs @ rst) post"
    if "patch_list ps public = Some qs" for qs
    using ext_sized_same [OF patch_list_Some(2) [OF that ps(3)]] by (simp add: pre_def exts_def)
  show ?thesis unfolding p using same by (auto split: option.split)
qed

lemma patch_server_hello_parses:
  assumes parse: "server_hello_parse msg = Some v" and dist: "distinct (sh_extensions v)"
    and public: "length public = 32"
  shows "case patch_server_hello_x25519 msg public of (patched, msg') \<Rightarrow>
      (patched \<longleftrightarrow> sh_x25519_public v \<noteq> None) \<and> length msg' = length msg \<and>
      map_option ja3s (server_hello_parse msg') = Some (ja3s v) \<and>
      server_hello_parse msg' = Some (if patched then v\<lparr>sh_x25519_public := Some public\<rparr> else v)"
proof -
  let ?body = "\<lambda>v2 cm exts post. server_hello_body v2 (sh_random v) (sh_session_id v) (sh_cipher v) cm exts post"
  obtain hdr v2 cm exts post trailer where
    msg: "msg = [2] @ hdr @ ?body v2 cm exts post @ trailer"
    and hdr: "length hdr = 3" "u24 hdr = Some (length (?body v2 cm exts post))"
    and lens: "length v2 = 2" "length (sh_random v) = 32" "length (sh_session_id v) < 256"
      "length exts < 65536"
    and v: "sh_random v \<noteq> HRR_RANDOM"
      "server_ext_loop exts [] None = Some (sh_extensions v, sh_x25519_public v)"
    using server_hello_shape [OF parse] .
  obtain ps rst where ps: "exts = ext_bytes ps @ rst" "ext_sized ps" "length rst < 4"
    using server_ext_loop_inv [OF v(2)] by blast
  have types: "sh_extensions v = map fst ps" "sh_x25519_public v = last_share ps None"
    using v(2) server_ext_loop_list [OF ps(2,3), of "[]" None] by (simp_all add: ps(1))
  note patch = patch_body [OF refl lens(1-3) lens(4) [unfolded ps(1)] hdr(1) hdr(2) [unfolded ps(1)] ps(2,3) public,
      where trailer = trailer, folded ps(1), folded msg]
  show ?thesis
  proof (cases "patch_list ps public")
    case None
    then have "patch_server_hello_x25519 msg public = (False, msg)"
      using patch by simp
    moreover have "sh_x25519_public v = None"
      using None patch_list_None [of ps public] dist types by simp
    ultimately show ?thesis using parse by simp
  next
    case (Some qs)
    note qs = patch_list_Some [OF Some public]
    define exts' where "exts' = ext_bytes qs @ rst"
    have same: "ext_sized qs" "length exts' = length exts"
      using ext_sized_same [OF qs(2)] ps by (simp_all add: exts'_def)
    define msg' where "msg' = [2] @ hdr @ ?body v2 cm exts' post @ trailer"
    have p: "patch_server_hello_x25519 msg public = (True, msg')"
      using patch Some by (simp add: msg'_def exts'_def)
    have loop: "server_ext_loop exts' [] None = Some (sh_extensions v, Some public)"
      using server_ext_loop_list [OF same(1) ps(3), of "[]" None] qs(1) qs(3) [of None] dist types
      by (simp add: exts'_def)
    have "server_hello_parse msg' = Some (v\<lparr>sh_x25519_public := Some public\<rparr>)"
      unfolding msg'_def
      by (subst server_hello_parse_body [OF refl]) (use lens hdr same v loop in simp_all)
    moreover have "sh_x25519_public v \<noteq> None"
      using Some patch_list_None [of ps public] dist types by auto
    moreover have "length msg' = length msg" using same by (simp add: msg'_def msg)
    ultimately show ?thesis by (simp add: p ja3s_def)
  qed
qed

text \<open>
  Answering with the destination's ServerHello.  For every ServerHello the
  parser accepts whose extension types are distinct, the patch succeeds exactly
  when the message offers an X25519 share (alone or at the end of the hybrid
  ML-KEM share); a patched message has the same length and parses to the same
  random, session id, cipher and extension order with the server's own key in
  the share, hence the same JA3S fingerprint; a refused message is unchanged.
\<close>

theorem patch_keeps_ja3s:
  assumes "server_hello_parse msg = Some v" and "distinct (sh_extensions v)"
    and "length public = 32"
  shows "case patch_server_hello_x25519 msg public of (patched, msg') \<Rightarrow>
      (patched \<longleftrightarrow> sh_x25519_public v \<noteq> None) \<and> length msg' = length msg \<and>
      map_option ja3s (server_hello_parse msg') = Some (ja3s v) \<and>
      server_hello_parse msg' = Some (if patched then v\<lparr>sh_x25519_public := Some public\<rparr> else v)"
  using patch_server_hello_parses [OF assms] .

text \<open>A destination's ServerHello with one X25519 share, for the witnesses.\<close>

definition sample_server_hello :: bytes where
  "sample_server_hello =
     build_server_hello_handshake (replicate 32 5) (replicate 32 6) TLS_AES_128_GCM_SHA256
       (replicate 32 7) [EXT_KEY_SHARE, EXT_SUPPORTED_VERSIONS]"

section \<open>The built ServerHello\<close>

definition server_ext_pairs :: "bytes \<Rightarrow> u16 list \<Rightarrow> (u16 \<times> bytes) list" where
  "server_ext_pairs public order =
     map (\<lambda>t. (t, if t = EXT_SUPPORTED_VERSIONS then to_be 2 (0x0304 :: u16)
                   else to_be 2 GROUP_X25519 @ to_be 2 (32 :: u16) @ public))
       (filter (\<lambda>t. t = EXT_SUPPORTED_VERSIONS \<or> t = EXT_KEY_SHARE) order @
        (if EXT_SUPPORTED_VERSIONS \<in> set order then [] else [EXT_SUPPORTED_VERSIONS]) @
        (if EXT_KEY_SHARE \<in> set order then [] else [EXT_KEY_SHARE]))"

lemma EXT_distinct [simp]:
  "EXT_KEY_SHARE \<noteq> EXT_SUPPORTED_VERSIONS" "EXT_SUPPORTED_VERSIONS \<noteq> EXT_KEY_SHARE"
  by (simp_all add: constants)

lemma server_extensions_pairs: "server_extensions public order = ext_bytes (server_ext_pairs public order)"
proof -
  have "concat (map (\<lambda>t. if t = EXT_SUPPORTED_VERSIONS then server_versions_ext
          else if t = EXT_KEY_SHARE then server_share_ext public else []) ts)
      = ext_bytes (map (\<lambda>t. (t, if t = EXT_SUPPORTED_VERSIONS then to_be 2 (0x0304 :: u16)
                   else to_be 2 GROUP_X25519 @ to_be 2 (32 :: u16) @ public))
          (filter (\<lambda>t. t = EXT_SUPPORTED_VERSIONS \<or> t = EXT_KEY_SHARE) ts))" for ts
    by (induction ts) (auto simp: server_versions_ext_def server_share_ext_def)
  then show ?thesis
    by (simp add: server_extensions_def server_ext_pairs_def server_versions_ext_def server_share_ext_def)
qed

lemma length_server_pairs:
  assumes "length public = 32"
  shows "ext_sized (server_ext_pairs public order)"
    and "length (ext_bytes (server_ext_pairs public order)) \<le> 40 * length order + 80"
proof -
  define ts where "ts = filter (\<lambda>t. t = EXT_SUPPORTED_VERSIONS \<or> t = EXT_KEY_SHARE) order @
        (if EXT_SUPPORTED_VERSIONS \<in> set order then [] else [EXT_SUPPORTED_VERSIONS]) @
        (if EXT_KEY_SHARE \<in> set order then [] else [EXT_KEY_SHARE])"
  define f where "f = (\<lambda>t. (t, if t = EXT_SUPPORTED_VERSIONS then to_be 2 (0x0304 :: u16)
                   else to_be 2 GROUP_X25519 @ to_be 2 (32 :: u16) @ public))"
  have pairs: "server_ext_pairs public order = map f ts" by (simp add: server_ext_pairs_def ts_def f_def)
  show "ext_sized (server_ext_pairs public order)"
    unfolding pairs using assms by (simp add: list_all_iff f_def)
  have "length (ext_bytes (map f xs)) \<le> 40 * length xs" for xs
    using assms by (induction xs) (auto simp: f_def)
  then have "length (ext_bytes (map f ts)) \<le> 40 * length ts" .
  moreover have "length ts \<le> length order + 2"
    using length_filter_le [of "\<lambda>t. t = EXT_SUPPORTED_VERSIONS \<or> t = EXT_KEY_SHARE" order]
    unfolding ts_def length_append by (auto simp del: length_filter_le)
  ultimately show "length (ext_bytes (server_ext_pairs public order)) \<le> 40 * length order + 80"
    unfolding pairs by linarith
qed

lemma last_share_pairs:
  assumes "length public = 32"
  shows "last_share (server_ext_pairs public order) None = Some public"
proof -
  define share where "share = to_be 2 GROUP_X25519 @ to_be 2 (32 :: u16) @ public"
  have s: "parse_server_share share = Some public"
    using assms by (simp add: parse_server_share_def share_def get_range_def)
  have "(\<forall>(t, d) \<in> set ps. t = EXT_KEY_SHARE \<longrightarrow> d = share) \<Longrightarrow>
     x = Some public \<or> EXT_KEY_SHARE \<in> fst ` set ps \<Longrightarrow> last_share ps x = Some public" for ps x
    by (induction ps arbitrary: x) (auto simp: last_share_def s)
  then show ?thesis by (auto simp: server_ext_pairs_def share_def image_iff)
qed

lemma built_server_hello_parses:
  assumes lens: "length random = 32" "length sid < 256" "length public = 32" "length order \<le> 1000"
    and hrr: "random \<noteq> HRR_RANDOM"
  shows "server_hello_parse (build_server_hello_handshake random sid cipher public order) =
    Some \<lparr>sh_random = random, sh_session_id = sid, sh_cipher = cipher,
      sh_extensions = filter (\<lambda>t. t = EXT_SUPPORTED_VERSIONS \<or> t = EXT_KEY_SHARE) order @
        (if EXT_SUPPORTED_VERSIONS \<in> set order then [] else [EXT_SUPPORTED_VERSIONS]) @
        (if EXT_KEY_SHARE \<in> set order then [] else [EXT_KEY_SHARE]),
      sh_x25519_public = Some public\<rparr>"
proof -
  define exts where "exts = server_extensions public order"
  define body where "body = server_hello_body (to_be 2 (0x0303 :: u16)) random sid cipher 0 exts []"
  have len: "length exts < 65536"
    using length_server_pairs(2) [OF lens(3), of order] lens(4)
    by (simp add: exts_def server_extensions_pairs)
  then have "length body < 2 ^ 24" using lens by (simp add: body_def)
  then have hdr: "u24 (u24_bytes (length body)) = Some (length body)" by (rule u24_u24_bytes)
  have "server_ext_loop exts [] None
      = Some (map fst (server_ext_pairs public order), Some public)"
    using server_ext_loop_list [OF length_server_pairs(1) [OF lens(3)], of "[]" order "[]" None] lens
    by (simp add: exts_def server_extensions_pairs last_share_pairs)
  moreover have "build_server_hello_handshake random sid cipher public order
      = [2] @ u24_bytes (length body) @ body @ []"
    by (simp add: build_server_hello_handshake_def Let_def body_def exts_def)
  moreover have "server_hello_parse ([2] @ u24_bytes (length body) @ body @ []) =
    (if random = HRR_RANDOM then None
     else map_option (\<lambda>(types, x). \<lparr>sh_random = random, sh_session_id = sid, sh_cipher = cipher,
            sh_extensions = types, sh_x25519_public = x\<rparr>) (server_ext_loop exts [] None))"
    by (rule server_hello_parse_body [OF body_def]) (use lens len hdr in simp_all)
  ultimately show ?thesis using hrr by (simp add: server_ext_pairs_def comp_def)
qed

text \<open>
  The ServerHello the server builds itself.  For every extension order
  taken from the destination it parses back to the given random, session id
  and cipher with the server's public key as its X25519 share, and it carries
  supported_versions and key_share in the destination's order, each missing one
  appended.
\<close>

theorem server_hello_roundtrip:
  assumes "length random = 32" "length sid < 256" "length public = 32" "length order \<le> 1000"
    and "random \<noteq> HRR_RANDOM"
  shows "server_hello_parse (build_server_hello_handshake random sid cipher public order) =
    Some \<lparr>sh_random = random, sh_session_id = sid, sh_cipher = cipher,
      sh_extensions = filter (\<lambda>t. t = EXT_SUPPORTED_VERSIONS \<or> t = EXT_KEY_SHARE) order @
        (if EXT_SUPPORTED_VERSIONS \<in> set order then [] else [EXT_SUPPORTED_VERSIONS]) @
        (if EXT_KEY_SHARE \<in> set order then [] else [EXT_KEY_SHARE]),
      sh_x25519_public = Some public\<rparr>"
  using built_server_hello_parses [OF assms] .

lemma sample_server_hello_parses:
  "server_hello_parse sample_server_hello =
     Some \<lparr>sh_random = replicate 32 5, sh_session_id = replicate 32 6,
       sh_cipher = TLS_AES_128_GCM_SHA256, sh_extensions = [EXT_KEY_SHARE, EXT_SUPPORTED_VERSIONS],
       sh_x25519_public = Some (replicate 32 7)\<rparr>"
  by code_simp

theorem server_hello_roundtrip_witness:
  "server_hello_parse (build_server_hello_handshake (replicate 32 5) [] 0x1302 (replicate 32 7) [51]) =
     Some \<lparr>sh_random = replicate 32 5, sh_session_id = [], sh_cipher = 0x1302,
       sh_extensions = [51, 43], sh_x25519_public = Some (replicate 32 7)\<rparr>"
proof -
  have "replicate 32 5 \<noteq> HRR_RANDOM" by code_simp
  then show ?thesis
    using server_hello_roundtrip [of "replicate 32 5" "[]" "replicate 32 7" "[51]" "0x1302"]
    by (simp add: EXT_KEY_SHARE_def EXT_SUPPORTED_VERSIONS_def)
qed

theorem patch_keeps_ja3s_witness:
  "fst (patch_server_hello_x25519 sample_server_hello (replicate 32 9)) \<and>
   map_option ja3s (server_hello_parse (snd (patch_server_hello_x25519 sample_server_hello (replicate 32 9))))
     = Some (0x0303, TLS_AES_128_GCM_SHA256, [EXT_KEY_SHARE, EXT_SUPPORTED_VERSIONS])"
  using patch_keeps_ja3s [OF sample_server_hello_parses, of "replicate 32 9"]
  by (auto simp: ja3s_def split: prod.splits)

end
