(* ===== verification/Reality_Tls.thy ===== *)
theory Reality_Tls
  imports Reality_Suite Reality_Server_Hello
begin

text \<open>
  The TLS 1.3 handshake of the REALITY path
  (\<open>payphone-transport/src/reality/tls13.rs\<close> and \<open>cert.rs\<close>): the
  HMAC certificate, the handshake messages, the client's and the server's
  handshake as functions of the bytes received, and their agreement.

  A TCP stream is the list of bytes still to be read; \<open>read_exact\<close> on
  a shorter list is the end-of-file error.  Signing and the signature check of
  the \<open>rcgen\<close> and \<open>webpki\<close> crates are parameters, as is the
  self-signed certificate that \<open>rcgen\<close> produces.
\<close>

section \<open>The HMAC certificate\<close>

definition ED25519_SPKI_PREFIX :: bytes where
  "ED25519_SPKI_PREFIX = [0x06, 0x03, 0x2b, 0x65, 0x70, 0x03, 0x21, 0x00]"

fun ed25519_pubkey_from_der :: "bytes \<Rightarrow> bytes option" where
  "ed25519_pubkey_from_der [] = None"
| "ed25519_pubkey_from_der (b # der) =
    (if length (b # der) < 40 then None
     else if take 8 (b # der) = ED25519_SPKI_PREFIX then Some (take 32 (drop 8 (b # der)))
     else ed25519_pubkey_from_der der)"

definition mint_hmac_leaf :: "RealityCrypto \<Rightarrow> bytes \<Rightarrow> bytes \<Rightarrow> (TlsError, bytes) outcome" where
  "mint_hmac_leaf c auth_key der =
    (if length der < 64 then Err (TlsBad ''cert is too short'')
     else case ed25519_pubkey_from_der der of
       None \<Rightarrow> Err (TlsBad ''cert has no Ed25519 key'')
     | Some public \<Rightarrow> Ok (take (length der - 64) der @ hmac_sha512 c auth_key public))"

definition verify_hmac_certificate :: "RealityCrypto \<Rightarrow> bytes \<Rightarrow> bytes \<Rightarrow> bool" where
  "verify_hmac_certificate c auth_key der =
    (if length der < 64 then False
     else case ed25519_pubkey_from_der der of
       None \<Rightarrow> False
     | Some public \<Rightarrow> ct_eq (hmac_sha512 c auth_key public) (drop (length der - 64) der))"

section \<open>Records and handshake messages\<close>

definition TLS_MAX_RECORD :: nat where [constants]: "TLS_MAX_RECORD = 16 * 1024 + 256"

definition CCS_RECORD :: bytes where "CCS_RECORD = [0x14, 0x03, 0x03, 0x00, 0x01, 0x01]"

definition read_record :: "bytes \<Rightarrow> (TlsError, (u8 \<times> bytes) \<times> bytes) outcome" where
  "read_record s =
    (if length s < 5 then Err TlsEof
     else let len = unat (be16 [s ! 3, s ! 4]) in
       if len = 0 \<or> len > TLS_MAX_RECORD then Err InvalidRecordLength
       else if length s < 5 + len then Err TlsEof
       else Ok ((s ! 0, take len (drop 5 s)), drop (5 + len) s))"

lemma read_record_shorter: "read_record s = Ok ((typ, body), rest) \<Longrightarrow> length rest < length s"
  by (auto simp: read_record_def Let_def split: if_splits)

definition tls_record :: "u8 \<Rightarrow> bytes \<Rightarrow> bytes" where
  "tls_record typ body = [typ, 0x03, 0x03] @ to_be 2 (of_nat (length body) :: u16) @ body"

definition handshake_msg :: "u8 \<Rightarrow> bytes \<Rightarrow> bytes" where
  "handshake_msg typ body = [typ] @ u24_bytes (length body) @ body"

definition split_handshake :: "bytes \<Rightarrow> (bytes \<times> bytes) option" where
  "split_handshake buf =
    (if length buf < 4 then None
     else case u24 (take 3 (drop 1 buf)) of
       None \<Rightarrow> None
     | Some len \<Rightarrow> if length buf < 4 + len then None
                   else Some (take (4 + len) buf, drop (4 + len) buf))"

definition encrypted_extensions_msg :: "bytes list \<Rightarrow> bytes" where
  "encrypted_extensions_msg alpn =
    (case (if list_ex (\<lambda>p. p = ascii ''h2'') alpn then Some (ascii ''h2'')
           else case alpn of [] \<Rightarrow> None | p # _ \<Rightarrow> Some p) of
       None \<Rightarrow> handshake_msg 8 [0, 0]
     | Some proto \<Rightarrow>
         let alpn_ext = ext 16 (to_be 2 (of_nat (1 + length proto) :: u16) @ [of_nat (length proto)] @ proto)
         in handshake_msg 8 (to_be 2 (of_nat (length alpn_ext) :: u16) @ alpn_ext))"

definition certificate_msg :: "bytes \<Rightarrow> bytes" where
  "certificate_msg der =
    (let entry = u24_bytes (length der) @ der @ to_be 2 (0 :: u16)
     in handshake_msg 11 ([0] @ u24_bytes (length entry) @ entry))"

definition parse_certificate :: "bytes \<Rightarrow> (TlsError, bytes) outcome" where
  "parse_certificate msg =
    (case do {
       body_len \<leftarrow> u24 (take 3 (drop 1 msg));
       body \<leftarrow> get_range 4 body_len msg;
       l \<leftarrow> get_range 1 3 body;
       list_len \<leftarrow> u24 l;
       list \<leftarrow> get_range 4 list_len body;
       cl \<leftarrow> get_range 0 3 list;
       cert_len \<leftarrow> u24 cl;
       get_range 3 cert_len list } of
       None \<Rightarrow> Err (TlsBad ''Certificate'')
     | Some leaf \<Rightarrow> Ok leaf)"

definition cv_signed :: "bytes \<Rightarrow> bytes" where
  "cv_signed hash = replicate 64 0x20 @ ascii ''TLS 1.3, server CertificateVerify'' @ [0] @ hash"

definition certificate_verify_msg :: "(bytes \<Rightarrow> bytes) \<Rightarrow> bytes \<Rightarrow> bytes" where
  "certificate_verify_msg sign hash =
    (let sg = sign (cv_signed hash)
     in handshake_msg 15 (to_be 2 (0x0807 :: u16) @ to_be 2 (of_nat (length sg) :: u16) @ sg))"

text \<open>The check of the certificate library: scheme, leaf, message, signature.\<close>

type_synonym cert_check = "u16 \<Rightarrow> bytes \<Rightarrow> bytes \<Rightarrow> bytes \<Rightarrow> bool"

definition verify_certificate_verify ::
  "cert_check \<Rightarrow> bytes \<Rightarrow> bytes \<Rightarrow> bytes \<Rightarrow> (TlsError, unit) outcome" where
  "verify_certificate_verify check leaf msg hash =
    (case do {
       body_len \<leftarrow> u24 (take 3 (drop 1 msg));
       body \<leftarrow> get_range 4 body_len msg;
       scheme \<leftarrow> map_option be16 (get_range 0 2 body);
       sig_len \<leftarrow> map_option (unat \<circ> be16) (get_range 2 2 body);
       sg \<leftarrow> get_range 4 sig_len body;
       Some (scheme, sg) } of
       None \<Rightarrow> Err (TlsBad ''CertificateVerify'')
     | Some (scheme, sg) \<Rightarrow>
         if scheme \<in> {0x0403, 0x0503, 0x0804, 0x0805, 0x0807}
         then if check scheme leaf (cv_signed hash) sg then Ok ()
              else Err (TlsBad ''CertificateVerify signature'')
         else Err (TlsBad ''unsupported CertificateVerify scheme''))"

function read_server_hello_msg :: "bytes \<Rightarrow> bytes \<Rightarrow> (TlsError, bytes \<times> bytes) outcome" where
  "read_server_hello_msg leftover s =
    (case read_record s of
       Panic \<Rightarrow> Panic
     | Err e \<Rightarrow> Err e
     | Ok ((typ, body), rest) \<Rightarrow>
         if typ \<noteq> 0x16 then Err (TlsBad ''expected handshake record for ServerHello'')
         else case split_handshake (leftover @ body) of
           Some (msg, _) \<Rightarrow>
             if hd msg \<noteq> 2 then Err (TlsBad ''expected ServerHello'') else Ok (msg, rest)
         | None \<Rightarrow> read_server_hello_msg (leftover @ body) rest)"
  by pat_completeness auto
termination by (relation "measure (\<lambda>(_, s). length s)") (auto dest: read_record_shorter)

definition dest_server_hello :: "bytes option \<Rightarrow> bytes \<Rightarrow> bytes option" where
  "dest_server_hello dest_hello server_public =
    (case dest_hello of
       None \<Rightarrow> None
     | Some raw \<Rightarrow>
       (case server_hello_parse raw of
          None \<Rightarrow> None
        | Some view \<Rightarrow>
          (case suite_from_id (sh_cipher view) of
             None \<Rightarrow> None
           | Some _ \<Rightarrow>
             (case patch_server_hello_x25519 raw server_public of
                (patched, msg) \<Rightarrow> if patched then Some msg else None))))"

section \<open>The client's handshake\<close>

record ClientHs =
  cs_transcript :: Transcript
  cs_server_hs :: HsKeys
  cs_buf :: bytes
  cs_leaf :: "bytes option"
  cs_finished :: bool

definition client_handle_msg ::
  "RealityCrypto \<Rightarrow> cert_check \<Rightarrow> Suite \<Rightarrow> bytes \<Rightarrow> bytes option \<Rightarrow> ClientHs \<Rightarrow> bytes \<Rightarrow>
   (TlsError, ClientHs) outcome" where
  "client_handle_msg c check suite auth_key pin st msg =
    (let note_msg = (\<lambda>s. s\<lparr>cs_transcript := transcript_update (cs_transcript s) msg\<rparr>) in
     if hd msg = 8 then Ok (note_msg st)
     else if hd msg = 11 then
       obind (parse_certificate msg) (\<lambda>leaf.
         if \<not> verify_hmac_certificate c auth_key leaf \<and> pin \<noteq> Some leaf
         then Err (TlsBad ''REALITY TLS cert HMAC mismatch'')
         else Ok (note_msg (st\<lparr>cs_leaf := Some leaf\<rparr>)))
     else if hd msg = 15 then
       (case cs_leaf st of
          None \<Rightarrow> Err (TlsBad ''CertificateVerify before Certificate'')
        | Some leaf \<Rightarrow>
            obind (verify_certificate_verify check leaf msg (transcript_hash c (cs_transcript st)))
              (\<lambda>_. Ok (note_msg st)))
     else if hd msg = 20 then
       (if length msg < 4 + hash_len suite then Err (TlsBad ''short server Finished'')
        else obind (finished_verify c suite (hk_secret (cs_server_hs st))
                      (transcript_hash c (cs_transcript st))) (\<lambda>expected.
          if \<not> ct_eq (drop 4 msg) expected then Err (TlsBad ''server Finished mismatch'')
          else Ok ((note_msg st)\<lparr>cs_finished := True\<rparr>)))
     else if hd msg = 4 \<or> hd msg = 24 then
       (if \<not> cs_finished st then Err (TlsBad ''unexpected handshake type'') else Ok st)
     else Err (TlsBad ''unexpected handshake type''))"

lemma split_handshake_shorter:
  "split_handshake buf = Some (msg, rest) \<Longrightarrow> length rest < length buf \<and> buf = msg @ rest"
  by (auto simp: split_handshake_def split: if_splits option.splits)

lemma client_handle_msg_buf:
  "client_handle_msg c check suite auth_key pin st msg = Ok st' \<Longrightarrow> cs_buf st' = cs_buf st"
  by (auto simp: client_handle_msg_def obind_eq_Ok Let_def split: if_splits option.splits)

function client_handle_buf ::
  "RealityCrypto \<Rightarrow> cert_check \<Rightarrow> Suite \<Rightarrow> bytes \<Rightarrow> bytes option \<Rightarrow> ClientHs \<Rightarrow> (TlsError, ClientHs) outcome" where
  "client_handle_buf c check suite auth_key pin st =
    (case split_handshake (cs_buf st) of
       None \<Rightarrow> Ok st
     | Some (msg, rest) \<Rightarrow>
         (case client_handle_msg c check suite auth_key pin (st\<lparr>cs_buf := rest\<rparr>) msg of
            Ok st' \<Rightarrow> client_handle_buf c check suite auth_key pin st'
          | Err e \<Rightarrow> Err e
          | Panic \<Rightarrow> Panic))"
  by pat_completeness auto
termination
  by (relation "measure (\<lambda>(_, _, _, _, _, st). length (cs_buf st))")
    (auto dest!: split_handshake_shorter client_handle_msg_buf)

function client_loop ::
  "RealityCrypto \<Rightarrow> cert_check \<Rightarrow> Suite \<Rightarrow> bytes \<Rightarrow> bytes option \<Rightarrow> ClientHs \<Rightarrow> bytes \<Rightarrow>
   (TlsError, ClientHs \<times> bytes) outcome" where
  "client_loop c check suite auth_key pin st s =
    (if cs_finished st then Ok (st, s)
     else case read_record s of
       Panic \<Rightarrow> Panic
     | Err e \<Rightarrow> Err e
     | Ok ((typ, body), rest) \<Rightarrow>
         if typ = 0x14 then client_loop c check suite auth_key pin st rest
         else if typ = 0x17 then
           (case keys_decrypt c (hk_keys (cs_server_hs st)) body of
              Panic \<Rightarrow> Panic
            | Err e \<Rightarrow> Err e
            | Ok ((inner, content), k) \<Rightarrow>
                if inner \<noteq> 0x16 then Err (UnexpectedInner inner)
                else let st1 = st\<lparr>cs_server_hs := (cs_server_hs st)\<lparr>hk_keys := k\<rparr>,
                                  cs_buf := cs_buf st @ content\<rparr> in
                  (case client_handle_buf c check suite auth_key pin st1 of
                     Panic \<Rightarrow> Panic
                   | Err e \<Rightarrow> Err e
                   | Ok st2 \<Rightarrow> client_loop c check suite auth_key pin st2 rest))
         else Err (UnexpectedRecord typ))"
  by pat_completeness auto
termination
  by (relation "measure (\<lambda>(_, _, _, _, _, _, s). length s)") (auto dest: read_record_shorter)

text \<open>The established session: the keys of both directions.\<close>

record TlsSession =
  ts_send :: TrafficKeys
  ts_recv :: TrafficKeys

text \<open>
  \<open>connect\<close> after the ClientHello: \<open>s\<close> is what the server sends.  The
  result is the session, the bytes the client writes (change-cipher-spec and
  its Finished), and the bytes left unread.
\<close>

definition client_finish ::
  "RealityCrypto \<Rightarrow> Suite \<Rightarrow> HsKeys \<Rightarrow> bytes \<Rightarrow> ClientHs \<Rightarrow> bytes \<Rightarrow> (TlsError, TlsSession \<times> bytes \<times> bytes) outcome" where
  "client_finish c suite client_hs handshake_secret st rest =
    (let hash = transcript_hash c (cs_transcript st) in
     obind (application_traffic_keys c suite handshake_secret hash) (\<lambda>(client_app, server_app).
     obind (finished_verify c suite (hk_secret client_hs) hash) (\<lambda>verify.
       Ok (\<lparr>ts_send = client_app, ts_recv = server_app\<rparr>,
           CCS_RECORD @ fst (keys_encrypt c (hk_keys client_hs) 0x16 (handshake_msg 20 verify)), rest))))"

definition client_respond ::
  "RealityCrypto \<Rightarrow> cert_check \<Rightarrow> bytes option \<Rightarrow> bytes \<Rightarrow> bytes \<Rightarrow> bytes \<Rightarrow> bytes \<Rightarrow>
   (TlsError, TlsSession \<times> bytes \<times> bytes) outcome" where
  "client_respond c check pin client_private handshake auth_key s =
     obind (read_server_hello_msg [] s) (\<lambda>(sh_msg, s1).
       case server_hello_parse sh_msg of
         None \<Rightarrow> Err (TlsBad ''bad ServerHello'')
       | Some view \<Rightarrow>
         (case suite_from_id (sh_cipher view) of
            None \<Rightarrow> Err (TlsBad ''unsupported ServerHello cipher'')
          | Some suite \<Rightarrow>
            (case sh_x25519_public view of
               None \<Rightarrow> Err (TlsBad ''ServerHello missing X25519 key_share'')
             | Some peer_public \<Rightarrow>
               let transcript = transcript_update (transcript_update (transcript_new suite) handshake) sh_msg in
               obind (handshake_traffic_keys c suite (x25519_dh c client_private peer_public)
                        (transcript_hash c transcript)) (\<lambda>(client_hs, server_hs, handshake_secret).
               obind (client_loop c check suite auth_key pin
                        \<lparr>cs_transcript = transcript, cs_server_hs = server_hs, cs_buf = [],
                         cs_leaf = None, cs_finished = False\<rparr> s1) (\<lambda>(st, rest).
               client_finish c suite client_hs handshake_secret st rest)))))"

definition client_connect ::
  "RealityCrypto \<Rightarrow> (bytes \<Rightarrow> bytes) \<Rightarrow> cert_check \<Rightarrow> bytes option \<Rightarrow> RealityClientConfig \<Rightarrow>
   bytes \<Rightarrow> bytes \<Rightarrow> u32 \<Rightarrow> rng \<Rightarrow> bytes \<Rightarrow> (TlsError, bytes \<times> TlsSession \<times> bytes \<times> bytes) outcome" where
  "client_connect c mlkem check pin cfg client_private random unix r s =
     obind (client_hello_sealed c mlkem cfg client_private random unix r) (\<lambda>(handshake, hello_record, auth_key).
     obind (client_respond c check pin client_private handshake auth_key s) (\<lambda>(session, written, rest).
       Ok (hello_record, session, written, rest)))"

section \<open>The server's handshake\<close>

record DestFlight =
  df_server_hello :: bytes
  df_encrypted_record_lens :: "nat list"
  df_post_handshake_lens :: "nat list"

definition handshake_pad :: "DestFlight \<Rightarrow> nat option" where
  "handshake_pad f = (case df_encrypted_record_lens f of
     [] \<Rightarrow> None
   | first # _ \<Rightarrow> if first > 512 then Some first else None)"

definition split_pads :: "DestFlight \<Rightarrow> nat option list option" where
  "split_pads f =
    (if handshake_pad f \<noteq> None \<or> df_encrypted_record_lens f = [] then None
     else Some (take 4 (map Some (df_encrypted_record_lens f) @ replicate 4 None)))"

definition extra_pads :: "DestFlight \<Rightarrow> nat list" where
  "extra_pads f =
    (if handshake_pad f \<noteq> None then drop 1 (df_encrypted_record_lens f)
     else if length (df_encrypted_record_lens f) > 4 then drop 4 (df_encrypted_record_lens f)
     else [])"

definition post_handshake_pads :: "DestFlight \<Rightarrow> nat list" where
  "post_handshake_pads f = df_post_handshake_lens f"

fun dummy_records :: "RealityCrypto \<Rightarrow> TrafficKeys \<Rightarrow> nat list \<Rightarrow> bytes \<times> TrafficKeys" where
  "dummy_records c k [] = ([], k)"
| "dummy_records c k (extra # pads) =
    (if extra < 5 + 1 + 1 + 16 then dummy_records c k pads
     else let (dummy, k) = keys_encrypt_padded c k 0x16 [4] (Some extra);
              (rest, k) = dummy_records c k pads
          in (dummy @ rest, k))"

fun encrypt_split :: "RealityCrypto \<Rightarrow> TrafficKeys \<Rightarrow> (bytes \<times> nat option) list \<Rightarrow> bytes \<times> TrafficKeys" where
  "encrypt_split c k [] = ([], k)"
| "encrypt_split c k ((msg, pad) # ms) =
    (let (enc, k) = keys_encrypt_padded c k 0x16 msg pad;
         (rest, k) = encrypt_split c k ms
     in (enc @ rest, k))"

record ServerHs =
  sv_suite :: Suite
  sv_transcript :: Transcript
  sv_client_hs :: HsKeys
  sv_client_app :: TrafficKeys
  sv_server_app :: TrafficKeys

text \<open>
  \<open>accept\<close> up to the flush after its flight.  \<open>leaf_der\<close> is the
  self-signed certificate of a fresh key pair and \<open>sign\<close> its signing
  function.  The result is the bytes written, the handshake state and the bytes
  left unread.
\<close>

definition server_hello_choice :: "DestFlight option \<Rightarrow> bytes \<Rightarrow> bytes \<Rightarrow> bytes \<Rightarrow> bytes" where
  "server_hello_choice dest server_public server_random session_id =
    (case dest_server_hello (map_option df_server_hello dest) server_public of
       Some hello \<Rightarrow> hello
     | None \<Rightarrow> build_server_hello_handshake server_random session_id TLS_AES_128_GCM_SHA256
                 server_public [43, 51])"

definition server_messages ::
  "RealityCrypto \<Rightarrow> (bytes \<Rightarrow> bytes) \<Rightarrow> Suite \<Rightarrow> bytes \<Rightarrow> Transcript \<Rightarrow> bytes list \<Rightarrow> bytes \<Rightarrow>
   (TlsError, bytes list \<times> Transcript) outcome" where
  "server_messages c sign suite server_secret transcript alpn leaf =
    (let ee = encrypted_extensions_msg alpn;
         t1 = transcript_update transcript ee;
         cert = certificate_msg leaf;
         t2 = transcript_update t1 cert;
         cv = certificate_verify_msg sign (transcript_hash c t2);
         t3 = transcript_update t2 cv
     in obind (finished_verify c suite server_secret (transcript_hash c t3)) (\<lambda>verify.
        let fin = handshake_msg 20 verify
        in Ok ([ee, cert, cv, fin], transcript_update t3 fin)))"

definition server_encrypt_flight ::
  "RealityCrypto \<Rightarrow> TrafficKeys \<Rightarrow> DestFlight option \<Rightarrow> bytes list \<Rightarrow> bytes" where
  "server_encrypt_flight c k dest msgs =
    (case Option.bind dest split_pads of
       Some pads \<Rightarrow> fst (encrypt_split c k (zip msgs pads))
     | None \<Rightarrow> fst (keys_encrypt_padded c k 0x16 (concat msgs) (Option.bind dest handshake_pad)))"

definition server_accept_hello ::
  "RealityCrypto \<Rightarrow> (bytes \<Rightarrow> bytes) \<Rightarrow> bytes \<Rightarrow> bytes \<Rightarrow> DestFlight option \<Rightarrow> bytes \<Rightarrow> bytes \<Rightarrow> bytes \<Rightarrow>
   (TlsError, bytes \<times> ServerHs \<times> bytes) outcome" where
  "server_accept_hello c sign leaf_der auth_key dest server_private server_random s =
     obind (read_record s) (\<lambda>((typ, body), rest).
     if typ \<noteq> 0x16 then Err (TlsBad ''expected ClientHello record'')
     else case client_hello_parse ([0x16, 0x03, 0x01] @ to_be 2 (of_nat (length body) :: u16) @ body) of
       None \<Rightarrow> Err (TlsBad ''bad ClientHello'')
     | Some view \<Rightarrow>
       (case ch_x25519_public view of
          None \<Rightarrow> Err (TlsBad ''ClientHello missing X25519'')
        | Some client_public \<Rightarrow>
          (case split_handshake body of
             None \<Rightarrow> Err (TlsBad ''truncated ClientHello'')
           | Some (hello_msg, left) \<Rightarrow>
             if hd hello_msg \<noteq> 1 \<or> left \<noteq> [] then Err (TlsBad ''expected a single ClientHello'')
             else
               let server_public = x25519_base c server_private;
                   server_hello = server_hello_choice dest server_public server_random (ch_session_id view)
               in case server_hello_parse server_hello of
                 None \<Rightarrow> Err (TlsBad ''bad ServerHello'')
               | Some sh_view \<Rightarrow>
                 (case suite_from_id (sh_cipher sh_view) of
                    None \<Rightarrow> Err (TlsBad ''unsupported dest cipher'')
                  | Some suite \<Rightarrow>
                    let transcript = transcript_update (transcript_update (transcript_new suite) hello_msg) server_hello in
                    obind (handshake_traffic_keys c suite (x25519_dh c server_private client_public)
                             (transcript_hash c transcript)) (\<lambda>(client_hs, server_hs, handshake_secret).
                    obind (mint_hmac_leaf c auth_key leaf_der) (\<lambda>leaf.
                    obind (server_messages c sign suite (hk_secret server_hs) transcript (ch_alpn view) leaf)
                      (\<lambda>(msgs, t).
                    obind (application_traffic_keys c suite handshake_secret (transcript_hash c t))
                      (\<lambda>(client_app, server_app).
                    let flight = server_encrypt_flight c (hk_keys server_hs) dest msgs;
                        (dummies, server_app) = (case dest of
                           None \<Rightarrow> ([], server_app)
                         | Some f \<Rightarrow> dummy_records c server_app (extra_pads f))
                    in Ok (tls_record 0x16 server_hello @ CCS_RECORD @ flight @ dummies,
                           \<lparr>sv_suite = suite, sv_transcript = t, sv_client_hs = client_hs,
                            sv_client_app = client_app, sv_server_app = server_app\<rparr>, rest)))))))))"

text \<open>The second half: the client's Finished, then the post-handshake dummies.\<close>

function server_finish_loop ::
  "RealityCrypto \<Rightarrow> ServerHs \<Rightarrow> bytes \<Rightarrow> (TlsError, bytes) outcome" where
  "server_finish_loop c st s =
    (case read_record s of
       Panic \<Rightarrow> Panic
     | Err e \<Rightarrow> Err e
     | Ok ((typ, body), rest) \<Rightarrow>
         if typ = 0x14 then server_finish_loop c st rest
         else if typ = 0x17 then
           (case keys_decrypt c (hk_keys (sv_client_hs st)) body of
              Panic \<Rightarrow> Panic
            | Err e \<Rightarrow> Err e
            | Ok ((inner, content), _) \<Rightarrow>
                if inner \<noteq> 0x16 then Err (TlsBad ''expected client handshake Finished'')
                else (case split_handshake content of
                  None \<Rightarrow> Err (TlsBad ''truncated client Finished'')
                | Some (msg, _) \<Rightarrow>
                    if hd msg \<noteq> 20 \<or> length msg < 4 + hash_len (sv_suite st)
                    then Err (TlsBad ''expected client Finished'')
                    else obind (finished_verify c (sv_suite st) (hk_secret (sv_client_hs st))
                                  (transcript_hash c (sv_transcript st))) (\<lambda>expected.
                      if \<not> ct_eq (drop 4 msg) expected then Err (TlsBad ''client Finished mismatch'')
                      else Ok rest)))
         else Err (UnexpectedRecord typ))"
  by pat_completeness auto
termination by (relation "measure (\<lambda>(_, _, s). length s)") (auto dest: read_record_shorter)

definition server_accept_finished ::
  "RealityCrypto \<Rightarrow> DestFlight option \<Rightarrow> ServerHs \<Rightarrow> bytes \<Rightarrow> (TlsError, TlsSession \<times> bytes \<times> bytes) outcome" where
  "server_accept_finished c dest st s =
     obind (server_finish_loop c st s) (\<lambda>rest.
       let (dummies, server_app) = (case dest of
              None \<Rightarrow> ([], sv_server_app st)
            | Some f \<Rightarrow> dummy_records c (sv_server_app st) (post_handshake_pads f))
       in Ok (\<lparr>ts_send = server_app, ts_recv = sv_client_app st\<rparr>, dummies, rest))"

declare read_server_hello_msg.simps [simp del] client_handle_buf.simps [simp del]
  client_loop.simps [simp del] server_finish_loop.simps [simp del]

section \<open>Messages round trip\<close>

lemma read_record_at:
  assumes "0 < length body" "length body \<le> TLS_MAX_RECORD"
  shows "read_record ([typ, a, b] @ to_be 2 (of_nat (length body) :: u16) @ body @ rest) = Ok ((typ, body), rest)"
proof -
  define w where "w = (of_nat (length body) :: u16)"
  have w: "unat w = length body"
    unfolding w_def by (rule unat_of_nat_u16) (use assms in \<open>simp add: constants\<close>)
  obtain x y where xy: "to_be 2 w = [x, y]" using to_be_2_split by blast
  then have "be16 [x, y] = w" by (metis be16_to_be)
  with xy w assms show ?thesis
    unfolding w_def [symmetric] by (simp add: read_record_def Let_def drop_Cons')
qed

lemma read_tls_record:
  "0 < length body \<Longrightarrow> length body \<le> TLS_MAX_RECORD \<Longrightarrow>
     read_record (tls_record typ body @ rest) = Ok ((typ, body), rest)"
  using read_record_at [of body "typ" 3 3 rest] by (simp add: tls_record_def)

lemma read_ccs: "read_record (CCS_RECORD @ rest) = Ok ((0x14, [1]), rest)"
proof -
  have "CCS_RECORD @ rest = [0x14, 3, 3] @ to_be 2 (of_nat (length [1 :: u8]) :: u16) @ [1] @ rest"
    by (simp add: CCS_RECORD_def numeral_2_eq_2)
  moreover have "read_record ([0x14, 3, 3] @ to_be 2 (of_nat (length [1 :: u8]) :: u16) @ [1] @ rest)
      = Ok ((0x14, [1]), rest)"
    by (rule read_record_at) (simp_all add: constants)
  ultimately show ?thesis by (simp only:)
qed

lemma record_header_eq: "record_header n = [0x17, 3, 3] @ to_be 2 (of_nat n :: u16)"
proof -
  have "(of_nat (n div 256) :: u8) = ucast (drop_bit 8 (of_nat n :: u16))"
    by (rule bit_word_eqI) (auto simp: bit_simps drop_bit_eq_div [symmetric, where n = 8, simplified])
  moreover have "(of_nat n :: u8) = ucast (of_nat n :: u16)"
    by (rule bit_word_eqI) (auto simp: bit_simps)
  ultimately show ?thesis by (simp add: record_header_def numeral_2_eq_2)
qed

lemma read_encrypted:
  assumes "crypto_laws c" "keys_wf k" "length p + 17 \<le> TLS_MAX_RECORD"
    and "case pad of None \<Rightarrow> True | Some n \<Rightarrow> n \<le> TLS_MAX_RECORD"
  shows "read_record (encrypt_app_padded c k t p pad @ rest)
      = Ok ((0x17, drop 5 (encrypt_app_padded c k t p pad)), rest)"
proof -
  define inner where "inner = pad_inner (p @ [t]) pad"
  define sealed where "sealed = aead_seal c (tk_suite k) (tk_key k) (nonce (tk_iv k) (tk_seq k))
      (record_header (length inner + 16)) inner"
  have len: "length sealed = length inner + 16" unfolding sealed_def by (rule keys_aead(1) [OF assms(1,2)])
  have e: "encrypt_app_padded c k t p pad = record_header (length sealed) @ sealed"
    by (simp add: encrypt_app_padded_def Let_def inner_def sealed_def len [unfolded sealed_def inner_def])
  have "length sealed \<le> TLS_MAX_RECORD"
    using assms(3,4) by (simp add: len inner_def length_pad_inner split: option.splits)
  then show ?thesis
    using read_record_at [of sealed "0x17" 3 3 rest] len unfolding e by (simp add: record_header_eq)
qed

lemma length_handshake_msg [simp]: "length (handshake_msg t b) = 4 + length b"
  by (simp add: handshake_msg_def)

lemma hd_handshake_msg [simp]: "hd (handshake_msg t b) = t"
  by (simp add: handshake_msg_def)

lemma drop_handshake_msg [simp]: "drop 4 (handshake_msg t b) = b"
  by (simp add: handshake_msg_def)

lemma handshake_msg_len: "length b < 2 ^ 24 \<Longrightarrow> u24 (take 3 (drop 1 (handshake_msg t b @ rest))) = Some (length b)"
  by (simp add: handshake_msg_def)

lemma split_handshake_msg:
  "length b < 2 ^ 24 \<Longrightarrow> split_handshake (handshake_msg t b @ rest) = Some (handshake_msg t b, rest)"
  using handshake_msg_len [of b t rest] by (simp add: split_handshake_def)

lemma parse_certificate_msg:
  assumes "length der < 16000000"
  shows "parse_certificate (certificate_msg der) = Ok der"
proof -
  define entry where "entry = u24_bytes (length der) @ der @ to_be 2 (0 :: u16)"
  define body where "body = [0] @ u24_bytes (length entry) @ entry"
  have lens: "length entry = 5 + length der" "length body = 9 + length der"
    by (simp_all add: entry_def body_def)
  have msg: "certificate_msg der = handshake_msg 11 body"
    by (simp add: certificate_msg_def Let_def entry_def body_def)
  have "u24 (take 3 (drop 1 (handshake_msg 11 body))) = Some (length body)"
    using handshake_msg_len [of body 11 "[]"] assms lens by simp
  moreover have "get_range 4 (length body) (handshake_msg 11 body) = Some body"
    by (simp add: get_range_def)
  moreover have "get_range 1 3 body = Some (u24_bytes (length entry))"
    "get_range 4 (length entry) body = Some entry"
    by (simp_all add: get_range_def body_def)
  moreover have "get_range 0 3 entry = Some (u24_bytes (length der))"
    "get_range 3 (length der) entry = Some der"
    by (simp_all add: get_range_def entry_def)
  ultimately show ?thesis
    using assms lens unfolding msg by (simp add: parse_certificate_def)
qed

lemma verify_cv_msg:
  assumes "check 0x0807 leaf (cv_signed hash) (sign (cv_signed hash))" "length (sign (cv_signed hash)) < 65536"
  shows "verify_certificate_verify check leaf (certificate_verify_msg sign hash) hash = Ok ()"
proof -
  define sg where "sg = sign (cv_signed hash)"
  define w where "w = (of_nat (length sg) :: u16)"
  have w: "unat w = length sg" unfolding w_def by (rule unat_of_nat_u16) (use assms in \<open>simp add: sg_def\<close>)
  define body where "body = to_be 2 (0x0807 :: u16) @ to_be 2 w @ sg"
  have len: "length body = 4 + length sg" by (simp add: body_def)
  have msg: "certificate_verify_msg sign hash = handshake_msg 15 body"
    by (simp add: certificate_verify_msg_def Let_def body_def w_def sg_def)
  have "u24 (take 3 (drop 1 (handshake_msg 15 body))) = Some (length body)"
    using handshake_msg_len [of body 15 "[]"] assms(2) len by (simp add: sg_def)
  moreover have "get_range 4 (length body) (handshake_msg 15 body) = Some body"
    by (simp add: get_range_def)
  moreover have "get_range 0 2 body = Some (to_be 2 (0x0807 :: u16))" "get_range 2 2 body = Some (to_be 2 w)"
    "get_range 4 (length sg) body = Some sg"
    by (simp_all add: get_range_def body_def)
  ultimately show ?thesis
    using assms(1) w unfolding msg by (simp add: verify_certificate_verify_def flip: sg_def)
qed

lemma pubkey_prefix: "ed25519_pubkey_from_der a = Some p \<Longrightarrow> ed25519_pubkey_from_der (a @ b) = Some p"
  by (induction a) (auto split: if_splits)

lemma length_hmac_sha512: "crypto_laws c \<Longrightarrow> length (hmac_sha512 c k d) = 64"
  by (simp add: hmac_sha512_def hmac_with_def Let_def crypto_lawsD)

text \<open>The certificate body holds an Ed25519 key before its 64-byte signature.\<close>

definition leaf_ok :: "bytes \<Rightarrow> bool" where
  "leaf_ok der \<longleftrightarrow> 64 \<le> length der \<and> ed25519_pubkey_from_der (take (length der - 64) der) \<noteq> None"

lemma minted_leaf_verifies:
  assumes "crypto_laws c" "leaf_ok der"
  shows "\<exists>leaf. mint_hmac_leaf c auth_key der = Ok leaf \<and> length leaf = length der \<and>
    verify_hmac_certificate c auth_key leaf"
proof -
  obtain p where p: "ed25519_pubkey_from_der (take (length der - 64) der) = Some p"
    using assms(2) by (auto simp: leaf_ok_def)
  have "ed25519_pubkey_from_der der = Some p"
    using pubkey_prefix [OF p, of "drop (length der - 64) der"] by simp
  then show ?thesis
    using assms pubkey_prefix [OF p, of "hmac_sha512 c auth_key p"]
    by (simp add: mint_hmac_leaf_def verify_hmac_certificate_def leaf_ok_def length_hmac_sha512 ct_eq_iff)
qed

section \<open>Running the client on whole messages\<close>

abbreviation whole_msg :: "bytes \<Rightarrow> bool" where
  "whole_msg m \<equiv> split_handshake m = Some (m, [])"

fun client_run ::
  "RealityCrypto \<Rightarrow> cert_check \<Rightarrow> Suite \<Rightarrow> bytes \<Rightarrow> bytes option \<Rightarrow> ClientHs \<Rightarrow> bytes list \<Rightarrow> (TlsError, ClientHs) outcome" where
  "client_run c check suite auth_key pin st [] = Ok st"
| "client_run c check suite auth_key pin st (m # ms) =
    obind (client_handle_msg c check suite auth_key pin (st\<lparr>cs_buf := concat ms\<rparr>) m)
      (\<lambda>st'. client_run c check suite auth_key pin st' ms)"

lemma whole_msg_iff: "whole_msg m \<longleftrightarrow> 4 \<le> length m \<and> u24 (take 3 (drop 1 m)) = Some (length m - 4)"
  by (cases "u24 (take 3 (drop 1 m))") (auto simp: split_handshake_def)

lemma split_whole:
  assumes "whole_msg m" shows "split_handshake (m @ rest) = Some (m, rest)"
proof -
  have n: "4 \<le> length m" "u24 (take 3 (drop 1 m)) = Some (length m - 4)"
    using assms unfolding whole_msg_iff by blast+
  have "take 3 (drop 1 (m @ rest)) = take 3 (drop 1 m)" using n(1) by simp
  with n show ?thesis by (simp add: split_handshake_def)
qed

lemma client_handle_buf_run:
  "list_all whole_msg ms \<Longrightarrow> cs_buf st = concat ms \<Longrightarrow>
     client_handle_buf c check suite auth_key pin st = client_run c check suite auth_key pin st ms"
proof (induction ms arbitrary: st)
  case Nil
  then have "split_handshake (cs_buf st) = None" by (simp add: split_handshake_def)
  then show ?case by (simp add: client_handle_buf.simps)
next
  case (Cons m ms)
  then have s: "split_handshake (cs_buf st) = Some (m, concat ms)" by (simp add: split_whole)
  show ?case
  proof (cases "client_handle_msg c check suite auth_key pin (st\<lparr>cs_buf := concat ms\<rparr>) m")
    case (Ok st')
    then have "cs_buf st' = concat ms" using client_handle_msg_buf [OF Ok] by simp
    with Cons.IH [of st'] Cons.prems Ok s show ?thesis by (subst client_handle_buf.simps) simp
  qed (subst client_handle_buf.simps, simp add: s)+
qed

lemma client_loop_record:
  assumes c: "crypto_laws c" and wf: "keys_wf (hk_keys (cs_server_hs st))"
    and st: "\<not> cs_finished st" "cs_buf st = []" and ms: "list_all whole_msg ms"
    and size: "length (concat ms) + 17 \<le> TLS_MAX_RECORD"
      "case pad of None \<Rightarrow> True | Some n \<Rightarrow> n \<le> TLS_MAX_RECORD"
    and run: "client_run c check suite auth_key pin
      (st\<lparr>cs_server_hs := (cs_server_hs st)\<lparr>hk_keys := next_seq (hk_keys (cs_server_hs st))\<rparr>, cs_buf := concat ms\<rparr>) ms
      = Ok st'"
  shows "client_loop c check suite auth_key pin st
      (encrypt_app_padded c (hk_keys (cs_server_hs st)) 0x16 (concat ms) pad @ rest)
    = client_loop c check suite auth_key pin st' rest"
proof -
  note r = read_encrypted [OF c wf size]
  have d: "keys_decrypt c (hk_keys (cs_server_hs st))
      (drop 5 (encrypt_app_padded c (hk_keys (cs_server_hs st)) 0x16 (concat ms) pad))
      = Ok ((0x16, concat ms), next_seq (hk_keys (cs_server_hs st)))"
    using decrypt_encrypted [OF c wf, of "0x16" "concat ms" pad] by (simp add: keys_decrypt_def)
  show ?thesis
    using st run client_handle_buf_run [OF ms]
    by (subst client_loop.simps) (simp add: r d)
qed

lemma client_loop_ccs:
  "\<not> cs_finished st \<Longrightarrow> client_loop c check suite auth_key pin st (CCS_RECORD @ rest)
     = client_loop c check suite auth_key pin st rest"
  by (subst client_loop.simps) (simp add: read_ccs)

section \<open>The server's flight satisfies the client\<close>

text \<open>The parameters of one honest handshake on the server side.\<close>

definition cert_ok :: "cert_check \<Rightarrow> (bytes \<Rightarrow> bytes) \<Rightarrow> bytes \<Rightarrow> bool" where
  "cert_ok check sign leaf \<longleftrightarrow> (\<forall>m. check 0x0807 leaf m (sign m) \<and> length (sign m) \<le> 1000)"

lemma ee_h2:
  "encrypted_extensions_msg [ascii ''h2'', ascii ''http/1.1'']
     = handshake_msg 8 (to_be 2 (9 :: u16) @ ext 16 (to_be 2 (3 :: u16) @ [2] @ ascii ''h2''))"
  by (simp add: encrypted_extensions_msg_def Let_def ext_def)

lemma whole_handshake_msg: "length b < 2 ^ 24 \<Longrightarrow> whole_msg (handshake_msg t b)"
  using split_handshake_msg [of b t "[]"] by simp

definition flight_ok :: "bytes list \<Rightarrow> bool" where
  "flight_ok msgs \<longleftrightarrow> list_all whole_msg msgs \<and> length (concat msgs) \<le> 10000 \<and> length msgs = 4"

lemma server_messages_Ok:
  assumes c: "crypto_laws c" and leaf: "length leaf \<le> 8000" and sign: "\<And>m. length (sign m) \<le> 1000"
  obtains ee cert cv fin t verify where
    "server_messages c sign suite secret transcript [ascii ''h2'', ascii ''http/1.1''] leaf
       = (Ok ([ee, cert, cv, fin], t) :: (TlsError, bytes list \<times> Transcript) outcome)"
    "flight_ok [ee, cert, cv, fin]"
    "ee = encrypted_extensions_msg [ascii ''h2'', ascii ''http/1.1'']" "cert = certificate_msg leaf"
    "cv = certificate_verify_msg sign (transcript_hash c
        (transcript_update (transcript_update transcript ee) cert))"
    "fin = handshake_msg 20 verify" "length verify = hash_len suite"
    "finished_verify c suite secret (transcript_hash c
        (transcript_update (transcript_update (transcript_update transcript ee) cert) cv))
       = (Ok verify :: (TlsError, bytes) outcome)"
    "t = transcript_update (transcript_update (transcript_update (transcript_update transcript ee) cert) cv) fin"
proof -
  define ee where "ee = encrypted_extensions_msg [ascii ''h2'', ascii ''http/1.1'']"
  define cert where "cert = certificate_msg leaf"
  define t2 where "t2 = transcript_update (transcript_update transcript ee) cert"
  define cv where "cv = certificate_verify_msg sign (transcript_hash c t2)"
  define t3 where "t3 = transcript_update t2 cv"
  obtain verify where v: "finished_verify c suite secret (transcript_hash c t3)
      = (Ok verify :: (TlsError, bytes) outcome)" "length verify = hash_len suite"
    using finished_verify_Ok [OF c] by blast
  define fin where "fin = handshake_msg 20 verify"
  have h: "hash_len suite \<le> 48" by (cases suite) simp_all
  have "whole_msg ee" "length ee = 15"
    by (simp_all add: ee_def ee_h2 whole_handshake_msg)
  moreover have "whole_msg cert" "length cert = length leaf + 13"
    using leaf by (simp_all add: cert_def certificate_msg_def Let_def whole_handshake_msg)
  moreover have "whole_msg cv" "length cv \<le> 1008"
    using sign [of "cv_signed (transcript_hash c t2)"]
    by (simp_all add: cv_def certificate_verify_msg_def Let_def whole_handshake_msg)
  moreover have "whole_msg fin" "length fin \<le> 52"
    using v(2) h by (simp_all add: fin_def whole_handshake_msg)
  ultimately have "flight_ok [ee, cert, cv, fin]" using leaf by (simp add: flight_ok_def)
  moreover have "server_messages c sign suite secret transcript [ascii ''h2'', ascii ''http/1.1''] leaf
      = (Ok ([ee, cert, cv, fin], transcript_update t3 fin) :: (TlsError, bytes list \<times> Transcript) outcome)"
    using v(1) by (simp add: server_messages_def Let_def ee_def cert_def t2_def cv_def t3_def fin_def)
  ultimately show thesis
    using that [of ee cert cv fin "transcript_update t3 fin" verify] v
    by (simp add: ee_def cert_def cv_def t2_def t3_def fin_def)
qed

lemma handle_ee:
  "client_handle_msg c check suite auth_key pin st (encrypted_extensions_msg [ascii ''h2'', ascii ''http/1.1''])
     = Ok (st\<lparr>cs_transcript := transcript_update (cs_transcript st)
         (encrypted_extensions_msg [ascii ''h2'', ascii ''http/1.1''])\<rparr>)"
  by (simp add: client_handle_msg_def ee_h2)

lemma handle_cert:
  assumes "verify_hmac_certificate c auth_key leaf" "length leaf < 16000000"
  shows "client_handle_msg c check suite auth_key pin st (certificate_msg leaf)
     = Ok (st\<lparr>cs_leaf := Some leaf, cs_transcript := transcript_update (cs_transcript st) (certificate_msg leaf)\<rparr>)"
proof -
  have "hd (certificate_msg leaf) = 11" by (simp add: certificate_msg_def Let_def)
  then show ?thesis using assms by (simp add: client_handle_msg_def parse_certificate_msg)
qed

lemma handle_cv:
  assumes "cs_leaf st = Some leaf" "cert_ok check sign leaf"
  shows "client_handle_msg c check suite auth_key pin st
       (certificate_verify_msg sign (transcript_hash c (cs_transcript st)))
     = Ok (st\<lparr>cs_transcript := transcript_update (cs_transcript st)
         (certificate_verify_msg sign (transcript_hash c (cs_transcript st)))\<rparr>)"
proof -
  let ?h = "transcript_hash c (cs_transcript st)"
  have "hd (certificate_verify_msg sign ?h) = 15" by (simp add: certificate_verify_msg_def Let_def)
  moreover have "verify_certificate_verify check leaf (certificate_verify_msg sign ?h) ?h = Ok ()"
    using assms(2) by (intro verify_cv_msg) (auto simp: cert_ok_def intro: order.strict_trans1)
  ultimately show ?thesis using assms(1) by (simp add: client_handle_msg_def)
qed

lemma handle_fin:
  assumes "finished_verify c suite (hk_secret (cs_server_hs st)) (transcript_hash c (cs_transcript st))
      = (Ok verify :: (TlsError, bytes) outcome)" "length verify = hash_len suite"
  shows "client_handle_msg c check suite auth_key pin st (handshake_msg 20 verify)
     = Ok (st\<lparr>cs_transcript := transcript_update (cs_transcript st) (handshake_msg 20 verify), cs_finished := True\<rparr>)"
  using assms by (simp add: client_handle_msg_def ct_eq_iff)

text \<open>The pads copied from the destination are record lengths.\<close>

definition dest_sizes_ok :: "DestFlight option \<Rightarrow> bool" where
  "dest_sizes_ok dest \<longleftrightarrow> (case dest of None \<Rightarrow> True
     | Some f \<Rightarrow> list_all (\<lambda>n. n \<le> TLS_MAX_RECORD) (df_encrypted_record_lens f @ df_post_handshake_lens f))"

lemma split_pads_four:
  assumes "split_pads f = Some pads" "dest_sizes_ok (Some f)"
  obtains p1 p2 p3 p4 where "pads = [p1, p2, p3, p4]"
    "list_all (\<lambda>p. case p of None \<Rightarrow> True | Some n \<Rightarrow> n \<le> TLS_MAX_RECORD) [p1, p2, p3, p4]"
proof -
  define xs where "xs = take 4 (map Some (df_encrypted_record_lens f) @ replicate 4 None)"
  have "pads = xs" "length xs = 4"
    using assms(1) by (auto simp: split_pads_def xs_def split: if_splits)
  moreover have "list_all (\<lambda>p. case p of None \<Rightarrow> True | Some n \<Rightarrow> n \<le> TLS_MAX_RECORD) xs"
    using assms(2) by (auto simp: xs_def dest_sizes_ok_def list_all_iff dest!: in_set_takeD)
  ultimately show thesis
    using that by (auto simp: numeral_eq_Suc length_Suc_conv)
qed

lemma handshake_pad_ok:
  "dest_sizes_ok dest \<Longrightarrow> (case Option.bind dest handshake_pad of None \<Rightarrow> True | Some n \<Rightarrow> n \<le> TLS_MAX_RECORD)"
  by (cases dest) (auto simp: dest_sizes_ok_def handshake_pad_def split: list.splits option.splits)

lemma client_loop_flight:
  assumes c: "crypto_laws c" and wf: "keys_wf (hk_keys server_hs)"
    and leaf: "verify_hmac_certificate c auth_key leaf" "length leaf \<le> 8000" "cert_ok check sign leaf"
    and dest: "dest_sizes_ok dest"
    and msgs: "server_messages c sign suite (hk_secret server_hs) transcript
      [ascii ''h2'', ascii ''http/1.1''] leaf = (Ok (msgs, t) :: (TlsError, bytes list \<times> Transcript) outcome)"
  shows "\<exists>st. client_loop c check suite auth_key pin
      \<lparr>cs_transcript = transcript, cs_server_hs = server_hs, cs_buf = [], cs_leaf = None, cs_finished = False\<rparr>
      (server_encrypt_flight c (hk_keys server_hs) dest msgs @ rest) = Ok (st, rest) \<and> cs_transcript st = t"
proof -
  have sign: "length (sign m) \<le> 1000" for m using leaf(3) by (simp add: cert_ok_def)
  obtain ee cert cv fin t' verify where
    "server_messages c sign suite (hk_secret server_hs) transcript [ascii ''h2'', ascii ''http/1.1''] leaf
       = (Ok ([ee, cert, cv, fin], t') :: (TlsError, bytes list \<times> Transcript) outcome)"
    and fl: "flight_ok [ee, cert, cv, fin]"
    and ee: "ee = encrypted_extensions_msg [ascii ''h2'', ascii ''http/1.1'']" and cert: "cert = certificate_msg leaf"
    and cv: "cv = certificate_verify_msg sign (transcript_hash c
        (transcript_update (transcript_update transcript ee) cert))"
    and fin: "fin = handshake_msg 20 verify" "length verify = hash_len suite"
      "finished_verify c suite (hk_secret server_hs) (transcript_hash c
        (transcript_update (transcript_update (transcript_update transcript ee) cert) cv))
       = (Ok verify :: (TlsError, bytes) outcome)"
    and t': "t' = transcript_update (transcript_update (transcript_update (transcript_update transcript ee) cert) cv) fin"
    by (rule server_messages_Ok [OF c leaf(2) sign])
  then have m: "msgs = [ee, cert, cv, fin]" and t: "t = t'" using msgs by simp_all
  have whole: "whole_msg ee" "whole_msg cert" "whole_msg cv" "whole_msg fin"
    and len: "length ee + (length cert + (length cv + length fin)) \<le> 10000"
    using fl by (simp_all add: flight_ok_def)
  let ?T1 = "transcript_update transcript ee"
  let ?T2 = "transcript_update ?T1 cert"
  let ?T3 = "transcript_update ?T2 cv"
  define h where "h = client_handle_msg c check suite auth_key pin"
  have hee: "h st ee = Ok (st\<lparr>cs_transcript := transcript_update (cs_transcript st) ee\<rparr>)" for st
    unfolding h_def ee by (rule handle_ee)
  have hcert: "h st cert = Ok (st\<lparr>cs_leaf := Some leaf, cs_transcript := transcript_update (cs_transcript st) cert\<rparr>)" for st
    unfolding h_def cert by (rule handle_cert [OF leaf(1)]) (use leaf(2) in simp)
  have hcv: "h st cv = Ok (st\<lparr>cs_transcript := transcript_update (cs_transcript st) cv\<rparr>)"
    if "cs_leaf st = Some leaf" "cs_transcript st = ?T2" for st
    unfolding h_def cv using handle_cv [OF that(1) leaf(3), of c suite auth_key pin] that(2) by simp
  have hfin: "h st fin = Ok (st\<lparr>cs_transcript := transcript_update (cs_transcript st) fin, cs_finished := True\<rparr>)"
    if "hk_secret (cs_server_hs st) = hk_secret server_hs" "cs_transcript st = ?T3" for st
    unfolding h_def fin(1) by (rule handle_fin) (use fin that in simp_all)
  define S where "S = (\<lambda>i T l f. \<lparr>cs_transcript = T,
      cs_server_hs = server_hs\<lparr>hk_keys := (next_seq ^^ i) (hk_keys server_hs)\<rparr>,
      cs_buf = [], cs_leaf = l, cs_finished = f\<rparr>)"
  have wf': "keys_wf ((next_seq ^^ i) (hk_keys server_hs))" for i using wf by (induction i) simp_all
  have step: "client_loop c check suite auth_key pin (S i T l False)
      (encrypt_app_padded c ((next_seq ^^ i) (hk_keys server_hs)) 0x16 (concat ms) pad @ r)
    = client_loop c check suite auth_key pin (S (Suc i) T' l' f) r"
    if "client_run c check suite auth_key pin ((S (Suc i) T l False)\<lparr>cs_buf := concat ms\<rparr>) ms = Ok (S (Suc i) T' l' f)"
      "list_all whole_msg ms" "length (concat ms) \<le> 10000"
      "case pad of None \<Rightarrow> True | Some n \<Rightarrow> n \<le> TLS_MAX_RECORD" for i T l ms pad r T' l' f
    using client_loop_record [OF c, of "S i T l False" ms pad check suite auth_key pin "S (Suc i) T' l' f" r] that wf' [of i]
    by (simp add: S_def TLS_MAX_RECORD_def)
  have over: "client_loop c check suite auth_key pin (S i T l True) r = Ok (S i T l True, r)" for i T l r
    by (subst client_loop.simps) (simp add: S_def)
  have start: "\<lparr>cs_transcript = transcript, cs_server_hs = server_hs, cs_buf = [], cs_leaf = None, cs_finished = False\<rparr>
      = S 0 transcript None False" by (simp add: S_def)
  have fields: "cs_transcript (S i T l f) = T" for i T l f by (simp add: S_def)
  show ?thesis
  proof (cases "Option.bind dest split_pads")
    case None
    have "client_run c check suite auth_key pin ((S 1 transcript None False)\<lparr>cs_buf := concat [ee, cert, cv, fin]\<rparr>)
        [ee, cert, cv, fin] = Ok (S 1 t (Some leaf) True)"
      by (simp add: S_def t t' hee hcert hcv hfin flip: h_def)
    then have "client_loop c check suite auth_key pin (S 0 transcript None False)
        (server_encrypt_flight c (hk_keys server_hs) dest msgs @ rest) = Ok (S 1 t (Some leaf) True, rest)"
      using step [where i = 0 and T = transcript and l = None and ms = "[ee, cert, cv, fin]" and T' = t
          and l' = "Some leaf" and f = True and pad = "Option.bind dest handshake_pad" and r = rest]
        whole len handshake_pad_ok [OF dest]
      by (simp add: server_encrypt_flight_def None m keys_encrypt_padded_def over)
    then show ?thesis unfolding start using fields by blast
  next
    case (Some pads)
    then obtain f where f: "dest = Some f" "split_pads f = Some pads" by (cases dest) auto
    obtain p1 p2 p3 p4 where p: "pads = [p1, p2, p3, p4]"
      "list_all (\<lambda>p. case p of None \<Rightarrow> True | Some n \<Rightarrow> n \<le> TLS_MAX_RECORD) [p1, p2, p3, p4]"
      using split_pads_four [OF f(2)] dest f(1) by blast
    have 1: "client_run c check suite auth_key pin ((S 1 transcript None False)\<lparr>cs_buf := concat [ee]\<rparr>) [ee]
        = Ok (S 1 ?T1 None False)"
      "client_run c check suite auth_key pin ((S 2 ?T1 None False)\<lparr>cs_buf := concat [cert]\<rparr>) [cert]
        = Ok (S 2 ?T2 (Some leaf) False)"
      "client_run c check suite auth_key pin ((S 3 ?T2 (Some leaf) False)\<lparr>cs_buf := concat [cv]\<rparr>) [cv]
        = Ok (S 3 ?T3 (Some leaf) False)"
      "client_run c check suite auth_key pin ((S 4 ?T3 (Some leaf) False)\<lparr>cs_buf := concat [fin]\<rparr>) [fin]
        = Ok (S 4 t (Some leaf) True)"
      by (simp_all add: S_def t t' hee hcert hcv hfin flip: h_def)
    define e where "e = (\<lambda>i m pad. encrypt_app_padded c ((next_seq ^^ i) (hk_keys server_hs)) 0x16 (concat [m]) pad)"
    have flight: "server_encrypt_flight c (hk_keys server_hs) dest msgs @ rest =
        e 0 ee p1 @ e 1 cert p2 @ e 2 cv p3 @ e 3 fin p4 @ rest"
      by (simp add: server_encrypt_flight_def Some m p(1) keys_encrypt_padded_def numeral_eq_Suc e_def)
    define L where "L = client_loop c check suite auth_key pin"
    have next_state: "L (S i T l False) (e i msg pad @ r) = L (S j T' l' f) r"
      if "client_run c check suite auth_key pin ((S j T l False)\<lparr>cs_buf := concat [msg]\<rparr>) [msg]
          = Ok (S j T' l' f)" "j = Suc i" "whole_msg msg" "length msg \<le> 10000"
        "case pad of None \<Rightarrow> True | Some n \<Rightarrow> n \<le> TLS_MAX_RECORD" for i j T l msg pad r T' l' f
      unfolding L_def e_def that(2) by (rule step) (use that in simp_all)
    have "L (S 0 transcript None False) (e 0 ee p1 @ e 1 cert p2 @ e 2 cv p3 @ e 3 fin p4 @ rest)
        = L (S 1 ?T1 None False) (e 1 cert p2 @ e 2 cv p3 @ e 3 fin p4 @ rest)"
      by (rule next_state [OF 1(1)]) (use p(2) whole len in simp_all)
    also have "\<dots> = L (S 2 ?T2 (Some leaf) False) (e 2 cv p3 @ e 3 fin p4 @ rest)"
      by (rule next_state [OF 1(2)]) (use p(2) whole len in simp_all)
    also have "\<dots> = L (S 3 ?T3 (Some leaf) False) (e 3 fin p4 @ rest)"
      by (rule next_state [OF 1(3)]) (use p(2) whole len in simp_all)
    also have "\<dots> = L (S 4 t (Some leaf) True) rest"
      by (rule next_state [OF 1(4)]) (use p(2) whole len in simp_all)
    also have "\<dots> = Ok (S 4 t (Some leaf) True, rest)" unfolding L_def by (rule over)
    finally have "client_loop c check suite auth_key pin (S 0 transcript None False)
        (server_encrypt_flight c (hk_keys server_hs) dest msgs @ rest) = Ok (S 4 t (Some leaf) True, rest)"
      unfolding flight L_def .
    then show ?thesis unfolding start using fields by blast
  qed
qed

section \<open>Both sides agree\<close>

lemma read_server_hello_whole:
  assumes "whole_msg sh" "hd sh = 2" "length sh \<le> TLS_MAX_RECORD"
  shows "read_server_hello_msg [] (tls_record 0x16 sh @ rest) = Ok (sh, rest)"
proof -
  have "0 < length sh" using assms(1) by (auto simp: split_handshake_def split: if_splits)
  with assms show ?thesis by (subst read_server_hello_msg.simps) (simp add: read_tls_record)
qed

lemma client_hello_on_wire:
  fixes r :: rng
  assumes mlkem: "\<And>s. length s = 64 \<Longrightarrow> length (mlkem s) = MLKEM768_PUBLIC_LEN"
    and lens: "length random = 32" "length sid = 32" "length public = 32"
    and sni: "utf8_valid sni" "length sni \<le> 255"
  defines "hs \<equiv> fst (build_client_hello_handshake mlkem random sid sni public r)"
  shows "read_record (fst (build_client_hello_record mlkem random sid sni public r)) = Ok ((0x16, hs), [])"
    and "whole_msg hs" "hd hs = 1" "length hs \<le> 2100"
    and "client_hello_parse ([0x16, 0x03, 0x01] @ to_be 2 (of_nat (length hs) :: u16) @ hs) =
      Some \<lparr>ch_random = random, ch_session_id = sid, ch_sni = Some sni,
            ch_x25519_public = Some public, ch_alpn = [ascii ''h2'', ascii ''http/1.1'']\<rparr>"
proof -
  have sni': "length sni \<le> 60000" using sni(2) by simp
  obtain body where b: "hs = [1] @ u24_bytes (length body) @ body" "length body \<le> 1800 + length sni"
    unfolding hs_def by (rule build_handshake_shape [where mlkem = mlkem, OF mlkem lens sni(1) sni', where r = r])
  then have hs: "hs = handshake_msg 1 body" by (simp add: handshake_msg_def)
  show "whole_msg hs" "hd hs = 1" using b(2) sni(2) by (simp_all add: hs whole_handshake_msg)
  show "length hs \<le> 2100" using b sni(2) by simp
  have rcd: "fst (build_client_hello_record mlkem random sid sni public r)
      = [0x16, 0x03, 0x01] @ to_be 2 (of_nat (length hs) :: u16) @ hs"
  proof -
    have "to_be 2 (0x0301 :: u16) = [3, 1]" by code_simp
    then show ?thesis unfolding record_of_handshake hs_def [symmetric] by simp
  qed
  have "0 < length hs" "length hs \<le> TLS_MAX_RECORD" using b sni(2) by (simp_all add: TLS_MAX_RECORD_def)
  then show "read_record (fst (build_client_hello_record mlkem random sid sni public r)) = Ok ((0x16, hs), [])"
    unfolding rcd using read_record_at [of hs "0x16" 3 1 "[]"] by simp
  show "client_hello_parse ([0x16, 0x03, 0x01] @ to_be 2 (of_nat (length hs) :: u16) @ hs) =
      Some \<lparr>ch_random = random, ch_session_id = sid, ch_sni = Some sni,
            ch_x25519_public = Some public, ch_alpn = [ascii ''h2'', ascii ''http/1.1'']\<rparr>"
    unfolding rcd [symmetric] by (rule client_hello_built [where mlkem = mlkem, OF mlkem lens sni(1) sni'])
qed

text \<open>
  What the server needs of the destination's ServerHello: it is one whole
  message, fits a record and repeats no extension type.  The parser does not
  look at the legacy version, so only the parsed fields matter.
\<close>

definition dest_hello_ok :: "DestFlight option \<Rightarrow> bool" where
  "dest_hello_ok dest \<longleftrightarrow> (case dest of None \<Rightarrow> True
     | Some f \<Rightarrow> (case server_hello_parse (df_server_hello f) of None \<Rightarrow> True
        | Some v \<Rightarrow> distinct (sh_extensions v) \<and> whole_msg (df_server_hello f) \<and>
            length (df_server_hello f) \<le> TLS_MAX_RECORD))"

lemma patch_keeps_frame:
  assumes "whole_msg raw" "patch_server_hello_x25519 raw public = (True, msg)" "length msg = length raw"
  shows "whole_msg msg" "hd msg = hd raw"
proof -
  obtain n body where m: "msg = take 4 raw @ body @ drop (4 + n) raw" "4 \<le> length raw"
    using assms(2) by (auto simp: patch_server_hello_x25519_def split: if_splits option.splits)
  then have four: "take 4 msg = take 4 raw" by simp
  have "take 3 (drop 1 msg) = drop 1 (take 4 msg)" "take 3 (drop 1 raw) = drop 1 (take 4 raw)"
    by (simp_all add: drop_take)
  then show "whole_msg msg"
    using assms(1,3) four unfolding whole_msg_iff by simp
  show "hd msg = hd raw"
    using four m(2) assms(3) by (cases raw; cases msg) simp_all
qed

lemma server_hello_choice_ok:
  assumes dest: "dest_hello_ok dest" and lens: "length public = 32" "length random = 32" "length sid < 256"
    and hrr: "random \<noteq> HRR_RANDOM"
  defines "sh \<equiv> server_hello_choice dest public random sid"
  shows "\<exists>v suite. server_hello_parse sh = Some v \<and> suite_from_id (sh_cipher v) = Some suite \<and>
    sh_x25519_public v = Some public \<and> whole_msg sh \<and> hd sh = 2 \<and> length sh \<le> TLS_MAX_RECORD"
proof (cases "dest_server_hello (map_option df_server_hello dest) public")
  case None
  define body where "body = to_be 2 (0x0303 :: u16) @ random @ [of_nat (length sid)] @ sid @
     to_be 2 TLS_AES_128_GCM_SHA256 @ [0] @
     to_be 2 (of_nat (length (server_extensions public [43, 51])) :: u16) @ server_extensions public [43, 51]"
  have sh: "sh = handshake_msg 2 body"
    by (simp add: sh_def server_hello_choice_def None build_server_hello_handshake_def Let_def
        handshake_msg_def body_def)
  have "length (server_extensions public [43, 51]) \<le> 160"
    using length_server_pairs(2) [OF lens(1), of "[43, 51]"] by (simp add: server_extensions_pairs)
  then have b: "length body \<le> 1000" using lens by (simp add: body_def)
  have "server_hello_parse sh = Some \<lparr>sh_random = random, sh_session_id = sid, sh_cipher = TLS_AES_128_GCM_SHA256,
      sh_extensions = [43, 51], sh_x25519_public = Some public\<rparr>"
    using built_server_hello_parses [OF lens(2,3,1) _ hrr, of "[43, 51]" TLS_AES_128_GCM_SHA256]
    by (simp add: sh_def server_hello_choice_def None EXT_SUPPORTED_VERSIONS_def EXT_KEY_SHARE_def)
  then show ?thesis using b by (simp add: suite_from_id_def sh whole_handshake_msg TLS_MAX_RECORD_def)
next
  case (Some hello)
  then obtain f v suite where f: "dest = Some f" "server_hello_parse (df_server_hello f) = Some v"
    "suite_from_id (sh_cipher v) = Some suite" "patch_server_hello_x25519 (df_server_hello f) public = (True, hello)"
    by (auto simp: dest_server_hello_def split: option.splits prod.splits if_splits)
  have ok: "distinct (sh_extensions v)" "whole_msg (df_server_hello f)" "length (df_server_hello f) \<le> TLS_MAX_RECORD"
    using dest f(1,2) by (simp_all add: dest_hello_ok_def)
  have p: "length hello = length (df_server_hello f)"
    "server_hello_parse hello = Some (v\<lparr>sh_x25519_public := Some public\<rparr>)"
    using patch_server_hello_parses [OF f(2) ok(1) lens(1)] f(4) by simp_all
  have two: "hd (df_server_hello f) = 2"
    using f(2) by (cases "df_server_hello f") (auto simp: server_hello_parse_def split: if_splits)
  have "sh = hello" by (simp add: sh_def server_hello_choice_def Some)
  then show ?thesis
    using p f(3) patch_keeps_frame [OF ok(2) f(4) p(1)] two ok(3) by simp
qed

lemma encrypt_all_append:
  "encrypt_all c k (as @ bs) = encrypt_all c k as @ encrypt_all c ((next_seq ^^ length as) k) bs"
  by (induction as arbitrary: k) (auto simp: funpow_swap1)

abbreviation dummy_flight :: "nat list \<Rightarrow> (u8 \<times> bytes \<times> nat option) list" where
  "dummy_flight ns \<equiv> map (\<lambda>n. (0x16, [4], Some n)) ns"

lemma dummy_records_flight:
  "dummy_records c k pads =
     (concat (encrypt_all c k (dummy_flight (filter ((\<le>) 23) pads))),
      (next_seq ^^ length (filter ((\<le>) 23) pads)) k)"
  by (induction pads arbitrary: k) (auto simp: keys_encrypt_padded_def funpow_swap1)

lemma server_finish_Ok:
  assumes c: "crypto_laws c" and wf: "keys_wf (hk_keys (sv_client_hs st))"
    and v: "finished_verify c (sv_suite st) (hk_secret (sv_client_hs st)) (transcript_hash c (sv_transcript st))
      = (Ok verify :: (TlsError, bytes) outcome)"
  shows "server_finish_loop c st
    (CCS_RECORD @ fst (keys_encrypt c (hk_keys (sv_client_hs st)) 0x16 (handshake_msg 20 verify))) = Ok []"
proof -
  define k where "k = hk_keys (sv_client_hs st)"
  have len: "length verify = hash_len (sv_suite st)"
  proof -
    obtain w where "finished_verify c (sv_suite st) (hk_secret (sv_client_hs st)) (transcript_hash c (sv_transcript st))
        = (Ok w :: (TlsError, bytes) outcome)" "length w = hash_len (sv_suite st)"
      using finished_verify_Ok [OF c] by blast
    with v show ?thesis by simp
  qed
  have h: "hash_len (sv_suite st) \<le> 48" by (cases "sv_suite st") simp_all
  have "length (handshake_msg 20 verify) + 17 \<le> TLS_MAX_RECORD" using len h by (simp add: TLS_MAX_RECORD_def)
  from read_encrypted [OF c wf this, where pad = None and rest = "[]" and t = "0x16"]
  have r: "read_record (encrypt_app_padded c k 0x16 (handshake_msg 20 verify) None)
      = Ok ((0x17, drop 5 (encrypt_app_padded c k 0x16 (handshake_msg 20 verify) None)), [])"
    by (simp add: k_def)
  have d: "keys_decrypt c k (drop 5 (encrypt_app_padded c k 0x16 (handshake_msg 20 verify) None))
      = Ok ((0x16, handshake_msg 20 verify), next_seq k)"
    using decrypt_encrypted [OF c wf, of "0x16" "handshake_msg 20 verify" None] by (simp add: keys_decrypt_def k_def)
  have s: "split_handshake (handshake_msg 20 verify) = Some (handshake_msg 20 verify, [])"
    using len h by (intro whole_handshake_msg) simp
  have "server_finish_loop c st (encrypt_app_padded c k 0x16 (handshake_msg 20 verify) None) = Ok []"
    using len v by (subst server_finish_loop.simps) (simp add: r d s ct_eq_iff flip: k_def)
  then show ?thesis
    by (subst server_finish_loop.simps) (simp add: read_ccs keys_encrypt_def keys_encrypt_padded_def flip: k_def)
qed

lemma handshake_agrees:
  assumes c: "crypto_laws c"
    and hello: "read_record rcd = Ok ((0x16, hs), [])" "whole_msg hs" "hd hs = 1"
      "client_hello_parse ([0x16, 0x03, 0x01] @ to_be 2 (of_nat (length hs) :: u16) @ hs) = Some view"
      "ch_x25519_public view = Some (x25519_base c client_private)" "length (ch_session_id view) = 32"
      "ch_alpn view = [ascii ''h2'', ascii ''http/1.1'']"
    and keys: "length client_private = 32" "length server_private = 32" "length server_random = 32"
      "server_random \<noteq> HRR_RANDOM"
    and leaf: "leaf_ok leaf_der" "length leaf_der \<le> 8000"
      "\<And>leaf. mint_hmac_leaf c key leaf_der = Ok leaf \<Longrightarrow> cert_ok check sign leaf"
    and dest: "dest_hello_ok dest" "dest_sizes_ok dest"
  shows "\<exists>out st cs fin unread ss dummies ns.
    server_accept_hello c sign leaf_der key dest server_private server_random rcd = Ok (out, st, []) \<and>
    client_respond c check pin client_private hs key out = Ok (cs, fin, unread) \<and>
    server_accept_finished c dest st fin = Ok (ss, dummies, []) \<and>
    ts_recv ss = ts_send cs \<and> keys_wf (ts_send cs) \<and> keys_wf (ts_recv cs) \<and>
    unread @ dummies = concat (encrypt_all c (ts_recv cs) (dummy_flight ns)) \<and>
    ts_send ss = (next_seq ^^ length ns) (ts_recv cs) \<and> list_all (\<lambda>n. n \<le> TLS_MAX_RECORD) ns"
proof -
  let ?pub = "x25519_base c server_private"
  define sh where "sh = server_hello_choice dest ?pub server_random (ch_session_id view)"
  obtain v suite where v: "server_hello_parse sh = Some v" "suite_from_id (sh_cipher v) = Some suite"
    "sh_x25519_public v = Some ?pub" "whole_msg sh" "hd sh = 2" "length sh \<le> TLS_MAX_RECORD"
    using server_hello_choice_ok [OF dest(1), of ?pub server_random "ch_session_id view"] keys hello(6) crypto_lawsD(2) [OF c]
    by (auto simp: sh_def)
  define T where "T = transcript_update (transcript_update (transcript_new suite) hs) sh"
  define shared where "shared = x25519_dh c server_private (x25519_base c client_private)"
  have dh: "x25519_dh c client_private ?pub = shared"
    using crypto_lawsD(1) [OF c keys(1,2)] by (simp add: shared_def)
  obtain ck sk hsec where k: "handshake_traffic_keys c suite shared (transcript_hash c T)
      = (Ok (ck, sk, hsec) :: (TlsError, HsKeys \<times> HsKeys \<times> bytes) outcome)"
    "keys_wf (hk_keys ck)" "keys_wf (hk_keys sk)"
    using handshake_traffic_keys_Ok [OF c] by blast
  obtain lf where lf: "mint_hmac_leaf c key leaf_der = Ok lf" "length lf = length leaf_der"
    "verify_hmac_certificate c key lf"
    using minted_leaf_verifies [OF c leaf(1)] by blast
  have cert: "cert_ok check sign lf" using leaf(3) lf(1) by simp
  obtain msgs t where m: "server_messages c sign suite (hk_secret sk) T [ascii ''h2'', ascii ''http/1.1''] lf
      = (Ok (msgs, t) :: (TlsError, bytes list \<times> Transcript) outcome)"
    using server_messages_Ok [OF c, of lf sign suite "hk_secret sk" T] lf(2) leaf(2) cert
    by (metis cert_ok_def)
  obtain ca sa where app: "application_traffic_keys c suite hsec (transcript_hash c t)
      = (Ok (ca, sa) :: (TlsError, TrafficKeys \<times> TrafficKeys) outcome)" "keys_wf ca" "keys_wf sa"
    using application_traffic_keys_Ok [OF c] by blast
  obtain verify where fv: "finished_verify c suite (hk_secret ck) (transcript_hash c t)
      = (Ok verify :: (TlsError, bytes) outcome)"
    using finished_verify_Ok [OF c] by blast
  define flight where "flight = server_encrypt_flight c (hk_keys sk) dest msgs"
  define n1 where "n1 = (case dest of None \<Rightarrow> [] | Some f \<Rightarrow> filter ((\<le>) 23) (extra_pads f))"
  define n2 where "n2 = (case dest of None \<Rightarrow> [] | Some f \<Rightarrow> filter ((\<le>) 23) (post_handshake_pads f))"
  define d1 where "d1 = concat (encrypt_all c sa (dummy_flight n1))"
  define st where "st = \<lparr>sv_suite = suite, sv_transcript = t, sv_client_hs = ck, sv_client_app = ca,
      sv_server_app = (next_seq ^^ length n1) sa\<rparr>"
  define out where "out = tls_record 0x16 sh @ CCS_RECORD @ flight @ d1"
  define fin where "fin = CCS_RECORD @ fst (keys_encrypt c (hk_keys ck) 0x16 (handshake_msg 20 verify))"
  have server: "server_accept_hello c sign leaf_der key dest server_private server_random rcd = Ok (out, st, [])"
    using hello k lf m app v
    by (simp add: server_accept_hello_def shared_def T_def sh_def [symmetric] out_def st_def d1_def n1_def flight_def
        dummy_records_flight split: option.split)
  obtain cst where cl: "client_loop c check suite key pin
      \<lparr>cs_transcript = T, cs_server_hs = sk, cs_buf = [], cs_leaf = None, cs_finished = False\<rparr> (flight @ d1)
      = Ok (cst, d1)" "cs_transcript cst = t"
    using client_loop_flight [OF c k(3) lf(3) _ cert dest(2) m] lf(2) leaf(2) unfolding flight_def by fastforce
  have client: "client_respond c check pin client_private hs key out
      = Ok (\<lparr>ts_send = ca, ts_recv = sa\<rparr>, fin, d1)"
    using v k(1) app(1) fv cl
    by (simp add: client_respond_def out_def read_server_hello_whole client_loop_ccs dh T_def [symmetric]
        client_finish_def fin_def Let_def)
  have finish: "server_finish_loop c st fin = Ok []"
    using server_finish_Ok [OF c, of st verify] k(2) fv by (simp add: st_def fin_def)
  have "server_accept_finished c dest st fin =
      Ok (\<lparr>ts_send = (next_seq ^^ length n2) ((next_seq ^^ length n1) sa), ts_recv = ca\<rparr>,
          concat (encrypt_all c ((next_seq ^^ length n1) sa) (dummy_flight n2)), [])"
    using finish by (simp add: server_accept_finished_def st_def n2_def dummy_records_flight split: option.split)
  moreover have "d1 @ concat (encrypt_all c ((next_seq ^^ length n1) sa) (dummy_flight n2))
      = concat (encrypt_all c sa (dummy_flight (n1 @ n2)))"
    by (simp add: d1_def encrypt_all_append)
  moreover have "(next_seq ^^ length n2) ((next_seq ^^ length n1) sa) = (next_seq ^^ length (n1 @ n2)) sa"
    by (simp add: funpow_add [symmetric, THEN fun_cong, simplified] add.commute)
  moreover have "list_all (\<lambda>n. n \<le> TLS_MAX_RECORD) (n1 @ n2)"
    using dest(2)
    by (auto simp: n1_def n2_def dest_sizes_ok_def list_all_iff extra_pads_def post_handshake_pads_def
        dest: in_set_dropD split: option.splits if_splits)
  ultimately show ?thesis
    using server client app(2,3)
    by (intro exI [of _ out] exI [of _ st] exI [of _ "\<lparr>ts_send = ca, ts_recv = sa\<rparr>"] exI [of _ fin] exI [of _ d1]
        exI [of _ "\<lparr>ts_send = (next_seq ^^ length n2) ((next_seq ^^ length n1) sa), ts_recv = ca\<rparr>"]
        exI [of _ "concat (encrypt_all c ((next_seq ^^ length n1) sa) (dummy_flight n2))"] exI [of _ "n1 @ n2"]) simp
qed

lemma handshake_completes_aux:
  assumes "crypto_laws c"
    and "\<And>s. length s = 64 \<Longrightarrow> length (mlkem s) = MLKEM768_PUBLIC_LEN"
    and "length client_private = 32" "length (rs_private_key scfg) = 32"
      "rc_public_key cfg = x25519_base c (rs_private_key scfg)"
    and "length random = 32" "length (rc_short_id cfg) = 8" "rc_short_id cfg \<in> set (rs_short_ids scfg)"
    and "utf8_valid (rc_server_name cfg)" "length (rc_server_name cfg) \<le> 255"
      "rc_server_name cfg \<in> set (rs_server_names scfg)"
    and "abs_diff (unat now) (unat unix) \<le> rs_max_time_diff scfg div 1000000000"
    and "length server_private = 32" "length server_random = 32" "server_random \<noteq> HRR_RANDOM"
    and "leaf_ok leaf_der" "length leaf_der \<le> 8000"
    and "\<forall>key leaf. mint_hmac_leaf c key leaf_der = Ok leaf \<longrightarrow> cert_ok check sign leaf"
    and "dest_hello_ok dest" "dest_sizes_ok dest"
  shows "\<exists>hs rcd key view out st cs fin unread ss dummies ns.
    client_hello_sealed c mlkem cfg client_private random unix r = (Ok (hs, rcd, key) :: (TlsError, _) outcome) \<and>
    read_record rcd = Ok ((0x16, hs), []) \<and> length hs \<le> 2100 \<and>
    authenticate c now rcd scfg = Ok \<lparr>ah_hello = view, ah_auth_key = key\<rparr> \<and>
    server_accept_hello c sign leaf_der key dest server_private server_random rcd = Ok (out, st, []) \<and>
    client_respond c check pin client_private hs key out = Ok (cs, fin, unread) \<and>
    server_accept_finished c dest st fin = Ok (ss, dummies, []) \<and>
    ts_recv ss = ts_send cs \<and> keys_wf (ts_send cs) \<and> keys_wf (ts_recv cs) \<and>
    unread @ dummies = concat (encrypt_all c (ts_recv cs) (dummy_flight ns)) \<and>
    ts_send ss = (next_seq ^^ length ns) (ts_recv cs) \<and> list_all (\<lambda>n. n \<le> TLS_MAX_RECORD) ns"
proof -
  have name: "length (rc_server_name cfg) \<le> 60000" using assms(10) by simp
  obtain hs rcd key view where h: "client_hello_sealed c mlkem cfg client_private random unix r
      = (Ok (hs, rcd, key) :: (TlsError, bytes \<times> bytes \<times> bytes) outcome)"
    "authenticate c now rcd scfg = Ok \<lparr>ah_hello = view, ah_auth_key = key\<rparr>"
    using sealed_hello_accepted [where mlkem = mlkem, OF assms(1-9) name assms(11,12)] by blast
  define sealed where "sealed = aes256_seal c
      (auth_key_bytes c (x25519_dh c client_private (rc_public_key cfg)) random) (take 12 (drop 20 random))
      (fst (build_client_hello_handshake mlkem random (replicate 32 0) (rc_server_name cfg) (x25519_base c client_private) r))
      (session_id_plain REALITY_CLIENT_VERSION unix (rc_short_id cfg))"
  note s = client_hello_sealed_Ok [OF assms(1,6,7), where mlkem = mlkem and r = r and unix = unix
      and client_private = client_private, folded sealed_def]
  have hs: "hs = fst (build_client_hello_handshake mlkem random sealed (rc_server_name cfg) (x25519_base c client_private) r)"
    "rcd = fst (build_client_hello_record mlkem random sealed (rc_server_name cfg) (x25519_base c client_private) r)"
    using h(1) by (simp_all add: s(1))
  define view' where "view' = \<lparr>ch_random = random, ch_session_id = sealed, ch_sni = Some (rc_server_name cfg),
      ch_x25519_public = Some (x25519_base c client_private), ch_alpn = [ascii ''h2'', ascii ''http/1.1'']\<rparr>"
  note w = client_hello_on_wire [where mlkem = mlkem and r = r, OF assms(2) assms(6) s(2) crypto_lawsD(2) [OF assms(1)] assms(9,10)]
  have w1: "read_record rcd = Ok ((0x16, hs), [])" unfolding hs by (rule w(1))
  have w2: "whole_msg hs" unfolding hs by (rule w(2))
  have w3: "hd hs = 1" unfolding hs by (rule w(3))
  have w5: "length hs \<le> 2100" unfolding hs by (rule w(4))
  have w4: "client_hello_parse ([0x16, 0x03, 0x01] @ to_be 2 (of_nat (length hs) :: u16) @ hs) = Some view'"
    unfolding hs view'_def by (rule w(5))
  have "\<exists>out st cs fin unread ss dummies ns.
    server_accept_hello c sign leaf_der key dest server_private server_random rcd = Ok (out, st, []) \<and>
    client_respond c check pin client_private hs key out = Ok (cs, fin, unread) \<and>
    server_accept_finished c dest st fin = Ok (ss, dummies, []) \<and>
    ts_recv ss = ts_send cs \<and> keys_wf (ts_send cs) \<and> keys_wf (ts_recv cs) \<and>
    unread @ dummies = concat (encrypt_all c (ts_recv cs) (dummy_flight ns)) \<and>
    ts_send ss = (next_seq ^^ length ns) (ts_recv cs) \<and> list_all (\<lambda>n. n \<le> TLS_MAX_RECORD) ns"
    by (rule handshake_agrees [OF assms(1) w1 w2 w3 w4]) (use assms s(2) in \<open>simp_all add: view'_def\<close>)
  then show ?thesis using h w1 w5 by blast
qed

text \<open>
  C22: The REALITY handshake completes.  A configured client's hello is
  authenticated; the server, using the key it derived, answers with the
  destination's ServerHello (or its own), change-cipher-spec, the encrypted
  flight in the destination's record sizes and dummy tickets; the client accepts
  this answer, and the server accepts the client's Finished.  Both ends then
  hold the same traffic keys, and everything the client has not read yet is the
  dummy records under the keys it will read with.
\<close>

theorem reality_handshake_completes:
  assumes "crypto_laws c"
    and "\<And>s. length s = 64 \<Longrightarrow> length (mlkem s) = MLKEM768_PUBLIC_LEN"
    and "length client_private = 32" "length (rs_private_key scfg) = 32"
      "rc_public_key cfg = x25519_base c (rs_private_key scfg)"
    and "length random = 32" "length (rc_short_id cfg) = 8" "rc_short_id cfg \<in> set (rs_short_ids scfg)"
    and "utf8_valid (rc_server_name cfg)" "length (rc_server_name cfg) \<le> 255"
      "rc_server_name cfg \<in> set (rs_server_names scfg)"
    and "abs_diff (unat now) (unat unix) \<le> rs_max_time_diff scfg div 1000000000"
    and "length server_private = 32" "length server_random = 32" "server_random \<noteq> HRR_RANDOM"
    and "leaf_ok leaf_der" "length leaf_der \<le> 8000"
    and "\<And>key leaf. mint_hmac_leaf c key leaf_der = Ok leaf \<Longrightarrow> cert_ok check sign leaf"
    and "dest_hello_ok dest" "dest_sizes_ok dest"
  shows "\<exists>hs rcd key view out st cs fin unread ss dummies ns.
    client_hello_sealed c mlkem cfg client_private random unix r = (Ok (hs, rcd, key) :: (TlsError, _) outcome) \<and>
    authenticate c now rcd scfg = Ok \<lparr>ah_hello = view, ah_auth_key = key\<rparr> \<and>
    server_accept_hello c sign leaf_der key dest server_private server_random rcd = Ok (out, st, []) \<and>
    client_respond c check pin client_private hs key out = Ok (cs, fin, unread) \<and>
    server_accept_finished c dest st fin = Ok (ss, dummies, []) \<and>
    ts_recv ss = ts_send cs \<and> keys_wf (ts_send cs) \<and> keys_wf (ts_recv cs) \<and>
    unread @ dummies = concat (encrypt_all c (ts_recv cs) (dummy_flight ns)) \<and>
    ts_send ss = (next_seq ^^ length ns) (ts_recv cs)"
proof -
  have cert: "\<forall>key leaf. mint_hmac_leaf c key leaf_der = Ok leaf \<longrightarrow> cert_ok check sign leaf"
    using assms(18) by blast
  show ?thesis
    using handshake_completes_aux [where pin = pin and r = r and mlkem = mlkem, OF assms(1-17) cert assms(19,20)]
    by blast
qed

section \<open>A handshake without a certificate\<close>

text \<open>
  What a party can send that has read the ClientHello but holds neither the
  server's private key nor the client's REALITY key: a ServerHello with its own
  share and a Finished, and no certificate.
\<close>

definition keyless_flight :: "RealityCrypto \<Rightarrow> bytes \<Rightarrow> bytes \<Rightarrow> bytes \<Rightarrow> (TlsError, bytes) outcome" where
  "keyless_flight c own_private client_public hs =
    (let sh = build_server_hello_handshake (replicate 32 1) [] TLS_AES_128_GCM_SHA256
                (x25519_base c own_private) [43, 51];
         transcript = transcript_update (transcript_update (transcript_new Aes128GcmSha256) hs) sh
     in obind (handshake_traffic_keys c Aes128GcmSha256 (x25519_dh c own_private client_public)
                 (transcript_hash c transcript)) (\<lambda>(_, server_hs, _).
        obind (finished_verify c Aes128GcmSha256 (hk_secret server_hs) (transcript_hash c transcript)) (\<lambda>verify.
          Ok (tls_record 0x16 sh @
              encrypt_app_padded c (hk_keys server_hs) 0x16 (handshake_msg 20 verify) None))))"

text \<open>
  C25: The client does not insist on a certificate.  Its handshake loop
  checks a Certificate and a CertificateVerify when they come, but completes on
  a Finished alone: the flight of a party that knows no key of the server is
  accepted, whatever the client's REALITY key and whatever the certificate
  check would say.
\<close>

theorem finished_without_certificate_accepted:
  assumes c: "crypto_laws c" and keys: "length client_private = 32" "length own_private = 32"
  shows "\<exists>flight. keyless_flight c own_private (x25519_base c client_private) hs = Ok flight \<and>
    is_ok (client_respond c (\<lambda>_ _ _ _. False) None client_private hs auth_key flight)"
proof -
  define pub where "pub = x25519_base c own_private"
  have pl: "length pub = 32" unfolding pub_def by (rule crypto_lawsD(2) [OF c])
  define sh where "sh = build_server_hello_handshake (replicate 32 1) [] TLS_AES_128_GCM_SHA256 pub [43, 51]"
  have choice: "sh = server_hello_choice None pub (replicate 32 1) []"
    by (simp add: sh_def server_hello_choice_def dest_server_hello_def)
  have hrr: "replicate 32 1 \<noteq> HRR_RANDOM" by code_simp
  obtain v where v: "server_hello_parse sh = Some v" "sh_x25519_public v = Some pub" "whole_msg sh" "hd sh = 2"
    "length sh \<le> TLS_MAX_RECORD"
    using server_hello_choice_ok [of None pub "replicate 32 1" "[]"] pl hrr
    by (auto simp: choice dest_hello_ok_def)
  have "sh_cipher v = TLS_AES_128_GCM_SHA256"
    using built_server_hello_parses [OF _ _ pl _ hrr, of "[]" "[43, 51]" TLS_AES_128_GCM_SHA256] v(1)
    by (auto simp: sh_def)
  then have suite: "suite_from_id (sh_cipher v) = Some Aes128GcmSha256" by (simp add: suite_from_id_def)
  define T where "T = transcript_update (transcript_update (transcript_new Aes128GcmSha256) hs) sh"
  obtain ck sk hsec where k: "handshake_traffic_keys c Aes128GcmSha256 (x25519_dh c client_private pub) (transcript_hash c T)
      = (Ok (ck, sk, hsec) :: (TlsError, HsKeys \<times> HsKeys \<times> bytes) outcome)" "keys_wf (hk_keys sk)"
    using handshake_traffic_keys_Ok [OF c] by blast
  obtain verify where fv: "finished_verify c Aes128GcmSha256 (hk_secret sk) (transcript_hash c T)
      = (Ok verify :: (TlsError, bytes) outcome)" "length verify = 32"
    using finished_verify_Ok [OF c, of Aes128GcmSha256] by fastforce
  define st where "st = \<lparr>cs_transcript = T, cs_server_hs = sk, cs_buf = [], cs_leaf = None, cs_finished = False\<rparr>"
  define enc where "enc = encrypt_app_padded c (hk_keys sk) 0x16 (handshake_msg 20 verify) None"
  have whole: "whole_msg (handshake_msg 20 verify)" using fv(2) by (simp add: whole_handshake_msg)
  define st1 where "st1 = st\<lparr>cs_server_hs := sk\<lparr>hk_keys := next_seq (hk_keys sk)\<rparr>,
      cs_transcript := transcript_update T (handshake_msg 20 verify), cs_finished := True\<rparr>"
  have "client_loop c (\<lambda>_ _ _ _. False) Aes128GcmSha256 auth_key None st (enc @ []) =
      client_loop c (\<lambda>_ _ _ _. False) Aes128GcmSha256 auth_key None st1 []"
    using client_loop_record [OF c, of st "[handshake_msg 20 verify]" None "\<lambda>_ _ _ _. False" Aes128GcmSha256
        auth_key None st1 "[]"] k(2) fv whole
    by (simp add: st_def st1_def enc_def TLS_MAX_RECORD_def handle_fin)
  also have "\<dots> = Ok (st1, [])" by (subst client_loop.simps) (simp add: st1_def)
  finally have loop: "client_loop c (\<lambda>_ _ _ _. False) Aes128GcmSha256 auth_key None st enc = Ok (st1, [])" by simp
  have finish: "is_ok (client_finish c Aes128GcmSha256 ck hsec st1 [])"
    using application_traffic_keys_Ok [OF c] finished_verify_Ok [OF c]
    by (fastforce simp: client_finish_def Let_def is_ok_iff obind_eq_Ok)
  have "keyless_flight c own_private (x25519_base c client_private) hs = Ok (tls_record 0x16 sh @ enc)"
    using k fv crypto_lawsD(1) [OF c keys]
    by (simp add: keyless_flight_def Let_def T_def sh_def pub_def enc_def)
  moreover have "is_ok (client_respond c (\<lambda>_ _ _ _. False) None client_private hs auth_key (tls_record 0x16 sh @ enc))"
    using v suite k(1) loop finish
    by (simp add: client_respond_def read_server_hello_whole Let_def T_def [symmetric] st_def [symmetric])
  ultimately show ?thesis by blast
qed

section \<open>Witnesses\<close>

definition sample_leaf_der :: bytes where
  "sample_leaf_der = ED25519_SPKI_PREFIX @ replicate 100 9"

definition sample_dest :: DestFlight where
  "sample_dest = \<lparr>df_server_hello = sample_server_hello, df_encrypted_record_lens = [40, 900, 300, 80, 260],
     df_post_handshake_lens = [255]\<rparr>"

lemma sample_dest_ok: "dest_hello_ok (Some sample_dest)" "dest_sizes_ok (Some sample_dest)"
proof -
  have "whole_msg sample_server_hello \<and> length sample_server_hello \<le> 200" by code_simp
  then show "dest_hello_ok (Some sample_dest)"
    by (simp add: dest_hello_ok_def sample_dest_def sample_server_hello_parses TLS_MAX_RECORD_def)
  show "dest_sizes_ok (Some sample_dest)"
    by (simp add: dest_sizes_ok_def sample_dest_def TLS_MAX_RECORD_def)
qed

lemma sample_leaf_ok: "leaf_ok sample_leaf_der" "length sample_leaf_der = 108"
proof -
  have "ed25519_pubkey_from_der (take 44 sample_leaf_der) = Some (replicate 32 9)" by code_simp
  moreover show "length sample_leaf_der = 108" by (simp add: sample_leaf_der_def ED25519_SPKI_PREFIX_def)
  ultimately show "leaf_ok sample_leaf_der" by (simp add: leaf_ok_def)
qed

theorem reality_handshake_completes_witness:
  "\<exists>hs rcd key view out st cs fin unread ss dummies ns.
    client_hello_sealed reality_stub (\<lambda>_. replicate 1184 7) sample_reality_client (replicate 32 5)
      (replicate 32 6) 1000000 of_nat = (Ok (hs, rcd, key) :: (TlsError, _) outcome) \<and>
    authenticate reality_stub 1000090 rcd sample_reality_server = Ok \<lparr>ah_hello = view, ah_auth_key = key\<rparr> \<and>
    server_accept_hello reality_stub (\<lambda>_. replicate 64 8) sample_leaf_der key (Some sample_dest)
      (replicate 32 11) (replicate 32 12) rcd = Ok (out, st, []) \<and>
    client_respond reality_stub (\<lambda>_ _ _ _. True) None (replicate 32 5) hs key out = Ok (cs, fin, unread) \<and>
    server_accept_finished reality_stub (Some sample_dest) st fin = Ok (ss, dummies, []) \<and>
    ts_recv ss = ts_send cs \<and> keys_wf (ts_send cs) \<and> keys_wf (ts_recv cs) \<and>
    unread @ dummies = concat (encrypt_all reality_stub (ts_recv cs) (dummy_flight ns)) \<and>
    ts_send ss = (next_seq ^^ length ns) (ts_recv cs)"
proof -
  have "replicate 32 12 \<noteq> HRR_RANDOM" by code_simp
  then show ?thesis
    by (intro reality_handshake_completes reality_stub_laws sample_dest_ok sample_leaf_ok)
      (simp_all add: MLKEM768_PUBLIC_LEN_def sample_reality_server_def sample_reality_client_def ascii_def
        abs_diff_def DEFAULT_MAX_TIME_DIFF_def sample_leaf_ok cert_ok_def)
qed

theorem finished_without_certificate_accepted_witness:
  "\<exists>flight. keyless_flight reality_stub (replicate 32 11) (x25519_base reality_stub (replicate 32 5)) [1, 2, 3]
      = Ok flight \<and>
    is_ok (client_respond reality_stub (\<lambda>_ _ _ _. False) None (replicate 32 5) [1, 2, 3] (replicate 32 77) flight)"
  by (rule finished_without_certificate_accepted [OF reality_stub_laws]) simp_all

end
