(* ===== verification/Reality_Stream.thy ===== *)
theory Reality_Stream
  imports Reality_Tls
begin

text \<open>
  The established TLS stream (\<open>payphone-transport/src/reality/tls13.rs\<close>, second
  half): the record assembler, reading, writing and shutting down, as polled by
  the runtime.  One poll of the socket is an event: bytes that arrived (an empty
  list is the end of the stream), or a failure; no event means the socket is not
  ready.  The functions are shown to implement \<open>read_record\<close> on the
  bytes received, however the network cuts them.
\<close>

section \<open>Polling the socket\<close>

datatype 'a poll = PPending | PReady 'a

datatype ReadEvent = Chunk bytes | ReadFail

datatype SocketRead = NotReady | SocketFailed | Got bytes "ReadEvent list"

text \<open>\<open>poll_read\<close> into a buffer with room for \<open>space\<close> bytes.\<close>

fun inner_read :: "nat \<Rightarrow> ReadEvent list \<Rightarrow> SocketRead" where
  "inner_read space [] = NotReady"
| "inner_read space (ReadFail # evs) = SocketFailed"
| "inner_read space (Chunk ch # evs) =
    Got (take space ch) (if length ch \<le> space then evs else Chunk (drop space ch) # evs)"

lemma inner_read_fits: "inner_read space evs = Got v evs' \<Longrightarrow> length v \<le> space"
  by (induction space evs rule: inner_read.induct) auto

lemma room_shrinks: "\<not> n \<le> g \<Longrightarrow> v \<noteq> [] \<Longrightarrow> n - (g + length v) < n - g"
  by (cases v) auto

section \<open>The record assembler\<close>

record RecordAssembler =
  ra_header :: bytes
  ra_header_got :: nat
  ra_body :: bytes
  ra_body_got :: nat

definition assembler_default :: RecordAssembler where
  "assembler_default = \<lparr>ra_header = replicate 5 0, ra_header_got = 0, ra_body = [], ra_body_got = 0\<rparr>"

datatype FillStep = FillDone | FillPending | FillFail TlsError

function poll_header ::
  "RecordAssembler \<Rightarrow> ReadEvent list \<Rightarrow> FillStep \<times> RecordAssembler \<times> ReadEvent list" where
  "poll_header a evs =
    (if 5 \<le> ra_header_got a then (FillDone, a, evs)
     else case inner_read (5 - ra_header_got a) evs of
       NotReady \<Rightarrow> (FillPending, a, evs)
     | SocketFailed \<Rightarrow> (FillFail TlsIo, a, tl evs)
     | Got v evs' \<Rightarrow>
         if v = [] then (FillFail TlsEof, a, evs')
         else poll_header (a\<lparr>ra_header := write_at (ra_header_got a) v (ra_header a),
                             ra_header_got := ra_header_got a + length v\<rparr>) evs')"
  by pat_completeness auto
termination
  by (relation "measure (\<lambda>(a, _). 5 - ra_header_got a)") (auto simp: room_shrinks)

function poll_body ::
  "RecordAssembler \<Rightarrow> ReadEvent list \<Rightarrow> FillStep \<times> RecordAssembler \<times> ReadEvent list" where
  "poll_body a evs =
    (if length (ra_body a) \<le> ra_body_got a then (FillDone, a, evs)
     else case inner_read (length (ra_body a) - ra_body_got a) evs of
       NotReady \<Rightarrow> (FillPending, a, evs)
     | SocketFailed \<Rightarrow> (FillFail TlsIo, a, tl evs)
     | Got v evs' \<Rightarrow>
         if v = [] then (FillFail TlsEof, a, evs')
         else poll_body (a\<lparr>ra_body := write_at (ra_body_got a) v (ra_body a),
                           ra_body_got := ra_body_got a + length v\<rparr>) evs')"
  by pat_completeness auto
termination
  by (relation "measure (\<lambda>(a, _). length (ra_body a) - ra_body_got a)")
    (auto simp: write_at_def room_shrinks dest: inner_read_fits)

definition poll_record ::
  "RecordAssembler \<Rightarrow> ReadEvent list \<Rightarrow>
   (TlsError, u8 \<times> bytes) outcome poll \<times> RecordAssembler \<times> ReadEvent list" where
  "poll_record a evs =
    (case poll_header a evs of
       (FillPending, a, evs) \<Rightarrow> (PPending, a, evs)
     | (FillFail e, a, evs) \<Rightarrow> (PReady (Err e), a, evs)
     | (FillDone, a, evs) \<Rightarrow>
       (let len = unat (be16 [ra_header a ! 3, ra_header a ! 4]) in
        if ra_body a = [] \<and> ra_body_got a = 0 \<and> (len = 0 \<or> len > TLS_MAX_RECORD)
        then (PReady (Err InvalidRecordLength), a, evs)
        else
          let a = (if ra_body a = [] \<and> ra_body_got a = 0 then a\<lparr>ra_body := replicate len 0\<rparr> else a) in
          case poll_body a evs of
            (FillPending, a, evs) \<Rightarrow> (PPending, a, evs)
          | (FillFail e, a, evs) \<Rightarrow> (PReady (Err e), a, evs)
          | (FillDone, a, evs) \<Rightarrow>
              (PReady (Ok (ra_header a ! 0, ra_body a)),
               a\<lparr>ra_body := [], ra_header_got := 0, ra_body_got := 0\<rparr>, evs)))"

section \<open>The stream\<close>

record Tls13Stream =
  st_send :: TrafficKeys
  st_recv :: TrafficKeys
  st_assembler :: RecordAssembler
  st_plaintext :: bytes
  st_plaintext_at :: nat
  st_pending :: bytes
  st_pending_at :: nat
  st_pending_plain :: nat

definition stream_of_session :: "TlsSession \<Rightarrow> Tls13Stream" where
  "stream_of_session s = \<lparr>st_send = ts_send s, st_recv = ts_recv s, st_assembler = assembler_default,
     st_plaintext = [], st_plaintext_at = 0, st_pending = [], st_pending_at = 0, st_pending_plain = 0\<rparr>"

text \<open>The loop of \<open>poll_fill_plaintext\<close>; \<open>None\<close> would be an endless loop.\<close>

partial_function (option) plaintext_loop ::
  "RealityCrypto \<Rightarrow> Tls13Stream \<Rightarrow> ReadEvent list \<Rightarrow>
   ((TlsError, unit) outcome poll \<times> Tls13Stream \<times> ReadEvent list) option" where
  "plaintext_loop c st evs =
    (case poll_record (st_assembler st) evs of
       (PPending, a, evs) \<Rightarrow> Some (PPending, st\<lparr>st_assembler := a\<rparr>, evs)
     | (PReady (Err e), a, evs) \<Rightarrow> Some (PReady (Err e), st\<lparr>st_assembler := a\<rparr>, evs)
     | (PReady Panic, a, evs) \<Rightarrow> Some (PReady Panic, st\<lparr>st_assembler := a\<rparr>, evs)
     | (PReady (Ok (typ, body)), a, evs) \<Rightarrow>
         let st = st\<lparr>st_assembler := a\<rparr> in
         if typ = 0x17 then
           (case decrypt_app c (st_recv st) body of
              Err e \<Rightarrow> Some (PReady (Err e), st, evs)
            | Panic \<Rightarrow> Some (PReady Panic, st, evs)
            | Ok (inner, content) \<Rightarrow>
                let st = st\<lparr>st_recv := next_seq (st_recv st)\<rparr> in
                if inner = 0x17 then Some (PReady (Ok ()), st\<lparr>st_plaintext := content\<rparr>, evs)
                else if inner = 0x16 then plaintext_loop c st evs
                else if inner = 0x15 then Some (PReady (Err TlsAlert), st, evs)
                else Some (PReady (Err (UnexpectedInner inner)), st, evs))
         else if typ = 0x15 then Some (PReady (Err TlsAlert), st, evs)
         else if typ = 0x14 then plaintext_loop c st evs
         else Some (PReady (Err (UnexpectedRecord typ)), st, evs))"

definition poll_fill_plaintext ::
  "RealityCrypto \<Rightarrow> Tls13Stream \<Rightarrow> ReadEvent list \<Rightarrow>
   ((TlsError, unit) outcome poll \<times> Tls13Stream \<times> ReadEvent list) option" where
  "poll_fill_plaintext c st evs =
    (if st_plaintext_at st < length (st_plaintext st) then Some (PReady (Ok ()), st, evs)
     else plaintext_loop c (st\<lparr>st_plaintext := [], st_plaintext_at := 0\<rparr>) evs)"

text \<open>\<open>poll_read\<close> hands out at most \<open>space\<close> bytes of the current plaintext.\<close>

definition tls_poll_read ::
  "RealityCrypto \<Rightarrow> nat \<Rightarrow> Tls13Stream \<Rightarrow> ReadEvent list \<Rightarrow>
   ((TlsError, bytes) outcome poll \<times> Tls13Stream \<times> ReadEvent list) option" where
  "tls_poll_read c space st evs =
    map_option (\<lambda>(res, st, evs).
      case res of
        PPending \<Rightarrow> (PPending, st, evs)
      | PReady (Err e) \<Rightarrow> (PReady (Err e), st, evs)
      | PReady Panic \<Rightarrow> (PReady Panic, st, evs)
      | PReady (Ok _) \<Rightarrow>
          let n = min (length (st_plaintext st) - st_plaintext_at st) space in
          (PReady (Ok (take n (drop (st_plaintext_at st) (st_plaintext st)))),
           st\<lparr>st_plaintext_at := st_plaintext_at st + n\<rparr>, evs))
      (poll_fill_plaintext c st evs)"

datatype WriteEvent = Accepted nat | WriteFail

text \<open>
  \<open>poll_write\<close> against the events of the socket's own \<open>poll_write\<close>,
  which accepts a number of bytes of what it is offered.  The result carries the
  bytes that reached the socket.
\<close>

function tls_poll_write ::
  "RealityCrypto \<Rightarrow> Tls13Stream \<Rightarrow> bytes \<Rightarrow> WriteEvent list \<Rightarrow>
   (TlsError, nat) outcome poll \<times> Tls13Stream \<times> bytes \<times> WriteEvent list" where
  "tls_poll_write c st buf evs =
    (if st_pending st \<noteq> [] then
       (case evs of
          [] \<Rightarrow> (PPending, st, [], [])
        | WriteFail # evs \<Rightarrow> (PReady (Err TlsIo), st, [], evs)
        | Accepted m # evs \<Rightarrow>
            let offered = drop (st_pending_at st) (st_pending st); n = min m (length offered) in
            if n = 0 then (PReady (Err TlsWriteZero), st, [], evs)
            else let st = st\<lparr>st_pending_at := st_pending_at st + n\<rparr> in
              if st_pending_at st < length (st_pending st) then
                (case tls_poll_write c st buf evs of
                   (res, st, wire, evs) \<Rightarrow> (res, st, take n offered @ wire, evs))
              else (PReady (Ok (st_pending_plain st)),
                    st\<lparr>st_pending := [], st_pending_at := 0, st_pending_plain := 0\<rparr>,
                    take n offered, evs))
     else if buf = [] then (PReady (Ok 0), st, [], evs)
     else let chunk = take (14 * 1024) buf in
       tls_poll_write c
         (st\<lparr>st_pending := encrypt_app c (st_send st) 0x17 chunk, st_send := next_seq (st_send st),
             st_pending_at := 0, st_pending_plain := length chunk\<rparr>) buf evs)"
  by pat_completeness auto
termination
  by (relation "measure (\<lambda>(_, st, _, evs). 2 * length evs + (if st_pending st = [] then 1 else 0))")
    (auto simp: encrypt_app_def encrypt_app_padded_def Let_def record_header_def)

definition tls_poll_shutdown :: "RealityCrypto \<Rightarrow> Tls13Stream \<Rightarrow> bytes \<times> Tls13Stream" where
  "tls_poll_shutdown c st =
     (encrypt_app c (st_send st) 0x15 [1, 0], st\<lparr>st_send := next_seq (st_send st)\<rparr>)"

declare poll_header.simps [simp del] poll_body.simps [simp del] tls_poll_write.simps [simp del]

section \<open>Reassembly does not depend on the chunks\<close>

fun live_event :: "ReadEvent \<Rightarrow> bool" where
  "live_event (Chunk b) = (b \<noteq> [])"
| "live_event ReadFail = False"

fun event_bytes :: "ReadEvent \<Rightarrow> bytes" where
  "event_bytes (Chunk b) = b"
| "event_bytes ReadFail = []"

abbreviation live :: "ReadEvent list \<Rightarrow> bool" where "live \<equiv> list_all live_event"
abbreviation ev_bytes :: "ReadEvent list \<Rightarrow> bytes" where "ev_bytes evs \<equiv> concat (map event_bytes evs)"

lemma inner_read_live:
  assumes "live evs" "0 < space" "evs \<noteq> []"
  obtains v evs' where "inner_read space evs = Got v evs'" "v \<noteq> []" "length v \<le> space" "live evs'"
    "ev_bytes evs = v @ ev_bytes evs'"
proof -
  obtain b es where e: "evs = Chunk b # es" "b \<noteq> []" "live es"
    using assms by (cases evs; cases "hd evs") auto
  show thesis
  proof (cases "length b \<le> space")
    case True
    with e show thesis by (intro that [of b es]) auto
  next
    case False
    with e assms(2) show thesis by (intro that [of "take space b" "Chunk (drop space b) # es"]) auto
  qed
qed

lemma take_write_at:
  "g + length v \<le> length b \<Longrightarrow> take (g + length v) (write_at g v b) = take g b @ v"
  by (simp add: write_at_def)

lemma poll_header_live:
  assumes "live evs" "length (ra_header a) = 5" "ra_header_got a \<le> 5"
  shows "if ra_header_got a + length (ev_bytes evs) < 5
    then \<exists>h g. poll_header a evs = (FillPending, a\<lparr>ra_header := h, ra_header_got := g\<rparr>, []) \<and>
      length h = 5 \<and> g < 5 \<and> take g h = take (ra_header_got a) (ra_header a) @ ev_bytes evs
    else \<exists>h evs'. poll_header a evs = (FillDone, a\<lparr>ra_header := h, ra_header_got := 5\<rparr>, evs') \<and>
      live evs' \<and> length h = 5 \<and>
      h @ ev_bytes evs' = take (ra_header_got a) (ra_header a) @ ev_bytes evs"
  using assms
proof (induction a evs rule: poll_header.induct)
  case (1 a evs)
  show ?case
  proof (cases "ra_header_got a = 5")
    case True
    then have "poll_header a evs = (FillDone, a, evs)" by (subst poll_header.simps) simp
    with True 1(2,3) show ?thesis by (auto intro!: exI [of _ "ra_header a"])
  next
    case False
    then have got: "\<not> 5 \<le> ra_header_got a" using 1(4) by simp
    show ?thesis
    proof (cases "evs = []")
      case True
      then have "poll_header a evs = (FillPending, a, [])" using got by (subst poll_header.simps) simp
      with True got 1(3) show ?thesis
        by (auto intro!: exI [of _ "ra_header a"] exI [of _ "ra_header_got a"])
    next
      case False
      obtain v evs' where v: "inner_read (5 - ra_header_got a) evs = Got v evs'" "v \<noteq> []"
        "length v \<le> 5 - ra_header_got a" "live evs'" "ev_bytes evs = v @ ev_bytes evs'"
        using inner_read_live [OF 1(2) _ False, of "5 - ra_header_got a"] got by auto
      define a' where "a' = a\<lparr>ra_header := write_at (ra_header_got a) v (ra_header a),
          ra_header_got := ra_header_got a + length v\<rparr>"
      have eq: "poll_header a evs = poll_header a' evs'"
        using got v by (subst poll_header.simps) (simp add: a'_def)
      have fit: "ra_header_got a + length v \<le> length (ra_header a)" using v(3) got 1(3) by simp
      have a': "length (ra_header a') = 5" "ra_header_got a' \<le> 5"
        "take (ra_header_got a') (ra_header a') = take (ra_header_got a) (ra_header a) @ v"
        "ra_header_got a' = ra_header_got a + length v"
        using fit 1(3) by (simp_all add: a'_def length_write_at take_write_at)
      have upd: "a'\<lparr>ra_header := h, ra_header_got := g\<rparr> = a\<lparr>ra_header := h, ra_header_got := g\<rparr>" for h g
        by (simp add: a'_def)
      have len: "ra_header_got a + length (ev_bytes evs) = ra_header_got a' + length (ev_bytes evs')"
        unfolding v(5) a'(4) by simp
      have app: "take (ra_header_got a) (ra_header a) @ ev_bytes evs =
          take (ra_header_got a') (ra_header a') @ ev_bytes evs'"
        unfolding v(5) a'(3) by simp
      show ?thesis
        using 1(1) [OF got v(1,2), folded a'_def, OF v(4) a'(1,2)] unfolding eq len app upd .
    qed
  qed
qed

lemma poll_body_live:
  assumes "live evs" "ra_body_got a \<le> length (ra_body a)"
  shows "if ra_body_got a + length (ev_bytes evs) < length (ra_body a)
    then \<exists>b g. poll_body a evs = (FillPending, a\<lparr>ra_body := b, ra_body_got := g\<rparr>, []) \<and>
      length b = length (ra_body a) \<and> g < length (ra_body a) \<and>
      take g b = take (ra_body_got a) (ra_body a) @ ev_bytes evs
    else \<exists>b evs'. poll_body a evs = (FillDone, a\<lparr>ra_body := b, ra_body_got := length (ra_body a)\<rparr>, evs') \<and>
      live evs' \<and> length b = length (ra_body a) \<and>
      b @ ev_bytes evs' = take (ra_body_got a) (ra_body a) @ ev_bytes evs"
  using assms
proof (induction a evs rule: poll_body.induct)
  case (1 a evs)
  show ?case
  proof (cases "ra_body_got a = length (ra_body a)")
    case True
    then have "poll_body a evs = (FillDone, a, evs)" by (subst poll_body.simps) simp
    with True 1(2) show ?thesis by (auto intro!: exI [of _ "ra_body a"])
  next
    case False
    then have got: "\<not> length (ra_body a) \<le> ra_body_got a" using 1(3) by simp
    show ?thesis
    proof (cases "evs = []")
      case True
      then have "poll_body a evs = (FillPending, a, [])" using got by (subst poll_body.simps) simp
      with True got show ?thesis
        by (auto intro!: exI [of _ "ra_body a"] exI [of _ "ra_body_got a"])
    next
      case False
      obtain v evs' where v: "inner_read (length (ra_body a) - ra_body_got a) evs = Got v evs'" "v \<noteq> []"
        "length v \<le> length (ra_body a) - ra_body_got a" "live evs'" "ev_bytes evs = v @ ev_bytes evs'"
        using inner_read_live [OF 1(2) _ False, of "length (ra_body a) - ra_body_got a"] got by auto
      define a' where "a' = a\<lparr>ra_body := write_at (ra_body_got a) v (ra_body a),
          ra_body_got := ra_body_got a + length v\<rparr>"
      have eq: "poll_body a evs = poll_body a' evs'"
        using got v by (subst poll_body.simps) (simp add: a'_def)
      have fit: "ra_body_got a + length v \<le> length (ra_body a)" using v(3) got by simp
      have a': "length (ra_body a') = length (ra_body a)" "ra_body_got a' \<le> length (ra_body a')"
        "take (ra_body_got a') (ra_body a') = take (ra_body_got a) (ra_body a) @ v"
        "ra_body_got a' = ra_body_got a + length v"
        using fit by (simp_all add: a'_def length_write_at take_write_at)
      have upd: "a'\<lparr>ra_body := h, ra_body_got := g\<rparr> = a\<lparr>ra_body := h, ra_body_got := g\<rparr>" for h g
        by (simp add: a'_def)
      have len: "ra_body_got a + length (ev_bytes evs) = ra_body_got a' + length (ev_bytes evs')"
        unfolding v(5) a'(4) by simp
      have app: "take (ra_body_got a) (ra_body a) @ ev_bytes evs =
          take (ra_body_got a') (ra_body a') @ ev_bytes evs'"
        unfolding v(5) a'(3) by simp
      show ?thesis
        using 1(1) [OF got v(1,2), folded a'_def, OF v(4) a'(2)] unfolding eq len app upd a'(1) .
    qed
  qed
qed

text \<open>
  The bytes an assembler holds, and the states it can be in: the header buffer has
  its five bytes, and a body is being filled only under a complete header that
  announces its length.
\<close>

definition ra_len :: "RecordAssembler \<Rightarrow> nat" where
  "ra_len a = unat (be16 [ra_header a ! 3, ra_header a ! 4])"

definition ra_abs :: "RecordAssembler \<Rightarrow> bytes" where
  "ra_abs a = take (ra_header_got a) (ra_header a) @ take (ra_body_got a) (ra_body a)"

definition ra_wf :: "RecordAssembler \<Rightarrow> bool" where
  "ra_wf a = (length (ra_header a) = 5 \<and> ra_header_got a \<le> 5 \<and> ra_body_got a \<le> length (ra_body a) \<and>
     (ra_body a \<noteq> [] \<longrightarrow> ra_header_got a = 5 \<and> length (ra_body a) = ra_len a \<and> ra_len a \<le> TLS_MAX_RECORD))"

lemma ra_len_body [simp]: "ra_len (ra_body_update f a) = ra_len a" "ra_len (ra_body_got_update g a) = ra_len a"
  by (simp_all add: ra_len_def)

text \<open>What \<open>read_record\<close> says of the bytes, as the result of a poll.\<close>

fun poll_matches ::
  "bytes \<Rightarrow> (TlsError, u8 \<times> bytes) outcome poll \<times> RecordAssembler \<times> ReadEvent list \<Rightarrow> bool" where
  "poll_matches s (res, a, evs) =
    (case read_record s of
       Ok (rec, rest) \<Rightarrow> res = PReady (Ok rec) \<and> ra_wf a \<and> ra_abs a = [] \<and> live evs \<and> ev_bytes evs = rest
     | Err TlsEof \<Rightarrow> res = PPending \<and> ra_wf a \<and> ra_abs a = s \<and> evs = []
     | Err e \<Rightarrow> res = PReady (Err e)
     | Panic \<Rightarrow> False)"

lemma ra_default [simp]: "ra_wf assembler_default" "ra_abs assembler_default = []"
  by (simp_all add: ra_wf_def ra_abs_def assembler_default_def)

lemma read_record_after_header:
  assumes "length h = 5"
  shows "read_record (h @ s) =
    (let len = unat (be16 [h ! 3, h ! 4]) in
     if len = 0 \<or> len > TLS_MAX_RECORD then Err InvalidRecordLength
     else if length s < len then Err TlsEof
     else Ok ((h ! 0, take len s), drop len s))"
  using assms by (simp add: read_record_def Let_def nth_append)

lemma poll_header_full: "5 \<le> ra_header_got a \<Longrightarrow> poll_header a evs = (FillDone, a, evs)"
  by (subst poll_header.simps) simp

lemma poll_record_in_body:
  assumes wf: "ra_wf a" and body: "ra_body a \<noteq> []" and evs: "live evs"
  shows "poll_matches (ra_abs a @ ev_bytes evs) (poll_record a evs)"
proof -
  have a: "length (ra_header a) = 5" "ra_header_got a = 5" "length (ra_body a) = ra_len a"
      "ra_len a \<le> TLS_MAX_RECORD" "ra_len a \<noteq> 0" "ra_body_got a \<le> length (ra_body a)"
    using wf body length_0_conv [of "ra_body a"] by (auto simp: ra_wf_def simp del: length_0_conv)
  have abs: "ra_abs a = ra_header a @ take (ra_body_got a) (ra_body a)" by (simp add: ra_abs_def a)
  have rr: "read_record (ra_abs a @ ev_bytes evs) =
      (if ra_body_got a + length (ev_bytes evs) < ra_len a then Err TlsEof
       else let s = take (ra_body_got a) (ra_body a) @ ev_bytes evs in
         Ok ((ra_header a ! 0, take (ra_len a) s), drop (ra_len a) s))"
    using a by (simp add: abs read_record_after_header Let_def ra_len_def min_def)
  have pr: "poll_record a evs = (case poll_body a evs of
      (FillPending, a, evs) \<Rightarrow> (PPending, a, evs)
    | (FillFail e, a, evs) \<Rightarrow> (PReady (Err e), a, evs)
    | (FillDone, a, evs) \<Rightarrow> (PReady (Ok (ra_header a ! 0, ra_body a)),
        a\<lparr>ra_body := [], ra_header_got := 0, ra_body_got := 0\<rparr>, evs))"
    using a body by (simp add: poll_record_def poll_header_full Let_def)
  show ?thesis
  proof (cases "ra_body_got a + length (ev_bytes evs) < ra_len a")
    case True
    then obtain b g where b: "poll_body a evs = (FillPending, a\<lparr>ra_body := b, ra_body_got := g\<rparr>, [])"
        "length b = ra_len a" "g < ra_len a" "take g b = take (ra_body_got a) (ra_body a) @ ev_bytes evs"
      using poll_body_live [OF evs a(6)] unfolding a(3) by auto
    have "read_record (ra_abs a @ ev_bytes evs) = Err TlsEof" using True by (simp add: rr)
    then show ?thesis using a b by (simp add: pr abs ra_wf_def ra_abs_def)
  next
    case False
    then obtain b evs' where b: "poll_body a evs = (FillDone, a\<lparr>ra_body := b, ra_body_got := ra_len a\<rparr>, evs')"
        "live evs'" "length b = ra_len a" "take (ra_body_got a) (ra_body a) @ ev_bytes evs = b @ ev_bytes evs'"
      using poll_body_live [OF evs a(6)] unfolding a(3) by auto
    have "read_record (ra_abs a @ ev_bytes evs) = Ok ((ra_header a ! 0, b), ev_bytes evs')"
      using False b(3) by (simp add: rr b(4))
    then show ?thesis using a b by (simp add: pr ra_wf_def ra_abs_def)
  qed
qed

lemma poll_record_after_header:
  assumes wf: "ra_wf a" and hdr: "ra_header_got a = 5" "ra_body a = []" and evs: "live evs"
  shows "poll_matches (ra_header a @ ev_bytes evs) (poll_record a evs)"
proof (cases "ra_len a = 0 \<or> ra_len a > TLS_MAX_RECORD")
  case True
  then show ?thesis
    using wf hdr
    by (auto simp: poll_record_def poll_header_full read_record_after_header ra_wf_def ra_len_def Let_def)
next
  case False
  define a' where "a' = a\<lparr>ra_body := replicate (ra_len a) 0\<rparr>"
  have len: "ra_len a' = ra_len a" by (simp add: a'_def ra_len_def)
  have a': "ra_wf a'" "ra_body a' \<noteq> []" "ra_abs a' = ra_header a"
    using wf hdr False len by (auto simp: ra_wf_def ra_abs_def a'_def)
  have "poll_record a evs = poll_record a' evs"
    using wf hdr False by (simp add: poll_record_def poll_header_full ra_wf_def ra_len_def Let_def a'_def)
  then show ?thesis using poll_record_in_body [OF a'(1,2) evs] by (simp add: a'(3))
qed

lemma poll_record_refines:
  assumes wf: "ra_wf a" and evs: "live evs"
  shows "poll_matches (ra_abs a @ ev_bytes evs) (poll_record a evs)"
proof (cases "ra_body a = []")
  case False
  then show ?thesis by (rule poll_record_in_body [OF wf _ evs])
next
  case True
  have a: "length (ra_header a) = 5" "ra_header_got a \<le> 5" "ra_body_got a = 0"
    using wf True by (auto simp: ra_wf_def)
  have abs: "ra_abs a = take (ra_header_got a) (ra_header a)" by (simp add: ra_abs_def True)
  show ?thesis
  proof (cases "ra_header_got a + length (ev_bytes evs) < 5")
    case pending: True
    then obtain h g where "poll_header a evs = (FillPending, a\<lparr>ra_header := h, ra_header_got := g\<rparr>, [])"
        "length h = 5" "g < 5" "take g h = take (ra_header_got a) (ra_header a) @ ev_bytes evs"
      using poll_header_live [OF evs a(1,2)] by auto
    then show ?thesis
      using pending True a
      by (auto simp: poll_record_def abs read_record_def ra_wf_def ra_abs_def)
  next
    case False
    then obtain h evs' where h: "poll_header a evs = (FillDone, a\<lparr>ra_header := h, ra_header_got := 5\<rparr>, evs')"
        "live evs'" "length h = 5" "h @ ev_bytes evs' = take (ra_header_got a) (ra_header a) @ ev_bytes evs"
      using poll_header_live [OF evs a(1,2)] by auto
    define a' where "a' = a\<lparr>ra_header := h, ra_header_got := 5\<rparr>"
    have a': "ra_wf a'" "ra_header_got a' = 5" "ra_body a' = []" "ra_header a' = h"
      using wf True h(3) by (auto simp: ra_wf_def a'_def)
    have "poll_record a evs = poll_record a' evs'"
      by (simp add: poll_record_def h(1) poll_header_full [of a'] a'(2) flip: a'_def)
    then show ?thesis
      using poll_record_after_header [OF a'(1-3) h(2)] by (simp add: abs a'(4) h(4))
  qed
qed

section \<open>Reading implements a reader of the whole input\<close>

text \<open>
  The specification of \<open>poll_fill_plaintext\<close> on the bytes received so far:
  the next application data, the keys after it and the bytes left; or that more
  input is needed; or the failure.
\<close>

function next_plain ::
  "RealityCrypto \<Rightarrow> TrafficKeys \<Rightarrow> bytes \<Rightarrow> (TlsError, bytes) outcome poll \<times> TrafficKeys \<times> bytes" where
  "next_plain c k s =
    (case read_record s of
       Panic \<Rightarrow> (PReady Panic, k, s)
     | Err e \<Rightarrow> (if e = TlsEof then PPending else PReady (Err e), k, s)
     | Ok ((rtype, body), rest) \<Rightarrow>
         if rtype = 0x17 then
           (case decrypt_app c k body of
              Err e \<Rightarrow> (PReady (Err e), k, rest)
            | Panic \<Rightarrow> (PReady Panic, k, rest)
            | Ok (inner, content) \<Rightarrow>
                if inner = 0x17 then (PReady (Ok content), next_seq k, rest)
                else if inner = 0x16 then next_plain c (next_seq k) rest
                else if inner = 0x15 then (PReady (Err TlsAlert), next_seq k, rest)
                else (PReady (Err (UnexpectedInner inner)), next_seq k, rest))
         else if rtype = 0x15 then (PReady (Err TlsAlert), k, rest)
         else if rtype = 0x14 then next_plain c k rest
         else (PReady (Err (UnexpectedRecord rtype)), k, rest))"
  by pat_completeness auto
termination by (relation "measure (\<lambda>(_, _, s). length s)") (auto dest: read_record_shorter)

declare next_plain.simps [simp del]

fun fill_matches ::
  "Tls13Stream \<Rightarrow> (TlsError, bytes) outcome poll \<times> TrafficKeys \<times> bytes \<Rightarrow>
   (TlsError, unit) outcome poll \<times> Tls13Stream \<times> ReadEvent list \<Rightarrow> bool" where
  "fill_matches st (want, k, s) (res, st', evs) =
    (case want of
       PPending \<Rightarrow> res = PPending \<and> evs = [] \<and> ra_wf (st_assembler st') \<and> ra_abs (st_assembler st') = s \<and>
         st' = st\<lparr>st_recv := k, st_assembler := st_assembler st'\<rparr>
     | PReady (Ok p) \<Rightarrow> res = PReady (Ok ()) \<and> live evs \<and> ev_bytes evs = s \<and>
         ra_wf (st_assembler st') \<and> ra_abs (st_assembler st') = [] \<and>
         st' = st\<lparr>st_recv := k, st_assembler := st_assembler st', st_plaintext := p\<rparr>
     | PReady (Err e) \<Rightarrow> res = PReady (Err e)
     | PReady Panic \<Rightarrow> res = PReady Panic)"

lemma fill_matches_cong:
  "fill_matches (st\<lparr>st_recv := k', st_assembler := a'\<rparr>) want out = fill_matches st want out"
  by (cases want; cases out) (simp split: poll.split outcome.split)

lemma fill_matches_Ok:
  assumes "fill_matches st (PReady (Ok p), k, s) (res, st', evs)"
  shows "res = PReady (Ok ())" "live evs" "ev_bytes evs = s" "ra_wf (st_assembler st')" "ra_abs (st_assembler st') = []"
    "st_recv st' = k" "st_plaintext st' = p" "st_plaintext_at st' = st_plaintext_at st"
proof -
  have st': "st' = st\<lparr>st_recv := k, st_assembler := st_assembler st', st_plaintext := p\<rparr>"
    using assms by simp
  show "st_recv st' = k" by (subst st') simp
  show "st_plaintext st' = p" by (subst st') simp
  show "st_plaintext_at st' = st_plaintext_at st" by (subst st') simp
qed (use assms in simp_all)

lemma plaintext_loop_refines:
  assumes "ra_wf (st_assembler st)" "live evs" "s = ra_abs (st_assembler st) @ ev_bytes evs" "k = st_recv st"
  shows "\<exists>out. plaintext_loop c st evs = Some out \<and> fill_matches st (next_plain c k s) out"
  using assms
proof (induction c k s arbitrary: st evs rule: next_plain.induct)
  case (1 c k s st evs)
  obtain res a evs' where pr: "poll_record (st_assembler st) evs = (res, a, evs')"
    by (metis prod_cases3)
  have m: "poll_matches s (res, a, evs')"
    using poll_record_refines [OF 1(3,4)] unfolding pr 1(5) .
  note unf = plaintext_loop.simps [of c st evs] next_plain.simps [of c "st_recv st" s]
  show ?case
  proof (cases "read_record s")
    case (Ok out)
    obtain rtype body rest where out: "out = ((rtype, body), rest)" by (metis prod.exhaust)
    have a: "res = PReady (Ok (rtype, body))" "ra_wf a" "ra_abs a = []" "live evs'" "ev_bytes evs' = rest"
      using m Ok out by auto
    show ?thesis
    proof (cases "rtype = 0x17")
      case True
      note IH = 1(1) [OF Ok out [symmetric] refl True, where st = "st\<lparr>st_recv := next_seq k, st_assembler := a\<rparr>" and evs = evs']
      show ?thesis
      proof (cases "decrypt_app c k body")
        case dec: (Ok msg)
        obtain inner content where msg: "msg = (inner, content)" by (cases msg)
        show ?thesis
        proof (cases "inner = 0x16")
          case i: True
          have n: "next_plain c k s = next_plain c (next_seq k) rest"
            using Ok out True dec msg i by (simp add: next_plain.simps [of c k s])
          have "plaintext_loop c st evs = plaintext_loop c (st\<lparr>st_assembler := a, st_recv := next_seq k\<rparr>) evs'"
            using True dec msg i a pr 1(6) by (simp add: plaintext_loop.simps [of c st evs] Let_def)
          also have "st\<lparr>st_assembler := a, st_recv := next_seq k\<rparr> = st\<lparr>st_recv := next_seq k, st_assembler := a\<rparr>"
            by simp
          finally have p: "plaintext_loop c st evs =
              plaintext_loop c (st\<lparr>st_recv := next_seq k, st_assembler := a\<rparr>) evs'" .
          show ?thesis
            using IH [OF dec msg [symmetric]] i a unfolding n p fill_matches_cong by simp
        next
          case False
          then show ?thesis using Ok out True dec msg a pr 1(6) by (simp add: unf Let_def)
        qed
      qed (use Ok out True a pr 1(6) in \<open>simp_all add: unf Let_def\<close>)
    next
      case False
      show ?thesis
      proof (cases "rtype = 0x14")
        case t: True
        have "st\<lparr>st_recv := k, st_assembler := a\<rparr> = st\<lparr>st_assembler := a\<rparr>" using 1(6) by simp
        then show ?thesis
          using 1(2) [OF Ok out [symmetric] refl False, of "st\<lparr>st_assembler := a\<rparr>" evs'] Ok out t a pr 1(6)
            fill_matches_cong [where st = st and k' = k and a' = a]
          by (simp add: unf Let_def)
      next
        case f: False
        then show ?thesis using False Ok out a pr 1(6) by (simp add: unf Let_def)
      qed
    qed
  next
    case (Err e)
    then show ?thesis using m pr 1(6) by (cases "e = TlsEof") (auto simp: unf split: TlsError.splits)
  next
    case Panic
    then show ?thesis using m by simp
  qed
qed

section \<open>A flight is read as its application data\<close>

text \<open>
  Messages a sender may put on an established connection: non-empty application
  data, and handshake records, which the reader skips.
\<close>

fun stream_msg :: "u8 \<times> bytes \<times> nat option \<Rightarrow> bool" where
  "stream_msg (t, p, pad) =
    ((t = 0x17 \<and> p \<noteq> [] \<or> t = 0x16) \<and> length p + 17 \<le> TLS_MAX_RECORD \<and>
     (case pad of None \<Rightarrow> True | Some n \<Rightarrow> n \<le> TLS_MAX_RECORD))"

fun app_data :: "(u8 \<times> bytes \<times> nat option) list \<Rightarrow> bytes" where
  "app_data [] = []"
| "app_data ((t, p, pad) # ms) = (if t = 0x17 then p @ app_data ms else app_data ms)"

text \<open>Polls of a reader with room for \<open>space\<close> bytes, until the stream is not ready.\<close>

fun read_polls ::
  "RealityCrypto \<Rightarrow> nat \<Rightarrow> nat \<Rightarrow> Tls13Stream \<Rightarrow> ReadEvent list \<Rightarrow> (bytes \<times> Tls13Stream \<times> ReadEvent list) option" where
  "read_polls c space 0 st evs = None"
| "read_polls c space (Suc n) st evs =
    (case tls_poll_read c space st evs of
       Some (PReady (Ok b), st, evs) \<Rightarrow>
         map_option (\<lambda>(d, st, evs). (b @ d, st, evs)) (read_polls c space n st evs)
     | Some (PPending, st, evs) \<Rightarrow> Some ([], st, evs)
     | _ \<Rightarrow> None)"

definition stream_ahead :: "RealityCrypto \<Rightarrow> Tls13Stream \<Rightarrow> ReadEvent list \<Rightarrow> bytes \<Rightarrow> bool" where
  "stream_ahead c st evs data \<longleftrightarrow>
     ra_wf (st_assembler st) \<and> live evs \<and> keys_wf (st_recv st) \<and>
     (\<exists>ms. list_all stream_msg ms \<and> data = drop (st_plaintext_at st) (st_plaintext st) @ app_data ms \<and>
       ra_abs (st_assembler st) @ ev_bytes evs = concat (encrypt_all c (st_recv st) ms))"

lemma read_record_Nil: "read_record [] = Err TlsEof"
  by (simp add: read_record_def)

lemma next_plain_flight:
  assumes c: "crypto_laws c" and "keys_wf k" "list_all stream_msg ms"
  shows "if app_data ms = [] then \<exists>k'. next_plain c k (concat (encrypt_all c k ms)) = (PPending, k', [])
    else \<exists>p k' ms'. next_plain c k (concat (encrypt_all c k ms)) = (PReady (Ok p), k', concat (encrypt_all c k' ms')) \<and>
      p \<noteq> [] \<and> keys_wf k' \<and> list_all stream_msg ms' \<and> app_data ms = p @ app_data ms'"
  using assms(2,3)
proof (induction ms arbitrary: k)
  case Nil
  then show ?case by (simp add: next_plain.simps read_record_Nil)
next
  case (Cons m ms)
  obtain t p pad where m: "m = (t, p, pad)" by (cases m)
  have p: "length p + 17 \<le> TLS_MAX_RECORD" "case pad of None \<Rightarrow> True | Some n \<Rightarrow> n \<le> TLS_MAX_RECORD"
      "t = 0x17 \<and> p \<noteq> [] \<or> t = 0x16"
    using Cons.prems m by auto
  have t: "t \<noteq> 0" using p(3) by auto
  have n: "next_plain c k (concat (encrypt_all c k (m # ms))) =
      (if t = 0x17 then (PReady (Ok p), next_seq k, concat (encrypt_all c (next_seq k) ms))
       else next_plain c (next_seq k) (concat (encrypt_all c (next_seq k) ms)))"
    using p(3) decrypt_encrypted [OF c Cons.prems(1) t, of p pad]
    by (auto simp: m next_plain.simps [of c k] read_encrypted [OF c Cons.prems(1) p(1,2)])
  show ?case
  proof (cases "t = 0x17")
    case True
    then have "p \<noteq> []" using p(3) by auto
    with True Cons.prems show ?thesis
      unfolding n by (auto simp: m intro!: exI [of _ p] exI [of _ "next_seq k"] exI [of _ ms])
  next
    case False
    then show ?thesis using Cons.IH [of "next_seq k"] Cons.prems unfolding n by (simp add: m)
  qed
qed

lemma poll_read_ahead:
  assumes c: "crypto_laws c" and ahead: "stream_ahead c st evs data" and space: "0 < space"
  shows "if data = [] then \<exists>st'. tls_poll_read c space st evs = Some (PPending, st', [])
    else \<exists>b st' evs' data'. tls_poll_read c space st evs = Some (PReady (Ok b), st', evs') \<and>
      b \<noteq> [] \<and> data = b @ data' \<and> stream_ahead c st' evs' data'"
proof (cases "st_plaintext_at st < length (st_plaintext st)")
  case True
  define n where "n = min (length (st_plaintext st) - st_plaintext_at st) space"
  have n: "0 < n" using True space by (simp add: n_def)
  have r: "tls_poll_read c space st evs =
      Some (PReady (Ok (take n (drop (st_plaintext_at st) (st_plaintext st)))),
            st\<lparr>st_plaintext_at := st_plaintext_at st + n\<rparr>, evs)"
    using True by (simp add: tls_poll_read_def poll_fill_plaintext_def n_def Let_def)
  obtain ms where ms: "data = drop (st_plaintext_at st) (st_plaintext st) @ app_data ms"
      "list_all stream_msg ms" "ra_abs (st_assembler st) @ ev_bytes evs = concat (encrypt_all c (st_recv st) ms)"
    using ahead by (auto simp: stream_ahead_def)
  have a: "stream_ahead c (st\<lparr>st_plaintext_at := st_plaintext_at st + n\<rparr>) evs
      (drop n (drop (st_plaintext_at st) (st_plaintext st)) @ app_data ms)"
    using ahead ms by (auto simp: stream_ahead_def add.commute)
  have "data = take n (drop (st_plaintext_at st) (st_plaintext st)) @
      (drop n (drop (st_plaintext_at st) (st_plaintext st)) @ app_data ms)"
    unfolding ms(1) by (metis append.assoc append_take_drop_id)
  moreover have "take n (drop (st_plaintext_at st) (st_plaintext st)) \<noteq> []" using True n by simp
  ultimately show ?thesis using r a by auto
next
  case False
  define st0 where "st0 = st\<lparr>st_plaintext := [], st_plaintext_at := 0\<rparr>"
  obtain ms where ms: "data = app_data ms" "list_all stream_msg ms"
      "ra_abs (st_assembler st) @ ev_bytes evs = concat (encrypt_all c (st_recv st) ms)"
    using ahead False by (auto simp: stream_ahead_def)
  have wf: "ra_wf (st_assembler st0)" "live evs" "keys_wf (st_recv st)"
    using ahead by (auto simp: stream_ahead_def st0_def)
  have s0: "concat (encrypt_all c (st_recv st) ms) = ra_abs (st_assembler st0) @ ev_bytes evs"
    using ms(3) by (simp add: st0_def)
  have k0: "st_recv st = st_recv st0" by (simp add: st0_def)
  obtain res st' evs' where out: "plaintext_loop c st0 evs = Some (res, st', evs')"
      "fill_matches st0 (next_plain c (st_recv st) (concat (encrypt_all c (st_recv st) ms))) (res, st', evs')"
    using plaintext_loop_refines [OF wf(1,2) s0 k0] by (metis prod_cases3)
  have r: "poll_fill_plaintext c st evs = Some (res, st', evs')"
    using False out(1) by (simp add: poll_fill_plaintext_def st0_def)
  show ?thesis
  proof (cases "data = []")
    case True
    then obtain k' where "next_plain c (st_recv st) (concat (encrypt_all c (st_recv st) ms)) = (PPending, k', [])"
      using next_plain_flight [OF c wf(3) ms(2)] ms(1) by auto
    then show ?thesis using True r out(2) by (simp add: tls_poll_read_def)
  next
    case False
    then obtain p k' ms' where p: "p \<noteq> []" "keys_wf k'" "list_all stream_msg ms'" "app_data ms = p @ app_data ms'"
        "next_plain c (st_recv st) (concat (encrypt_all c (st_recv st) ms)) =
           (PReady (Ok p), k', concat (encrypt_all c k' ms'))"
      using next_plain_flight [OF c wf(3) ms(2)] ms(1) by auto
    have st': "res = PReady (Ok ())" "live evs'" "ev_bytes evs' = concat (encrypt_all c k' ms')"
        "ra_wf (st_assembler st')" "ra_abs (st_assembler st') = []"
        "st_recv st' = k'" "st_plaintext st' = p" "st_plaintext_at st' = 0"
      using fill_matches_Ok [OF out(2) [unfolded p(5)]] by (simp_all add: st0_def)
    define n where "n = min (length p) space"
    have "0 < n" using p(1) space by (simp add: n_def)
    have "tls_poll_read c space st evs = Some (PReady (Ok (take n p)), st'\<lparr>st_plaintext_at := n\<rparr>, evs')"
      using r st' by (simp add: tls_poll_read_def Let_def n_def)
    moreover have "stream_ahead c (st'\<lparr>st_plaintext_at := n\<rparr>) evs' (drop n p @ app_data ms')"
      using st' p by (auto simp: stream_ahead_def)
    moreover have "data = take n p @ (drop n p @ app_data ms')" using ms(1) p(4) by simp
    ultimately show ?thesis using False \<open>0 < n\<close> p(1) by auto
  qed
qed

lemma read_polls_ahead:
  assumes c: "crypto_laws c" and space: "0 < space"
  shows "stream_ahead c st evs data \<Longrightarrow> length data < n \<Longrightarrow>
    \<exists>st'. read_polls c space n st evs = Some (data, st', [])"
proof (induction n arbitrary: st evs data)
  case (Suc n)
  show ?case
  proof (cases "data = []")
    case True
    then show ?thesis using poll_read_ahead [OF c Suc.prems(1) space] by auto
  next
    case False
    then obtain b st' evs' data' where b: "tls_poll_read c space st evs = Some (PReady (Ok b), st', evs')"
        "b \<noteq> []" "data = b @ data'" "stream_ahead c st' evs' data'"
      using poll_read_ahead [OF c Suc.prems(1) space] by auto
    moreover have "length data' < n" using b(2,3) Suc.prems(2) by (cases b) auto
    ultimately show ?thesis using Suc.IH [of st' evs' data'] by auto
  qed
qed simp

section \<open>Writing emits whole records of the data\<close>

text \<open>A caller that offers the rest of its data until all of it is reported.\<close>

fun write_polls ::
  "RealityCrypto \<Rightarrow> nat \<Rightarrow> Tls13Stream \<Rightarrow> bytes \<Rightarrow> WriteEvent list \<Rightarrow> (bytes \<times> Tls13Stream \<times> WriteEvent list) option" where
  "write_polls c 0 st data evs = None"
| "write_polls c (Suc n) st data evs =
    (if data = [] then Some ([], st, evs)
     else case tls_poll_write c st data evs of
       (PReady (Ok m), st, wire, evs) \<Rightarrow>
         map_option (\<lambda>(w, st, evs). (wire @ w, st, evs)) (write_polls c n st (drop m data) evs)
     | _ \<Rightarrow> None)"

fun accepting :: "WriteEvent \<Rightarrow> bool" where
  "accepting (Accepted m) = (0 < m)"
| "accepting WriteFail = False"

function app_messages :: "bytes \<Rightarrow> (u8 \<times> bytes \<times> nat option) list" where
  "app_messages data =
    (if data = [] then [] else (0x17, take (14 * 1024) data, None) # app_messages (drop (14 * 1024) data))"
  by pat_completeness auto
termination by (relation "measure length") auto

declare app_messages.simps [simp del]

lemma app_messages_stream: "list_all stream_msg (app_messages data)" "app_data (app_messages data) = data"
proof (induction data rule: app_messages.induct)
  case (1 data)
  { case 1
    then show ?case using "1.IH"(1) by (simp add: app_messages.simps [of data] constants min_def) }
  { case 2
    then show ?case using "1.IH"(2) by (simp add: app_messages.simps [of data]) }
qed

lemma poll_write_pending:
  assumes "list_all accepting evs" "st_pending_at st < length (st_pending st)"
    "length (st_pending st) - st_pending_at st \<le> length evs"
  shows "\<exists>evs'. tls_poll_write c st buf evs =
      (PReady (Ok (st_pending_plain st)), st\<lparr>st_pending := [], st_pending_at := 0, st_pending_plain := 0\<rparr>,
       drop (st_pending_at st) (st_pending st), evs') \<and> list_all accepting evs' \<and>
      length evs \<le> length evs' + (length (st_pending st) - st_pending_at st)"
  using assms
proof (induction evs arbitrary: st)
  case (Cons e evs)
  define left where "left = length (st_pending st) - st_pending_at st"
  obtain m where e: "e = Accepted m" "0 < m" using Cons.prems(1) by (cases e) auto
  have pend: "st_pending st \<noteq> []" "0 < left" using Cons.prems(2) by (auto simp: left_def)
  note step = tls_poll_write.simps [of c st buf "Accepted m # evs"]
  show ?case
  proof (cases "m < left")
    case True
    define st1 where "st1 = st\<lparr>st_pending_at := st_pending_at st + m\<rparr>"
    have IH1: "st_pending_at st + m < length (st_pending st)"
        "length (st_pending st) - (st_pending_at st + m) \<le> length evs"
      using True Cons.prems(2,3) e(2) by (simp_all add: left_def)
    obtain evs' where r: "tls_poll_write c st1 buf evs =
        (PReady (Ok (st_pending_plain st)), st\<lparr>st_pending := [], st_pending_at := 0, st_pending_plain := 0\<rparr>,
         drop (st_pending_at st + m) (st_pending st), evs')" "list_all accepting evs'"
        "length evs \<le> length evs' + (left - m)"
      using Cons.IH [of st1] IH1 True Cons.prems(1) by (auto simp: left_def st1_def)
    have w: "take m (drop (st_pending_at st) (st_pending st)) @ drop (st_pending_at st + m) (st_pending st)
        = drop (st_pending_at st) (st_pending st)"
      by (metis append_take_drop_id drop_drop add.commute)
    have "tls_poll_write c st buf (e # evs) =
        (PReady (Ok (st_pending_plain st)), st\<lparr>st_pending := [], st_pending_at := 0, st_pending_plain := 0\<rparr>,
         take m (drop (st_pending_at st) (st_pending st)) @ drop (st_pending_at st + m) (st_pending st), evs')"
      using pend True e r(1) IH1(1) by (simp add: step Let_def left_def st1_def min_def)
    then show ?thesis using r(2,3) True e(2) unfolding w by (simp add: left_def)
  next
    case False
    then have "tls_poll_write c st buf (e # evs) =
        (PReady (Ok (st_pending_plain st)), st\<lparr>st_pending := [], st_pending_at := 0, st_pending_plain := 0\<rparr>,
         drop (st_pending_at st) (st_pending st), evs)"
      using pend e by (simp add: step Let_def left_def min_def)
    then show ?thesis using Cons.prems pend by (simp add: left_def)
  qed
qed simp

lemma poll_write_fresh:
  assumes c: "crypto_laws c" and k: "keys_wf (st_send st)" and st: "st_pending st = []" "st_pending_at st = 0" "st_pending_plain st = 0"
    and data: "data \<noteq> []" "chunk = take (14 * 1024) data"
    and evs: "list_all accepting evs" "length chunk + 22 \<le> length evs"
  shows "\<exists>evs'. tls_poll_write c st data evs =
      (PReady (Ok (length chunk)), st\<lparr>st_send := next_seq (st_send st)\<rparr>,
       encrypt_app_padded c (st_send st) 0x17 chunk None, evs') \<and> list_all accepting evs' \<and>
      length evs \<le> length evs' + (length chunk + 22)"
proof -
  define rcd where "rcd = encrypt_app_padded c (st_send st) 0x17 chunk None"
  have len: "length rcd = length chunk + 22"
    unfolding rcd_def by (simp add: encrypt_record_length [OF c k])
  define st1 where "st1 = st\<lparr>st_pending := rcd, st_send := next_seq (st_send st),
      st_pending_at := 0, st_pending_plain := length chunk\<rparr>"
  have "tls_poll_write c st data evs = tls_poll_write c st1 data evs"
    using st(1) data by (subst tls_poll_write.simps) (simp add: st1_def rcd_def encrypt_app_def Let_def)
  moreover obtain evs' where "tls_poll_write c st1 data evs =
      (PReady (Ok (st_pending_plain st1)), st1\<lparr>st_pending := [], st_pending_at := 0, st_pending_plain := 0\<rparr>,
       drop (st_pending_at st1) (st_pending st1), evs') \<and> list_all accepting evs' \<and>
      length evs \<le> length evs' + (length (st_pending st1) - st_pending_at st1)"
    using poll_write_pending [OF evs(1), of st1 c data] evs(2) len by (auto simp: st1_def)
  moreover have "st1\<lparr>st_pending := [], st_pending_at := 0, st_pending_plain := 0\<rparr> = st\<lparr>st_send := next_seq (st_send st)\<rparr>"
    using st by (simp add: st1_def)
  ultimately show ?thesis using len by (auto simp: st1_def rcd_def)
qed

definition idle_stream :: "Tls13Stream \<Rightarrow> bool" where
  "idle_stream st \<longleftrightarrow> keys_wf (st_send st) \<and> st_pending st = [] \<and> st_pending_at st = 0 \<and> st_pending_plain st = 0"

lemma write_polls_records:
  assumes c: "crypto_laws c"
  shows "idle_stream st \<Longrightarrow> list_all accepting evs \<Longrightarrow> length data < n \<Longrightarrow> 23 * length data \<le> length evs \<Longrightarrow>
    \<exists>st' evs'. write_polls c n st data evs = Some (concat (encrypt_all c (st_send st) (app_messages data)), st', evs')"
proof (induction n arbitrary: st evs data)
  case (Suc n)
  show ?case
  proof (cases "data = []")
    case True
    then show ?thesis by (simp add: app_messages.simps)
  next
    case False
    define chunk where "chunk = take (14 * 1024) data"
    have len: "length data = length chunk + length (drop (14 * 1024) data)" "0 < length chunk"
      using False by (auto simp: chunk_def min_def)
    have room: "length chunk + 22 \<le> length evs" using len Suc.prems(4) by linarith
    obtain evs' where w: "tls_poll_write c st data evs =
        (PReady (Ok (length chunk)), st\<lparr>st_send := next_seq (st_send st)\<rparr>,
         encrypt_app_padded c (st_send st) 0x17 chunk None, evs')" "list_all accepting evs'"
        "length evs \<le> length evs' + (length chunk + 22)"
      using poll_write_fresh [OF c _ _ _ _ False chunk_def Suc.prems(2) room] Suc.prems(1)
      by (auto simp: idle_stream_def)
    have d: "drop (length chunk) data = drop (14 * 1024) data" by (simp add: chunk_def min_def)
    have idle: "idle_stream (st\<lparr>st_send := next_seq (st_send st)\<rparr>)"
      using Suc.prems(1) by (simp add: idle_stream_def)
    have less: "length (drop (14 * 1024) data) < n" "23 * length (drop (14 * 1024) data) \<le> length evs'"
      using len Suc.prems(3,4) w(3) by linarith+
    have "\<exists>st' evs''. write_polls c n (st\<lparr>st_send := next_seq (st_send st)\<rparr>) (drop (14 * 1024) data) evs' =
        Some (concat (encrypt_all c (next_seq (st_send st)) (app_messages (drop (14 * 1024) data))), st', evs'')"
      using Suc.IH [OF idle w(2) less] by simp
    then show ?thesis using False w(1) d by (auto simp: app_messages.simps [of data] chunk_def)
  qed
qed simp

section \<open>What the stream guarantees\<close>

text \<open>
  Record reassembly is independent of the network's chunks.  In every state
  of the assembler, and however the bytes are cut, \<open>poll_record\<close> delivers
  exactly the record that \<open>read_record\<close> finds at the start of the bytes held
  and received, leaving the rest unread; it waits exactly when the record is
  incomplete, keeping every byte; and it reports an invalid length exactly when
  \<open>read_record\<close> does.
\<close>

theorem assembler_refines_read_record:
  assumes "ra_wf a" "live evs"
  shows "poll_matches (ra_abs a @ ev_bytes evs) (poll_record a evs)"
  using poll_record_refines [OF assms] .

theorem assembler_refines_read_record_witness:
  "poll_matches [0x17, 3, 3, 0, 2, 7, 8, 0x14] (poll_record assembler_default [Chunk [0x17, 3], Chunk [3, 0, 2, 7], Chunk [8, 0x14]])"
  using assembler_refines_read_record [of assembler_default "[Chunk [0x17, 3], Chunk [3, 0, 2, 7], Chunk [8, 0x14]]"]
  by simp

lemma stream_delivers:
  assumes c: "crypto_laws c" and tx: "idle_stream tx" and keys: "st_recv rx = st_send tx"
    and rx: "ra_wf (st_assembler rx)" "ra_abs (st_assembler rx) = []"
      "length (st_plaintext rx) \<le> st_plaintext_at rx"
    and evs: "list_all accepting wevs" "23 * length data \<le> length wevs" and space: "0 < space"
  shows "\<exists>wire tx' wevs'. write_polls c (length data + 1) tx data wevs = Some (wire, tx', wevs') \<and>
    (\<forall>revs. live revs \<and> ev_bytes revs = wire \<longrightarrow>
      (\<exists>rx'. read_polls c space (length data + 1) rx revs = Some (data, rx', [])))"
proof -
  define wire where "wire = concat (encrypt_all c (st_send tx) (app_messages data))"
  have "\<exists>tx' wevs'. write_polls c (length data + 1) tx data wevs = Some (wire, tx', wevs')"
    using write_polls_records [OF c tx evs(1) _ evs(2), of "length data + 1"] by (simp add: wire_def)
  moreover have "\<exists>rx'. read_polls c space (length data + 1) rx revs = Some (data, rx', [])"
    if "live revs" "ev_bytes revs = wire" for revs
  proof (rule read_polls_ahead [OF c space])
    show "stream_ahead c rx revs data"
      using that keys rx tx app_messages_stream [of data]
      by (auto simp: stream_ahead_def wire_def idle_stream_def intro!: exI [of _ "app_messages data"])
  qed simp
  ultimately show ?thesis by auto
qed

text \<open>
  C24: What is written is what is read.  A writer that offers its data to an idle
  stream whose socket keeps accepting at least a byte finishes, whatever the
  sizes accepted; and a reader with the matching keys, given the bytes of the wire
  in any chunks and reading into a buffer of any size, reads exactly the data and
  then waits.  (Twenty-three times the data bounds the bytes on the wire.)
\<close>

theorem tls_stream_delivers:
  assumes "crypto_laws c" "idle_stream tx" "st_recv rx = st_send tx"
    "ra_wf (st_assembler rx)" "ra_abs (st_assembler rx) = []" "length (st_plaintext rx) \<le> st_plaintext_at rx"
    "list_all accepting wevs" "23 * length data \<le> length wevs" "0 < space"
  shows "\<exists>wire tx' wevs'. write_polls c (length data + 1) tx data wevs = Some (wire, tx', wevs') \<and>
    (\<forall>revs. live revs \<and> ev_bytes revs = wire \<longrightarrow>
      (\<exists>rx'. read_polls c space (length data + 1) rx revs = Some (data, rx', [])))"
  using stream_delivers [OF assms] .

definition sample_stream :: Tls13Stream where
  "sample_stream = stream_of_session
     \<lparr>ts_send = sample_traffic, ts_recv = sample_traffic\<rparr>"

theorem tls_stream_delivers_witness:
  "\<exists>wire tx' wevs'. write_polls reality_stub 4 sample_stream [5, 6, 7] (replicate 69 (Accepted 2)) = Some (wire, tx', wevs') \<and>
    (\<forall>revs. live revs \<and> ev_bytes revs = wire \<longrightarrow>
      (\<exists>rx'. read_polls reality_stub 2 4 sample_stream revs = Some ([5, 6, 7], rx', [])))"
proof -
  have len: "length [5, 6, 7 :: u8] + 1 = 4" by simp
  show ?thesis
    by (rule tls_stream_delivers [OF reality_stub_laws, where data = "[5, 6, 7]", unfolded len])
      (simp_all add: sample_stream_def stream_of_session_def idle_stream_def sample_traffic_wf list_all_iff)
qed

text \<open>
  An empty application-data record is reported as the end of the stream.
  With room in the buffer, reading a record whose content is empty completes
  with no bytes, which a reader takes for end of file, although the records that
  follow are intact and the next poll would deliver them.
\<close>

theorem empty_record_reads_as_eof:
  assumes "crypto_laws c" "keys_wf k" "st_recv st = k" "st_assembler st = assembler_default"
    "length (st_plaintext st) \<le> st_plaintext_at st" "case pad of None \<Rightarrow> True | Some n \<Rightarrow> n \<le> TLS_MAX_RECORD"
  shows "\<exists>st' evs. tls_poll_read c space st [Chunk (encrypt_app_padded c k 0x17 [] pad @ more_records)] =
    Some (PReady (Ok []), st', evs) \<and> st_recv st' = next_seq k \<and> ev_bytes evs = more_records"
proof -
  define st0 where "st0 = st\<lparr>st_plaintext := [], st_plaintext_at := 0\<rparr>"
  define s where "s = encrypt_app_padded c k 0x17 [] pad @ more_records"
  have "read_record s = Ok ((0x17, drop 5 (encrypt_app_padded c k 0x17 [] pad)), more_records)"
    unfolding s_def by (rule read_encrypted [OF assms(1,2) _ assms(6)]) (simp add: constants)
  then have n: "next_plain c k s = (PReady (Ok []), next_seq k, more_records)"
    using decrypt_encrypted [OF assms(1,2), of "0x17" "[]" pad] by (simp add: next_plain.simps)
  have s: "s \<noteq> []"
    using encrypt_record_length [OF assms(1,2), of "0x17" "[]" pad] by (auto simp: s_def split: option.splits)
  have wf: "ra_wf (st_assembler st0)" "live [Chunk s]" "s = ra_abs (st_assembler st0) @ ev_bytes [Chunk s]" "k = st_recv st0"
    using assms(3,4) s by (simp_all add: st0_def)
  obtain res st' evs where out: "plaintext_loop c st0 [Chunk s] = Some (res, st', evs)"
      "fill_matches st0 (PReady (Ok []), next_seq k, more_records) (res, st', evs)"
    using plaintext_loop_refines [OF wf, of c] unfolding n by (metis prod_cases3)
  have st': "res = PReady (Ok ())" "ev_bytes evs = more_records" "st_plaintext st' = []" "st_plaintext_at st' = 0"
      "st_recv st' = next_seq k"
    using fill_matches_Ok [OF out(2)] by (simp_all add: st0_def)
  have "poll_fill_plaintext c st [Chunk s] = Some (res, st', evs)"
    using assms(5) out(1) by (simp add: poll_fill_plaintext_def st0_def)
  then show ?thesis using st' by (simp add: tls_poll_read_def Let_def flip: s_def)
qed

theorem empty_record_reads_as_eof_witness:
  "\<exists>st' evs. tls_poll_read reality_stub 100 sample_stream
      [Chunk (encrypt_app_padded reality_stub sample_traffic 0x17 [] None @ [0x17, 3])] =
    Some (PReady (Ok []), st', evs) \<and> st_recv st' = next_seq sample_traffic \<and> ev_bytes evs = [0x17, 3]"
  using empty_record_reads_as_eof [OF reality_stub_laws sample_traffic_wf, where st = sample_stream and space = 100 and pad = None and more_records = "[0x17, 3]"]
  by (simp add: sample_stream_def stream_of_session_def)

end
