(* ===== verification/Reality_Front.thy ===== *)
theory Reality_Front
  imports Reality_Stream "HOL-Library.Sublist"
begin

text \<open>
  The REALITY front (\<open>payphone-transport/src/reality/splice.rs\<close>): reading the
  first record of a connection, deciding between the tunnel, the local web server
  and the destination site, replaying the record, and sampling the destination's
  flight; and the probe that measures the destination's records after the handshake
  (\<open>record_detect.rs\<close>).  A connection is the list of bytes the peer sends
  before it falls silent.
\<close>

section \<open>Reading records\<close>

definition SPLICE_MAX_RECORD :: nat where [constants]: "SPLICE_MAX_RECORD = 16 * 1024"

datatype FrontError = FrontEof | FrontTimeout | FrontTooLong | DestUnreachable

definition record_len :: "bytes \<Rightarrow> nat" where
  "record_len s = unat (be16 [s ! 3, s ! 4])"

definition read_tls_record :: "bytes \<Rightarrow> (FrontError, bytes \<times> bytes) outcome" where
  "read_tls_record s =
    (if length s < 5 then Err FrontEof
     else if s ! 0 \<noteq> 0x16 then Ok (take 5 s, drop 5 s)
     else let len = record_len s in
       if len = 0 \<or> len > SPLICE_MAX_RECORD then Ok (take 5 s, drop 5 s)
       else if length s < 5 + len then Err FrontEof
       else Ok (take (5 + len) s, drop (5 + len) s))"

definition read_full_tls_record :: "bytes \<Rightarrow> (FrontError, bytes \<times> bytes) outcome" where
  "read_full_tls_record s =
    (if length s < 5 then Err FrontEof
     else let len = record_len s in
       if len > SPLICE_MAX_RECORD then Err FrontTooLong
       else if length s < 5 + len then Err FrontEof
       else Ok (take (5 + len) s, drop (5 + len) s))"

lemma read_full_shorter: "read_full_tls_record s = Ok (rcd, rest) \<Longrightarrow> length rest < length s \<and> s = rcd @ rest"
  by (auto simp: read_full_tls_record_def Let_def split: if_splits)

lemma read_tls_record_split: "read_tls_record s = Ok (rcd, rest) \<Longrightarrow> s = rcd @ rest"
  by (auto simp: read_tls_record_def Let_def split: if_splits)

section \<open>The destination's flight\<close>

text \<open>
  The sampling loop on the bytes the destination sends before a wait runs out: at
  most eight encrypted records, change-cipher-spec skipped, anything else or an
  incomplete record ends it.
\<close>

function fetch_loop :: "nat list \<Rightarrow> bytes \<Rightarrow> nat list" where
  "fetch_loop lens s =
    (if length lens \<ge> 8 then lens
     else case read_full_tls_record s of
       Ok (next_rcd, rest) \<Rightarrow>
         (case nth_opt 0 next_rcd of
            Some t \<Rightarrow>
              if t = 0x14 then fetch_loop lens rest
              else if t = 0x17 then fetch_loop (lens @ [length next_rcd]) rest
              else lens
          | None \<Rightarrow> lens)
     | _ \<Rightarrow> lens)"
  by pat_completeness auto
termination by (relation "measure (\<lambda>(_, s). length s)") (auto dest: read_full_shorter)

declare fetch_loop.simps [simp del]

text \<open>\<open>None\<close>: the destination cannot be reached.\<close>

definition fetch_dest_flight :: "bytes option \<Rightarrow> DestFlight option" where
  "fetch_dest_flight reply =
     do { s \<leftarrow> reply;
          (rcd, rest) \<leftarrow> (case read_full_tls_record s of Ok r \<Rightarrow> Some r | _ \<Rightarrow> None);
          handshake \<leftarrow> handshake_from_record rcd;
          _ \<leftarrow> server_hello_parse handshake;
          Some \<lparr>df_server_hello = handshake, df_encrypted_record_lens = fetch_loop [] rest,
                df_post_handshake_lens = []\<rparr> }"

section \<open>The replayed stream\<close>

record PrefixedStream =
  ps_prefix :: "bytes option"
  ps_inner :: "ReadEvent list"

definition prefixed_new :: "bytes \<Rightarrow> ReadEvent list \<Rightarrow> PrefixedStream" where
  "prefixed_new pre inner = \<lparr>ps_prefix = Some pre, ps_inner = inner\<rparr>"

text \<open>\<open>poll_read\<close> into a buffer with room for \<open>space\<close> bytes.\<close>

definition prefixed_poll_read :: "nat \<Rightarrow> PrefixedStream \<Rightarrow> SocketRead \<times> PrefixedStream" where
  "prefixed_poll_read space ps =
    (let from_socket = (\<lambda>ps.
       (inner_read space (ps_inner ps),
        case inner_read space (ps_inner ps) of
          NotReady \<Rightarrow> ps
        | SocketFailed \<Rightarrow> ps\<lparr>ps_inner := tl (ps_inner ps)\<rparr>
        | Got _ evs \<Rightarrow> ps\<lparr>ps_inner := evs\<rparr>))
     in case ps_prefix ps of
          Some pre \<Rightarrow>
            if take space pre = [] then from_socket (ps\<lparr>ps_prefix := None\<rparr>)
            else (Got (take space pre) (ps_inner ps), ps\<lparr>ps_prefix := Some (drop space pre)\<rparr>)
        | None \<Rightarrow> from_socket ps)"

section \<open>The decision\<close>

definition local_hello :: "bytes \<Rightarrow> RealityServerConfig \<Rightarrow> bool" where
  "local_hello rcd cfg =
    (case client_hello_parse rcd of
       None \<Rightarrow> False
     | Some view \<Rightarrow>
         if has_acme_alpn view then True
         else case ch_sni view of
           None \<Rightarrow> False
         | Some sni \<Rightarrow> list_ex (\<lambda>name. eq_ignore_ascii_case name sni) (rs_local_names cfg))"

datatype RealityAccept =
    Vpn PrefixedStream bytes bytes "DestFlight option"
  | Local PrefixedStream bool
  | Spliced bytes

text \<open>
  What reaches the destination: the record, then whatever the client sends
  (\<open>copy_bidirectional\<close>).
\<close>

definition splice_to_dest :: "bytes \<Rightarrow> bytes \<Rightarrow> bool \<Rightarrow> (FrontError, bytes) outcome" where
  "splice_to_dest pre rest dest_up = (if dest_up then Ok (pre @ rest) else Err DestUnreachable)"

definition vpn_flight :: "RealityServerConfig \<Rightarrow> u8 \<Rightarrow> bytes option \<Rightarrow> DestFlight option" where
  "vpn_flight cfg alpn reply =
    (case fetch_dest_flight reply of
       Some flight \<Rightarrow> Some (flight\<lparr>df_post_handshake_lens := post_handshake_lens_for cfg alpn\<rparr>)
     | None \<Rightarrow>
         if post_handshake_lens_for cfg alpn \<noteq> [] then
           Some \<lparr>df_server_hello = [], df_encrypted_record_lens = [],
                 df_post_handshake_lens = post_handshake_lens_for cfg alpn\<rparr>
         else None)"

definition vpn_server_name :: "RealityServerConfig \<Rightarrow> ClientHelloView \<Rightarrow> bytes" where
  "vpn_server_name cfg hello =
    (case ch_sni hello of
       Some sni \<Rightarrow> sni
     | None \<Rightarrow> (case dest_host (rs_dest cfg) of Ok host \<Rightarrow> utf8_encode host | _ \<Rightarrow> ascii ''localhost''))"

text \<open>
  \<open>accept\<close>: the client sends \<open>s\<close> and then is silent; \<open>stalled\<close>
  says that it keeps the connection open, so that an incomplete record runs into
  the timeout.
\<close>

definition front_accept ::
  "RealityCrypto \<Rightarrow> u64 \<Rightarrow> RealityServerConfig \<Rightarrow> bytes option \<Rightarrow> bool \<Rightarrow> bool \<Rightarrow> bytes \<Rightarrow>
   (FrontError, RealityAccept) outcome" where
  "front_accept c now cfg reply dest_up stalled s =
    (case read_tls_record s of
       Panic \<Rightarrow> Panic
     | Err e \<Rightarrow> Err (if stalled then FrontTimeout else e)
     | Ok (rcd, rest) \<Rightarrow>
        let ps = prefixed_new rcd (if rest = [] then [] else [Chunk rest]) in
        (case authenticate c now rcd cfg of
           Panic \<Rightarrow> Panic
         | Ok auth \<Rightarrow>
             Ok (Vpn ps (ah_auth_key auth) (vpn_server_name cfg (ah_hello auth))
                   (vpn_flight cfg (alpn_class (ah_hello auth)) reply))
         | Err _ \<Rightarrow>
             if local_hello rcd cfg then
               Ok (Local ps (case client_hello_parse rcd of None \<Rightarrow> False | Some view \<Rightarrow> has_acme_alpn view))
             else obind (splice_to_dest rcd rest dest_up) (\<lambda>sent. Ok (Spliced sent))))"

section \<open>The record spy\<close>

record RecordSpy =
  spy_ccs_sent :: bool
  spy_write_tail :: bytes
  spy_leftover :: bytes
  spy_lens :: "nat list"

definition spy_new :: RecordSpy where
  "spy_new = \<lparr>spy_ccs_sent = False, spy_write_tail = [], spy_leftover = [], spy_lens = []\<rparr>"

text \<open>\<open>windows(n).any(|w| w == pat)\<close> for a pattern of length n.\<close>

fun has_window :: "bytes \<Rightarrow> bytes \<Rightarrow> bool" where
  "has_window pat [] = (pat = [])"
| "has_window pat (x # xs) = (take (length pat) (x # xs) = pat \<or> has_window pat xs)"

definition note_write :: "RecordSpy \<Rightarrow> bytes \<Rightarrow> RecordSpy" where
  "note_write spy buf =
    (if spy_ccs_sent spy then spy
     else
       let tail_bytes = spy_write_tail spy @ buf;
           spy = (if has_window CCS_RECORD tail_bytes then spy\<lparr>spy_ccs_sent := True\<rparr> else spy);
           keep = length CCS_RECORD - 1
       in spy\<lparr>spy_write_tail :=
            (if length tail_bytes > keep then drop (length tail_bytes - keep) tail_bytes else tail_bytes)\<rparr>)"

function measure_records :: "nat list \<Rightarrow> bytes \<Rightarrow> nat list \<times> bytes" where
  "measure_records lens left_bytes =
    (if length left_bytes < 5 then (lens, left_bytes)
     else let total = 5 + record_len left_bytes in
       if total > 16 * 1024 + 256 \<or> length left_bytes < total then (lens, left_bytes)
       else measure_records (if left_bytes ! 0 = 0x17 then lens @ [total] else lens) (drop total left_bytes))"
  by pat_completeness auto
termination by (relation "measure (\<lambda>(_, s). length s)") auto

declare measure_records.simps [simp del]

definition note_read :: "RecordSpy \<Rightarrow> bytes \<Rightarrow> RecordSpy" where
  "note_read spy buf =
    (if \<not> spy_ccs_sent spy \<or> buf = [] then spy
     else case measure_records (spy_lens spy) (spy_leftover spy @ buf) of
       (lens, left_bytes) \<Rightarrow> spy\<lparr>spy_lens := lens, spy_leftover := left_bytes\<rparr>)"

definition spy_poll_read :: "nat \<Rightarrow> RecordSpy \<Rightarrow> ReadEvent list \<Rightarrow> SocketRead \<times> RecordSpy" where
  "spy_poll_read space spy evs =
    (case inner_read space evs of
       Got v evs' \<Rightarrow> (Got v evs', note_read spy v)
     | other \<Rightarrow> (other, spy))"

text \<open>The socket accepts \<open>n\<close> bytes of the buffer.\<close>

definition spy_poll_write :: "RecordSpy \<Rightarrow> bytes \<Rightarrow> nat \<Rightarrow> RecordSpy" where
  "spy_poll_write spy buf n = note_write spy (take n buf)"

definition probe_alpn :: "u8 \<Rightarrow> bytes list" where
  "probe_alpn alpn =
    (if alpn = 2 then [ascii ''h2'', ascii ''http/1.1'']
     else if alpn = 1 then [ascii ''http/1.1''] else [])"

section \<open>Records on the wire\<close>

lemma length_tls_record: "length (tls_record t b) = 5 + length b"
  by (simp add: tls_record_def)

lemma tls_record_head:
  assumes "length b < 2 ^ 16"
  shows "record_len (tls_record t b @ rest) = length b" "(tls_record t b @ rest) ! 0 = t"
proof -
  define w where "w = (of_nat (length b) :: u16)"
  have w: "unat w = length b" unfolding w_def by (rule unat_of_nat_u16) (use assms in simp)
  obtain x y where xy: "to_be 2 w = [x, y]" using to_be_2_split by blast
  have "be16 [x, y] = w" unfolding be16_def xy [symmetric] by simp
  then show "record_len (tls_record t b @ rest) = length b"
    using w unfolding tls_record_def record_len_def w_def [symmetric] xy by simp
  show "(tls_record t b @ rest) ! 0 = t" by (simp add: tls_record_def)
qed

lemma read_full_at:
  assumes "length b \<le> SPLICE_MAX_RECORD"
  shows "read_full_tls_record (tls_record t b @ rest) = Ok (tls_record t b, rest)"
  using assms tls_record_head [of b t rest]
  by (simp add: read_full_tls_record_def Let_def length_tls_record constants)

abbreviation pending_wire :: "(u8 \<times> bytes) list \<Rightarrow> bytes" where
  "pending_wire rcds \<equiv> concat (map (\<lambda>(t, b). tls_record t b) rcds)"

text \<open>Sizes of the encrypted records.\<close>

abbreviation app_sizes :: "(u8 \<times> bytes) list \<Rightarrow> nat list" where
  "app_sizes rcds \<equiv> map (\<lambda>(t, b). 5 + length b) (filter (\<lambda>(t, b). t = 0x17) rcds)"

section \<open>Sampling the destination\<close>

lemma fetch_loop_records:
  assumes "list_all (\<lambda>(t, b). length b \<le> SPLICE_MAX_RECORD) rcds" "length lens \<le> 8"
  shows "fetch_loop lens (pending_wire rcds) =
    take 8 (lens @ app_sizes (takeWhile (\<lambda>(t, b). t = 0x14 \<or> t = 0x17) rcds))"
  using assms
proof (induction rcds arbitrary: lens)
  case Nil
  then show ?case by (simp add: fetch_loop.simps read_full_tls_record_def)
next
  case (Cons r rcds)
  obtain t b where r: "r = (t, b)" by (cases r)
  have b: "length b \<le> SPLICE_MAX_RECORD" using Cons.prems(1) r by simp
  have head: "nth_opt 0 (tls_record u b) = Some u" for u by (simp add: nth_opt_def tls_record_def)
  note step = fetch_loop.simps [of lens "tls_record u b @ pending_wire rcds" for u]
  consider "length lens = 8" | "length lens < 8" "t = 0x14" | "length lens < 8" "t = 0x17"
    | "length lens < 8" "t \<noteq> 0x14" "t \<noteq> 0x17"
    using Cons.prems(2) by linarith
  then show ?case
  proof cases
    case 1
    then show ?thesis by (simp add: step r)
  next
    case 2
    then show ?thesis
      using Cons.IH [of lens] Cons.prems by (simp add: step r read_full_at [OF b] head)
  next
    case 3
    then show ?thesis
      using Cons.IH [of "lens @ [5 + length b]"] Cons.prems
      by (simp add: step r read_full_at [OF b] head length_tls_record)
  next
    case 4
    then show ?thesis by (simp add: step r read_full_at [OF b] head)
  qed
qed

lemma read_full_length: "read_full_tls_record s = Ok (rcd, rest) \<Longrightarrow> length rcd \<le> TLS_MAX_RECORD"
  by (auto simp: read_full_tls_record_def Let_def constants split: if_splits)

lemma fetch_loop_bounds:
  assumes "list_all (\<lambda>n. n \<le> TLS_MAX_RECORD) lens" "length lens \<le> 8"
  shows "list_all (\<lambda>n. n \<le> TLS_MAX_RECORD) (fetch_loop lens s) \<and> length (fetch_loop lens s) \<le> 8"
  using assms
proof (induction lens s rule: fetch_loop.induct)
  case (1 lens s)
  show ?case
  proof (cases "length lens \<ge> 8 \<or> \<not> is_ok (read_full_tls_record s)")
    case True
    then show ?thesis using 1(3,4)
      by (subst (1 2) fetch_loop.simps) (cases "read_full_tls_record s"; simp)
  next
    case False
    then obtain rcd rest where r: "read_full_tls_record s = Ok (rcd, rest)" "\<not> 8 \<le> length lens"
      by (cases "read_full_tls_record s") auto
    show ?thesis
    proof (cases "nth_opt 0 rcd")
      case None
      then show ?thesis using 1(3,4) r by (subst (1 2) fetch_loop.simps) simp
    next
      case (Some t)
      note IH = 1(1) [OF r(2,1) refl Some] 1(2) [OF r(2,1) refl Some]
      have "list_all (\<lambda>n. n \<le> TLS_MAX_RECORD) (lens @ [length rcd]) \<and> length (lens @ [length rcd]) \<le> 8"
        using 1(3) r read_full_length [OF r(1)] by simp
      then show ?thesis
        using IH 1(3,4) r Some by (subst (1 2) fetch_loop.simps) auto
    qed
  qed
qed

section \<open>Replaying the record\<close>

definition ps_bytes :: "PrefixedStream \<Rightarrow> bytes" where
  "ps_bytes ps = (case ps_prefix ps of None \<Rightarrow> [] | Some pre \<Rightarrow> pre) @ ev_bytes (ps_inner ps)"

text \<open>Polls until the stream is not ready.\<close>

fun prefixed_polls :: "nat \<Rightarrow> nat \<Rightarrow> PrefixedStream \<Rightarrow> bytes option" where
  "prefixed_polls space 0 ps = None"
| "prefixed_polls space (Suc n) ps =
    (case prefixed_poll_read space ps of
       (Got v _, ps) \<Rightarrow> map_option ((@) v) (prefixed_polls space n ps)
     | (NotReady, _) \<Rightarrow> Some []
     | (SocketFailed, _) \<Rightarrow> None)"

lemma prefixed_poll_live:
  assumes live: "live (ps_inner ps)" and space: "0 < space"
  shows "if ps_bytes ps = [] then fst (prefixed_poll_read space ps) = NotReady
    else \<exists>v evs ps'. prefixed_poll_read space ps = (Got v evs, ps') \<and> v \<noteq> [] \<and> live (ps_inner ps') \<and>
      ps_bytes ps = v @ ps_bytes ps'"
proof (cases "\<exists>pre. ps_prefix ps = Some pre \<and> pre \<noteq> []")
  case True
  then obtain pre where pre: "ps_prefix ps = Some pre" "pre \<noteq> []" by blast
  then have "take space pre \<noteq> []" using space by simp
  then show ?thesis
    using pre live by (simp add: prefixed_poll_read_def ps_bytes_def Let_def)
next
  case False
  then have pre: "ps_prefix ps = None \<or> ps_prefix ps = Some []" by (cases "ps_prefix ps") auto
  define ps0 where "ps0 = ps\<lparr>ps_prefix := None\<rparr>"
  have ps0: "ps_bytes ps = ev_bytes (ps_inner ps)" using pre by (auto simp: ps_bytes_def)
  have poll: "prefixed_poll_read space ps =
      (inner_read space (ps_inner ps),
       case inner_read space (ps_inner ps) of
         NotReady \<Rightarrow> ps0 | SocketFailed \<Rightarrow> ps0\<lparr>ps_inner := tl (ps_inner ps)\<rparr> | Got _ evs \<Rightarrow> ps0\<lparr>ps_inner := evs\<rparr>)"
    using pre by (auto simp: prefixed_poll_read_def ps0_def Let_def split: SocketRead.split)
  show ?thesis
  proof (cases "ps_inner ps = []")
    case True
    then show ?thesis using ps0 by (simp add: poll)
  next
    case False
    obtain v evs' where v: "inner_read space (ps_inner ps) = Got v evs'" "v \<noteq> []" "live evs'"
        "ev_bytes (ps_inner ps) = v @ ev_bytes evs'"
      by (rule inner_read_live [OF live space False])
    then show ?thesis using ps0 by (simp add: poll ps_bytes_def ps0_def)
  qed
qed

lemma prefixed_polls_all:
  assumes "0 < space"
  shows "live (ps_inner ps) \<Longrightarrow> length (ps_bytes ps) < n \<Longrightarrow> prefixed_polls space n ps = Some (ps_bytes ps)"
proof (induction n arbitrary: ps)
  case (Suc n)
  show ?case
  proof (cases "ps_bytes ps = []")
    case True
    then have "fst (prefixed_poll_read space ps) = NotReady"
      using prefixed_poll_live [OF Suc.prems(1) assms] by simp
    then show ?thesis using True by (cases "prefixed_poll_read space ps") simp
  next
    case False
    then obtain v evs ps' where v: "prefixed_poll_read space ps = (Got v evs, ps')" "v \<noteq> []" "live (ps_inner ps')"
        "ps_bytes ps = v @ ps_bytes ps'"
      using prefixed_poll_live [OF Suc.prems(1) assms] by auto
    moreover have "length (ps_bytes ps') < n" using v(2,4) Suc.prems(2) by (cases v) auto
    ultimately show ?thesis using Suc.IH [of ps'] by simp
  qed
qed simp

section \<open>The record spy\<close>

lemma take_is_prefix: "take (length pat) xs = pat \<longleftrightarrow> prefix pat xs"
  by (metis append_eq_conv_conj prefix_def take_is_prefix)

lemma has_window_sublist: "has_window pat xs = sublist pat xs"
  by (induction pat xs rule: has_window.induct) (simp_all only: has_window.simps take_is_prefix sublist_Cons_right, simp)

text \<open>The tail kept between writes is enough to find a pattern across them.\<close>

lemma sublist_of_tail:
  assumes "sublist pat (w @ buf)" "\<not> sublist pat w" "length pat = Suc keep"
  shows "sublist pat (drop (length w - keep) w @ buf)"
proof -
  obtain a b where ab: "w @ buf = a @ pat @ b" using assms(1) by (auto simp: sublist_def)
  have "length w - keep \<le> length a"
  proof (rule ccontr)
    assume "\<not> length w - keep \<le> length a"
    then have "length (a @ pat) \<le> length w" using assms(3) by simp
    then have "a @ pat = take (length (a @ pat)) w"
      using arg_cong [OF ab, of "take (length (a @ pat))"] by simp
    then have "w = (a @ pat) @ drop (length (a @ pat)) w" by (metis append_take_drop_id)
    then have "sublist pat w" unfolding sublist_def by (metis append.assoc)
    with assms(2) show False ..
  qed
  then have "drop (length w - keep) w @ buf = drop (length w - keep) a @ pat @ b"
    using arg_cong [OF ab, of "drop (length w - keep)"] by simp
  then show ?thesis by (auto simp: sublist_def)
qed

definition last_bytes :: "nat \<Rightarrow> bytes \<Rightarrow> bytes" where
  "last_bytes n w = drop (length w - n) w"

lemma last_bytes_append: "last_bytes n (last_bytes n w @ buf) = last_bytes n (w @ buf)"
  by (cases "length w \<le> n") (auto simp: last_bytes_def add.commute)

definition spy_written :: "bytes \<Rightarrow> RecordSpy \<Rightarrow> bool" where
  "spy_written w spy \<longleftrightarrow> spy_ccs_sent spy = sublist CCS_RECORD w \<and>
     (\<not> spy_ccs_sent spy \<longrightarrow> spy_write_tail spy = last_bytes 5 w)"

lemma note_write_step: "spy_written w spy \<Longrightarrow> spy_written (w @ buf) (note_write spy buf)"
proof (cases "spy_ccs_sent spy")
  case True
  moreover assume "spy_written w spy"
  ultimately show ?thesis by (auto simp: spy_written_def note_write_def sublist_appendI sublist_append)
next
  case False
  assume w: "spy_written w spy"
  have no: "\<not> sublist CCS_RECORD w" and tail: "spy_write_tail spy = last_bytes 5 w"
    using w False by (simp_all add: spy_written_def)
  have len: "length CCS_RECORD = Suc 5" by (simp add: CCS_RECORD_def)
  have eq: "sublist CCS_RECORD (last_bytes 5 w @ buf) = sublist CCS_RECORD (w @ buf)"
  proof
    assume "sublist CCS_RECORD (last_bytes 5 w @ buf)"
    moreover have "w @ buf = take (length w - 5) w @ last_bytes 5 w @ buf" by (simp add: last_bytes_def)
    ultimately show "sublist CCS_RECORD (w @ buf)" by (metis sublist_append_leftI sublist_order.order.trans)
  next
    assume "sublist CCS_RECORD (w @ buf)"
    then show "sublist CCS_RECORD (last_bytes 5 w @ buf)"
      unfolding last_bytes_def by (rule sublist_of_tail [OF _ no len])
  qed
  have keep: "(if length t > 5 then drop (length t - 5) t else t) = last_bytes 5 t" for t
    by (simp add: last_bytes_def)
  show ?thesis
    using False len keep by (simp add: spy_written_def note_write_def Let_def has_window_sublist tail eq last_bytes_append)
qed

lemma note_writes: "spy_written w spy \<Longrightarrow> spy_written (w @ concat bufs) (foldl note_write spy bufs)"
proof (induction bufs arbitrary: w spy)
  case (Cons buf bufs)
  then show ?case using Cons.IH [OF note_write_step [OF Cons.prems]] by simp
qed simp

lemma measure_append:
  "measure_records lens (a @ b) = (case measure_records lens a of (lens', left_bytes) \<Rightarrow> measure_records lens' (left_bytes @ b))"
proof (induction lens a rule: measure_records.induct)
  case (1 lens a)
  define total where "total = 5 + record_len a"
  show ?case
  proof (cases "length a < 5 \<or> total > 16 * 1024 + 256 \<or> length a < total")
    case True
    then have "measure_records lens a = (lens, a)"
      by (auto simp: measure_records.simps [of lens a] total_def Let_def)
    then show ?thesis by simp
  next
    case False
    then have a: "5 \<le> length a" "total \<le> 16 * 1024 + 256" "total \<le> length a" by auto
    have same: "record_len (a @ b) = record_len a" "(a @ b) ! 0 = a ! 0"
      using a by (auto simp: record_len_def nth_append)
    define lens' where "lens' = (if a ! 0 = 0x17 then lens @ [total] else lens)"
    have "measure_records lens a = measure_records lens' (drop total a)"
      using a by (simp add: measure_records.simps [of lens a] total_def lens'_def Let_def)
    moreover have "measure_records lens (a @ b) = measure_records lens' (drop total a @ b)"
      using a same by (simp add: measure_records.simps [of lens "a @ b"] total_def lens'_def Let_def)
    moreover have "measure_records lens' (drop total a @ b) =
        (case measure_records lens' (drop total a) of (l, r) \<Rightarrow> measure_records l (r @ b))"
      using 1 a by (simp only: total_def lens'_def Let_def) simp
    ultimately show ?thesis by simp
  qed
qed

definition spy_settled :: "RecordSpy \<Rightarrow> bool" where
  "spy_settled spy \<longleftrightarrow> spy_ccs_sent spy \<and>
     measure_records (spy_lens spy) (spy_leftover spy) = (spy_lens spy, spy_leftover spy)"

lemma measure_settled:
  "measure_records lens s = (lens', left_bytes) \<Longrightarrow> measure_records lens' left_bytes = (lens', left_bytes)"
  using measure_append [of lens s "[]"] by simp

lemma note_reads:
  "spy_settled spy \<Longrightarrow>
   (spy_lens (foldl note_read spy bufs), spy_leftover (foldl note_read spy bufs)) =
     measure_records (spy_lens spy) (spy_leftover spy @ concat bufs)"
proof (induction bufs arbitrary: spy)
  case Nil
  then show ?case by (simp add: spy_settled_def)
next
  case (Cons buf bufs)
  show ?case
  proof (cases "buf = []")
    case True
    then show ?thesis using Cons by (simp add: note_read_def)
  next
    case False
    obtain lens left_bytes where m: "measure_records (spy_lens spy) (spy_leftover spy @ buf) = (lens, left_bytes)"
      by (metis prod.exhaust)
    have n: "note_read spy buf = spy\<lparr>spy_lens := lens, spy_leftover := left_bytes\<rparr>"
      using Cons.prems False m by (simp add: note_read_def spy_settled_def)
    have "spy_settled (note_read spy buf)"
      using Cons.prems measure_settled [OF m] by (simp add: n spy_settled_def)
    from Cons.IH [OF this] show ?thesis
      using measure_append [of "spy_lens spy" "spy_leftover spy @ buf" "concat bufs"] m by (simp add: n)
  qed
qed

lemma measure_wire:
  assumes "list_all (\<lambda>(t, b). length b \<le> 16635) rcds"
  shows "measure_records lens (pending_wire rcds) = (lens @ app_sizes rcds, [])"
  using assms
proof (induction rcds arbitrary: lens)
  case Nil
  then show ?case by (simp add: measure_records.simps)
next
  case (Cons r rcds)
  obtain t b where r: "r = (t, b)" by (cases r)
  have b: "length b \<le> 16635" using Cons.prems r by simp
  note h = tls_record_head [of b _ "pending_wire rcds"]
  have drop: "drop (5 + length b) (tls_record u b @ pending_wire rcds) = pending_wire rcds" for u
    using length_tls_record [of u b] by simp
  have "measure_records lens (tls_record t b @ pending_wire rcds) =
      measure_records (if t = 0x17 then lens @ [5 + length b] else lens) (pending_wire rcds)"
    using b h drop by (simp add: measure_records.simps [of lens "tls_record t b @ pending_wire rcds"] length_tls_record)
  then show ?case using Cons r by simp
qed

section \<open>What the front guarantees\<close>

text \<open>
  The front loses nothing and mistakes nobody.  After the first record has
  arrived, a connection is handed to the tunnel exactly when the record
  authenticates, and then with the authenticated key and a stream that replays every
  byte the client sent; otherwise it goes to the local web server exactly when
  the record is a hello for one of our names or an ACME probe, again with every
  byte; otherwise every byte the client sends is forwarded to the destination,
  unless that cannot be reached.
\<close>

theorem front_loses_nothing:
  assumes "crypto_laws c" "read_tls_record s = Ok (rcd, rest)"
  shows "case front_accept c now cfg reply dest_up stalled s of
      Ok (Vpn ps key name flight) \<Rightarrow>
        ps_bytes ps = s \<and> (\<exists>view. authenticate c now rcd cfg = Ok \<lparr>ah_hello = view, ah_auth_key = key\<rparr>)
    | Ok (Local ps acme) \<Rightarrow> ps_bytes ps = s \<and> \<not> is_ok (authenticate c now rcd cfg) \<and> local_hello rcd cfg
    | Ok (Spliced sent) \<Rightarrow> sent = s \<and> \<not> is_ok (authenticate c now rcd cfg) \<and> \<not> local_hello rcd cfg
    | Err e \<Rightarrow> e = DestUnreachable \<and> \<not> dest_up \<and> \<not> is_ok (authenticate c now rcd cfg) \<and> \<not> local_hello rcd cfg
    | Panic \<Rightarrow> False"
proof -
  have s: "s = rcd @ rest" by (rule read_tls_record_split [OF assms(2)])
  have ps: "ps_bytes (prefixed_new rcd (if rest = [] then [] else [Chunk rest])) = s"
    by (simp add: ps_bytes_def prefixed_new_def s)
  show ?thesis
  proof (cases "authenticate c now rcd cfg")
    case (Ok auth)
    have "auth = \<lparr>ah_hello = ah_hello auth, ah_auth_key = ah_auth_key auth\<rparr>" by simp
    then have "\<exists>view. auth = \<lparr>ah_hello = view, ah_auth_key = ah_auth_key auth\<rparr>" by blast
    then show ?thesis using ps Ok assms(2) by (simp add: front_accept_def Let_def)
  next
    case (Err e)
    then show ?thesis using ps assms(2) s
      by (cases "local_hello rcd cfg"; cases dest_up) (simp_all add: front_accept_def splice_to_dest_def Let_def)
  next
    case Panic
    then show ?thesis using authenticate_never_panics [OF assms(1)] by blast
  qed
qed

theorem front_loses_nothing_witness:
  "read_tls_record [71, 69, 84, 32, 47, 10] = Ok ([71, 69, 84, 32, 47], [10]) \<and>
   front_accept reality_stub 1000090 sample_reality_server None True False [71, 69, 84, 32, 47, 10]
     = Ok (Spliced [71, 69, 84, 32, 47, 10])"
proof -
  have r: "read_tls_record [71, 69, 84, 32, 47, 10] = Ok ([71, 69, 84, 32, 47], [10])"
    by (simp add: read_tls_record_def)
  have p: "client_hello_parse [71, 69, 84, 32, 47] = None"
    by (simp add: client_hello_parse_def handshake_from_record_def)
  have "authenticate reality_stub 1000090 [71, 69, 84, 32, 47] sample_reality_server = Err NotClientHello"
    "\<not> local_hello [71, 69, 84, 32, 47] sample_reality_server"
    by (simp_all add: authenticate_def local_hello_def p)
  with front_loses_nothing [OF reality_stub_laws r, where now = 1000090 and cfg = sample_reality_server and reply = None
      and dest_up = True and stalled = False] r
  show ?thesis by (auto split: outcome.splits RealityAccept.splits)
qed

text \<open>
  Replaying is transparent.  Reading the stream handed on, into a buffer of
  any positive size, yields the record and then everything the socket delivers.
\<close>

theorem replay_is_transparent:
  assumes "live inner" "0 < space" "length (pre @ ev_bytes inner) < n"
  shows "prefixed_polls space n (prefixed_new pre inner) = Some (pre @ ev_bytes inner)"
  using prefixed_polls_all [OF assms(2), of "prefixed_new pre inner" n] assms(1,3)
  by (simp add: prefixed_new_def ps_bytes_def)

theorem replay_is_transparent_witness:
  "prefixed_polls 2 9 (prefixed_new [1, 2, 3] [Chunk [4], Chunk [5, 6, 7]]) = Some [1, 2, 3, 4, 5, 6, 7]"
  using replay_is_transparent [of "[Chunk [4], Chunk [5, 6, 7]]" 2 "[1, 2, 3]" 9] by simp

text \<open>
  A read into a buffer without room discards the record that was to be replayed.
\<close>

theorem empty_read_drops_prefix:
  "ps_bytes (snd (prefixed_poll_read 0 (prefixed_new pre inner))) = ev_bytes inner"
  by (cases inner rule: list.exhaust; cases "hd inner")
    (simp_all add: prefixed_poll_read_def prefixed_new_def ps_bytes_def Let_def)

text \<open>
  What the destination sample contains.  From the records the destination
  sends after its ServerHello, none longer than the reader's limit, the sample is
  the sizes of the first eight encrypted records before anything that is neither
  encrypted nor change-cipher-spec; and every sampled size is one the server can
  give a record of its own.
\<close>

theorem sample_is_dest_sizes:
  assumes "list_all (\<lambda>(t, b). length b \<le> SPLICE_MAX_RECORD) rcds"
  shows "fetch_loop [] (pending_wire rcds) =
      take 8 (app_sizes (takeWhile (\<lambda>(t, b). t = 0x14 \<or> t = 0x17) rcds)) \<and>
    list_all (\<lambda>n. n \<le> TLS_MAX_RECORD) (fetch_loop [] s)"
  using fetch_loop_records [OF assms, of "[]"] fetch_loop_bounds [of "[]" s] by simp

theorem sample_is_dest_sizes_witness:
  "fetch_loop [] (pending_wire [(0x14, [1]), (0x17, replicate 30 0), (0x16, []), (0x17, [2])]) = [35]"
  using sample_is_dest_sizes [of "[(0x14, [1]), (0x17, replicate 30 0), (0x16, []), (0x17, [2])]" "[]"]
  by (simp add: constants)

text \<open>
  The spy sees the client's change-cipher-spec exactly when it was written,
  however the writes cut it, and from then on measures exactly the encrypted records
  that arrive, however the reads cut them.
\<close>

theorem spy_measures_records:
  assumes "list_all (\<lambda>(t, b). length b \<le> 16635) rcds" "concat reads = pending_wire rcds"
  shows "spy_ccs_sent (foldl note_write spy_new writes) = sublist CCS_RECORD (concat writes) \<and>
    spy_lens (foldl note_read (foldl note_write spy_new writes) reads) =
      (if sublist CCS_RECORD (concat writes) then app_sizes rcds else [])"
proof -
  have "spy_written [] spy_new" by (simp add: spy_written_def spy_new_def CCS_RECORD_def last_bytes_def)
  from note_writes [OF this, of writes]
  have ccs: "spy_ccs_sent (foldl note_write spy_new writes) = sublist CCS_RECORD (concat writes)"
    by (simp add: spy_written_def)
  have keep: "spy_lens (note_write spy w) = spy_lens spy \<and> spy_leftover (note_write spy w) = spy_leftover spy" for spy w
    by (simp add: note_write_def Let_def)
  have "spy_lens (foldl note_write spy ws) = spy_lens spy \<and> spy_leftover (foldl note_write spy ws) = spy_leftover spy" for spy ws
    by (induction ws arbitrary: spy) (simp_all add: keep)
  then have init: "spy_lens (foldl note_write spy_new writes) = []" "spy_leftover (foldl note_write spy_new writes) = []"
    by (simp_all add: spy_new_def)
  show ?thesis
  proof (cases "sublist CCS_RECORD (concat writes)")
    case True
    then have "spy_settled (foldl note_write spy_new writes)"
      by (simp add: spy_settled_def ccs init measure_records.simps)
    then have "spy_lens (foldl note_read (foldl note_write spy_new writes) reads) = fst (measure_records [] (concat reads))"
      using note_reads [of "foldl note_write spy_new writes" reads] by (metis append_Nil fst_conv init)
    then show ?thesis using True ccs measure_wire [OF assms(1), of "[]"] assms(2) by simp
  next
    case False
    then have "\<not> spy_ccs_sent spy \<Longrightarrow> foldl note_read spy rs = spy" for spy rs
      by (induction rs) (simp_all add: note_read_def)
    then show ?thesis using False ccs init by simp
  qed
qed

theorem spy_measures_records_witness:
  "spy_lens (foldl note_read (foldl note_write spy_new [[9, 0x14, 3], [3, 0, 1, 1]])
     [[0x17, 3, 3, 0], [2, 8, 8, 0x16], [3, 3, 0, 0]]) = [7]"
proof -
  have "sublist CCS_RECORD (concat [[9, 0x14, 3], [3, 0, 1, 1]])"
    by (simp add: CCS_RECORD_def sublist_Cons_right prefix_def)
  moreover have "concat [[0x17, 3, 3, 0], [2, 8, 8, 0x16], [3, 3, 0, 0]] = pending_wire [(0x17, [8, 8]), (0x16, [])]"
    by code_simp
  ultimately show ?thesis
    using spy_measures_records [of "[(0x17, [8, 8]), (0x16, [])]"
        "[[0x17, 3, 3, 0], [2, 8, 8, 0x16], [3, 3, 0, 0]]" "[[9, 0x14, 3], [3, 0, 1, 1]]"] by simp
qed

text \<open>
  A record near the largest size TLS 1.3 allows stops the measurement for good:
  the limit of the spy counts the header, so five lengths that are legal are
  never consumed, nor is anything after them.
\<close>

theorem spy_stalls_on_large_record:
  assumes "16635 < length b" "length b < 2 ^ 16"
  shows "measure_records lens (tls_record t b @ more_bytes) = (lens, tls_record t b @ more_bytes)"
  using assms tls_record_head [OF assms(2), of t more_bytes]
  by (simp add: measure_records.simps [of lens "tls_record t b @ more_bytes"] Let_def)

theorem spy_stalls_on_large_record_witness:
  "measure_records [] (tls_record 0x17 (replicate 16640 0) @ [1]) = ([], tls_record 0x17 (replicate 16640 0) @ [1])"
  by (rule spy_stalls_on_large_record) simp_all

end
