(* ===== verification/Streams.thy ===== *)
theory Streams
  imports Messages
begin

text \<open>
  Frames over a byte stream (\<open>payphone-transport/src/https_front.rs\<close>):
  the frame reader of the TLS transport, the first-byte test that separates
  PAYPHONE clients from browsers, and the request loop of the camouflage page.
  A stream is the list of bytes still to be read, ending in EOF; the camouflage
  loop sees the results of its \<open>read\<close> calls one by one.
\<close>

datatype IoError = UnexpectedEof | Protocol FrameError

definition looks_like_http :: "u8 \<Rightarrow> bool" where
  "looks_like_http first \<longleftrightarrow> first \<noteq> PROTOCOL_VERSION"

text \<open>\<open>AsyncReadExt::read_exact\<close>: all \<open>n\<close> bytes or \<open>UnexpectedEof\<close>.\<close>

definition read_exact :: "nat \<Rightarrow> bytes \<Rightarrow> (IoError, bytes \<times> bytes) outcome" where
  "read_exact n stream =
    (if length stream < n then Err UnexpectedEof else Ok (take n stream, drop n stream))"

definition finish_payphone_frame :: "bytes \<Rightarrow> bytes \<Rightarrow> (IoError, Frame \<times> bytes) outcome" where
  "finish_payphone_frame stream header =
     obind (map_err Protocol (payload_len_from_header header)) (\<lambda>payload_len.
     obind (read_exact payload_len stream) (\<lambda>(body, rest).
     obind (map_err Protocol (frame_decode (header @ body))) (\<lambda>frame.
       Ok (frame, rest))))"

definition read_payphone_frame :: "bytes \<Rightarrow> (IoError, Frame \<times> bytes) outcome" where
  "read_payphone_frame stream =
     obind (read_exact HEADER_SIZE stream) (\<lambda>(header, rest).
       finish_payphone_frame rest header)"

lemma read_exact_append [simp]: "length a = n \<Longrightarrow> read_exact n (a @ rest) = Ok (a, rest)"
  by (simp add: read_exact_def)

lemma read_exact_Ok_iff: "read_exact n s = Ok (a, rest) \<longleftrightarrow> length a = n \<and> s = a @ rest"
  by (auto simp: read_exact_def)

lemma read_payphone_frame_encode:
  assumes "frame_valid f"
  shows "read_payphone_frame (frame_encode f @ rest) = Ok (f, rest)"
proof -
  let ?h = "take HEADER_SIZE (frame_encode f)"
  have split: "frame_encode f = ?h @ payload f" and len: "length ?h = HEADER_SIZE"
    by (simp_all add: frame_encode_def constants)
  have "read_exact HEADER_SIZE (frame_encode f @ rest) = Ok (?h, payload f @ rest)"
    using len by (subst split) simp
  moreover have "frame_decode (?h @ payload f) = Ok f"
    using assms split by (metis frame_decode_Ok_iff)
  ultimately show ?thesis
    using assms
    by (simp add: read_payphone_frame_def finish_payphone_frame_def payload_len_of_frame)
qed

lemma read_payphone_frame_Ok:
  assumes "read_payphone_frame s = Ok (f, rest)"
  shows "frame_valid f \<and> s = frame_encode f @ rest"
proof -
  obtain h body where "length h = HEADER_SIZE" "s = h @ body @ rest"
    and "map_err Protocol (frame_decode (h @ body)) = Ok f"
    using assms
    by (auto simp: read_payphone_frame_def finish_payphone_frame_def obind_eq_Ok read_exact_Ok_iff)
  then show ?thesis
    by (cases "frame_decode (h @ body)") (auto simp: frame_decode_Ok_iff)
qed

text \<open>
  The receive loops call the reader until it fails (\<open>serve_tls_session\<close>,
  \<open>TlsClientSession\<close>): they see the frames in order and the error that
  ends the connection.  Every frame consumes at least a header, so the loop ends.
\<close>

function read_frames :: "bytes \<Rightarrow> Frame list \<times> IoError option" where
  "read_frames stream =
    (case read_payphone_frame stream of
       Ok (f, rest) \<Rightarrow> (let (fs, e) = read_frames rest in (f # fs, e))
     | Err e \<Rightarrow> ([], Some e)
     | Panic \<Rightarrow> ([], None))"
  by pat_completeness auto
termination
  by (relation "measure length")
    (auto dest!: read_payphone_frame_Ok simp: constants)

declare read_frames.simps [simp del]

lemma read_payphone_frame_empty: "read_payphone_frame [] = Err UnexpectedEof"
  by (simp add: read_payphone_frame_def read_exact_def constants)

lemma read_frames_concat:
  assumes "\<forall>f \<in> set fs. frame_valid f"
  shows "read_frames (concat (map frame_encode fs) @ tail) =
    (let (gs, e) = read_frames tail in (fs @ gs, e))"
  using assms
proof (induction fs)
  case Nil
  then show ?case by (simp add: case_prod_unfold)
next
  case (Cons f fs)
  then show ?case
    by (subst read_frames.simps) (simp add: read_payphone_frame_encode case_prod_unfold Let_def)
qed

section \<open>The camouflage page\<close>

text \<open>A \<open>read\<close> returns up to 1024 bytes, none at EOF, or an error.\<close>

datatype ReadResult = Chunk bytes | ReadError

fun contains_blank_line :: "bytes \<Rightarrow> bool" where
  "contains_blank_line (a # b # c # d # rest) =
     ((a = 13 \<and> b = 10 \<and> c = 13 \<and> d = 10) \<or> contains_blank_line (b # c # d # rest))"
| "contains_blank_line _ = False"

text \<open>
  The request loop: the result is the request read so far, or nothing when a
  read fails.
\<close>

fun camouflage_read :: "bytes \<Rightarrow> ReadResult list \<Rightarrow> bytes option" where
  "camouflage_read request reads =
    (if \<not> length request < 32 * 1024 then Some request
     else if contains_blank_line request then Some request
     else case reads of
       [] \<Rightarrow> Some request
     | ReadError # _ \<Rightarrow> None
     | Chunk chunk # later \<Rightarrow>
         if length chunk = 0 then Some request
         else camouflage_read (request @ chunk) later)"

declare camouflage_read.simps [simp del]

text \<open>
  \<open>serve_camouflage_http\<close>: the bytes written before the stream is shut
  down; a failing read aborts before anything is written.
\<close>

definition serve_camouflage_http :: "bytes \<Rightarrow> bytes \<Rightarrow> ReadResult list \<Rightarrow> bytes option" where
  "serve_camouflage_http response prefix reads =
     map_option (\<lambda>_. response) (camouflage_read prefix reads)"

lemma camouflage_read_bounded:
  assumes "camouflage_read request reads = Some r" "length request \<le> 32 * 1024 + 1024"
    and "\<forall>c. Chunk c \<in> set reads \<longrightarrow> length c \<le> 1024"
  shows "length r \<le> 32 * 1024 + 1024"
  using assms
proof (induction request reads rule: camouflage_read.induct)
  case (1 request reads)
  then show ?case
    by (auto simp: camouflage_read.simps [of request] split: if_splits list.splits ReadResult.splits)
qed

section \<open>Properties\<close>

lemma map_err_Panic: "map_err g x = Panic \<longleftrightarrow> x = Panic"
  by (cases x) simp_all

lemma read_payphone_frame_not_Panic: "read_payphone_frame s \<noteq> Panic"
proof -
  have "payload_len_from_header h \<noteq> Panic" if "length h = HEADER_SIZE" for h
    using that by (auto simp: payload_len_from_header_def obind_eq_Panic get_panics get_iffs Let_def constants
        split: if_splits)
  then show ?thesis
    using frame_decode_not_Panic
    by (auto simp: map_err_Panic read_payphone_frame_def finish_payphone_frame_def obind_eq_Panic read_exact_def
        split: if_splits outcome.splits)
qed

lemma read_frames_prefix:
  "\<exists>rest. s = concat (map frame_encode (fst (read_frames s))) @ rest \<and>
     list_all frame_valid (fst (read_frames s)) \<and> snd (read_frames s) \<noteq> None"
proof (induction s rule: read_frames.induct)
  case (1 s)
  show ?case
  proof (cases "read_payphone_frame s")
    case (Ok fr)
    obtain f rest where fr: "fr = (f, rest)" by force
    from 1 [OF Ok fr [symmetric]] obtain rest' where
      "rest = concat (map frame_encode (fst (read_frames rest))) @ rest'"
      "list_all frame_valid (fst (read_frames rest))" "snd (read_frames rest) \<noteq> None" by auto
    with read_payphone_frame_Ok Ok fr show ?thesis
      by (subst (1 2 3) read_frames.simps) (force simp: case_prod_unfold)
  next
    case (Err e)
    then show ?thesis by (subst (1 2 3) read_frames.simps) simp
  next
    case Panic
    then show ?thesis using read_payphone_frame_not_Panic by blast
  qed
qed

text \<open>
  C21: whatever bytes arrive on a stream, the reader takes a prefix of them that
  is the concatenation of valid encoded frames, hands out exactly those frames
  in order, and ends with an error value; it never panics and always ends.
\<close>

theorem read_frames_sound:
  "\<exists>rest e. stream = concat (map frame_encode (fst (read_frames stream))) @ rest \<and>
     list_all frame_valid (fst (read_frames stream)) \<and> snd (read_frames stream) = Some e"
  using read_frames_prefix [of stream] by blast

text \<open>
  Frames written one after the other to a stream come out of the reader
  one by one, whatever their sizes, and the loop ends with
  \<open>UnexpectedEof\<close> when the peer closes after the last one.
\<close>

theorem read_frames_complete:
  assumes "list_all frame_valid fs"
  shows "read_frames (concat (map frame_encode fs)) = (fs, Some UnexpectedEof)"
  using read_frames_concat [of fs "[]"] assms
  by (simp add: list_all_iff read_frames.simps [of "[]"] read_payphone_frame_empty)

theorem read_frames_complete_witness:
  "read_frames (concat (map frame_encode [mk_frame Ping 1 [], mk_frame Close 2 [0, 7]])) =
     ([mk_frame Ping 1 [], mk_frame Close 2 [0, 7]], Some UnexpectedEof)"
  using read_frames_complete [of "[mk_frame Ping 1 [], mk_frame Close 2 [0, 7]]"]
  by (simp add: frame_valid_def constants)

text \<open>
  The camouflage endpoint holds at most 33 KiB of a request in memory: it
  stops reading at 32 KiB, and the last \<open>read\<close> adds at most 1024 bytes.
\<close>

theorem camouflage_request_bounded:
  assumes "camouflage_read prefix reads = Some request"
    and "length prefix \<le> HEADER_SIZE"
    and "\<forall>c. Chunk c \<in> set reads \<longrightarrow> length c \<le> 1024"
  shows "length request \<le> 33 * 1024"
  using camouflage_read_bounded [OF assms(1) _ assms(3)] assms(2) by (simp add: constants)

theorem camouflage_request_bounded_witness:
  "\<exists>r. camouflage_read [71] [Chunk [13, 10], Chunk [13, 10], Chunk [65]] = Some r \<and> length r \<le> 33 * 1024"
proof -
  have "camouflage_read [71] [Chunk [13, 10], Chunk [13, 10], Chunk [65]] = Some [71, 13, 10, 13, 10]"
    by (simp add: camouflage_read.simps)
  then show ?thesis
    using camouflage_request_bounded [of "[71]" "[Chunk [13, 10], Chunk [13, 10], Chunk [65]]"]
    by (simp add: constants)
qed

end
