(* ===== verification/Server_Machine.thy ===== *)
theory Server_Machine
  imports Server_Handler Streams "HOL-Library.Multiset"
begin

text \<open>
  The server process (\<open>payphone-server/src/main.rs\<close> and
  \<open>https.rs\<close>) as a transition system.  Tasks interleave at the points where
  a handler releases the session lock; packets from the TUN device, the cleanup
  tick, closing transports, reordering of the hash map and restarts from the
  session store are further steps.
\<close>

section \<open>From the TUN device to a client\<close>

definition tun_to_client ::
  "('vk, 'r) Crypto \<Rightarrow> Env \<Rightarrow> ('vk, 'r) Server \<Rightarrow> u64 \<Rightarrow> bytes \<Rightarrow> ('vk, 'r) Server \<times> u64 \<times> Out list" where
  "tun_to_client P env srv packet_id packet =
    (if length packet = 0 then (srv, packet_id, [])
     else case ipv4_destination packet of
       None \<Rightarrow> (srv, packet_id, [])
     | Some destination \<Rightarrow>
       (case find_by_ipv4 env (srv_sessions srv) destination of
          None \<Rightarrow> (srv, packet_id, [])
        | Some s \<Rightarrow>
          let (err, v') = access_error (is_revoked P) env (srv_verifier srv) s;
              srv1 = srv\<lparr>srv_verifier := v'\<rparr>
          in if err \<noteq> None then (srv1, packet_id, [])
          else
            let (allowed, r') = rate_allow (env_unix_ms env) (of_nat (length packet)) (s_rate s);
                s1 = s\<lparr>s_rate := r'\<rparr>
            in if \<not> allowed
            then (srv1\<lparr>srv_sessions := put (srv_sessions srv) (s_id s) s1\<rparr>, packet_id, [])
            else
              (srv1\<lparr>srv_sessions := put (srv_sessions srv) (s_id s) (record_activity env s1)\<rparr>,
               packet_id + 1,
               link_send (s_link s)
                 (mk_frame Data packet_id (data_encode (data_new (s_id s) packet_id packet))))))"

section \<open>Cleanup tick\<close>

definition cleanup_tick ::
  "('vk, 'r) Crypto \<Rightarrow> Env \<Rightarrow> ('vk, 'r) Server \<Rightarrow> ('vk, 'r) Server \<times> Out list" where
  "cleanup_tick P env srv =
    (let (invalid, m1, v') = remove_invalid (is_revoked P) env (srv_verifier srv) (srv_sessions srv);
         (removed, m2) = remove_expired env m1
     in (srv\<lparr>srv_sessions := m2, srv_verifier := v'\<rparr>,
         concat (map (\<lambda>(s, reason).
           send_access_denied (s_link s) 0 reason (s_subscription_expires_at s)) invalid)))"

section \<open>A TLS connection\<close>

text \<open>
  What \<open>serve_tls_session\<close> does with the bytes of a connection: a browser
  gets the camouflage page, anything else is a sequence of frames for
  \<open>handle_frame\<close> until the first error.
\<close>

datatype TlsService = TlsFailed IoError | TlsCamouflage bytes bytes | TlsFrames "Frame list"

definition serve_tls_session :: "bytes \<Rightarrow> TlsService" where
  "serve_tls_session stream =
    (case read_exact HEADER_SIZE stream of
       Err e \<Rightarrow> TlsFailed e | Panic \<Rightarrow> TlsFrames []
     | Ok (header, rest) \<Rightarrow>
       if looks_like_http (header ! 0) then TlsCamouflage header rest
       else (case finish_payphone_frame rest header of
               Err e \<Rightarrow> TlsFailed e | Panic \<Rightarrow> TlsFrames []
             | Ok (first, later) \<Rightarrow> TlsFrames (first # fst (read_frames later))))"

section \<open>The transition system\<close>

datatype Task =
    TFrame ClientLink SocketAddr Frame
  | TDeny SessionId DenyReason u64
  | TDispatch ClientLink SocketAddr Frame
  | TBackFinish ClientLink SocketAddr u64 BackAgainDude "DenyReason option"

record ('vk, 'r) Machine =
  mc_srv :: "('vk, 'r) Server"
  mc_packet_id :: u64
  mc_tasks :: "Task list"
  mc_log :: "Out list"

definition emit :: "('vk, 'r) Machine \<Rightarrow> ('vk, 'r) Server \<times> Out list \<Rightarrow> ('vk, 'r) Machine" where
  "emit mc res = mc\<lparr>mc_srv := fst res, mc_log := mc_log mc @ snd res\<rparr>"

definition set_tasks :: "('vk, 'r) Machine \<Rightarrow> Task list \<Rightarrow> ('vk, 'r) Machine" where
  "set_tasks mc ts = mc\<lparr>mc_tasks := ts\<rparr>"

fun after_gate :: "Gate \<Rightarrow> ClientLink \<Rightarrow> SocketAddr \<Rightarrow> Frame \<Rightarrow> Task list" where
  "after_gate GateIgnore l a f = []"
| "after_gate (GateDenied sid reason) l a f = [TDeny sid reason (sequence f)]"
| "after_gate GatePass l a f = [TDispatch l a f]"

abbreviation with_sessions :: "('vk, 'r) Server \<Rightarrow> SessionManager \<Rightarrow> ('vk, 'r) Server" where
  "with_sessions srv m \<equiv> srv\<lparr>srv_sessions := m\<rparr>"

inductive machine_step :: "('vk, 'r) Crypto \<Rightarrow> ('vk, 'r) Machine \<Rightarrow> ('vk, 'r) Machine \<Rightarrow> bool"
  for P :: "('vk, 'r) Crypto" where
  arrive: "machine_step P mc (set_tasks mc (TFrame l a f # mc_tasks mc))"
| gate: "mc_tasks mc = us @ TFrame l a f # vs \<Longrightarrow> gate P env (mc_srv mc) a f = (g, srv') \<Longrightarrow>
    machine_step P mc (set_tasks (emit mc (srv', [])) (us @ after_gate g l a f @ vs))"
| deny: "mc_tasks mc = us @ TDeny sid reason seq # vs \<Longrightarrow>
    machine_step P mc (set_tasks (emit mc (gate_deny env (mc_srv mc) sid reason seq)) (us @ vs))"
| dispatch: "mc_tasks mc = us @ TDispatch l a f # vs \<Longrightarrow> rng_ok rng \<Longrightarrow>
    frame_type f \<noteq> BackAgainDude \<Longrightarrow>
    machine_step P mc (set_tasks (emit mc (dispatch P env rng (mc_srv mc) l a f)) (us @ vs))"
| back_bad: "mc_tasks mc = us @ TDispatch l a f # vs \<Longrightarrow> frame_type f = BackAgainDude \<Longrightarrow>
    \<not> is_ok (back_again_dude_decode (payload f)) \<Longrightarrow> machine_step P mc (set_tasks mc (us @ vs))"
| back_check: "mc_tasks mc = us @ TDispatch l a f # vs \<Longrightarrow> frame_type f = BackAgainDude \<Longrightarrow>
    back_again_dude_decode (payload f) = Ok msg \<Longrightarrow>
    back_again_check P env (mc_srv mc) msg = (denied, srv') \<Longrightarrow>
    machine_step P mc (set_tasks (emit mc (srv', []))
      (us @ TBackFinish l a (sequence f) msg denied # vs))"
| back_finish: "mc_tasks mc = us @ TBackFinish l a seq msg denied # vs \<Longrightarrow>
    machine_step P mc (set_tasks (emit mc (back_again_finish env (mc_srv mc) l a seq msg denied)) (us @ vs))"
| tun: "tun_to_client P env (mc_srv mc) (mc_packet_id mc) packet = (srv', pid, outs) \<Longrightarrow>
    machine_step P mc ((emit mc (srv', outs))\<lparr>mc_packet_id := pid\<rparr>)"
| cleanup: "machine_step P mc (emit mc (cleanup_tick P env (mc_srv mc)))"
| quic_closed: "machine_step P mc (emit mc (with_sessions (mc_srv mc)
    (snd (detach_by_stable_id (srv_sessions (mc_srv mc)) conn)), []))"
| stream_closed: "machine_step P mc (emit mc (with_sessions (mc_srv mc)
    (snd (detach_by_stream_id (srv_sessions (mc_srv mc)) strm)), []))"
| rehash: "mset tab = mset (sessions (srv_sessions (mc_srv mc))) \<Longrightarrow>
    machine_step P mc (emit mc (with_sessions (mc_srv mc)
      ((srv_sessions (mc_srv mc))\<lparr>sessions := tab\<rparr>), []))"
| restart: "store_path (srv_sessions (mc_srv mc)) = Some path \<Longrightarrow>
    store_file (srv_sessions (mc_srv mc)) = Some file \<Longrightarrow>
    machine_step P mc (set_tasks (emit mc (with_sessions (mc_srv mc)
      (with_store env path (StoreBytes file)), [])) [])"

definition machine_init :: "('vk, 'r) Machine \<Rightarrow> bool" where
  "machine_init mc \<longleftrightarrow> sessions (srv_sessions (mc_srv mc)) = [] \<and>
     store_file (srv_sessions (mc_srv mc)) = None \<and> mc_tasks mc = [] \<and> mc_log mc = []"

section \<open>The store file\<close>

text \<open>The store holds the image of a table that satisfied the invariant.\<close>

definition store_ok :: "SessionManager \<Rightarrow> bool" where
  "store_ok m \<longleftrightarrow> (\<forall>b. store_file m = Some b \<longrightarrow> (\<exists>m0. mgr_inv m0 \<and> b = encode_store m0))"

definition store_step :: "SessionManager \<Rightarrow> SessionManager \<Rightarrow> bool" where
  "store_step m m' \<longleftrightarrow> store_file m' = store_file m \<or> store_file m' = Some (encode_store m')"

lemma store_step_refl [simp]: "store_step m m"
  by (simp add: store_step_def)

lemma store_okI: "store_ok m \<Longrightarrow> store_step m m' \<Longrightarrow> mgr_inv m' \<Longrightarrow> store_ok m'"
  by (auto simp: store_ok_def store_step_def)

lemma store_step_put [simp]: "store_step m (put n k s) \<longleftrightarrow> store_file n = store_file m \<or> store_file n = Some (encode_store (put n k s))"
  by (simp add: store_step_def put_def)

lemma store_step_persist:
  "store_file n = store_file m \<Longrightarrow> store_step m (persist env n)"
  by (simp add: persist_def store_step_def encode_store_def split: option.split)

lemma store_file_put [simp]: "store_file (put m k s) = store_file m"
  by (simp add: put_def)

lemma store_file_kick: "kick_oldest env m c = Some (k, m') \<Longrightarrow> store_file m' = store_file m"
  by (auto simp: kick_oldest_def case_prod_unfold Let_def split: option.splits)

lemma store_file_enforce_loop [simp]: "store_file (snd (enforce_loop env c l m)) = store_file m"
proof (induction env c l m rule: enforce_loop.induct)
  case (1 env c l m)
  then show ?case
    by (subst enforce_loop.simps)
      (auto simp: case_prod_unfold Let_def store_file_kick split: option.splits)
qed

lemma store_step_ops:
  "store_step m (snd (remove env m sid))"
  "store_step m (snd (detach_where p m))"
  "store_step m (fst (snd (remove_invalid ir env v m)))"
  "store_step m (snd (remove_expired env m))"
  "store_step m (snd (resume_session env m sid tok adr link sq mtu))"
  "store_step m (snd (rekey_offer env m sid adr rn))"
  "store_step m (snd (rekey_confirm env m sid nc adr))"
  "store_step m (snd (touch_session env m sid adr sq rn))"
  "store_step m (snd (create_session env m adr link caps cn sq mtu sub rid rn))"
  by (auto simp: remove_def detach_where_def remove_invalid_def remove_expired_def resume_session_def
      rekey_offer_def rekey_confirm_def touch_session_def create_session_eq enforce_device_limit_def
      Let_def case_prod_unfold split: option.splits intro!: store_step_persist)
    (simp_all add: store_step_def)

lemma store_step_handlers:
  "store_step (srv_sessions srv) (srv_sessions (fst (handle_data env srv adr f)))"
  "store_step (srv_sessions srv) (srv_sessions (fst (handle_ping env rng srv l adr f)))"
  "store_step (srv_sessions srv) (srv_sessions (fst (handle_rekey env rng srv l adr f)))"
  "store_step (srv_sessions srv) (srv_sessions (fst (handle_close env srv l adr f)))"
  "store_step (srv_sessions srv) (srv_sessions (fst (handle_whats_up_dude P env rng srv l adr f)))"
  "store_step (srv_sessions srv) (srv_sessions (fst (back_again_finish env srv l adr sq msg den)))"
  "store_step (srv_sessions srv) (srv_sessions (fst (gate_deny env srv sid reason sq)))"
  using store_step_ops
  by (auto simp: handle_data_def handle_ping_def handle_rekey_def handle_close_def
      handle_whats_up_dude_def back_again_finish_def gate_deny_def Let_def case_prod_unfold
      split: outcome.splits option.splits RekeyMsg.splits CreateSessionError.splits)

lemma store_step_dispatch:
  "frame_type f \<noteq> BackAgainDude \<Longrightarrow>
     store_step (srv_sessions srv) (srv_sessions (fst (dispatch P env rng srv l adr f)))"
  by (simp add: dispatch_def store_step_handlers split: FrameType.split)

section \<open>Invariant of the server\<close>

definition log_ok :: "Out list \<Rightarrow> bool" where
  "log_ok outs \<longleftrightarrow> (\<forall>p. TunWrite p \<in> set outs \<longrightarrow> (\<exists>ip. ipv4_source p = Some ip \<and> vpn_addr ip))"

definition machine_inv :: "('vk, 'r) Machine \<Rightarrow> bool" where
  "machine_inv mc \<longleftrightarrow> mgr_inv (srv_sessions (mc_srv mc)) \<and> store_ok (srv_sessions (mc_srv mc)) \<and>
     log_ok (mc_log mc)"

lemma log_ok_simps [simp]: "log_ok []" "log_ok (xs @ ys) \<longleftrightarrow> log_ok xs \<and> log_ok ys"
  by (auto simp: log_ok_def)

lemma log_ok_replies [simp]:
  "log_ok (link_send l f)" "log_ok (send_access_denied l q r e)" "log_ok (send_close l sid cr)"
  "log_ok (send_rekey l sid n)"
  by (simp_all add: log_ok_def)

lemma log_ok_dispatch:
  assumes "srv_inv srv"
  shows "log_ok (snd (dispatch P env rng srv l a f))"
  unfolding log_ok_def
proof (intro allI impI)
  fix p
  assume "TunWrite p \<in> set (snd (dispatch P env rng srv l a f))"
  then have "TunWrite p \<in> set (snd (handle_data env srv a f))" by (rule dispatch_tun [THEN conjunct2])
  then obtain d :: DataMsg and s where "get (srv_sessions srv) (data_session_id d) = Some s"
    "ipv4_source p = Some (s_ipv4 s)"
    unfolding handle_data_tun_iff by blast
  then show "\<exists>ip. ipv4_source p = Some ip \<and> vpn_addr ip"
    using mgr_inv_get [OF assms] by blast
qed

lemma log_ok_others:
  "log_ok (snd (gate_deny env srv sid reason sq))"
  "log_ok (snd (back_again_finish env srv l adr sq msg den))"
  "log_ok (snd (cleanup_tick P env srv))"
  by (auto simp: gate_deny_def back_again_finish_def cleanup_tick_def Let_def case_prod_unfold
      split: option.splits prod.splits)
    (auto simp: log_ok_def)

text \<open>A step that replaces the server and appends to the log.\<close>

lemma machine_inv_emit:
  assumes "machine_inv mc" "srv_inv (fst res)" "log_ok (snd res)"
    and "store_ok (srv_sessions (fst res))"
  shows "machine_inv (emit mc res)"
  using assms by (auto simp: machine_inv_def emit_def)

lemma machine_inv_tasks [simp]: "machine_inv (set_tasks mc ts) \<longleftrightarrow> machine_inv mc"
  by (simp add: machine_inv_def set_tasks_def)

lemma find_by_ipv4_get:
  assumes "mgr_inv m" "find_by_ipv4 env m ip = Some s"
  shows "get m (s_id s) = Some s \<and> s_ipv4 s = ip \<and> is_live env (s_link s)"
proof -
  have "s \<in> set (session_values m)" "s_ipv4 s = ip" "is_live env (s_link s)"
    using assms(2) by (auto simp: find_by_ipv4_def find_Some_iff)
  with get_of_value [OF assms(1)] show ?thesis by simp
qed

lemma tun_to_client_inv:
  assumes "srv_inv srv" "tun_to_client P env srv pid packet = (srv', pid', outs)"
  shows "srv_inv srv' \<and> log_ok outs \<and> store_step (srv_sessions srv) (srv_sessions srv')"
proof (cases "ipv4_destination packet")
  case (Some d)
  show ?thesis
  proof (cases "find_by_ipv4 env (srv_sessions srv) d")
    case s: (Some s)
    have got: "get (srv_sessions srv) (s_id s) = Some s"
      using find_by_ipv4_get [OF assms(1) s] by simp
    have wf: "session_wf s" by (rule mgr_inv_wf [OF assms(1) got])
    have "mgr_inv (put (srv_sessions srv) (s_id s) s')"
      if "s_id s' = s_id s" "s_ipv4 s' = s_ipv4 s" "session_wf s'" for s'
      using that by (intro mgr_inv_put [OF assms(1) got])
    with wf assms Some s show ?thesis
      by (auto simp: tun_to_client_def Let_def case_prod_unfold record_activity_def session_wf_def
          split: if_splits)
  qed (use assms Some in \<open>auto simp: tun_to_client_def split: if_splits\<close>)
qed (use assms in \<open>auto simp: tun_to_client_def split: if_splits\<close>)

lemma cleanup_tick_inv:
  assumes "srv_inv srv" "store_ok (srv_sessions srv)"
  shows "srv_inv (fst (cleanup_tick P env srv)) \<and> store_ok (srv_sessions (fst (cleanup_tick P env srv)))"
proof -
  let ?m1 = "fst (snd (remove_invalid (is_revoked P) env (srv_verifier srv) (srv_sessions srv)))"
  have m2: "srv_sessions (fst (cleanup_tick P env srv)) = snd (remove_expired env ?m1)"
    by (simp add: cleanup_tick_def Let_def case_prod_unfold)
  have inv1: "mgr_inv ?m1" by (rule mgr_inv_remove_invalid [OF assms(1)])
  have ok1: "store_ok ?m1" by (rule store_okI [OF assms(2) store_step_ops(3) inv1])
  show ?thesis
    unfolding m2
    using mgr_inv_remove_expired [OF inv1] store_okI [OF ok1 store_step_ops(4)] by blast
qed

lemma table_inv_mset:
  assumes "mset tab = mset tab'" "table_inv tab"
  shows "table_inv tab'"
proof -
  have "mset (map g tab) = mset (map g tab')" for g :: "SessionId \<times> Session \<Rightarrow> bytes"
    using assms(1) by (simp add: mset_map)
  then have "distinct (map g tab) = distinct (map g tab')" for g :: "SessionId \<times> Session \<Rightarrow> bytes"
    by (rule mset_eq_imp_distinct_iff)
  moreover have "set tab = set tab'" by (rule mset_eq_setD [OF assms(1)])
  ultimately show ?thesis using assms(2) by (simp add: table_inv_def table_wf_def)
qed

lemma machine_inv_emit_step:
  assumes "machine_inv mc" "srv_inv (fst res)" "log_ok (snd res)"
    and "store_step (srv_sessions (mc_srv mc)) (srv_sessions (fst res))"
  shows "machine_inv (emit mc res)"
  using assms store_okI [OF _ assms(4)] by (intro machine_inv_emit) (auto simp: machine_inv_def)

lemma machine_inv_restart:
  assumes "machine_inv mc" "store_file (srv_sessions (mc_srv mc)) = Some file"
  shows "machine_inv (emit mc (with_sessions (mc_srv mc) (with_store env path (StoreBytes file)), []))"
proof -
  obtain m0 where m0: "mgr_inv m0" "file = encode_store m0"
    using assms by (auto simp: machine_inv_def store_ok_def)
  then have "mgr_inv (with_store env path (StoreBytes file))" by (simp add: with_store_encode)
  moreover have "store_ok (with_store env path (StoreBytes file))"
    using m0 by (auto simp: store_ok_def with_store_def)
  ultimately show ?thesis using assms(1) by (intro machine_inv_emit) simp_all
qed

lemma machine_invD:
  assumes "machine_inv mc"
  shows "srv_inv (mc_srv mc)" "store_ok (srv_sessions (mc_srv mc))"
  using assms by (simp_all add: machine_inv_def)

lemma machine_inv_step:
  assumes "machine_inv mc" "machine_step P mc mc'"
  shows "machine_inv mc'"
  using assms(2,1)
proof (induction rule: machine_step.induct)
  case (gate mc us l a f vs env g srv')
  then show ?case
    using gate_sessions [of P env "mc_srv mc" a f]
    by (simp add: machine_inv_def emit_def set_tasks_def)
next
  case (deny mc us sid reason seq vs env)
  then show ?case
    by (simp add: machine_inv_emit_step store_step_handlers gate_deny_inv log_ok_others machine_invD)
next
  case (dispatch mc us l a f vs rng env)
  then show ?case
    by (simp add: machine_inv_emit_step store_step_dispatch dispatch_inv log_ok_dispatch machine_invD)
next
  case (back_check mc us l a f vs msg env denied srv')
  then show ?case
    using back_again_check_sessions [of P env "mc_srv mc" msg]
    by (simp add: machine_inv_def emit_def set_tasks_def)
next
  case (back_finish mc us l a seq msg denied vs env)
  then show ?case
    by (simp add: machine_inv_emit_step store_step_handlers back_again_finish_inv log_ok_others
        machine_invD)
next
  case (tun env mc packet srv' pid outs)
  then have "machine_inv (emit mc (srv', outs))"
    using tun_to_client_inv [OF _ tun(1)] by (intro machine_inv_emit_step) (simp_all add: machine_inv_def)
  then show ?case by (simp add: machine_inv_def)
next
  case (cleanup mc env)
  then show ?case
    using cleanup_tick_inv [of "mc_srv mc" P env] by (simp add: machine_inv_emit log_ok_others machine_invD)
next
  case (quic_closed mc conn)
  then show ?case
    by (simp add: machine_inv_emit_step detach_by_stable_id_def store_step_ops mgr_inv_detach machine_invD)
next
  case (stream_closed mc strm)
  then show ?case
    by (simp add: machine_inv_emit_step detach_by_stream_id_def store_step_ops mgr_inv_detach machine_invD)
next
  case (rehash tab mc)
  then show ?case
    using table_inv_mset [OF rehash(1) [symmetric]]
    by (intro machine_inv_emit_step) (auto simp: machine_inv_def mgr_inv_def store_step_def)
next
  case (restart mc path contents env)
  then show ?case by (simp add: machine_inv_restart)
qed simp_all

lemma machine_inv_init: "machine_init mc \<Longrightarrow> machine_inv mc"
  by (simp add: machine_init_def machine_inv_def mgr_inv_def table_inv_def table_wf_def store_ok_def)

interpretation server: transition_system machine_init "machine_step P" machine_inv
  for P :: "('vk, 'r) Crypto"
  by unfold_locales (auto intro: machine_inv_init machine_inv_step)

section \<open>Properties\<close>

text \<open>
  C1: the server at any moment.  From an empty table, through any interleaving of
  the locked sections of concurrent frame handlers, TUN packets, cleanup ticks,
  closing transports, rehashing of the table and restarts from the session
  store: the table holds at most 253 sessions with distinct addresses of the
  pool, each under its own identifier; every packet ever written to the TUN
  device has a source address of the pool; and the store file, when there is
  one, is the image of a table with these properties.
\<close>

theorem server_invariant:
  assumes "reachable machine_init (machine_step P) mc"
    and "m = srv_sessions (mc_srv mc)"
  shows "length (sessions m) \<le> 253 \<and> distinct (map (s_ipv4 \<circ> snd) (sessions m)) \<and>
    (\<forall>k s. get m k = Some s \<longrightarrow> s_id s = k \<and> vpn_addr (s_ipv4 s)) \<and>
    (\<forall>p. TunWrite p \<in> set (mc_log mc) \<longrightarrow> (\<exists>ip. ipv4_source p = Some ip \<and> vpn_addr ip)) \<and>
    (\<forall>b. store_file m = Some b \<longrightarrow> (\<exists>m0. mgr_inv m0 \<and> b = encode_store m0))"
proof -
  have inv: "machine_inv mc" by (rule server.inv_reachable [OF assms(1)])
  then have m: "mgr_inv m" "store_ok m" "log_ok (mc_log mc)" using assms(2) by (simp_all add: machine_inv_def)
  have "distinct (map (s_ipv4 \<circ> snd) (sessions m))" using m(1) by (simp add: mgr_inv_def table_inv_def)
  with m show ?thesis
    using sessions_bound [OF m(1)] mgr_inv_get [OF m(1)] by (simp add: store_ok_def log_ok_def)
qed

theorem server_invariant_witness:
  "\<exists>mc :: (unit, bytes set) Machine. mc_tasks mc \<noteq> [] \<and> length (sessions (srv_sessions (mc_srv mc))) \<le> 253"
proof -
  let ?P = "\<lparr>ed_verify = (\<lambda>vk msg sig. True), is_revoked = memory_is_revoked\<rparr> :: (unit, bytes set) Crypto"
  let ?mc = "\<lparr>mc_srv = \<lparr>srv_sessions = session_manager_new, srv_verifier = \<lparr>keys = [1 \<mapsto> ()], revocations = {}\<rparr>\<rparr>,
    mc_packet_id = 1, mc_tasks = [], mc_log = []\<rparr> :: (unit, bytes set) Machine"
  let ?f = "mk_frame Ping 1 (replicate 24 0)"
  have "reachable machine_init (machine_step ?P) ?mc"
    by (rule reachable_init) (simp add: machine_init_def session_manager_new_def)
  then have "reachable machine_init (machine_step ?P) (set_tasks ?mc (TFrame (Quic 1) (V4 [] 0) ?f # mc_tasks ?mc))"
    by (rule reachable_step) (rule machine_step.arrive)
  from server_invariant [OF this refl] show ?thesis
    by (intro exI [of _ "set_tasks ?mc (TFrame (Quic 1) (V4 [] 0) ?f # mc_tasks ?mc)"]) (simp add: set_tasks_def)
qed

text \<open>
  One port, two protocols.  A connection that starts with a frame of a
  PAYPHONE client is served as frames, in order and complete, and a connection
  whose first byte is not the protocol version gets the camouflage page with
  every byte read so far handed to it.
\<close>

theorem tls_front_separates:
  assumes "list_all frame_valid (f # fs)" "16 \<le> length request" "request ! 0 \<noteq> PROTOCOL_VERSION"
  shows "serve_tls_session (concat (map frame_encode (f # fs))) = TlsFrames (f # fs) \<and>
    (\<exists>header rest. serve_tls_session request = TlsCamouflage header rest \<and> header @ rest = request)"
proof -
  let ?h = "take HEADER_SIZE (frame_encode f)" and ?later = "concat (map frame_encode fs)"
  have v: "frame_valid f" "list_all frame_valid fs" using assms(1) by simp_all
  have split: "frame_encode f @ ?later = ?h @ payload f @ ?later" and len: "length ?h = HEADER_SIZE"
    by (simp_all add: frame_encode_def constants)
  have ex: "read_exact HEADER_SIZE (frame_encode f @ ?later) = Ok (?h, payload f @ ?later)"
    using len by (subst split) simp
  moreover have "?h ! 0 = PROTOCOL_VERSION"
    using v(1) by (simp add: frame_encode_def frame_valid_def constants)
  moreover have "finish_payphone_frame (payload f @ ?later) ?h = Ok (f, ?later)"
    using read_payphone_frame_encode [OF v(1), of ?later] ex by (simp add: read_payphone_frame_def)
  moreover have "fst (read_frames ?later) = fs"
    using read_frames_concat [of fs "[]"] v(2)
    by (simp add: list_all_iff read_frames.simps [of "[]"] read_payphone_frame_empty)
  ultimately have "serve_tls_session (frame_encode f @ ?later) = TlsFrames (f # fs)"
    by (simp add: serve_tls_session_def looks_like_http_def)
  moreover have "serve_tls_session request = TlsCamouflage (take 16 request) (drop 16 request)"
    using assms(2,3) by (simp add: serve_tls_session_def looks_like_http_def read_exact_def HEADER_SIZE_def)
  ultimately show ?thesis by simp
qed

theorem tls_front_separates_witness:
  "serve_tls_session (concat (map frame_encode [mk_frame Ping 1 []])) = TlsFrames [mk_frame Ping 1 []] \<and>
   (\<exists>header rest. serve_tls_session (replicate 20 71) = TlsCamouflage header rest \<and> header @ rest = replicate 20 71)"
  by (rule tls_front_separates) (simp_all add: frame_valid_def constants)

end
