(* ===== verification/Server_Safety.thy ===== *)
theory Server_Safety
  imports Server_Machine
begin

text \<open>
  Which frames may change which sessions, who is admitted, what the periodic
  sweep leaves, and to whom packets from the TUN device go.
\<close>

section \<open>Sessions an operation does not touch\<close>

lemma get_remove [simp]: "get (snd (remove env m sid)) k = (if k = sid then None else get m k)"
  by (simp add: remove_def get_def Let_def delete_conv')

lemma get_resume_other: "k \<noteq> sid \<Longrightarrow> get (snd (resume_session env m sid t a l q mtu)) k = get m k"
  by (simp add: resume_session_def Let_def split: option.split)

lemma get_offer_other: "k \<noteq> sid \<Longrightarrow> get (snd (rekey_offer env m sid a rn)) k = get m k"
  by (simp add: rekey_offer_def split: option.split)

lemma get_confirm_other: "k \<noteq> sid \<Longrightarrow> get (snd (rekey_confirm env m sid n a)) k = get m k"
  by (simp add: rekey_confirm_def Let_def split: option.split)

lemma get_touch_other: "k \<noteq> sid \<Longrightarrow> get (snd (touch_session env m sid a q rn)) k = get m k"
  by (simp add: touch_session_def Let_def case_prod_unfold split: option.split)

lemmas get_others = get_resume_other get_offer_other get_confirm_other get_touch_other

text \<open>Every session command addresses the session named by its first 16 bytes.\<close>

lemma session_ids:
  "ping_decode b = Ok p \<Longrightarrow> ping_session_id p = take 16 b"
  "rekey_decode b = Ok r \<Longrightarrow> rekey_session_id r = take 16 b"
  "close_decode b = Ok c \<Longrightarrow> close_session_id c = take 16 b"
proof -
  show "ping_decode b = Ok p \<Longrightarrow> ping_session_id p = take 16 b"
    using ping.canonical [of b p] ping.decode_valid [of b p]
    by (auto simp: ping_encode_def ping_valid_def constants)
  show "rekey_decode b = Ok r \<Longrightarrow> rekey_session_id r = take 16 b"
    using rekey.canonical [of b r] rekey.decode_valid [of b r]
    by (cases r) (auto simp: constants)
  show "close_decode b = Ok c \<Longrightarrow> close_session_id c = take 16 b"
    using close.canonical [of b c] close.decode_valid [of b c]
    by (auto simp: close_encode_def close_valid_def constants)
qed

lemma dispatch_command_other:
  assumes "session_command (frame_type frame)" "k \<noteq> take 16 (payload frame)"
  shows "get (srv_sessions (fst (dispatch P env rng srv link address frame))) k = get (srv_sessions srv) k"
proof -
  have ids: "data_decode (payload frame) = Ok d \<Longrightarrow> data_session_id d \<noteq> k"
    "ping_decode (payload frame) = Ok p \<Longrightarrow> ping_session_id p \<noteq> k"
    "rekey_decode (payload frame) = Ok r \<Longrightarrow> rekey_session_id r \<noteq> k"
    "close_decode (payload frame) = Ok c \<Longrightarrow> close_session_id c \<noteq> k" for d :: DataMsg and p r c
    using assms(2) data_decode_session_id session_ids by metis+
  show ?thesis
    using assms(1) ids
    by (cases "frame_type frame")
      (auto simp: session_command_def dispatch_def handle_data_def handle_ping_def handle_rekey_def
        handle_close_def get_others Let_def case_prod_unfold
        split: outcome.split option.split RekeyMsg.split)
qed

text \<open>Evictions only hit sessions of the client that connects.\<close>

lemma get_kick_other:
  assumes "mgr_inv m" "kick_oldest env m client = Some (k, m')" "get m sid = Some s" "s_client_id s \<noteq> client"
  shows "get m' sid = Some s"
  using kick_oldest_cases [OF assms(1), where env = env and client = client] assms
  by (auto simp: get_def delete_conv' evicted_def)

lemma get_enforce_other:
  "mgr_inv m \<Longrightarrow> get m sid = Some s \<Longrightarrow> s_client_id s \<noteq> client \<Longrightarrow>
     get (snd (enforce_loop env client limit m)) sid = Some s"
proof (induction env client limit m rule: enforce_loop.induct)
  case (1 env client limit m)
  have step: "mgr_inv m' \<and> get m' sid = Some s" if "kick_oldest env m client = Some (k, m')" for k m'
    using that 1(2-4) kick_oldest_inv get_kick_other by blast
  with 1 show ?case
    by (subst enforce_loop.simps) (auto simp: case_prod_unfold Let_def split: option.splits)
qed

lemma get_create_other:
  assumes "mgr_inv m" "get m sid = Some s" "s_client_id s \<noteq> client_id sub" "sid \<noteq> rid"
  shows "get (snd (create_session env m a l caps cn q mtu sub rid rn)) sid = Some s"
  using assms get_enforce_other [OF assms(1,2,3)]
  by (auto simp: create_session_eq enforce_device_limit_def case_prod_unfold Let_def split: option.split)

section \<open>Who may change a session\<close>

definition admits :: "('vk, 'r) Crypto \<Rightarrow> Env \<Rightarrow> ('vk, 'r) Server \<Rightarrow> Frame \<Rightarrow> SubscriptionClaims \<Rightarrow> bool" where
  "admits P env srv frame c \<longleftrightarrow> frame_type frame = WhatsUpDude \<and>
     (\<exists>w t. whats_up_dude_decode (payload frame) = Ok w \<and> token_decode (wud_auth_token w) = Ok t \<and>
        fst (verify_at (ed_verify P) (is_revoked P) (srv_verifier srv) t (unix_time env)) = Ok c)"

lemma admits_dispatch:
  assumes "frame_type frame = WhatsUpDude" "\<nexists>c. admits P env srv frame c"
  shows "srv_sessions (fst (dispatch P env rng srv link address frame)) = srv_sessions srv"
  using assms
  by (auto simp: dispatch_def handle_whats_up_dude_def admits_def Let_def
      split: outcome.splits prod.splits)

lemma admitted_dispatch:
  assumes "admits P env srv frame c"
  shows "\<exists>w. whats_up_dude_decode (payload frame) = Ok w \<and>
    srv_sessions (fst (dispatch P env rng srv link address frame)) =
      snd (create_session env (srv_sessions srv) address link (wud_capabilities w AND SERVER_CAPABILITIES)
        (wud_client_nonce w) (sequence frame) PAYPHONE_MTU c (rng_id rng) (rng_nonce rng))"
proof -
  obtain w t where wt: "frame_type frame = WhatsUpDude" "whats_up_dude_decode (payload frame) = Ok w"
    "token_decode (wud_auth_token w) = Ok t"
    "fst (verify_at (ed_verify P) (is_revoked P) (srv_verifier srv) t (unix_time env)) = Ok c"
    using assms by (auto simp: admits_def)
  then show ?thesis
    by (cases "verify_at (ed_verify P) (is_revoked P) (srv_verifier srv) t (unix_time env)")
      (auto simp: dispatch_def handle_whats_up_dude_def Let_def case_prod_unfold
        split: outcome.split CreateSessionError.split)
qed

lemma gate_not_command:
  "\<not> session_command (frame_type frame) \<Longrightarrow> gate P env srv address frame = (GatePass, srv)"
  by (simp add: gate_def)

text \<open>A session command from anybody but the owner has no effect at all.\<close>

lemma gate_stranger:
  assumes "session_command (frame_type frame)"
    and "\<nexists>s. get (srv_sessions srv) (take 16 (payload frame)) = Some s \<and> s_client_address s = address"
  shows "gate P env srv address frame = (GateIgnore, srv)"
  using assms by (auto simp: gate_def Let_def split: option.split)

lemma handle_frame_command_other:
  assumes "session_command (frame_type frame)" "k \<noteq> take 16 (payload frame)"
  shows "get (srv_sessions (fst (handle_frame P env rng srv link address frame))) k = get (srv_sessions srv) k"
proof -
  obtain g srv1 where g: "gate P env srv address frame = (g, srv1)" by force
  have eq: "srv_sessions srv1 = srv_sessions srv" using gate_sessions [of P env srv address frame] g by simp
  show ?thesis
  proof (cases g)
    case (GateDenied sid reason)
    then have "sid = take 16 (payload frame)"
      using g by (auto simp: gate_def Let_def case_prod_unfold split: if_splits option.splits)
    with assms(2) GateDenied g eq show ?thesis
      by (simp add: handle_frame_def gate_deny_def Let_def case_prod_unfold split: option.split)
  qed (use g eq dispatch_command_other [OF assms, of P env rng srv1 link address] in \<open>simp_all add: handle_frame_def\<close>)
qed

lemma back_again_check_denied:
  "fst (back_again_check P env srv msg) \<noteq> None \<Longrightarrow>
     \<exists>s. get (srv_sessions srv) (bad_session_id msg) = Some s \<and> access_denied_now P env srv s"
  using access_error_Some_iff
  by (fastforce simp: back_again_check_def Let_def case_prod_unfold split: option.splits)

lemma resume_session_None: "fst (resume_session env m sid t a l q mtu) = None \<Longrightarrow> snd (resume_session env m sid t a l q mtu) = m"
  by (auto simp: resume_session_def Let_def split: option.splits if_splits)

lemma handle_frame_back_other:
  assumes "frame_type frame = BackAgainDude"
    and "get (srv_sessions (fst (handle_frame P env rng srv link address frame))) k \<noteq> get (srv_sessions srv) k"
  shows "\<exists>msg s. back_again_dude_decode (payload frame) = Ok msg \<and> bad_session_id msg = k \<and>
    get (srv_sessions srv) k = Some s \<and>
    (bad_resume_token msg \<in> accepted_tokens s \<or> access_denied_now P env srv s)"
proof -
  have h: "handle_frame P env rng srv link address frame = handle_back_again_dude P env srv link address frame"
    using assms(1) by (simp add: handle_frame_def gate_def session_command_def dispatch_def)
  then obtain msg where msg: "back_again_dude_decode (payload frame) = Ok msg"
    using assms(2) by (auto simp: handle_back_again_dude_def split: outcome.splits)
  obtain den srv1 where c: "back_again_check P env srv msg = (den, srv1)" by force
  have eq: "srv_sessions srv1 = srv_sessions srv" using back_again_check_sessions [of P env srv msg] c by simp
  let ?r = "resume_session env (srv_sessions srv) (bad_session_id msg) (bad_resume_token msg)
      address link (sequence frame) PAYPHONE_MTU"
  show ?thesis
  proof (cases den)
    case None
    then have ne: "get (snd ?r) k \<noteq> get (srv_sessions srv) k"
      using assms(2) unfolding h
      by (simp add: handle_back_again_dude_def msg c back_again_finish_def eq Let_def case_prod_unfold split: option.splits)
    then obtain sg where "fst ?r = Some sg" "bad_session_id msg = k"
      using get_resume_other resume_session_None by (metis option.exhaust)
    then show ?thesis using resume_session_Some_iff msg by blast
  next
    case (Some reason)
    then have "bad_session_id msg = k"
      using assms(2) unfolding h
      by (auto simp: handle_back_again_dude_def msg c back_again_finish_def eq split: if_splits)
    then show ?thesis using back_again_check_denied [of P env srv msg] msg c Some by auto
  qed
qed

lemma handle_frame_whats_up_other:
  assumes "srv_inv srv" "frame_type frame = WhatsUpDude" "get (srv_sessions srv) k = Some s"
    and "get (srv_sessions (fst (handle_frame P env rng srv link address frame))) k \<noteq> Some s"
  shows "\<exists>c. admits P env srv frame c \<and> (k = rng_id rng \<or> s_client_id s = client_id c)"
proof -
  have h: "handle_frame P env rng srv link address frame = dispatch P env rng srv link address frame"
    using assms(2) by (simp add: handle_frame_def gate_def session_command_def)
  then obtain c where "admits P env srv frame c" using assms(3,4) admits_dispatch [OF assms(2)] by metis
  then show ?thesis
    using admitted_dispatch [of P env srv frame c rng link address] assms get_create_other [OF assms(1,3)] h
    by metis
qed

lemma handle_frame_pure:
  "\<not> session_command (frame_type frame) \<Longrightarrow> frame_type frame \<noteq> WhatsUpDude \<Longrightarrow>
   frame_type frame \<noteq> BackAgainDude \<Longrightarrow> handle_frame P env rng srv link address frame = (srv, [])"
  by (cases "frame_type frame") (simp_all add: handle_frame_def gate_def session_command_def dispatch_def)

section \<open>Admission\<close>

lemma dispatch_admitted:
  assumes "admits P env srv frame c" "whats_up_dude_decode (payload frame) = Ok w"
  shows "snd (dispatch P env rng srv link address frame) =
    (case enforce_device_limit env c (srv_sessions srv) of (kicked, m1) \<Rightarrow>
       case allocate_ipv4 m1 of
         None \<Rightarrow> send_access_denied link (sequence frame) InternalAuthError 0
       | Some ip \<Rightarrow> concat (map (\<lambda>k. send_close (kicked_link k) (kicked_id k) Replaced) kicked) @
           link_send link (mk_frame AllGoodDude (sequence frame + 1) (all_good_dude_encode
             (all_good_dude_new ip PAYPHONE_MTU (wud_capabilities w AND SERVER_CAPABILITIES)
               (rng_id rng) (rng_nonce rng)))))"
proof -
  obtain t where wt: "frame_type frame = WhatsUpDude" "token_decode (wud_auth_token w) = Ok t"
    "fst (verify_at (ed_verify P) (is_revoked P) (srv_verifier srv) t (unix_time env)) = Ok c"
    using assms by (auto simp: admits_def)
  then show ?thesis
    using assms(2)
    by (cases "verify_at (ed_verify P) (is_revoked P) (srv_verifier srv) t (unix_time env)")
      (auto simp: dispatch_def handle_whats_up_dude_def create_session_eq Let_def case_prod_unfold
        split: option.split)
qed

lemma no_all_good:
  "Send l f \<in> set (link_send l' (mk_frame ft q b)) \<Longrightarrow> frame_type f = ft"
  by (auto simp: in_link_send mk_frame_def)

lemma not_admitted_outputs:
  assumes "frame_type frame = WhatsUpDude" "\<nexists>c. admits P env srv frame c"
  shows "snd (dispatch P env rng srv link address frame) = [] \<or>
    (\<exists>r e. snd (dispatch P env rng srv link address frame) = send_access_denied link (sequence frame) r e)"
  using assms
  by (auto simp: dispatch_def handle_whats_up_dude_def admits_def Let_def
      split: outcome.splits prod.splits)

lemma all_good_only_admitted:
  assumes "Send l f \<in> set (snd (handle_frame P env rng srv link address frame))"
    and "frame_type f = AllGoodDude"
  shows "\<exists>c. admits P env srv frame c"
proof -
  obtain g srv1 where g: "gate P env srv address frame = (g, srv1)" by force
  have d: "frame_type frame = WhatsUpDude"
    using assms g
    by (cases g; cases "frame_type frame")
      (auto simp: handle_frame_def gate_deny_def dispatch_def handle_back_again_dude_def
        back_again_finish_def handle_data_def handle_ping_def handle_rekey_def handle_close_def
        send_access_denied_def send_close_def send_rekey_def Let_def case_prod_unfold
        split: outcome.splits option.splits if_splits dest!: no_all_good)
  then have "Send l f \<in> set (snd (dispatch P env rng srv link address frame))"
    using assms(1) by (simp add: handle_frame_def gate_def session_command_def)
  then have "\<not> (snd (dispatch P env rng srv link address frame) = [] \<or>
      (\<exists>r e. snd (dispatch P env rng srv link address frame) = send_access_denied link (sequence frame) r e))"
    using assms(2) by (auto simp: send_access_denied_def in_link_send mk_frame_def)
  with not_admitted_outputs [OF d] show ?thesis by blast
qed

lemma all_good_iff:
  assumes "link \<noteq> Detached"
  shows "(\<exists>l f. Send l f \<in> set (snd (handle_frame P env rng srv link address frame)) \<and>
      frame_type f = AllGoodDude) \<longleftrightarrow>
    (\<exists>c. admits P env srv frame c \<and>
      allocate_ipv4 (snd (enforce_device_limit env c (srv_sessions srv))) \<noteq> None)"
    (is "?sent \<longleftrightarrow> ?ok")
proof
  assume ?sent
  then obtain l f c where f: "Send l f \<in> set (snd (handle_frame P env rng srv link address frame))"
    "frame_type f = AllGoodDude" and c: "admits P env srv frame c"
    using all_good_only_admitted by blast
  then obtain w where w: "frame_type frame = WhatsUpDude" "whats_up_dude_decode (payload frame) = Ok w"
    by (auto simp: admits_def)
  have "allocate_ipv4 (snd (enforce_device_limit env c (srv_sessions srv))) \<noteq> None"
    using f w(1) dispatch_admitted [OF c w(2), of rng link address]
    by (auto simp: handle_frame_def gate_def session_command_def send_access_denied_def case_prod_unfold
        dest!: no_all_good split: option.splits)
  with c show ?ok by blast
next
  assume ?ok
  then obtain c ip where c: "admits P env srv frame c"
    "allocate_ipv4 (snd (enforce_device_limit env c (srv_sessions srv))) = Some ip" by blast
  then obtain w where w: "frame_type frame = WhatsUpDude" "whats_up_dude_decode (payload frame) = Ok w"
    by (auto simp: admits_def)
  show ?sent
    using w(1) c(2) dispatch_admitted [OF c(1) w(2), of rng link address] assms
    by (fastforce simp: handle_frame_def gate_def session_command_def case_prod_unfold in_link_send
        mk_frame_def)
qed

text \<open>What the client is told is what the server recorded.\<close>

lemma all_good_session:
  assumes inv: "srv_inv srv" "rng_ok rng"
    and f: "Send l f \<in> set (snd (handle_frame P env rng srv link address frame))" "frame_type f = AllGoodDude"
  shows "\<exists>c ag s. l = link \<and> admits P env srv frame c \<and> all_good_dude_decode (payload f) = Ok ag \<and>
    get (srv_sessions (fst (handle_frame P env rng srv link address frame))) (agd_session_id ag) = Some s \<and>
    s_ipv4 s = agd_assigned_ipv4 ag \<and> s_server_nonce s = agd_server_nonce ag \<and> s_client_id s = client_id c \<and>
    s_token_id s = token_id c \<and> s_client_address s = address \<and> s_link s = link"
proof -
  obtain c where c: "admits P env srv frame c" using f all_good_only_admitted by blast
  then obtain w where w: "frame_type frame = WhatsUpDude" "whats_up_dude_decode (payload frame) = Ok w"
    by (auto simp: admits_def)
  have h: "handle_frame P env rng srv link address frame = dispatch P env rng srv link address frame"
    using w(1) by (simp add: handle_frame_def gate_def session_command_def)
  obtain kicked m1 where e: "enforce_device_limit env c (srv_sessions srv) = (kicked, m1)" by force
  obtain ip where ip: "allocate_ipv4 m1 = Some ip"
    using f all_good_iff [of link P env rng srv address frame] dispatch_admitted [OF c w(2), of rng link address] e h
    by (auto simp: send_access_denied_def dest!: no_all_good split: option.splits)
  let ?ag = "all_good_dude_new ip PAYPHONE_MTU (wud_capabilities w AND SERVER_CAPABILITIES) (rng_id rng) (rng_nonce rng)"
  have out: "l = link \<and> payload f = all_good_dude_encode ?ag"
    using f dispatch_admitted [OF c w(2), of rng link address] e ip h
    by (auto simp: send_close_def in_link_send mk_frame_def)
  have "vpn_addr ip" using allocate_ipv4_Some [OF ip] by simp
  then have "all_good_dude_valid ?ag"
    using inv(2) by (simp add: all_good_dude_valid_def all_good_dude_new_def rng_ok_def vpn_addr_def constants)
  then have dec: "all_good_dude_decode (payload f) = Ok ?ag" using out all_good_dude.roundtrip by simp
  have "get (srv_sessions (fst (dispatch P env rng srv link address frame))) (rng_id rng) =
      Some (new_session env address link (wud_capabilities w AND SERVER_CAPABILITIES) (wud_client_nonce w)
        (sequence frame) c ip (rng_id rng) (rng_nonce rng))"
    using admitted_dispatch [OF c, of rng link address] w(2) e ip by (auto simp: create_session_eq)
  with out dec c show ?thesis
    unfolding h by (intro exI [of _ c] exI [of _ ?ag]) (simp add: all_good_dude_new_def)
qed

section \<open>The periodic sweep\<close>

lemma filter_fresh: "k \<notin> fst ` set al \<Longrightarrow> filter (\<lambda>e. fst e \<noteq> k) al = al"
  by (induction al) auto

lemma remove_ids_filter:
  assumes "distinct (map fst tab)" "\<forall>(k, s) \<in> set tab. s_id s = k"
    and "ids = map (\<lambda>s. (s_id s, reason s)) (filter bad (map snd tab))"
  shows "remove_ids ids tab = (map (\<lambda>s. (s, reason s)) (filter bad (map snd tab)), filter (\<lambda>(k, s). \<not> bad s) tab)"
proof -
  have gen: "remove_ids (map (\<lambda>s. (s_id s, reason s)) (filter bad (map snd later))) (done @ later) =
      (map (\<lambda>s. (s, reason s)) (filter bad (map snd later)), done @ filter (\<lambda>(k, s). \<not> bad s) later)"
    if "distinct (map fst (done @ later))" "\<forall>(k, s) \<in> set later. s_id s = k" for "done" later
    using that
  proof (induction later arbitrary: "done")
    case (Cons e later)
    obtain k s where e: "e = (k, s)" by force
    have new: "k \<notin> fst ` set done" "k \<notin> fst ` set later" using Cons.prems(1) e by auto
    then have del: "AList.delete k (done @ (k, s) # later) = done @ later"
      by (simp add: delete_filter filter_fresh)
    have look: "map_of (done @ (k, s) # later) k = Some s"
      using new(1) by (simp add: map_of_eq_None_iff [THEN iffD2] map_add_Some_iff)
    show ?case
    proof (cases "bad s")
      case True
      then show ?thesis using Cons.IH [of "done"] Cons.prems e look del by (simp add: case_prod_unfold)
    next
      case False
      then show ?thesis using Cons.IH [of "done @ [(k, s)]"] Cons.prems e by simp
    qed
  qed simp
  show ?thesis using gen [of "[]" tab] assms by simp
qed

definition deny_reason :: "Env \<Rightarrow> Session \<Rightarrow> DenyReason" where
  "deny_reason env s = (if unix_time env \<ge> s_subscription_expires_at s then SubscriptionExpired else TokenRevoked)"

definition barred :: "Env \<Rightarrow> bytes set \<Rightarrow> Session \<Rightarrow> bool" where
  "barred env ids s \<longleftrightarrow> unix_time env \<ge> s_subscription_expires_at s \<or> s_token_id s \<in> ids"

context revocation_store
begin

lemma access_error_barred:
  "fst (access_error is_revoked env v s) = (if barred env (denied (revocations v)) s then Some (deny_reason env s) else None)"
  "denied (revocations (snd (access_error is_revoked env v s))) = denied (revocations v)"
  using check_iff [of "revocations v" "s_token_id s"] check_stable [of "revocations v" "s_token_id s"]
  by (auto simp: access_error_def verify_session_at_def barred_def deny_reason_def unix_time_def Let_def
      case_prod_unfold)

lemma collect_invalid_eq:
  "fst (collect_invalid is_revoked env v ss) =
     map (\<lambda>s. (s_id s, deny_reason env s)) (filter (barred env (denied (revocations v))) ss)"
proof (induction ss arbitrary: v)
  case (Cons s ss)
  have "barred env (denied (revocations (snd (access_error is_revoked env v s)))) = barred env (denied (revocations v))"
    by (rule ext) (simp add: barred_def access_error_barred)
  with Cons show ?case
    by (simp add: Let_def case_prod_unfold access_error_barred)
qed simp

lemma cleanup_sweep:
  assumes "mgr_inv (srv_sessions srv)"
    and "is_revoked = Server_Handler.is_revoked P"
  shows "sessions (srv_sessions (fst (cleanup_tick P env srv))) =
      filter (\<lambda>(k, s). \<not> barred env (denied (revocations (srv_verifier srv))) s \<and>
         env_instant env - s_last_activity s < SESSION_TIMEOUT) (sessions (srv_sessions srv))"
    and "snd (cleanup_tick P env srv) =
      concat (map (\<lambda>s. send_access_denied (s_link s) 0 (deny_reason env s) (s_subscription_expires_at s))
        (filter (barred env (denied (revocations (srv_verifier srv)))) (session_values (srv_sessions srv))))"
proof -
  let ?v = "srv_verifier srv" and ?m = "srv_sessions srv"
  have "distinct (map fst (sessions ?m))" "\<forall>(k, s) \<in> set (sessions ?m). s_id s = k"
    using assms(1) by (auto simp: mgr_inv_def table_inv_def table_wf_def)
  note rem = remove_ids_filter [OF this collect_invalid_eq]
  show "sessions (srv_sessions (fst (cleanup_tick P env srv))) =
      filter (\<lambda>(k, s). \<not> barred env (denied (revocations ?v)) s \<and>
         env_instant env - s_last_activity s < SESSION_TIMEOUT) (sessions ?m)"
    by (simp add: cleanup_tick_def remove_invalid_def remove_expired_def Let_def case_prod_unfold
        assms(2) [symmetric] rem conj_commute)
  show "snd (cleanup_tick P env srv) =
      concat (map (\<lambda>s. send_access_denied (s_link s) 0 (deny_reason env s) (s_subscription_expires_at s))
        (filter (barred env (denied (revocations ?v))) (session_values ?m)))"
    by (simp add: cleanup_tick_def remove_invalid_def remove_expired_def Let_def case_prod_unfold
        assms(2) [symmetric] rem comp_def)
qed

end

section \<open>From the TUN device to the owner of the address\<close>

lemma tun_to_client_sends:
  assumes "srv_inv srv" "tun_to_client P env srv pid packet = (srv', pid', outs)" "Send l f \<in> set outs"
  shows "\<exists>s. get (srv_sessions srv) (s_id s) = Some s \<and> ipv4_destination packet = Some (s_ipv4 s) \<and>
    \<not> access_denied_now P env srv s \<and> is_live env l \<and> l = s_link s \<and>
    fst (rate_allow (env_unix_ms env) (of_nat (length packet)) (s_rate s)) \<and>
    f = mk_frame Data pid (data_encode (data_new (s_id s) pid packet)) \<and> outs = [Send l f] \<and> pid' = pid + 1"
proof -
  obtain d s where d: "ipv4_destination packet = Some d" "find_by_ipv4 env (srv_sessions srv) d = Some s"
    using assms(2,3) by (auto simp: tun_to_client_def split: if_splits option.splits)
  have s: "get (srv_sessions srv) (s_id s) = Some s" "s_ipv4 s = d" "is_live env (s_link s)"
    using find_by_ipv4_get [OF assms(1) d(2)] by simp_all
  have "\<not> access_denied_now P env srv s"
    using access_error_Some_iff [of P env srv s] assms(2,3) d
    by (auto simp: tun_to_client_def Let_def case_prod_unfold split: if_splits)
  with s d assms(2,3) show ?thesis
    by (intro exI [of _ s])
      (cases "s_link s"; auto simp: tun_to_client_def Let_def case_prod_unfold split: if_splits)
qed

lemma tun_to_client_other:
  assumes "srv_inv srv" "tun_to_client P env srv pid packet = (srv', pid', outs)"
    and "get (srv_sessions srv) k = Some t" "ipv4_destination packet \<noteq> Some (s_ipv4 t)"
  shows "get (srv_sessions srv') k = Some t"
proof -
  have "s_id s \<noteq> k" if "find_by_ipv4 env (srv_sessions srv) d = Some s" "ipv4_destination packet = Some d" for d s
    using find_by_ipv4_get [OF assms(1) that(1)] assms(3,4) that(2) by force
  then have ne: "find_by_ipv4 env (srv_sessions srv) d = Some s \<Longrightarrow> ipv4_destination packet = Some d \<Longrightarrow>
      get (put (srv_sessions srv) (s_id s) s') k = Some t" for d s s'
    using assms(3) by fastforce
  show ?thesis
    using assms(2,3)
    by (auto simp: tun_to_client_def Let_def case_prod_unfold ne simp del: get_after_put split: if_splits option.splits)
qed

section \<open>Properties\<close>

lemma fst_remove [simp]: "fst (remove env m sid) = get m sid"
  by (simp add: remove_def get_def Let_def)

lemma gate_passes:
  assumes "session_command (frame_type frame)" "16 \<le> length (payload frame)"
    and "get (srv_sessions srv) (take 16 (payload frame)) = Some s" "s_client_address s = address"
    and "\<not> access_denied_now P env srv s"
  shows "\<exists>srv'. gate P env srv address frame = (GatePass, srv')"
  using assms access_error_Some_iff [of P env srv s]
  by (auto simp: gate_def Let_def case_prod_unfold)

lemma handle_frame_tun_decodes:
  assumes "TunWrite p \<in> set (snd (handle_frame P env rng srv link address frame))"
  shows "\<exists>d. data_decode (payload frame) = Ok d \<and> p = data_payload d"
proof -
  obtain g srv1 where g: "gate P env srv address frame = (g, srv1)" by force
  have "g = GatePass"
    using assms g by (cases g) (auto simp: handle_frame_def gate_deny_def Let_def case_prod_unfold
        split: option.splits)
  with assms g have "TunWrite p \<in> set (snd (handle_data env srv1 address frame))"
    using dispatch_tun by (fastforce simp: handle_frame_def)
  then show ?thesis unfolding handle_data_tun_iff by blast
qed

text \<open>A server with one session for the concrete instances below.\<close>

definition sample_crypto :: "(unit, bytes set) Crypto" where
  "sample_crypto = \<lparr>ed_verify = (\<lambda>vk msg sig. True), is_revoked = memory_is_revoked\<rparr>"

definition sample_server :: "(unit, bytes set) Server" where
  "sample_server = \<lparr>srv_sessions = sample_manager, srv_verifier = \<lparr>keys = [1 \<mapsto> ()], revocations = {}\<rparr>\<rparr>"

definition sample_rng :: Rng where
  "sample_rng = \<lparr>rng_id = replicate 16 11, rng_nonce = replicate 32 12\<rparr>"

definition sample_address :: SocketAddr where "sample_address = V4 [192, 0, 2, 1] 4000"

lemma sample_server_facts [simp]:
  "srv_sessions sample_server = sample_manager"
  "get sample_manager (replicate 16 6) = Some sample_session"
  "s_client_address sample_session = sample_address" "s_link sample_session = Quic 7"
  "s_subscription_expires_at sample_session = 9000" "s_ipv4 sample_session = [10, 77, 0, 2]"
  by (simp_all add: sample_server_def sample_facts sample_session_def sample_address_def sample_claims_def)

text \<open>
  C2: when a packet reaches the TUN device.  Handling a frame writes a packet to the
  device exactly when the frame is a \<open>Data\<close> frame whose payload is that
  packet, for an existing session of the sending address that is neither expired
  nor revoked, with a sequence number in the replay window, within the client's
  rate, and with the session's own address as the source of the packet.
\<close>

theorem packet_reaches_tun_iff:
  "TunWrite p \<in> set (snd (handle_frame P env rng srv link address frame)) \<longleftrightarrow>
    frame_type frame = Data \<and>
    (\<exists>d s. data_decode (payload frame) = Ok d \<and> p = data_payload d \<and>
       get (srv_sessions srv) (data_session_id d) = Some s \<and> s_client_address s = address \<and>
       \<not> access_denied_now P env srv s \<and>
       fst (accept_sequence (s_last_sequence s) (sequence frame)) \<and>
       fst (rate_allow (env_unix_ms env) (of_nat (length p)) (s_rate s)) \<and>
       ipv4_source p = Some (s_ipv4 s))"
    (is "?written \<longleftrightarrow> ?ok")
proof
  assume w: ?written
  from handle_frame_tun [OF w] obtain s where s: "get (srv_sessions srv) (take 16 (payload frame)) = Some s"
    "frame_type frame = Data" "s_client_address s = address" "\<not> access_denied_now P env srv s"
    "fst (accept_sequence (s_last_sequence s) (sequence frame))"
    "fst (rate_allow (env_unix_ms env) (of_nat (length p)) (s_rate s))" "ipv4_source p = Some (s_ipv4 s)"
    by blast
  moreover obtain d where "data_decode (payload frame) = Ok d" "p = data_payload d"
    using handle_frame_tun_decodes [OF w] by blast
  ultimately show ?ok using data_decode_session_id by metis
next
  assume ?ok
  then obtain d s where d: "frame_type frame = Data" "data_decode (payload frame) = Ok d" "p = data_payload d"
    and s: "get (srv_sessions srv) (data_session_id d) = Some s" "s_client_address s = address"
      "\<not> access_denied_now P env srv s"
    and ok: "fst (accept_sequence (s_last_sequence s) (sequence frame))"
      "fst (rate_allow (env_unix_ms env) (of_nat (length p)) (s_rate s))" "ipv4_source p = Some (s_ipv4 s)"
    by blast
  obtain srv1 where g: "gate P env srv address frame = (GatePass, srv1)"
    using gate_passes [of frame srv s address P env] d s data_decode_session_id [OF d(2)]
    by (auto simp: session_command_def)
  then have "get (srv_sessions srv1) (data_session_id d) = Some s"
    using s(1) gate_sessions [of P env srv address frame] by simp
  then have "TunWrite p \<in> set (snd (handle_data env srv1 address frame))"
    unfolding handle_data_tun_iff using d s(2,3) ok by (auto simp: access_denied_now_def)
  then show ?written using g d(1) by (simp add: handle_frame_def dispatch_def)
qed

text \<open>
  A revoked or expired client is cut off at its next frame.  The session is
  removed, nothing of the frame is processed, and the only output is the denial
  with the reason, sent on the link of the session.
\<close>

theorem barred_session_is_removed:
  assumes "session_command (frame_type frame)" "16 \<le> length (payload frame)"
    and "get (srv_sessions srv) (take 16 (payload frame)) = Some s" "s_client_address s = address"
    and "access_denied_now P env srv s"
  shows "get (srv_sessions (fst (handle_frame P env rng srv link address frame))) (take 16 (payload frame)) = None \<and>
    snd (handle_frame P env rng srv link address frame) =
      send_access_denied (s_link s) (sequence frame)
        (if unix_time env \<ge> s_subscription_expires_at s then SubscriptionExpired else TokenRevoked)
        (s_subscription_expires_at s)"
proof -
  obtain srv1 where g: "gate P env srv address frame = (GateDenied (take 16 (payload frame))
      (if unix_time env \<ge> s_subscription_expires_at s then SubscriptionExpired else TokenRevoked), srv1)"
    using gate_denied [OF assms] by blast
  then have "srv_sessions srv1 = srv_sessions srv" using gate_sessions [of P env srv address frame] by simp
  with g assms(3) show ?thesis
    by (simp add: handle_frame_def gate_deny_def Let_def case_prod_unfold)
qed

theorem barred_session_is_removed_witness:
  "snd (handle_frame sample_crypto (sample_env\<lparr>env_unix_ms := 9000000\<rparr>) sample_rng sample_server (Quic 7)
      sample_address (mk_frame Ping 5 (replicate 16 6))) =
     [Send (Quic 7) (mk_frame AccessDeniedDude 6 (2 # put_u64 9000))]"
  using barred_session_is_removed [of "mk_frame Ping 5 (replicate 16 6)" sample_server sample_session sample_address
      sample_crypto "sample_env\<lparr>env_unix_ms := 9000000\<rparr>" sample_rng "Quic 7"]
  by (simp add: session_command_def access_denied_now_def unix_time_def send_access_denied_def
      access_denied_dude_encode_def access_denied_dude_new_def)

text \<open>
  Nobody else can touch a session.  A \<open>Data\<close>, \<open>Ping\<close>,
  \<open>Rekey\<close> or \<open>Close\<close> frame that names an unknown session, or a
  session of another socket address, changes nothing and is not answered.
\<close>

theorem stranger_is_ignored:
  assumes "session_command (frame_type frame)"
    and "\<nexists>s. get (srv_sessions srv) (take 16 (payload frame)) = Some s \<and> s_client_address s = address"
  shows "handle_frame P env rng srv link address frame = (srv, [])"
  using gate_stranger [OF assms] by (simp add: handle_frame_def)

theorem stranger_is_ignored_witness:
  "handle_frame sample_crypto sample_env sample_rng sample_server (Quic 8) (V4 [198, 51, 100, 7] 1)
     (mk_frame Close 5 (replicate 16 6 @ [0])) = (sample_server, [])"
  by (rule stranger_is_ignored) (simp_all add: session_command_def sample_address_def)

text \<open>
  C3: isolation.  When handling a frame changes or removes a session, the frame is
  either a command from that session's own address, or a resumption that names the
  session with one of its tokens or finds it expired or revoked, or a login with a
  verified subscription of the same client (or one that drew the same random
  session identifier).
\<close>

theorem session_changed_only_by_owner:
  assumes "srv_inv srv" "get (srv_sessions srv) k = Some s"
    and "get (srv_sessions (fst (handle_frame P env rng srv link address frame))) k \<noteq> Some s"
  shows "(session_command (frame_type frame) \<and> take 16 (payload frame) = k \<and> s_client_address s = address) \<or>
    (frame_type frame = BackAgainDude \<and> (\<exists>msg. back_again_dude_decode (payload frame) = Ok msg \<and>
       bad_session_id msg = k \<and> (bad_resume_token msg \<in> accepted_tokens s \<or> access_denied_now P env srv s))) \<or>
    (\<exists>c. admits P env srv frame c \<and> (client_id c = s_client_id s \<or> k = rng_id rng))"
proof -
  consider "session_command (frame_type frame)" | "frame_type frame = BackAgainDude" | "frame_type frame = WhatsUpDude"
    | "\<not> session_command (frame_type frame)" "frame_type frame \<noteq> WhatsUpDude" "frame_type frame \<noteq> BackAgainDude"
    by blast
  then show ?thesis
  proof cases
    case 1
    have "k = take 16 (payload frame)"
      using handle_frame_command_other [OF 1] assms(2,3) by metis
    moreover have "s_client_address s = address"
      using gate_stranger [OF 1, of srv address P env] assms(2,3) calculation
      by (fastforce simp: handle_frame_def)
    ultimately show ?thesis using 1 by simp
  next
    case 2
    with handle_frame_back_other [OF 2, of P env rng srv link address k] assms(2,3) show ?thesis by auto
  next
    case 3
    with handle_frame_whats_up_other [OF assms(1) 3 assms(2,3)] show ?thesis by auto
  next
    case 4
    with handle_frame_pure [OF 4, of P env rng srv link address] assms(2,3) show ?thesis by simp
  qed
qed

theorem session_changed_only_by_owner_witness:
  "get (srv_sessions (fst (handle_frame sample_crypto sample_env sample_rng sample_server (Quic 7) sample_address
      (mk_frame Close 5 (replicate 16 6 @ [0]))))) (replicate 16 6) \<noteq> Some sample_session \<and>
   session_command (frame_type (mk_frame Close 5 (replicate 16 6 @ [0])))"
proof -
  let ?f = "mk_frame Close 5 (replicate 16 6 @ [0])"
  have dec: "close_decode (replicate 16 6 @ [0]) = Ok (close_new (replicate 16 6) ClientShutdown)"
    unfolding close.decode_Ok_iff by (simp add: close_valid_def close_new_def close_encode_def constants)
  have "\<not> access_denied_now sample_crypto sample_env sample_server sample_session"
    by (simp add: access_denied_now_def unix_time_def sample_env_def sample_crypto_def memory_is_revoked_def
        sample_server_def)
  then obtain srv1 where g: "gate sample_crypto sample_env sample_server sample_address ?f = (GatePass, srv1)"
    using gate_passes [of ?f sample_server sample_session sample_address sample_crypto sample_env]
    by (auto simp: session_command_def)
  then have "srv_sessions srv1 = sample_manager"
    using gate_sessions [of sample_crypto sample_env sample_server sample_address ?f] by simp
  then have ne: "get (srv_sessions (fst (handle_frame sample_crypto sample_env sample_rng sample_server (Quic 7)
      sample_address ?f))) (replicate 16 6) \<noteq> Some sample_session"
    using g dec by (simp add: handle_frame_def dispatch_def handle_close_def close_new_def Let_def)
  with session_changed_only_by_owner [of sample_server "replicate 16 6" sample_session, OF _ _ ne]
  show ?thesis by (auto simp: sample_facts admits_def)
qed

definition empty_server :: "(unit, bytes set) Server" where
  "empty_server = sample_server\<lparr>srv_sessions := session_manager_new\<rparr>"

definition sample_token :: SubscriptionToken where
  "sample_token = \<lparr>claims = sample_claims, signature = replicate 64 0\<rparr>"

definition sample_hello :: WhatsUpDude where
  "sample_hello = whats_up_dude_new 1 15 (token_encode sample_token) (replicate 32 1)"

definition sample_login :: Frame where
  "sample_login = mk_frame WhatsUpDude 1 (case whats_up_dude_encode sample_hello of Ok b \<Rightarrow> b | _ \<Rightarrow> [])"

lemma sample_hello_valid: "whats_up_dude_valid sample_hello"
  using sample_facts(1)
  by (simp add: whats_up_dude_valid_def sample_hello_def whats_up_dude_new_def token_encode_def
      length_encode_payload sample_token_def constants)

lemma sample_login_decodes: "whats_up_dude_decode (payload sample_login) = Ok sample_hello"
  using sample_hello_valid whats_up_dude.encode_valid [OF sample_hello_valid]
  by (auto simp: sample_login_def whats_up_dude.decode_Ok_iff is_ok_iff)

lemma sample_admits: "admits sample_crypto sample_env empty_server sample_login sample_claims"
proof -
  note sample_login_decodes
  moreover have "token_decode (wud_auth_token sample_hello) = Ok sample_token"
    using sample_facts(1) token_decode_encode [of sample_token]
    by (simp add: sample_hello_def whats_up_dude_new_def token_valid_def sample_token_def constants)
  moreover have "fst (verify_at (ed_verify sample_crypto) (is_revoked sample_crypto) (srv_verifier empty_server)
      sample_token (unix_time sample_env)) = Ok sample_claims"
    by (simp add: sample_crypto_def memory_store.verify_at_Ok_iff empty_server_def sample_server_def
        sample_token_def sample_claims_def unix_time_def sample_env_def constants sat_add_def)
  ultimately show ?thesis by (auto simp: admits_def sample_login_def)
qed

lemma empty_server_enforce:
  "enforce_device_limit sample_env sample_claims (srv_sessions empty_server) = ([], session_manager_new)"
  by (simp add: enforce_device_limit_def enforce_loop_below client_session_count_def session_manager_new_def
      sample_claims_def empty_server_def constants)

lemma empty_server_allocates:
  "allocate_ipv4 (snd (enforce_device_limit sample_env sample_claims (srv_sessions empty_server))) \<noteq> None"
  unfolding empty_server_enforce
  by (simp add: allocate_fails_iff mgr_inv_new) (simp add: session_manager_new_def)

text \<open>
  C6: who is admitted.  A connected client is answered with \<open>AllGoodDude\<close>
  exactly when its frame is a well-formed \<open>WhatsUpDude\<close> with a token the
  verifier accepts at this moment and an address is free once the client's device
  limit has been enforced.
\<close>

theorem admitted_iff_verified:
  assumes "link \<noteq> Detached"
  shows "(\<exists>l f. Send l f \<in> set (snd (handle_frame P env rng srv link address frame)) \<and>
      frame_type f = AllGoodDude) \<longleftrightarrow>
    frame_type frame = WhatsUpDude \<and>
    (\<exists>w t c. whats_up_dude_decode (payload frame) = Ok w \<and> token_decode (wud_auth_token w) = Ok t \<and>
      fst (verify_at (ed_verify P) (is_revoked P) (srv_verifier srv) t (unix_time env)) = Ok c \<and>
      allocate_ipv4 (snd (enforce_device_limit env c (srv_sessions srv))) \<noteq> None)"
  unfolding all_good_iff [OF assms] admits_def by blast

theorem admitted_iff_verified_witness:
  "\<exists>l f. Send l f \<in> set (snd (handle_frame sample_crypto sample_env sample_rng empty_server (Quic 9)
      sample_address sample_login)) \<and> frame_type f = AllGoodDude"
  using sample_admits empty_server_allocates admitted_iff_verified [of "Quic 9" sample_crypto sample_env sample_rng
      empty_server sample_address sample_login]
  by (auto simp: admits_def)

text \<open>
  The periodic sweep with the file-backed revocation store.  It keeps exactly
  the sessions that are neither expired nor revoked and were active within the
  last 300 seconds, in their order, and tells every expired or revoked client why
  it was dropped.
\<close>

theorem sweep_keeps_exactly_valid:
  assumes "srv_inv srv" "is_revoked P = file_is_revoked fs"
  shows "sessions (srv_sessions (fst (cleanup_tick P env srv))) =
      filter (\<lambda>(k, s). unix_time env < s_subscription_expires_at s \<and>
         s_token_id s \<notin> file_denied fs (revocations (srv_verifier srv)) \<and>
         env_instant env - s_last_activity s < 300 * NANOS) (sessions (srv_sessions srv)) \<and>
    snd (cleanup_tick P env srv) =
      concat (map (\<lambda>s. send_access_denied (s_link s) 0
          (if unix_time env \<ge> s_subscription_expires_at s then SubscriptionExpired else TokenRevoked)
          (s_subscription_expires_at s))
        (filter (\<lambda>s. unix_time env \<ge> s_subscription_expires_at s \<or>
           s_token_id s \<in> file_denied fs (revocations (srv_verifier srv))) (session_values (srv_sessions srv))))"
  using file_store.cleanup_sweep [OF assms(1) assms(2) [symmetric], of env]
  by (simp add: barred_def deny_reason_def SESSION_TIMEOUT_def not_le cong: conj_cong)
    (simp add: barred_def [abs_def])

theorem sweep_keeps_exactly_valid_witness:
  "sessions (srv_sessions (fst (cleanup_tick
      \<lparr>ed_verify = (\<lambda>vk msg sig. True), is_revoked = file_is_revoked \<lparr>fv_meta = MetaError, fv_text = None\<rparr>\<rparr>
      sample_env \<lparr>srv_sessions = sample_manager, srv_verifier = \<lparr>keys = [1 \<mapsto> ()], revocations = file_store_open\<rparr>\<rparr>))) = []"
  using sweep_keeps_exactly_valid [of "\<lparr>srv_sessions = sample_manager, srv_verifier = \<lparr>keys = [1 \<mapsto> ()],
        revocations = file_store_open\<rparr>\<rparr>" "\<lparr>ed_verify = (\<lambda>vk msg sig. True),
        is_revoked = file_is_revoked \<lparr>fv_meta = MetaError, fv_text = None\<rparr>\<rparr>"
      "\<lparr>fv_meta = MetaError, fv_text = None\<rparr>" sample_env]
  by (simp add: sample_facts file_denied_def)

text \<open>
  C14: a packet from the TUN device goes to the owner of its destination address
  and to nobody else: at most one frame is sent, on the live link of the one session
  that holds the address, which is neither expired nor revoked and within its
  rate; the frame carries the packet unchanged.
\<close>

theorem tun_packet_goes_to_owner:
  assumes "srv_inv srv" "tun_to_client P env srv pid packet = (srv', pid', outs)" "Send l f \<in> set outs"
  shows "\<exists>s. ipv4_destination packet = Some (s_ipv4 s) \<and> get (srv_sessions srv) (s_id s) = Some s \<and>
    (\<forall>k t. get (srv_sessions srv) k = Some t \<and> s_ipv4 t = s_ipv4 s \<longrightarrow> k = s_id s) \<and>
    \<not> access_denied_now P env srv s \<and> l = s_link s \<and> is_live env l \<and> outs = [Send l f] \<and> pid' = pid + 1 \<and>
    f = mk_frame Data pid (data_encode (data_new (s_id s) pid packet))"
proof -
  obtain s where s: "get (srv_sessions srv) (s_id s) = Some s" "ipv4_destination packet = Some (s_ipv4 s)"
    "\<not> access_denied_now P env srv s" "is_live env l" "l = s_link s"
    "f = mk_frame Data pid (data_encode (data_new (s_id s) pid packet))" "outs = [Send l f]" "pid' = pid + 1"
    using tun_to_client_sends [OF assms] by blast
  moreover have "k = s_id s" if "get (srv_sessions srv) k = Some t" "s_ipv4 t = s_ipv4 s" for k t
    using same_ipv4_same_session [OF assms(1) that(1) s(1) that(2)] .
  ultimately show ?thesis by blast
qed

definition sample_packet :: bytes where
  "sample_packet = [69, 0, 0, 20, 0, 0, 0, 0, 64, 17, 0, 0, 10, 77, 0, 1, 10, 77, 0, 2]"

lemma sample_packet_facts:
  "valid_ipv4_packet sample_packet" "ipv4_destination sample_packet = Some [10, 77, 0, 2]" "length sample_packet = 20"
proof -
  show valid: "valid_ipv4_packet sample_packet" by (simp add: valid_ipv4_packet_def sample_packet_def) code_simp
  then show "ipv4_destination sample_packet = Some [10, 77, 0, 2]"
    by (simp add: ipv4_destination_Some_iff sample_packet_def)
qed (simp add: sample_packet_def)

lemma sample_tun_to_client:
  "\<exists>srv' pid' f. tun_to_client sample_crypto sample_env sample_server 4 sample_packet = (srv', pid', [Send (Quic 7) f])"
proof -
  have found: "find_by_ipv4 sample_env sample_manager [10, 77, 0, 2] = Some sample_session"
    by (simp add: find_by_ipv4_def sample_manager_def) (simp add: sample_env_def)
  have err: "fst (access_error (is_revoked sample_crypto) sample_env (srv_verifier sample_server) sample_session) = None"
    using access_error_Some_iff [of sample_crypto sample_env sample_server sample_session]
    by (simp add: access_denied_now_def unix_time_def sample_env_def sample_crypto_def memory_is_revoked_def
        sample_server_def)
  have "fst (rate_allow (env_unix_ms sample_env) 20 (s_rate sample_session))"
    by (simp add: sample_session_def new_session_def sample_claims_def rate_allow_def rate_refill_def
        rate_limit_new_def sample_env_def Let_def word_less_nat_alt unat_burst_bytes)
  with found err sample_packet_facts show ?thesis
    by (auto simp: tun_to_client_def Let_def case_prod_unfold)
qed

theorem tun_packet_goes_to_owner_witness:
  "\<exists>srv' pid' f. tun_to_client sample_crypto sample_env sample_server 4 sample_packet = (srv', pid', [Send (Quic 7) f]) \<and>
     f = mk_frame Data 4 (data_encode (data_new (replicate 16 6) 4 sample_packet))"
proof -
  obtain srv' pid' f where t: "tun_to_client sample_crypto sample_env sample_server 4 sample_packet =
      (srv', pid', [Send (Quic 7) f])" using sample_tun_to_client by blast
  have "srv_inv sample_server" by (simp add: sample_facts)
  from tun_packet_goes_to_owner [OF this t, of "Quic 7" f] obtain s where "get sample_manager (s_id s) = Some s"
    "f = mk_frame Data 4 (data_encode (data_new (s_id s) 4 sample_packet))" by auto
  moreover from this(1) have "s_id s = replicate 16 6" by (auto simp: get_def sample_manager_def split: if_splits)
  ultimately show ?thesis using t by auto
qed

end
