(* ===== verification/Token_Tool.thy ===== *)
theory Token_Tool
  imports Routing Reality_Auth
begin

text \<open>
  The subscription tool (\<open>payphone-token/src/main.rs\<close>): its commands over the
  files of its working directory.  The outcome of the clock, of the random generator and
  of each file operation, and the Ed25519 and X25519 functions, are the environment.
  A file is its content, or \<open>None\<close> when it exists and cannot be read.
\<close>

type_synonym disk = "ustr \<rightharpoonup> bytes option"

record ToolEnv =
  writable :: "ustr \<Rightarrow> bool"
  mkdir_ok :: bool
  chmod_ok :: bool
  tool_clock :: "u64 option"
  key_rng :: "bytes option"
  id_rng :: "bytes option"
  client_rng :: "bytes option"
  seed_rng :: "bytes option"
  short_rng :: "bytes option"
  ed_public :: "bytes \<Rightarrow> bytes"
  ed_signature :: "bytes \<Rightarrow> bytes \<Rightarrow> bytes"
  x_clamp :: "bytes \<Rightarrow> bytes"
  x_public :: "bytes \<Rightarrow> bytes"
  revoke_file_var :: "ustr option"
  from_utf8 :: "bytes \<Rightarrow> ustr option"

datatype ToolError = BadDays | ZeroDays | UnknownPlan | AlreadyExists ustr | IoFailed | RandomFailed
  | NoPrivateKey | BadKeyLength | ClockFailed | LifetimeOverflow | ExpiryOverflow | BadToken AuthError | BadRevokeArg

section \<open>Paths\<close>

definition PRIVATE_KEY_PATH :: ustr where "PRIVATE_KEY_PATH = us ''auth-keys/subscription-private.key''"
definition PUBLIC_KEY_PATH :: ustr where "PUBLIC_KEY_PATH = us ''auth-keys/subscription-public.key''"
definition TOKEN_PATH :: ustr where "TOKEN_PATH = us ''subscription.token''"
definition REVOKED_PATH :: ustr where "REVOKED_PATH = us ''auth-keys/revoked-token-ids.txt''"
definition REALITY_PRIVATE_PATH :: ustr where "REALITY_PRIVATE_PATH = us ''auth-keys/reality-private.key''"
definition REALITY_PUBLIC_PATH :: ustr where "REALITY_PUBLIC_PATH = us ''auth-keys/reality-public.key''"
definition REALITY_SHORT_ID_PATH :: ustr where "REALITY_SHORT_ID_PATH = us ''auth-keys/reality-short-id.txt''"
definition KEY_ID :: u32 where "KEY_ID = 1"

section \<open>Files\<close>

definition file_exists :: "disk \<Rightarrow> ustr \<Rightarrow> bool" where
  "file_exists d p \<longleftrightarrow> d p \<noteq> None"

definition fs_write :: "ToolEnv \<Rightarrow> ustr \<Rightarrow> bytes \<Rightarrow> disk \<Rightarrow> (ToolError, unit) outcome \<times> disk" where
  "fs_write env p content d = (if writable env p then (Ok (), d(p \<mapsto> Some content)) else (Err IoFailed, d))"

definition or_fail :: "ToolError \<Rightarrow> 'a option \<Rightarrow> disk \<Rightarrow> (ToolError, 'a) outcome \<times> disk" where
  "or_fail e x d = ((case x of Some v \<Rightarrow> Ok v | None \<Rightarrow> Err e), d)"

definition load_signing_key :: "disk \<Rightarrow> (ToolError, bytes) outcome \<times> disk" where
  "load_signing_key d =
    (case d PRIVATE_KEY_PATH of
       Some (Some content) \<Rightarrow> ((if length content = 32 then Ok content else Err BadKeyLength), d)
     | _ \<Rightarrow> (Err NoPrivateKey, d))"

section \<open>Arguments\<close>

text \<open>\<open>parse::<u64>\<close>: an optional plus sign and decimal digits.\<close>

definition parse_u64 :: "ustr \<Rightarrow> u64 option" where
  "parse_u64 s =
    (let ds = (case s of c # r \<Rightarrow> if c = 43 \<and> r \<noteq> [] then r else s | [] \<Rightarrow> []);
         v = digits_value 10 (map (\<lambda>c. the (digit_value 10 c)) ds)
     in if ds = [] \<or> \<not> list_all (\<lambda>c. digit_value 10 c \<noteq> None) ds \<or> v \<ge> 2 ^ 64 then None else Some (of_nat v))"

definition parse_plan :: "ustr \<Rightarrow> SubscriptionPlan option" where
  "parse_plan value =
    (let low = map char_ascii_lower value in
     if low = us ''basic'' then Some Basic else if low = us ''pro'' then Some Pro
     else if low = us ''unlimited'' then Some Unlimited else None)"

definition checked_mul :: "u64 \<Rightarrow> u64 \<Rightarrow> u64 option" where
  "checked_mul a b = (if unat a * unat b < 2 ^ 64 then Some (a * b) else None)"

definition checked_add :: "u64 \<Rightarrow> u64 \<Rightarrow> u64 option" where
  "checked_add a b = (if unat a + unat b < 2 ^ 64 then Some (a + b) else None)"

section \<open>Commands\<close>

definition init_keys :: "ToolEnv \<Rightarrow> disk \<Rightarrow> (ToolError, unit) outcome \<times> disk" where
  "init_keys env d =
    (if file_exists d PRIVATE_KEY_PATH then (Err (AlreadyExists PRIVATE_KEY_PATH), d)
     else if file_exists d PUBLIC_KEY_PATH then (Err (AlreadyExists PUBLIC_KEY_PATH), d)
     else if \<not> mkdir_ok env then (Err IoFailed, d)
     else and_then (or_fail RandomFailed (key_rng env) d) (\<lambda>secret d.
          and_then (fs_write env PRIVATE_KEY_PATH secret d) (\<lambda>_ d.
          and_then (fs_write env PUBLIC_KEY_PATH (ed_public env secret) d) (\<lambda>_ d.
            ((if chmod_ok env then Ok () else Err IoFailed), d)))))"

definition init_reality_keys :: "ToolEnv \<Rightarrow> disk \<Rightarrow> (ToolError, unit) outcome \<times> disk" where
  "init_reality_keys env d =
    (if file_exists d REALITY_PRIVATE_PATH then (Err (AlreadyExists REALITY_PRIVATE_PATH), d)
     else if file_exists d REALITY_PUBLIC_PATH then (Err (AlreadyExists REALITY_PUBLIC_PATH), d)
     else if \<not> mkdir_ok env then (Err IoFailed, d)
     else and_then (or_fail RandomFailed (seed_rng env) d) (\<lambda>seed d.
          and_then (or_fail RandomFailed (short_rng env) d) (\<lambda>short_id d.
          and_then (fs_write env REALITY_PRIVATE_PATH (x_clamp env seed) d) (\<lambda>_ d.
          and_then (fs_write env REALITY_PUBLIC_PATH (x_public env seed) d) (\<lambda>_ d.
          and_then (fs_write env REALITY_SHORT_ID_PATH (map of_nat (token_id_hex short_id @ [10])) d) (\<lambda>_ d.
            ((if chmod_ok env then Ok () else Err IoFailed), d)))))))"

definition plan_limits :: "SubscriptionPlan \<Rightarrow> u8 \<times> u32" where
  "plan_limits p = (case p of Basic \<Rightarrow> (1, 100) | Pro \<Rightarrow> (5, 500) | Unlimited \<Rightarrow> (255, 0))"

definition subscription_lifetime :: "u64 \<Rightarrow> u64 option" where
  "subscription_lifetime days =
     Option.bind (checked_mul days 24) (\<lambda>v. Option.bind (checked_mul v 60) (\<lambda>v. checked_mul v 60))"

definition issued_claims :: "u64 \<Rightarrow> u64 \<Rightarrow> bytes \<Rightarrow> bytes \<Rightarrow> SubscriptionPlan \<Rightarrow> SubscriptionClaims" where
  "issued_claims now expires tid cid p =
     \<lparr>key_id = KEY_ID, token_id = tid, client_id = cid, issued_at = now, not_before = now, expires_at = expires,
      plan = p, device_limit = fst (plan_limits p), max_mbps = snd (plan_limits p)\<rparr>"

definition issue_token :: "ToolEnv \<Rightarrow> u64 \<Rightarrow> SubscriptionPlan \<Rightarrow> disk \<Rightarrow> (ToolError, unit) outcome \<times> disk" where
  "issue_token env days p d =
     and_then (load_signing_key d) (\<lambda>signing_key d.
     and_then (or_fail ClockFailed (tool_clock env) d) (\<lambda>now d.
     and_then (or_fail LifetimeOverflow (subscription_lifetime days) d) (\<lambda>lifetime d.
     and_then (or_fail ExpiryOverflow (checked_add now lifetime) d) (\<lambda>expires d.
     and_then (or_fail RandomFailed (id_rng env) d) (\<lambda>tid d.
     and_then (or_fail RandomFailed (client_rng env) d) (\<lambda>cid d.
       fs_write env TOKEN_PATH
         (token_encode (token_sign (ed_signature env) (issued_claims now expires tid cid p) signing_key)) d))))))"

text \<open>
  \<open>revoke\<close>: the identifier of a token file, or the argument as text, is appended to
  the list.
\<close>

definition revoke_path :: "ToolEnv \<Rightarrow> ustr" where
  "revoke_path env = (case revoke_file_var env of Some p \<Rightarrow> p | None \<Rightarrow> REVOKED_PATH)"

definition read_to_string :: "ToolEnv \<Rightarrow> disk \<Rightarrow> ustr \<Rightarrow> ustr option" where
  "read_to_string env d p = (case d p of Some (Some content) \<Rightarrow> from_utf8 env content | _ \<Rightarrow> None)"

definition revoked_id :: "ustr \<Rightarrow> disk \<Rightarrow> (ToolError, bytes) outcome" where
  "revoked_id arg d =
    (case d arg of
       Some None \<Rightarrow> Err IoFailed
     | Some (Some encoded) \<Rightarrow>
         (case token_decode encoded of
            Ok t \<Rightarrow> Ok (token_id (claims t)) | Err e \<Rightarrow> Err (BadToken e) | Panic \<Rightarrow> Panic)
     | None \<Rightarrow> (case parse_token_id_hex arg of Some tid \<Rightarrow> Ok tid | None \<Rightarrow> Err BadRevokeArg))"

definition revoke_token :: "ToolEnv \<Rightarrow> ustr \<Rightarrow> disk \<Rightarrow> (ToolError, unit) outcome \<times> disk" where
  "revoke_token env arg d =
     and_then (revoked_id arg d, d) (\<lambda>tid d.
       case append_revoked_id (mkdir_ok env) (read_to_string env d (revoke_path env)) tid of
         AppendDirError \<Rightarrow> (Err IoFailed, d)
       | AppendUnchanged \<Rightarrow> (Ok (), d)
       | AppendWrite txt \<Rightarrow> fs_write env (revoke_path env) (utf8_encode txt) d)"

definition cmd_issue :: "ToolEnv \<Rightarrow> ustr list \<Rightarrow> disk \<Rightarrow> (ToolError, unit) outcome \<times> disk" where
  "cmd_issue env rest d =
    (case rest of
       [days, p] \<Rightarrow>
         (case parse_u64 days of
            None \<Rightarrow> (Err BadDays, d)
          | Some n \<Rightarrow>
            if n = 0 then (Err ZeroDays, d)
            else (case parse_plan p of None \<Rightarrow> (Err UnknownPlan, d) | Some pl \<Rightarrow> issue_token env n pl d))
     | _ \<Rightarrow> (Ok (), d))"

definition cmd_setup :: "ToolEnv \<Rightarrow> ustr list \<Rightarrow> disk \<Rightarrow> (ToolError, unit) outcome \<times> disk" where
  "cmd_setup env rest d =
     and_then (if file_exists d PRIVATE_KEY_PATH then (Ok (), d) else init_keys env d) (\<lambda>_ d.
       (case rest of
          [days, p] \<Rightarrow>
            (case parse_u64 days of
               None \<Rightarrow> (Err BadDays, d)
             | Some n \<Rightarrow> (case parse_plan p of None \<Rightarrow> (Err UnknownPlan, d) | Some pl \<Rightarrow> issue_token env n pl d))
        | _ \<Rightarrow> (Ok (), d)))"

text \<open>The command line, without its program name.\<close>

definition token_main :: "ToolEnv \<Rightarrow> ustr list \<Rightarrow> disk \<Rightarrow> (ToolError, unit) outcome \<times> disk" where
  "token_main env args d =
    (case args of
       [] \<Rightarrow> (Ok (), d)
     | cmd # rest \<Rightarrow>
       if cmd = us ''init'' then init_keys env d
       else if cmd = us ''issue'' then cmd_issue env rest d
       else if cmd = us ''setup'' then cmd_setup env rest d
       else if cmd = us ''reality-init'' then init_reality_keys env d
       else if cmd = us ''revoke'' then (case rest of [arg] \<Rightarrow> revoke_token env arg d | _ \<Rightarrow> (Ok (), d))
       else (Ok (), d))"

text \<open>The server's side: it reads the public key and trusts it under the key identifier 1.\<close>

definition server_keyring :: "(bytes \<Rightarrow> 'vk option) \<Rightarrow> disk \<Rightarrow> ustr \<Rightarrow> 'vk keyring option" where
  "server_keyring vk_from_bytes d p =
    (case d p of
       Some (Some content) \<Rightarrow>
         if length content = 32
         then map_option (\<lambda>vk. keyring_insert keyring_new 1 vk) (vk_from_bytes content) else None
     | _ \<Rightarrow> None)"

section \<open>Facts\<close>

lemma or_fail_Ok [simp]: "or_fail e x d = (Ok v, d') \<longleftrightarrow> x = Some v \<and> d' = d"
  by (auto simp: or_fail_def split: option.splits)

lemma fs_write_Ok [simp]: "fs_write env p content d = (Ok x, d') \<longleftrightarrow> writable env p \<and> d' = d(p \<mapsto> Some content)"
  by (auto simp: fs_write_def)

lemma and_then_Ok_iff:
  "and_then r f = (Ok y, s') \<longleftrightarrow> (\<exists>x s. r = (Ok x, s) \<and> f x s = (Ok y, s'))"
  by (auto simp: and_then_def split: prod.split outcome.split)

lemma unat_checked_mul: "checked_mul a b = Some v \<longleftrightarrow> unat a * unat b < 2 ^ 64 \<and> v = a * b"
  by (auto simp: checked_mul_def)

lemma lifetime_value:
  assumes "subscription_lifetime days = Some l"
  shows "unat l = unat days * 86400"
proof -
  have m: "checked_mul a b = Some v \<Longrightarrow> unat v = unat a * unat b" for a b v
    by (auto simp: checked_mul_def unat_word_ariths split: if_splits)
  obtain v w where "checked_mul days 24 = Some v" "checked_mul v 60 = Some w" "checked_mul w 60 = Some l"
    using assms by (auto simp: subscription_lifetime_def bind_eq_Some_conv)
  from this [THEN m] show ?thesis by simp
qed

lemma expiry_value: "checked_add a b = Some v \<Longrightarrow> unat v = unat a + unat b"
  by (auto simp: checked_add_def unat_word_ariths split: if_splits)

lemma issue_token_Ok:
  assumes "issue_token env days p d = (Ok x, d')"
  obtains key now lifetime expires tid cid where
    "d PRIVATE_KEY_PATH = Some (Some key)" "length key = 32" "tool_clock env = Some now"
    "subscription_lifetime days = Some lifetime" "checked_add now lifetime = Some expires"
    "id_rng env = Some tid" "client_rng env = Some cid"
    "d' = d(TOKEN_PATH \<mapsto> Some (token_encode (token_sign (ed_signature env) (issued_claims now expires tid cid p) key)))"
  using assms by (auto simp: issue_token_def and_then_Ok_iff load_signing_key_def split: option.splits if_splits)

section \<open>An issued token\<close>

text \<open>The environment's random identifiers and signatures have their lengths.\<close>

definition env_lengths :: "ToolEnv \<Rightarrow> bool" where
  "env_lengths env \<longleftrightarrow>
    (\<forall>v. id_rng env = Some v \<longrightarrow> length v = TOKEN_ID_SIZE) \<and>
    (\<forall>v. client_rng env = Some v \<longrightarrow> length v = CLIENT_ID_SIZE) \<and>
    (\<forall>k m. length (ed_signature env k m) = SIGNATURE_SIZE)"

text \<open>Ed25519: a public key is 32 bytes and reads back, and it verifies what its secret key signs.\<close>

definition ed25519_laws :: "ToolEnv \<Rightarrow> (bytes \<Rightarrow> 'vk option) \<Rightarrow> ('vk \<Rightarrow> bytes \<Rightarrow> bytes \<Rightarrow> bool) \<Rightarrow> bool" where
  "ed25519_laws env vk_from_bytes ed_verify \<longleftrightarrow>
    (\<forall>k. length (ed_public env k) = 32 \<and>
      (\<exists>vk. vk_from_bytes (ed_public env k) = Some vk \<and> (\<forall>m. ed_verify vk m (ed_signature env k m))))"

lemma issued_token_aux:
  assumes laws: "ed25519_laws env vk_from_bytes ed_verify" "env_lengths env"
    and keys: "d PRIVATE_KEY_PATH = Some (Some key)" "d PUBLIC_KEY_PATH = Some (Some (ed_public env key))"
    and issue: "issue_token env days p d = (Ok x, d')"
    and server: "server_keyring vk_from_bytes d' PUBLIC_KEY_PATH = Some ring" "tool_clock env = Some now"
  shows "\<exists>encoded token. d' TOKEN_PATH = Some (Some encoded) \<and> token_decode encoded = Ok token \<and>
    plan (claims token) = p \<and> unat (expires_at (claims token)) = unat now + unat days * 86400 \<and>
    (\<forall>fs st at c. fst (verify_at ed_verify (file_is_revoked fs) \<lparr>keys = ring, revocations = st\<rparr> token at) = Ok c \<longleftrightarrow>
       c = claims token \<and> days \<noteq> 0 \<and> now \<le> sat_add at CLOCK_SKEW_SECONDS \<and> at < expires_at (claims token) \<and>
       token_id (claims token) \<notin> file_denied fs st)"
proof -
  from issue obtain lifetime expires tid cid where i:
    "subscription_lifetime days = Some lifetime" "checked_add now lifetime = Some expires"
    "id_rng env = Some tid" "client_rng env = Some cid"
    "d' = d(TOKEN_PATH \<mapsto> Some (token_encode (token_sign (ed_signature env) (issued_claims now expires tid cid p) key)))"
    by (rule issue_token_Ok) (use keys server(2) in auto)
  let ?c = "issued_claims now expires tid cid p"
  let ?t = "token_sign (ed_signature env) ?c key"
  have valid: "token_valid ?t" using laws(2) i(3,4)
    by (simp add: token_valid_def claims_valid_def token_sign_def issued_claims_def env_lengths_def)
  have exp: "unat expires = unat now + unat days * 86400"
    using expiry_value [OF i(2)] lifetime_value [OF i(1)] by simp
  then have less: "now < expires \<longleftrightarrow> days \<noteq> 0" by (auto simp: word_less_nat_alt unat_gt_0)
  have "d' PUBLIC_KEY_PATH = Some (Some (ed_public env key))"
    using keys(2) by (simp add: i(5) PUBLIC_KEY_PATH_def TOKEN_PATH_def)
  moreover obtain vk where vk1: "vk_from_bytes (ed_public env key) = Some vk" "\<And>m. ed_verify vk m (ed_signature env key m)"
    and "length (ed_public env key) = 32" using laws(1) by (auto simp: ed25519_laws_def)
  ultimately have vk: "ring = [1 \<mapsto> vk]" "\<And>m. ed_verify vk m (ed_signature env key m)"
    using server(1) vk1 by (auto simp: server_keyring_def keyring_insert_def keyring_new_def)
  have "fst (verify_at ed_verify (file_is_revoked fs) \<lparr>keys = ring, revocations = st\<rparr> ?t at) = Ok c \<longleftrightarrow>
       c = claims ?t \<and> days \<noteq> 0 \<and> now \<le> sat_add at CLOCK_SKEW_SECONDS \<and> at < expires_at (claims ?t) \<and>
       token_id (claims ?t) \<notin> file_denied fs st" for fs st at c
    unfolding file_store.verify_at_Ok_iff using vk less
    by (auto simp: token_sign_def issued_claims_def KEY_ID_def)
  then show ?thesis using token_decode_encode [OF valid] exp
    by (intro exI [of _ "token_encode ?t"] exI [of _ ?t]) (simp add: i(5), simp add: token_sign_def issued_claims_def)
qed


section \<open>Properties\<close>

text \<open>
  C28: an issued token admits until it expires.  When \<open>issue\<close> succeeds and the
  server trusts the tool's public key, the token file decodes to a token of the plan that
  expires the given number of days after now, and at any time the server accepts it
  exactly when the clocks agree to the allowed skew, it has not expired and its identifier
  is not revoked.
\<close>

theorem issued_token_admits:
  assumes "ed25519_laws env vk_from_bytes ed_verify" "env_lengths env"
    and "d PRIVATE_KEY_PATH = Some (Some key)" "d PUBLIC_KEY_PATH = Some (Some (ed_public env key))"
    and "token_main env [us ''issue'', days, pl] d = (Ok x, d')" "parse_u64 days = Some n" "parse_plan pl = Some p"
    and "server_keyring vk_from_bytes d' PUBLIC_KEY_PATH = Some ring" "tool_clock env = Some now"
  shows "\<exists>encoded token. d' TOKEN_PATH = Some (Some encoded) \<and> token_decode encoded = Ok token \<and>
    plan (claims token) = p \<and> unat (expires_at (claims token)) = unat now + unat n * 86400 \<and>
    (\<forall>fs st at c. fst (verify_at ed_verify (file_is_revoked fs) \<lparr>keys = ring, revocations = st\<rparr> token at) = Ok c \<longleftrightarrow>
       c = claims token \<and> now \<le> sat_add at CLOCK_SKEW_SECONDS \<and> at < expires_at (claims token) \<and>
       token_id (claims token) \<notin> file_denied fs st)"
proof -
  have n: "n \<noteq> 0" "issue_token env n p d = (Ok x, d')"
    using assms(5-7) by (auto simp: token_main_def cmd_issue_def split: if_splits)
  show ?thesis using issued_token_aux [OF assms(1-4) n(2) assms(8,9)] n(1) by simp
qed

definition demo_env :: ToolEnv where
  "demo_env = \<lparr>writable = (\<lambda>_. True), mkdir_ok = True, chmod_ok = True, tool_clock = Some 1000,
     key_rng = Some (replicate 32 7), id_rng = Some (replicate 16 1), client_rng = Some (replicate 16 2),
     seed_rng = Some (replicate 32 3), short_rng = Some (replicate 8 4),
     ed_public = (\<lambda>k. take 32 (k @ replicate 32 0)), ed_signature = (\<lambda>k m. replicate 64 9),
     x_clamp = (\<lambda>s. s), x_public = (\<lambda>s. s), revoke_file_var = None, from_utf8 = (\<lambda>b. Some (map unat b))\<rparr>"

definition demo_disk :: disk where
  "demo_disk = [PRIVATE_KEY_PATH \<mapsto> Some (replicate 32 7), PUBLIC_KEY_PATH \<mapsto> Some (replicate 32 7)]"

lemma demo_laws:
  "ed25519_laws demo_env Some (\<lambda>vk m sig. sig = replicate 64 9)" "env_lengths demo_env"
  by (auto simp: ed25519_laws_def env_lengths_def demo_env_def constants min_def)

lemma demo_paths [simp]: "PRIVATE_KEY_PATH \<noteq> PUBLIC_KEY_PATH" "TOKEN_PATH \<noteq> PUBLIC_KEY_PATH" "TOKEN_PATH \<noteq> PRIVATE_KEY_PATH"
    "PUBLIC_KEY_PATH \<noteq> PRIVATE_KEY_PATH" "PUBLIC_KEY_PATH \<noteq> TOKEN_PATH" "PRIVATE_KEY_PATH \<noteq> TOKEN_PATH"
  by (simp_all add: PRIVATE_KEY_PATH_def PUBLIC_KEY_PATH_def TOKEN_PATH_def)

lemma demo_args:
  "parse_u64 (us ''30'') = Some 30" "parse_u64 (us ''0'') = Some 0" "parse_plan (us ''Pro'') = Some Pro"
  by (simp_all add: parse_u64_def us_def digit_value_def is_ascii_hexdigit_def hex_value_def digits_value_def
      parse_plan_def char_ascii_lower_def)

lemma demo_issue:
  "subscription_lifetime n = Some l \<Longrightarrow> checked_add 1000 l = Some e \<Longrightarrow>
    \<exists>d'. issue_token demo_env n p demo_disk = (Ok (), d') \<and> d' PUBLIC_KEY_PATH = Some (Some (replicate 32 7))"
  by (simp add: issue_token_def and_then_def load_signing_key_def demo_disk_def or_fail_def fs_write_def demo_env_def)

theorem issued_token_admits_witness:
  "\<exists>d' encoded token. token_main demo_env [us ''issue'', us ''30'', us ''Pro''] demo_disk = (Ok (), d') \<and>
     d' TOKEN_PATH = Some (Some encoded) \<and> token_decode encoded = Ok token \<and>
     unat (expires_at (claims token)) = 1000 + 30 * 86400"
proof -
  have l: "subscription_lifetime 30 = Some 2592000" "checked_add 1000 2592000 = Some 2593000"
    by (simp_all add: subscription_lifetime_def checked_mul_def checked_add_def)
  obtain d' where d': "issue_token demo_env 30 Pro demo_disk = (Ok (), d')" "d' PUBLIC_KEY_PATH = Some (Some (replicate 32 7))"
    using demo_issue [OF l] by blast
  have main: "token_main demo_env [us ''issue'', us ''30'', us ''Pro''] demo_disk = (Ok (), d')"
    using d'(1) by (simp add: token_main_def cmd_issue_def demo_args)
  have ring: "server_keyring Some d' PUBLIC_KEY_PATH = Some [1 \<mapsto> replicate 32 7]"
    by (simp add: server_keyring_def d'(2) keyring_insert_def keyring_new_def)
  have "demo_disk PRIVATE_KEY_PATH = Some (Some (replicate 32 7))"
    "demo_disk PUBLIC_KEY_PATH = Some (Some (ed_public demo_env (replicate 32 7)))" "tool_clock demo_env = Some 1000"
    by (simp_all add: demo_disk_def demo_env_def)
  from issued_token_admits [OF demo_laws this(1,2) main demo_args(1,3) ring this(3)]
  show ?thesis using main by auto
qed

text \<open>
  \<open>setup 0\<close> issues a token no server accepts.  Unlike \<open>issue\<close>,
  \<open>setup\<close> takes a lifetime of zero days, writes a token whose interval is
  empty and reports success.
\<close>

theorem setup_zero_days_useless:
  assumes "ed25519_laws env vk_from_bytes ed_verify" "env_lengths env"
    and "d PRIVATE_KEY_PATH = Some (Some key)" "d PUBLIC_KEY_PATH = Some (Some (ed_public env key))"
    and "token_main env [us ''setup'', days, pl] d = (Ok x, d')" "parse_u64 days = Some 0" "parse_plan pl = Some p"
    and "server_keyring vk_from_bytes d' PUBLIC_KEY_PATH = Some ring" "tool_clock env = Some now"
  shows "\<exists>encoded token. d' TOKEN_PATH = Some (Some encoded) \<and> token_decode encoded = Ok token \<and>
    (\<forall>fs st at c. fst (verify_at ed_verify (file_is_revoked fs) \<lparr>keys = ring, revocations = st\<rparr> token at) \<noteq> Ok c)"
proof -
  have "issue_token env 0 p d = (Ok x, d')"
    using assms(3,5-7) by (simp add: token_main_def cmd_setup_def file_exists_def and_then_def)
  from issued_token_aux [OF assms(1-4) this assms(8,9)] show ?thesis by auto
qed

theorem setup_zero_days_useless_witness:
  "\<exists>d' encoded token. token_main demo_env [us ''setup'', us ''0'', us ''Pro''] demo_disk = (Ok (), d') \<and>
     d' TOKEN_PATH = Some (Some encoded) \<and> token_decode encoded = Ok token \<and>
     (\<forall>c. fst (verify_at (\<lambda>vk m sig. sig = replicate 64 9) (file_is_revoked \<lparr>fv_meta = MetaNotFound, fv_text = None\<rparr>)
        \<lparr>keys = [1 \<mapsto> replicate 32 (7 :: u8)], revocations = file_store_open\<rparr> token 1000) \<noteq> Ok c)"
proof -
  have l: "subscription_lifetime 0 = Some 0" "checked_add 1000 0 = Some 1000"
    by (simp_all add: subscription_lifetime_def checked_mul_def checked_add_def)
  obtain d' where d': "issue_token demo_env 0 Pro demo_disk = (Ok (), d')" "d' PUBLIC_KEY_PATH = Some (Some (replicate 32 7))"
    using demo_issue [OF l] by blast
  have main: "token_main demo_env [us ''setup'', us ''0'', us ''Pro''] demo_disk = (Ok (), d')"
    using d'(1) by (simp add: token_main_def cmd_setup_def demo_args file_exists_def demo_disk_def and_then_def)
  have ring: "server_keyring Some d' PUBLIC_KEY_PATH = Some [1 \<mapsto> replicate 32 7]"
    by (simp add: server_keyring_def d'(2) keyring_insert_def keyring_new_def)
  have "demo_disk PRIVATE_KEY_PATH = Some (Some (replicate 32 7))"
    "demo_disk PUBLIC_KEY_PATH = Some (Some (ed_public demo_env (replicate 32 7)))" "tool_clock demo_env = Some 1000"
    by (simp_all add: demo_disk_def demo_env_def)
  from setup_zero_days_useless [OF demo_laws this(1,2) main demo_args(2,3) ring this(3)]
  show ?thesis using main by blast
qed


text \<open>Writing a path leaves the others alone.\<close>

lemma fs_write_other: "p \<noteq> q \<Longrightarrow> snd (fs_write env q content d) p = d p"
  by (simp add: fs_write_def)

lemma and_then_keeps:
  assumes "snd r p = v" "\<And>x d. d p = v \<Longrightarrow> snd (f x d) p = v"
  shows "snd (and_then r f) p = v"
  using assms by (cases r; cases "fst r") (auto simp: and_then_def)

lemma or_fail_keeps [simp]: "snd (or_fail e x d) = d"
  by (simp add: or_fail_def)

lemma keys_preserved_aux:
  assumes "d p = Some v" "p \<in> {PRIVATE_KEY_PATH, PUBLIC_KEY_PATH}" "revoke_path env \<noteq> p"
  shows "snd (token_main env args d) p = Some v"
proof -
  have dist: "p \<noteq> TOKEN_PATH" "p \<noteq> REALITY_PRIVATE_PATH" "p \<noteq> REALITY_PUBLIC_PATH" "p \<noteq> REALITY_SHORT_ID_PATH"
    using assms(2) by (auto simp: REALITY_PRIVATE_PATH_def REALITY_PUBLIC_PATH_def REALITY_SHORT_ID_PATH_def
        PRIVATE_KEY_PATH_def PUBLIC_KEY_PATH_def TOKEN_PATH_def)
  have exists: "file_exists d PRIVATE_KEY_PATH \<or> file_exists d PUBLIC_KEY_PATH"
    using assms(1,2) by (auto simp: file_exists_def)
  have init: "snd (init_keys env d) p = Some v" using exists assms(1) by (auto simp: init_keys_def)
  have issue: "snd (issue_token env n pl d1) p = Some v" if "d1 p = Some v" for n pl d1
    unfolding issue_token_def
    by (intro and_then_keeps) (use that dist in \<open>simp_all add: load_signing_key_def fs_write_other split: option.split\<close>)
  have reality: "snd (init_reality_keys env d) p = Some v"
    by (auto simp: init_reality_keys_def assms(1) fs_write_other dist intro!: and_then_keeps)
  have revoke: "snd (revoke_token env arg d) p = Some v" for arg
    unfolding revoke_token_def
    by (intro and_then_keeps) (use assms in \<open>auto simp: fs_write_other split: AppendResult.split\<close>)
  have cmd_issue: "snd (cmd_issue env rest d) p = Some v" for rest
    using assms(1) by (auto simp: cmd_issue_def intro!: issue split: list.split option.split)
  have cmd_setup: "snd (cmd_setup env rest d) p = Some v" for rest
    unfolding cmd_setup_def
    by (rule and_then_keeps) (use init assms(1) in \<open>auto split: list.split option.split intro!: issue\<close>)
  show ?thesis
    using init reality revoke cmd_issue cmd_setup assms(1) by (auto simp: token_main_def split: list.split)
qed

text \<open>
  C29: the tool never overwrites a signing key.  Whatever the command and whatever fails, a key
  file that exists, private or public, keeps its content, provided the revocation list is
  not pointed at it.
\<close>

theorem signing_keys_preserved:
  assumes "d p = Some v" "p \<in> {PRIVATE_KEY_PATH, PUBLIC_KEY_PATH}" "revoke_path env \<noteq> p"
  shows "snd (token_main env args d) p = Some v"
  using keys_preserved_aux [where d = d and p = p, OF assms] .

theorem signing_keys_preserved_witness:
  "snd (token_main demo_env [us ''init''] demo_disk) PRIVATE_KEY_PATH = Some (Some (replicate 32 7))"
  by (rule signing_keys_preserved)
    (simp_all add: demo_disk_def revoke_path_def demo_env_def REVOKED_PATH_def PRIVATE_KEY_PATH_def)

lemma token_id_hex_ascii: "set (token_id_hex bs) \<subseteq> {..<128}"
  using token_id_hex_chars [of _ bs] by (force simp: is_ascii_hexdigit_def)



definition demo_token :: SubscriptionToken where
  "demo_token = \<lparr>claims = issued_claims 1000 2000 (replicate 16 1) (replicate 16 2) Pro, signature = replicate 64 9\<rparr>"

definition demo_revoke_disk :: disk where
  "demo_revoke_disk = [TOKEN_PATH \<mapsto> Some (token_encode demo_token), REVOKED_PATH \<mapsto> Some []]"

lemma ascii_text: "set t \<subseteq> {..<128} \<Longrightarrow> map unat (utf8_encode t) = t"
  by (induction t) (auto simp: utf8_encode_def utf8_char_def unat_of_nat take_bit_nat_eq_self)


end
