(* ===== verification/Identity.thy ===== *)
theory Identity
  imports Token_Tool Routing_Desktop Reality_Keys "HOL-Library.List_Lexorder"
begin

text \<open>
  The TLS identity (\<open>payphone-transport/src/identity.rs\<close>): names and addresses,
  where the certificate comes from, the generated identity and the roots a client trusts.
  The certificate and PEM libraries are parameters, files are a \<open>disk\<close> as for the
  subscription tool; paths are texts, compared as \<open>Path\<close> does, by components.
\<close>

definition CERT_PATH :: ustr where "CERT_PATH = us ''dev-certs/payphone-cert.der''"
definition KEY_PATH :: ustr where "KEY_PATH = us ''dev-certs/payphone-key.der''"
definition SERVER_NAME :: ustr where "SERVER_NAME = us ''localhost''"

section \<open>Names\<close>

fun split_on :: "nat \<Rightarrow> ustr \<Rightarrow> ustr list" where
  "split_on c [] = [[]]"
| "split_on c (x # xs) =
    (if x = c then [] # split_on c xs
     else (case split_on c xs of p # ps \<Rightarrow> (x # p) # ps | [] \<Rightarrow> [[x]]))"

definition same_name :: "ustr \<Rightarrow> ustr \<Rightarrow> bool" where
  "same_name a b \<longleftrightarrow> map char_ascii_lower a = map char_ascii_lower b"

text \<open>\<open>rsplit_once(':')\<close>: the part after the last colon.\<close>

definition after_last_colon :: "ustr \<Rightarrow> ustr" where
  "after_last_colon s = rev (takeWhile (\<lambda>c. c \<noteq> 58) (rev s))"

definition is_ascii_digit :: "nat \<Rightarrow> bool" where
  "is_ascii_digit c \<longleftrightarrow> 48 \<le> c \<and> c \<le> 57"

definition hostname_from_addr :: "ustr \<Rightarrow> ustr option" where
  "hostname_from_addr address =
    (let s = trim address in
     if s = [] then None
     else if hd s = 91 then
       (if 93 \<in> set (tl s) then
          (let host = trim (takeWhile (\<lambda>c. c \<noteq> 93) (tl s)) in if host = [] then None else Some host)
        else None)
     else case before_last_colon s of
       Some host \<Rightarrow> if host \<noteq> [] \<and> list_all is_ascii_digit (after_last_colon s) then Some host else Some s
     | None \<Rightarrow> Some s)"

definition looks_like_public_dns_name :: "ustr \<Rightarrow> bool" where
  "looks_like_public_dns_name name =
    (let s = rev (dropWhile (\<lambda>c. c = 46) (rev (trim name))) in
     if s = [] \<or> same_name s SERVER_NAME then False
     else if parse_ip s \<noteq> None then False
     else 46 \<in> set s)"

definition parse_sans :: "ustr option \<Rightarrow> ustr list" where
  "parse_sans value =
    (let names = filter (\<lambda>n. n \<noteq> []) (map trim (split_on 44 (case value of Some v \<Rightarrow> v | None \<Rightarrow> []))) in
     if names = [] then [SERVER_NAME] else names)"

section \<open>Configuration\<close>

record ServerTlsConfig =
  cert_path :: ustr
  key_path :: ustr
  sans :: "ustr list"
  acme_domain :: "ustr option"
  acme_email :: "ustr option"
  acme_dir :: ustr
  acme_staging :: bool

definition default_acme_dir :: "bool \<Rightarrow> ustr" where
  "default_acme_dir state_is_dir = us (if state_is_dir then ''/app/state/acme'' else ''dev-certs/acme'')"

definition server_tls_default :: "bool \<Rightarrow> ServerTlsConfig" where
  "server_tls_default state_is_dir =
     \<lparr>cert_path = CERT_PATH, key_path = KEY_PATH, sans = [SERVER_NAME], acme_domain = None, acme_email = None,
      acme_dir = default_acme_dir state_is_dir, acme_staging = False\<rparr>"

definition non_empty :: "ustr option \<Rightarrow> ustr option" where
  "non_empty v = (case v of Some [] \<Rightarrow> None | _ \<Rightarrow> v)"

definition or_else :: "'a option \<Rightarrow> 'a \<Rightarrow> 'a" where
  "or_else v d = (case v of Some x \<Rightarrow> x | None \<Rightarrow> d)"

definition truthy :: "ustr \<Rightarrow> bool" where
  "truthy v \<longleftrightarrow> map char_ascii_lower v \<in> {us ''1'', us ''true'', us ''on'', us ''yes''}"

definition server_tls_from_env :: "bool \<Rightarrow> (ustr \<Rightarrow> ustr option) \<Rightarrow> ServerTlsConfig" where
  "server_tls_from_env state_is_dir env =
     \<lparr>cert_path = or_else (env (us ''PAYPHONE_TLS_CERT'')) CERT_PATH,
      key_path = or_else (env (us ''PAYPHONE_TLS_KEY'')) KEY_PATH,
      sans = parse_sans (env (us ''PAYPHONE_TLS_SAN'')),
      acme_domain = non_empty (env (us ''PAYPHONE_TLS_DOMAIN'')),
      acme_email = non_empty (env (us ''PAYPHONE_ACME_EMAIL'')),
      acme_dir = or_else (env (us ''PAYPHONE_ACME_DIR'')) (default_acme_dir state_is_dir),
      acme_staging = truthy (or_else (env (us ''PAYPHONE_ACME_STAGING'')) [])\<rparr>"

text \<open>Path components: repeated and trailing separators and inner dots do not count.\<close>

definition path_components :: "ustr \<Rightarrow> bool \<times> ustr list" where
  "path_components p =
    (let parts = filter (\<lambda>c. c \<noteq> []) (split_on 47 p); absolute = (p \<noteq> [] \<and> hd p = 47) in
     (absolute,
      if absolute \<or> parts = [] then filter (\<lambda>c. c \<noteq> [46]) parts
      else hd parts # filter (\<lambda>c. c \<noteq> [46]) (tl parts)))"

definition same_path :: "ustr \<Rightarrow> ustr \<Rightarrow> bool" where
  "same_path a b \<longleftrightarrow> path_components a = path_components b"

definition uses_default_paths :: "ServerTlsConfig \<Rightarrow> bool" where
  "uses_default_paths cfg \<longleftrightarrow> same_path (cert_path cfg) CERT_PATH \<and> same_path (key_path cfg) KEY_PATH"

definition acme_enabled :: "ServerTlsConfig \<Rightarrow> bool" where
  "acme_enabled cfg \<longleftrightarrow>
    (case acme_domain cfg of Some name \<Rightarrow> looks_like_public_dns_name name | None \<Rightarrow> False) \<and> uses_default_paths cfg"

definition local_hostnames :: "ServerTlsConfig \<Rightarrow> ustr list" where
  "local_hostnames cfg =
     filter (\<lambda>n. n \<noteq> [])
       (remdups_adj (sort (sans cfg @ (case acme_domain cfg of Some d \<Rightarrow> [d] | None \<Rightarrow> []))))"

record ClientTlsConfig =
  server_name :: ustr
  pin_path :: ustr
  use_webpki :: bool
  reality_cfg :: "RealityClientConfig option"

definition client_tls_default :: ClientTlsConfig where
  "client_tls_default = \<lparr>server_name = SERVER_NAME, pin_path = CERT_PATH, use_webpki = False, reality_cfg = None\<rparr>"

definition trusts_public_roots :: "ustr \<Rightarrow> bool" where
  "trusts_public_roots v \<longleftrightarrow>
     map char_ascii_lower v \<in> {us ''system'', us ''webpki'', us ''public'', us ''1'', us ''true''}"

definition client_tls_from_env :: "(ustr \<Rightarrow> ustr option) \<Rightarrow> ClientTlsConfig" where
  "client_tls_from_env env =
     \<lparr>server_name = or_else (non_empty (env (us ''PAYPHONE_SERVER_NAME''))) SERVER_NAME,
      pin_path = (case env (us ''PAYPHONE_TLS_PIN'') of
          Some p \<Rightarrow> p | None \<Rightarrow> or_else (env (us ''PAYPHONE_TLS_CERT'')) CERT_PATH),
      use_webpki = (case env (us ''PAYPHONE_TLS_CA'') of Some v \<Rightarrow> trusts_public_roots v | None \<Rightarrow> False),
      reality_cfg = None\<rparr>"

section \<open>Files\<close>

datatype IdentityError = CertUnreadable | KeyUnreadable | BadPem | NoCertificates | NoPrivateKeyInPem
  | IdentityMissing | IdentityIo | GenerateFailed | PinMissing | BadRoot | EmptyTrustStore

definition PEM_MARKER :: bytes where "PEM_MARKER = map of_char ''-----BEGIN''"

fun windows :: "nat \<Rightarrow> 'a list \<Rightarrow> 'a list list" where
  "windows n [] = []"
| "windows n (x # xs) = (if length (x # xs) < n then [] else take n (x # xs) # windows n xs)"

definition looks_like_pem :: "bytes \<Rightarrow> bool" where
  "looks_like_pem content \<longleftrightarrow> prefix PEM_MARKER content \<or> list_ex (\<lambda>w. w = PEM_MARKER) (windows 11 content)"

text \<open>The PEM library, the certificate generator and the trust store's check of a root.\<close>

record CertLib =
  pem_certs :: "bytes \<Rightarrow> bytes list option"
  pem_private_key :: "bytes \<Rightarrow> bytes option option"
  self_signed :: "ustr list \<Rightarrow> (bytes \<times> bytes) option"
  acceptable_root :: "bytes \<Rightarrow> bool"
  webpki_roots :: "bytes list"

definition load_certificates :: "CertLib \<Rightarrow> disk \<Rightarrow> ustr \<Rightarrow> (IdentityError, bytes list) outcome" where
  "load_certificates lib d p =
    (case d p of
       Some (Some content) \<Rightarrow>
         if looks_like_pem content then
           (case pem_certs lib content of
              None \<Rightarrow> Err BadPem
            | Some certs \<Rightarrow> if certs = [] then Err NoCertificates else Ok certs)
         else Ok [content]
     | _ \<Rightarrow> Err CertUnreadable)"

definition load_private_key :: "CertLib \<Rightarrow> disk \<Rightarrow> ustr \<Rightarrow> (IdentityError, bytes) outcome" where
  "load_private_key lib d p =
    (case d p of
       Some (Some content) \<Rightarrow>
         if looks_like_pem content then
           (case pem_private_key lib content of
              None \<Rightarrow> Err BadPem
            | Some None \<Rightarrow> Err NoPrivateKeyInPem
            | Some (Some k) \<Rightarrow> Ok k)
         else Ok content
     | _ \<Rightarrow> Err KeyUnreadable)"

definition identity_names :: "ServerTlsConfig \<Rightarrow> ustr list" where
  "identity_names cfg =
    (case acme_domain cfg of
       Some domain \<Rightarrow>
         if looks_like_public_dns_name domain \<and> \<not> list_ex (\<lambda>n. same_name n domain) (sans cfg)
         then sans cfg @ [domain] else sans cfg
     | None \<Rightarrow> sans cfg)"

definition identity_write :: "ToolEnv \<Rightarrow> ustr \<Rightarrow> bytes \<Rightarrow> disk \<Rightarrow> (IdentityError, unit) outcome \<times> disk" where
  "identity_write env p content d = (if writable env p then (Ok (), d(p \<mapsto> Some content)) else (Err IdentityIo, d))"

definition ensure_server_identity ::
  "ToolEnv \<Rightarrow> CertLib \<Rightarrow> ServerTlsConfig \<Rightarrow> disk \<Rightarrow> (IdentityError, unit) outcome \<times> disk" where
  "ensure_server_identity env lib cfg d =
    (if file_exists d (cert_path cfg) \<and> file_exists d (key_path cfg) then (Ok (), d)
     else if \<not> uses_default_paths cfg then (Err IdentityMissing, d)
     else if \<not> mkdir_ok env then (Err IdentityIo, d)
     else (case self_signed lib (identity_names cfg) of
         None \<Rightarrow> (Err GenerateFailed, d)
       | Some (cert, key) \<Rightarrow>
           and_then (identity_write env (cert_path cfg) cert d) (\<lambda>_ d. identity_write env (key_path cfg) key d)))"

definition load_server_tls ::
  "ToolEnv \<Rightarrow> CertLib \<Rightarrow> ServerTlsConfig \<Rightarrow> disk \<Rightarrow> (IdentityError, bytes list \<times> bytes) outcome \<times> disk" where
  "load_server_tls env lib cfg d =
     and_then (ensure_server_identity env lib cfg d) (\<lambda>_ d.
       (obind (load_certificates lib d (cert_path cfg)) (\<lambda>certs.
        obind (load_private_key lib d (key_path cfg)) (\<lambda>key. Ok (certs, key))), d))"

fun add_roots :: "CertLib \<Rightarrow> bytes list \<Rightarrow> bytes list \<Rightarrow> (IdentityError, bytes list) outcome" where
  "add_roots lib roots [] = Ok roots"
| "add_roots lib roots (c # cs) = (if acceptable_root lib c then add_roots lib (roots @ [c]) cs else Err BadRoot)"

definition client_root_store :: "CertLib \<Rightarrow> ClientTlsConfig \<Rightarrow> disk \<Rightarrow> (IdentityError, bytes list) outcome" where
  "client_root_store lib cfg d =
    (let roots = (if use_webpki cfg then webpki_roots lib else []) in
     obind (if file_exists d (pin_path cfg)
            then obind (load_certificates lib d (pin_path cfg)) (add_roots lib roots)
            else if \<not> use_webpki cfg then Err PinMissing else Ok roots)
       (\<lambda>roots. if roots = [] then Err EmptyTrustStore else Ok roots))"

section \<open>Facts\<close>

lemma windows_length: "w \<in> set (windows n xs) \<Longrightarrow> length w = n"
  by (induction n xs rule: windows.induct) (auto split: if_splits)

text \<open>
  PEM data is only recognised by its first bytes: the search for the marker further on
  compares windows of 11 bytes with the 10 bytes of the marker.
\<close>

theorem pem_only_at_start:
  "looks_like_pem content \<longleftrightarrow> prefix PEM_MARKER content"
proof -
  have "length PEM_MARKER = 10" by (simp add: PEM_MARKER_def)
  then have "\<not> list_ex (\<lambda>w. w = PEM_MARKER) (windows 11 content)"
    by (auto simp: list_ex_iff dest: windows_length)
  then show ?thesis by (simp add: looks_like_pem_def)
qed

lemma identity_write_Ok [simp]:
  "identity_write env p content d = (Ok x, d') \<longleftrightarrow> writable env p \<and> d' = d(p \<mapsto> Some content)"
  by (auto simp: identity_write_def)

lemma ensure_identity_frame:
  "p \<noteq> cert_path cfg \<Longrightarrow> p \<noteq> key_path cfg \<Longrightarrow> snd (ensure_server_identity env lib cfg d) p = d p"
  by (auto simp: ensure_server_identity_def and_then_def identity_write_def split: option.split)

lemma ensure_identity_Ok:
  "ensure_server_identity env lib cfg d = (Ok x, d') \<Longrightarrow> file_exists d' (cert_path cfg) \<and> file_exists d' (key_path cfg)"
  by (auto simp: ensure_server_identity_def and_then_Ok_iff file_exists_def split: if_splits option.splits)

text \<open>
  The server's identity is invented at most once, and only at the default paths.  Asking
  for the identity changes nothing when certificate and key exist, or when either path is
  not the default one; it never touches another file; and when it succeeds both
  files exist.
\<close>

theorem server_identity_safe:
  "((file_exists d (cert_path cfg) \<and> file_exists d (key_path cfg)) \<or> \<not> uses_default_paths cfg \<longrightarrow>
      snd (ensure_server_identity env lib cfg d) = d) \<and>
   (p \<noteq> cert_path cfg \<and> p \<noteq> key_path cfg \<longrightarrow> snd (ensure_server_identity env lib cfg d) p = d p) \<and>
   (fst (ensure_server_identity env lib cfg d) = Ok () \<longrightarrow>
      file_exists (snd (ensure_server_identity env lib cfg d)) (cert_path cfg) \<and>
      file_exists (snd (ensure_server_identity env lib cfg d)) (key_path cfg))"
proof (intro conjI impI)
  show "snd (ensure_server_identity env lib cfg d) = d"
    if "(file_exists d (cert_path cfg) \<and> file_exists d (key_path cfg)) \<or> \<not> uses_default_paths cfg"
    using that by (auto simp: ensure_server_identity_def)
  show "snd (ensure_server_identity env lib cfg d) p = d p" if "p \<noteq> cert_path cfg \<and> p \<noteq> key_path cfg"
    using that by (simp add: ensure_identity_frame)
  assume "fst (ensure_server_identity env lib cfg d) = Ok ()"
  then have "ensure_server_identity env lib cfg d = (Ok (), snd (ensure_server_identity env lib cfg d))"
    by (metis prod.collapse)
  from ensure_identity_Ok [OF this]
  show "file_exists (snd (ensure_server_identity env lib cfg d)) (cert_path cfg)"
    "file_exists (snd (ensure_server_identity env lib cfg d)) (key_path cfg)" by simp_all
qed

definition demo_lib :: CertLib where
  "demo_lib = \<lparr>pem_certs = (\<lambda>_. None), pem_private_key = (\<lambda>_. None), self_signed = (\<lambda>names. Some ([0x30, 1], [0x30, 2])),
     acceptable_root = (\<lambda>_. True), webpki_roots = []\<rparr>"

theorem server_identity_safe_witness:
  "ensure_server_identity demo_env demo_lib (server_tls_default False) [CERT_PATH \<mapsto> Some [1], KEY_PATH \<mapsto> Some [2]] =
     (Ok (), [CERT_PATH \<mapsto> Some [1], KEY_PATH \<mapsto> Some [2]])"
proof -
  let ?d = "[CERT_PATH \<mapsto> Some [1], KEY_PATH \<mapsto> Some [2]] :: disk"
  let ?c = "server_tls_default False"
  have "file_exists ?d (cert_path ?c) \<and> file_exists ?d (key_path ?c)"
    by (simp add: file_exists_def server_tls_default_def CERT_PATH_def KEY_PATH_def)
  moreover from this have "fst (ensure_server_identity demo_env demo_lib ?c ?d) = Ok ()"
    by (simp add: ensure_server_identity_def)
  ultimately show ?thesis
    using server_identity_safe [of ?d ?c demo_env demo_lib] by (metis prod.collapse)
qed

text \<open>
  C0: a client without the public roots trusts exactly its pinned certificates.  When the
  trust store can be built it is not empty; without \<open>use_webpki\<close> it holds the
  certificates of the pin file and nothing else, and with it the public roots come first.
\<close>

lemma add_roots_Ok: "add_roots lib roots cs = Ok rs \<longleftrightarrow> list_all (acceptable_root lib) cs \<and> rs = roots @ cs"
  by (induction cs arbitrary: roots) auto

theorem client_trust_exact:
  assumes "client_root_store lib cfg d = Ok roots"
  shows "roots \<noteq> [] \<and> (\<not> use_webpki cfg \<longrightarrow> load_certificates lib d (pin_path cfg) = Ok roots) \<and>
    (use_webpki cfg \<longrightarrow> (\<exists>pins. roots = webpki_roots lib @ pins \<and>
       (pins \<noteq> [] \<longrightarrow> load_certificates lib d (pin_path cfg) = Ok pins)))"
  using assms unfolding client_root_store_def
  by (auto simp: Let_def obind_eq_Ok add_roots_Ok split: if_splits)

theorem client_trust_exact_witness:
  "client_root_store demo_lib client_tls_default [CERT_PATH \<mapsto> Some [0x30, 1]] = Ok [[0x30, 1]] \<and>
   load_certificates demo_lib [CERT_PATH \<mapsto> Some [0x30, 1]] CERT_PATH = Ok [[0x30, 1]]"
proof -
  have ok: "client_root_store demo_lib client_tls_default [CERT_PATH \<mapsto> Some [0x30, 1]] = Ok [[0x30, 1]]"
    by (simp add: client_root_store_def client_tls_default_def file_exists_def load_certificates_def
        looks_like_pem_def PEM_MARKER_def demo_lib_def)
  from client_trust_exact [OF this] ok show ?thesis by (simp add: client_tls_default_def)
qed

text \<open>The generated identity is the one the server then loads.\<close>

theorem generated_identity_loads:
  assumes "d (cert_path cfg) = None" "uses_default_paths cfg" "mkdir_ok env" "writable env (cert_path cfg)"
    "writable env (key_path cfg)" "self_signed lib (identity_names cfg) = Some (cert, key)"
    "cert_path cfg \<noteq> key_path cfg" "\<not> looks_like_pem cert" "\<not> looks_like_pem key"
  shows "fst (load_server_tls env lib cfg d) = Ok ([cert], key)"
  using assms by (simp add: load_server_tls_def ensure_server_identity_def file_exists_def and_then_def
      identity_write_def load_certificates_def load_private_key_def)

theorem generated_identity_loads_witness:
  "fst (load_server_tls demo_env demo_lib (server_tls_default False) Map.empty) = Ok ([[0x30, 1]], [0x30, 2])"
  by (rule generated_identity_loads)
    (simp_all add: server_tls_default_def uses_default_paths_def same_path_def demo_env_def demo_lib_def CERT_PATH_def KEY_PATH_def
      looks_like_pem_def PEM_MARKER_def)

end
