(* ===== verification/Tls_Runtime.thy ===== *)
theory Tls_Runtime
  imports Identity
begin

text \<open>
  The server's TLS identity at run time (\<open>payphone-transport/src/tls.rs\<close>): the
  certificate that is reloaded when its files change, the resolver that asks the ACME client
  first, start-up, and the order for a public certificate.  Certificate parsing and
  generation are the library \<open>CertLib\<close>; the signature types rustls supports, the
  answers of the ACME client and the modification times are arguments.
\<close>

datatype TlsRuntimeError =
    IdentityFailed IdentityError
  | UnsupportedKey
  | CertificateNotLoaded
  | AcmeDomainNotPublic
  | AcmeDirFailed

type_synonym CertifiedKey = "bytes list \<times> bytes"

record CachedCert =
  ck_key :: CertifiedKey
  ck_cert_mtime :: "u64 option"
  ck_key_mtime :: "u64 option"

text \<open>The surroundings that stay the same while the server runs.\<close>

record TlsHost =
  th_env :: ToolEnv
  th_lib :: CertLib
  th_supported :: "bytes \<Rightarrow> bool"
  th_acme_dir_ok :: bool

definition load_certified_key :: "TlsHost \<Rightarrow> ServerTlsConfig \<Rightarrow> disk \<Rightarrow> (TlsRuntimeError, CertifiedKey) outcome \<times> disk" where
  "load_certified_key host cfg d =
    (case ensure_server_identity (th_env host) (th_lib host) cfg d of
       (Err e, d) \<Rightarrow> (Err (IdentityFailed e), d)
     | (Panic, d) \<Rightarrow> (Panic, d)
     | (Ok _, d) \<Rightarrow>
        (obind (map_err IdentityFailed (load_certificates (th_lib host) d (cert_path cfg))) (\<lambda>certs.
         obind (map_err IdentityFailed (load_private_key (th_lib host) d (key_path cfg))) (\<lambda>key.
           if th_supported host key then Ok (certs, key) else Err UnsupportedKey)), d))"

text \<open>\<open>ReloadingFileResolver::current\<close>, with the modification times it reads.\<close>

definition resolver_current ::
  "TlsHost \<Rightarrow> ServerTlsConfig \<Rightarrow> (ustr \<Rightarrow> u64 option) \<Rightarrow> CachedCert option \<Rightarrow> disk \<Rightarrow>
   CertifiedKey option \<times> CachedCert option \<times> disk" where
  "resolver_current host cfg mtime cached d =
    (let cert_mtime = mtime (cert_path cfg); key_mtime = mtime (key_path cfg);
         stale = (case cached of None \<Rightarrow> True
                  | Some ck \<Rightarrow> ck_cert_mtime ck \<noteq> cert_mtime \<or> ck_key_mtime ck \<noteq> key_mtime)
     in if stale then
          (case load_certified_key host cfg d of
             (Ok key, d) \<Rightarrow>
               (Some key, Some \<lparr>ck_key = key, ck_cert_mtime = cert_mtime, ck_key_mtime = key_mtime\<rparr>, d)
           | (_, d) \<Rightarrow> (map_option ck_key cached, cached, d))
        else (map_option ck_key cached, cached, d))"

text \<open>\<open>CompositeResolver::resolve\<close>: what the ACME client answers, if there is one.\<close>

definition composite_resolve ::
  "TlsHost \<Rightarrow> ServerTlsConfig \<Rightarrow> CertifiedKey option \<Rightarrow> (ustr \<Rightarrow> u64 option) \<Rightarrow> CachedCert option \<Rightarrow> disk \<Rightarrow>
   CertifiedKey option \<times> CachedCert option \<times> disk" where
  "composite_resolve host cfg acme_answer mtime cached d =
    (case acme_answer of
       Some key \<Rightarrow> (Some key, cached, d)
     | None \<Rightarrow> resolver_current host cfg mtime cached d)"

section \<open>Start-up\<close>

record AcmeOrder =
  ao_domain :: ustr
  ao_contact :: ustr
  ao_production :: bool
  ao_cache :: ustr

definition acme_contact :: "ServerTlsConfig \<Rightarrow> ustr \<Rightarrow> ustr" where
  "acme_contact cfg domain =
    (let email = (case acme_email cfg of Some e \<Rightarrow> e | None \<Rightarrow> us ''mailto:admin@'' @ domain)
     in if prefix (us ''mailto:'') email then email else us ''mailto:'' @ email)"

definition start_acme :: "TlsHost \<Rightarrow> ServerTlsConfig \<Rightarrow> ustr \<Rightarrow> (TlsRuntimeError, AcmeOrder) outcome" where
  "start_acme host cfg domain =
    (if \<not> looks_like_public_dns_name domain then Err AcmeDomainNotPublic
     else if \<not> th_acme_dir_ok host then Err AcmeDirFailed
     else Ok \<lparr>ao_domain = domain, ao_contact = acme_contact cfg domain, ao_production = (\<not> acme_staging cfg),
              ao_cache = acme_dir cfg\<rparr>)"

record ServerTlsRuntime =
  rt_tls :: ServerTlsConfig
  rt_acme_challenge :: "AcmeOrder option"
  rt_cached :: "CachedCert option"

definition tls_runtime_start ::
  "TlsHost \<Rightarrow> ServerTlsConfig \<Rightarrow> (ustr \<Rightarrow> u64 option) \<Rightarrow> disk \<Rightarrow> (TlsRuntimeError, ServerTlsRuntime) outcome \<times> disk" where
  "tls_runtime_start host cfg mtime d =
    (case ensure_server_identity (th_env host) (th_lib host) cfg d of
       (Err e, d) \<Rightarrow> (Err (IdentityFailed e), d)
     | (Panic, d) \<Rightarrow> (Panic, d)
     | (Ok _, d) \<Rightarrow>
       (case resolver_current host cfg mtime None d of
          (None, _, d) \<Rightarrow> (Err CertificateNotLoaded, d)
        | (Some _, cached, d) \<Rightarrow>
            (if acme_enabled cfg then
               (case acme_domain cfg of
                  None \<Rightarrow> Panic
                | Some domain \<Rightarrow> obind (start_acme host cfg domain) (\<lambda>started.
                    Ok \<lparr>rt_tls = cfg, rt_acme_challenge = Some started, rt_cached = cached\<rparr>))
             else Ok \<lparr>rt_tls = cfg, rt_acme_challenge = None, rt_cached = cached\<rparr>, d)))"

section \<open>Handshakes over time\<close>

text \<open>
  A handshake: what was done to the files since the last one, the modification times it
  reads, and what the ACME client answers.
\<close>

record Handshake =
  hk_files :: "disk \<Rightarrow> disk"
  hk_mtime :: "ustr \<Rightarrow> u64 option"
  hk_acme :: "CertifiedKey option"

fun serve_handshakes ::
  "TlsHost \<Rightarrow> ServerTlsConfig \<Rightarrow> Handshake list \<Rightarrow> CachedCert option \<Rightarrow> disk \<Rightarrow>
   CertifiedKey option list \<times> CachedCert option \<times> disk" where
  "serve_handshakes host cfg [] cached d = ([], cached, d)"
| "serve_handshakes host cfg (hs # later) cached d =
    (case composite_resolve host cfg (hk_acme hs) (hk_mtime hs) cached (hk_files hs d) of
       (answer, cached, d) \<Rightarrow>
         (case serve_handshakes host cfg later cached d of (answers, cached, d) \<Rightarrow> (answer # answers, cached, d)))"

lemma resolver_current_cached:
  assumes "resolver_current host cfg mtime (Some ck) d = (answer, cached', d')"
  shows "answer \<noteq> None \<and> (\<exists>ck'. cached' = Some ck' \<and> answer = Some (ck_key ck'))"
  using assms by (auto simp: resolver_current_def Let_def split: if_splits prod.splits outcome.splits)

lemma serve_handshakes_cached:
  "serve_handshakes host cfg hss (Some ck) d = (answers, cached', d') \<Longrightarrow> None \<notin> set answers \<and> cached' \<noteq> None"
proof (induction hss arbitrary: ck d answers)
  case (Cons hs hss)
  obtain answer c1 d1 where r: "composite_resolve host cfg (hk_acme hs) (hk_mtime hs) (Some ck) (hk_files hs d) = (answer, c1, d1)"
    by (metis prod.exhaust)
  have "answer \<noteq> None \<and> (\<exists>ck'. c1 = Some ck')"
  proof (cases "hk_acme hs")
    case None
    then show ?thesis using r resolver_current_cached [of host cfg "hk_mtime hs" ck "hk_files hs d" answer c1 d1]
      by (auto simp: composite_resolve_def)
  next
    case (Some key)
    then have "answer = Some key" "c1 = Some ck" using r by (simp_all add: composite_resolve_def)
    then show ?thesis by simp
  qed
  then show ?case using Cons.prems Cons.IH r by (auto split: prod.splits)
qed auto

lemma started_cached:
  assumes "tls_runtime_start host cfg mtime d = (Ok rt, d')"
  shows "rt_cached rt \<noteq> None \<and> rt_tls rt = cfg"
  using assms
  by (auto simp: tls_runtime_start_def resolver_current_def Let_def obind_eq_Ok
      split: prod.splits outcome.splits option.splits if_splits)

text \<open>A default identity: which certificate a missing file leads to.\<close>

lemma regenerate:
  assumes "uses_default_paths cfg" "\<not> (file_exists d (cert_path cfg) \<and> file_exists d (key_path cfg))"
    and "mkdir_ok (th_env host)" "self_signed (th_lib host) (identity_names cfg) = Some (cert, key)"
    and "writable (th_env host) (cert_path cfg)" "writable (th_env host) (key_path cfg)" "cert_path cfg \<noteq> key_path cfg"
    and "\<not> looks_like_pem cert" "\<not> looks_like_pem key" "th_supported host key"
  shows "load_certified_key host cfg d = (Ok ([cert], key), d(cert_path cfg \<mapsto> Some cert, key_path cfg \<mapsto> Some key))"
  using assms
  by (auto simp: load_certified_key_def ensure_server_identity_def identity_write_def and_then_def
      load_certificates_def load_private_key_def)

section \<open>Properties\<close>

text \<open>
  A server that started always has a certificate.  Whatever happens to the certificate
  files afterwards (removed, truncated, replaced by a key that does not parse), every TLS
  handshake on QUIC and TCP is answered with a certificate.
\<close>

theorem certificate_always_served:
  assumes "tls_runtime_start host cfg mtime d = (Ok rt, d')"
    and "serve_handshakes host (rt_tls rt) hss (rt_cached rt) d'' = (answers, cached', d3)"
  shows "None \<notin> set answers"
  using started_cached [OF assms(1)] serve_handshakes_cached assms(2) by (cases "rt_cached rt") auto

text \<open>
  Certificates are reloaded when and only when their files change.  A handshake that the
  ACME client does not answer is served the pair the files hold when a modification time
  differs from the one of the cached pair and the files load, the cached pair when
  they do not load, and the cached pair when both times are the same.
\<close>

theorem reload_exact:
  assumes "file_exists d (cert_path cfg)" "file_exists d (key_path cfg)"
  shows "fst (composite_resolve host cfg None mtime (Some ck) d) =
    Some (if mtime (cert_path cfg) \<noteq> ck_cert_mtime ck \<or> mtime (key_path cfg) \<noteq> ck_key_mtime ck
          then (case (load_certificates (th_lib host) d (cert_path cfg), load_private_key (th_lib host) d (key_path cfg)) of
                  (Ok certs, Ok key) \<Rightarrow> if th_supported host key then (certs, key) else ck_key ck
                | _ \<Rightarrow> ck_key ck)
          else ck_key ck) \<and>
    snd (snd (composite_resolve host cfg None mtime (Some ck) d)) = d"
proof -
  have "load_certificates lib d p \<noteq> Panic" "load_private_key lib d p \<noteq> Panic" for lib p
    by (simp_all add: load_certificates_def load_private_key_def split: option.split)
  moreover have "ensure_server_identity (th_env host) (th_lib host) cfg d = (Ok (), d)"
    using assms by (simp add: ensure_server_identity_def)
  ultimately show ?thesis
    by (cases "load_certificates (th_lib host) d (cert_path cfg)"; cases "load_private_key (th_lib host) d (key_path cfg)")
      (auto simp: composite_resolve_def resolver_current_def load_certified_key_def Let_def)
qed


section \<open>Witnesses\<close>

definition demo_tls :: ServerTlsConfig where "demo_tls = server_tls_default False"

definition demo_host :: TlsHost where
  "demo_host = \<lparr>th_env = demo_env, th_lib = demo_lib, th_supported = (\<lambda>_. True), th_acme_dir_ok = True\<rparr>"

definition demo_files :: disk where
  "demo_files = [CERT_PATH \<mapsto> Some [0x30, 7], KEY_PATH \<mapsto> Some [0x30, 8]]"

lemma demo_identity_paths: "CERT_PATH \<noteq> KEY_PATH"
  by (simp add: CERT_PATH_def KEY_PATH_def us_def)

lemma demo_not_pem:
  "\<not> looks_like_pem [0x30, 7]" "\<not> looks_like_pem [0x30, 8]" "\<not> looks_like_pem [0x30, 1]" "\<not> looks_like_pem [0x30, 2]"
  by (simp_all add: looks_like_pem_def PEM_MARKER_def)

lemma demo_loads:
  "load_certificates demo_lib demo_files CERT_PATH = Ok [[0x30, 7]]" "load_private_key demo_lib demo_files KEY_PATH = Ok [0x30, 8]"
  "file_exists demo_files CERT_PATH" "file_exists demo_files KEY_PATH"
  using demo_identity_paths demo_not_pem
  by (simp_all add: load_certificates_def load_private_key_def demo_files_def file_exists_def)

lemma demo_default: "uses_default_paths demo_tls" "cert_path demo_tls = CERT_PATH" "key_path demo_tls = KEY_PATH" "\<not> acme_enabled demo_tls"
  by (simp_all add: demo_tls_def server_tls_default_def uses_default_paths_def same_path_def acme_enabled_def)

theorem certificate_always_served_witness:
  "\<exists>rt d' answers cached' d3. tls_runtime_start demo_host demo_tls (\<lambda>_. Some 5) demo_files = (Ok rt, d') \<and>
     serve_handshakes demo_host demo_tls
       [\<lparr>hk_files = \<lambda>d. d(CERT_PATH \<mapsto> None), hk_mtime = \<lambda>_. Some 6, hk_acme = None\<rparr>] (rt_cached rt) d' = (answers, cached', d3) \<and>
     None \<notin> set answers"
proof -
  obtain rt where rt: "tls_runtime_start demo_host demo_tls (\<lambda>_. Some 5) demo_files = (Ok rt, demo_files)" "rt_tls rt = demo_tls"
    by (simp add: tls_runtime_start_def ensure_server_identity_def demo_host_def demo_default demo_loads
        resolver_current_def load_certified_key_def)
  obtain answers cached' d3 where s: "serve_handshakes demo_host (rt_tls rt)
      [\<lparr>hk_files = \<lambda>d. d(CERT_PATH \<mapsto> None), hk_mtime = \<lambda>_. Some 6, hk_acme = None\<rparr>] (rt_cached rt) demo_files = (answers, cached', d3)"
    by (metis prod.exhaust)
  from certificate_always_served [OF rt(1) s] show ?thesis using rt s by auto
qed

theorem reload_exact_witness:
  "fst (composite_resolve demo_host demo_tls None (\<lambda>_. Some 6)
      (Some \<lparr>ck_key = ([[1]], [2]), ck_cert_mtime = Some 5, ck_key_mtime = Some 5\<rparr>) demo_files) = Some ([[0x30, 7]], [0x30, 8])"
  using reload_exact [of demo_files demo_tls demo_host "\<lambda>_. Some 6" "\<lparr>ck_key = ([[1]], [2]), ck_cert_mtime = Some 5, ck_key_mtime = Some 5\<rparr>"]
  by (simp add: demo_default demo_loads demo_host_def)


end
