(* ===== verification/Server_Front.thy ===== *)
theory Server_Front
  imports Reality_Front Server_Safety Tls_Runtime
begin

text \<open>
  One connection of the server, from the first byte to its end
  (\<open>payphone-server/src/https.rs\<close> and the QUIC task of
  \<open>main.rs\<close>): the REALITY front, the ACME responder or a plain TLS
  handshake in front of the frame loop, and the loop itself with the detaching
  of the sessions the connection leaves behind.

  A connection is the bytes its client sends before it closes.  The frames of one
  connection are handled one after the other; what other tasks do meanwhile is in
  the step relation of \<open>Server_Machine\<close>, and here in the environment
  \<open>tick i\<close> that the handling of frame \<open>i\<close> sees.  TLS
  libraries are parameters.
\<close>

section \<open>Frames of a connection\<close>

fun handle_frames ::
  "('vk, 'r) Crypto \<Rightarrow> (nat \<Rightarrow> Env \<times> Rng) \<Rightarrow> ('vk, 'r) Server \<Rightarrow> ClientLink \<Rightarrow> SocketAddr \<Rightarrow> Frame list \<Rightarrow>
     ('vk, 'r) Server \<times> Out list" where
  "handle_frames P tick srv link peer [] = (srv, [])"
| "handle_frames P tick srv link peer (f # fs) =
    (case handle_frame P (fst (tick 0)) (snd (tick 0)) srv link peer f of
       (srv, outs) \<Rightarrow>
         (case handle_frames P (\<lambda>i. tick (Suc i)) srv link peer fs of (srv, outs') \<Rightarrow> (srv, outs @ outs')))"

datatype ConnEnd =
    FrontFailed FrontError
  | HandshakeFailed TlsError
  | TlsRefused
  | ProbeRelayed bytes
  | AcmeAnswered
  | FirstFrameFailed IoError
  | PageServed "bytes option"
  | FramesServed nat
  | TaskPanicked

type_synonym ('vk, 'r) served = "ConnEnd \<times> ('vk, 'r) Server \<times> u64 \<times> Out list"

text \<open>
  \<open>serve_tls_session\<close> on the decrypted bytes of the connection.
  \<open>chop\<close> says how the reads of the landing page's request split what follows
  the header; \<open>next_id\<close> is the counter of stream ids.
\<close>

definition serve_stream ::
  "('vk, 'r) Crypto \<Rightarrow> (nat \<Rightarrow> Env \<times> Rng) \<Rightarrow> (bytes \<Rightarrow> ReadResult list) \<Rightarrow> bytes \<Rightarrow>
   ('vk, 'r) Server \<Rightarrow> u64 \<Rightarrow> SocketAddr \<Rightarrow> bytes \<Rightarrow> ('vk, 'r) served" where
  "serve_stream P tick chop page srv next_id peer plain =
    (case serve_tls_session plain of
       TlsFailed e \<Rightarrow> (FirstFrameFailed e, srv, next_id, [])
     | TlsCamouflage header rest \<Rightarrow> (PageServed (serve_camouflage_http page header (chop rest)), srv, next_id, [])
     | TlsFrames fs \<Rightarrow>
         (case handle_frames P tick srv (Stream next_id) peer fs of
            (srv, outs) \<Rightarrow>
              (case detach_by_stream_id (srv_sessions srv) next_id of
                 (detached, m) \<Rightarrow> (FramesServed detached, srv\<lparr>srv_sessions := m\<rparr>, next_id + 1, outs))))"

section \<open>The front\<close>

text \<open>
  The bytes read from a REALITY stream: the application data of its records up
  to the first error, the end of the connection, or an empty record, which
  \<open>read_exact\<close> takes for the end.
\<close>

lemma next_plain_shorter: "next_plain c k s = (PReady (Ok p), k', rest) \<Longrightarrow> length rest < length s"
proof (induction c k s rule: next_plain.induct)
  case (1 c k s)
  show ?case
  proof (cases "read_record s")
    case (Ok r)
    obtain rtype body more where r: "r = ((rtype, body), more)" by (metis surj_pair)
    have len: "length more < length s" using read_record_shorter Ok r by blast
    have ccs: "next_plain c k more = (PReady (Ok p), k', rest) \<Longrightarrow> rtype = 0x14 \<Longrightarrow> length rest < length more"
      using "1.IH"(2) [OF Ok, of "(rtype, body)" more rtype body] by (simp add: r)
    have ticket: "next_plain c (next_seq k) more = (PReady (Ok p), k', rest) \<Longrightarrow> rtype = 0x17 \<Longrightarrow>
        decrypt_app c k body = Ok (0x16, content) \<Longrightarrow> length rest < length more" for content
      using "1.IH"(1) [OF Ok, of "(rtype, body)" more rtype body "(0x16, content)"] by (simp add: r)
    show ?thesis
      using "1.prems" ccs ticket len unfolding next_plain.simps [of c k s] Ok r
      by (auto split: if_splits outcome.splits dest: less_trans)
  qed (use "1.prems" in \<open>auto simp: next_plain.simps [of c k s] split: if_splits\<close>)
qed

function stream_plain :: "RealityCrypto \<Rightarrow> TrafficKeys \<Rightarrow> bytes \<Rightarrow> bytes" where
  "stream_plain c k s =
    (case next_plain c k s of
       (PReady (Ok p), k', rest) \<Rightarrow> if p = [] then [] else p @ stream_plain c k' rest
     | _ \<Rightarrow> [])"
  by pat_completeness auto
termination by (relation "measure (\<lambda>(_, _, s). length s)") (auto dest!: next_plain_shorter [OF sym] next_plain_shorter)

declare stream_plain.simps [simp del]

text \<open>
  The parts the connection is served with.  \<open>fr_tls\<close> and
  \<open>fr_acme\<close> are the two rustls acceptors: the decrypted bytes of a
  completed handshake, or nothing.  \<open>fr_leaf\<close> is the certificate that
  rcgen makes for a server name, \<open>fr_private\<close> and \<open>fr_random\<close> the
  randomness of the handshake.
\<close>

record ('vk, 'r) Front =
  fr_crypto :: "('vk, 'r) Crypto"
  fr_reality_crypto :: RealityCrypto
  fr_reality :: "RealityServerConfig option"
  fr_runtime :: ServerTlsRuntime
  fr_tls :: "bytes \<Rightarrow> bytes option"
  fr_acme :: "bytes \<Rightarrow> bytes option"
  fr_sign :: "bytes \<Rightarrow> bytes"
  fr_leaf :: "bytes \<Rightarrow> bytes"
  fr_page :: bytes

record Conn =
  cn_peer :: SocketAddr
  cn_now :: u64
  cn_private :: bytes
  cn_random :: bytes
  cn_dest_reply :: "bytes option"
  cn_dest_up :: bool
  cn_stalled :: bool
  cn_tick :: "nat \<Rightarrow> Env \<times> Rng"
  cn_chop :: "bytes \<Rightarrow> ReadResult list"

definition serve_plain ::
  "('vk, 'r) Front \<Rightarrow> Conn \<Rightarrow> ('vk, 'r) Server \<Rightarrow> u64 \<Rightarrow> bytes \<Rightarrow> ('vk, 'r) served" where
  "serve_plain fr cn srv next_id plain =
     serve_stream (fr_crypto fr) (cn_tick cn) (cn_chop cn) (fr_page fr) srv next_id (cn_peer cn) plain"

definition accept_local ::
  "('vk, 'r) Front \<Rightarrow> Conn \<Rightarrow> bool \<Rightarrow> ('vk, 'r) Server \<Rightarrow> u64 \<Rightarrow> bytes \<Rightarrow> ('vk, 'r) served" where
  "accept_local fr cn acme srv next_id s =
    (let acceptor = (if acme then
           (case rt_acme_challenge (fr_runtime fr) of Some _ \<Rightarrow> fr_acme fr | None \<Rightarrow> fr_tls fr)
         else fr_tls fr)
     in case acceptor s of
          None \<Rightarrow> (TlsRefused, srv, next_id, [])
        | Some plain \<Rightarrow>
            if acme then (AcmeAnswered, srv, next_id, [])
            else serve_plain fr cn srv next_id plain)"

text \<open>\<open>Tls13Stream::accept\<close>, then the frames of the stream.\<close>

definition accept_vpn ::
  "('vk, 'r) Front \<Rightarrow> Conn \<Rightarrow> bytes \<Rightarrow> bytes \<Rightarrow> DestFlight option \<Rightarrow> ('vk, 'r) Server \<Rightarrow> u64 \<Rightarrow> bytes \<Rightarrow>
     ('vk, 'r) served" where
  "accept_vpn fr cn auth_key sni dest srv next_id s =
    (let c = fr_reality_crypto fr in
     case obind (server_accept_hello c (fr_sign fr) (fr_leaf fr sni) auth_key dest
              (cn_private cn) (cn_random cn) s) (\<lambda>(_, hs, rest).
            server_accept_finished c dest hs rest) of
       Err e \<Rightarrow> (HandshakeFailed e, srv, next_id, [])
     | Panic \<Rightarrow> (TaskPanicked, srv, next_id, [])
     | Ok (session, _, rest) \<Rightarrow> serve_plain fr cn srv next_id (stream_plain c (ts_recv session) rest))"

definition serve_connection ::
  "('vk, 'r) Front \<Rightarrow> Conn \<Rightarrow> ('vk, 'r) Server \<Rightarrow> u64 \<Rightarrow> bytes \<Rightarrow> ('vk, 'r) served" where
  "serve_connection fr cn srv next_id s =
    (case fr_reality fr of
       Some cfg \<Rightarrow>
         (case front_accept (fr_reality_crypto fr) (cn_now cn) cfg (cn_dest_reply cn) (cn_dest_up cn)
                 (cn_stalled cn) s of
            Err e \<Rightarrow> (FrontFailed e, srv, next_id, [])
          | Panic \<Rightarrow> (TaskPanicked, srv, next_id, [])
          | Ok (Vpn ps auth_key sni dest) \<Rightarrow>
              accept_vpn fr cn auth_key sni dest srv next_id (ps_bytes ps)
          | Ok (Local ps acme) \<Rightarrow> accept_local fr cn acme srv next_id (ps_bytes ps)
          | Ok (Spliced sent) \<Rightarrow> (ProbeRelayed sent, srv, next_id, []))
     | None \<Rightarrow>
         if rt_acme_challenge (fr_runtime fr) \<noteq> None then
           (case read_tls_record s of
              Err e \<Rightarrow> (FrontFailed e, srv, next_id, [])
            | Panic \<Rightarrow> (TaskPanicked, srv, next_id, [])
            | Ok (rcd, rest) \<Rightarrow>
                accept_local fr cn (case client_hello_parse rcd of None \<Rightarrow> False | Some view \<Rightarrow> has_acme_alpn view)
                  srv next_id (rcd @ rest))
         else (case fr_tls fr s of
             None \<Rightarrow> (TlsRefused, srv, next_id, [])
           | Some plain \<Rightarrow> serve_plain fr cn srv next_id plain))"

text \<open>
  The listener: connections accepted one after the other, each with the stream
  ids left by the ones before.  The QUIC task of \<open>main.rs\<close>: datagrams until
  the connection ends, then the detaching of its sessions.
\<close>

fun https_run ::
  "('vk, 'r) Front \<Rightarrow> (Conn \<times> bytes) list \<Rightarrow> ('vk, 'r) Server \<Rightarrow> u64 \<Rightarrow> ('vk, 'r) served list \<times> ('vk, 'r) Server" where
  "https_run fr [] srv next_id = ([], srv)"
| "https_run fr ((cn, s) # later) srv next_id =
    (case serve_connection fr cn srv next_id s of
       (ended, srv, next_id, outs) \<Rightarrow>
         (case https_run fr later srv next_id of (results, srv') \<Rightarrow> ((ended, srv, next_id, outs) # results, srv')))"

fun handle_packets ::
  "('vk, 'r) Crypto \<Rightarrow> (nat \<Rightarrow> Env \<times> Rng) \<Rightarrow> ('vk, 'r) Server \<Rightarrow> nat \<Rightarrow> SocketAddr \<Rightarrow> bytes list \<Rightarrow>
     ('vk, 'r) Server \<times> Out list" where
  "handle_packets P tick srv link_id peer [] = (srv, [])"
| "handle_packets P tick srv link_id peer (d # ds) =
    (case handle_packet P (fst (tick 0)) (snd (tick 0)) srv link_id peer d of
       (srv, outs) \<Rightarrow>
         (case handle_packets P (\<lambda>i. tick (Suc i)) srv link_id peer ds of (srv, outs') \<Rightarrow> (srv, outs @ outs')))"

definition quic_connection ::
  "('vk, 'r) Crypto \<Rightarrow> (nat \<Rightarrow> Env \<times> Rng) \<Rightarrow> ('vk, 'r) Server \<Rightarrow> nat \<Rightarrow> SocketAddr \<Rightarrow> bytes list \<Rightarrow>
     nat \<times> ('vk, 'r) Server \<times> Out list" where
  "quic_connection P tick srv link_id peer datagrams =
    (case handle_packets P tick srv link_id peer datagrams of
       (srv, outs) \<Rightarrow>
         (case detach_by_stable_id (srv_sessions srv) link_id of
            (detached, m) \<Rightarrow> (detached, srv\<lparr>srv_sessions := m\<rparr>, outs)))"


section \<open>The state a connection leaves\<close>

lemma handle_frames_inv:
  assumes "\<And>i. rng_ok (snd (tick i))" "srv_inv srv"
  shows "srv_inv (fst (handle_frames P tick srv link peer fs))"
  using assms
proof (induction fs arbitrary: srv tick)
  case (Cons f fs)
  then show ?case using handle_frame_inv [OF Cons.prems(2), of "snd (tick 0)"]
    by (simp add: case_prod_unfold)
qed simp

lemma handle_packets_inv:
  assumes "\<And>i. rng_ok (snd (tick i))" "srv_inv srv"
  shows "srv_inv (fst (handle_packets P tick srv link_id peer ds))"
  using assms
proof (induction ds arbitrary: srv tick)
  case (Cons d ds)
  then show ?case using handle_frame_inv [OF Cons.prems(2), of "snd (tick 0)"]
    by (simp add: case_prod_unfold handle_packet_def split: outcome.split)
qed simp

lemma detach_where_cleared:
  assumes "(sid, s) \<in> set (sessions (snd (detach_where p m)))" "\<not> p Detached"
  shows "\<not> p (s_link s)"
  using assms by (auto simp: detach_where_def split: if_splits)

text \<open>Every end but the frame loop leaves the server as it was.\<close>

definition conn_clean :: "('vk, 'r) Server \<Rightarrow> u64 \<Rightarrow> ('vk, 'r) served \<Rightarrow> bool" where
  "conn_clean srv next_id res \<longleftrightarrow> (case res of (ended, srv', next_id', outs) \<Rightarrow>
     srv_inv srv' \<and>
     (case ended of
        FramesServed _ \<Rightarrow> next_id' = next_id + 1 \<and>
          list_all (\<lambda>(_, s). s_link s \<noteq> Stream next_id) (sessions (srv_sessions srv'))
      | _ \<Rightarrow> srv' = srv \<and> next_id' = next_id \<and> outs = []))"

lemma conn_clean_refused:
  "srv_inv srv \<Longrightarrow> (case ended of FramesServed _ \<Rightarrow> False | _ \<Rightarrow> True) \<Longrightarrow> conn_clean srv next_id (ended, srv, next_id, [])"
  by (simp add: conn_clean_def split: ConnEnd.splits)

lemma serve_stream_clean:
  assumes "\<And>i. rng_ok (snd (tick i))" "srv_inv srv"
  shows "conn_clean srv next_id (serve_stream P tick chop page srv next_id peer plain)"
proof (cases "serve_tls_session plain")
  case (TlsFrames fs)
  define res where "res = handle_frames P tick srv (Stream next_id) peer fs"
  have "srv_inv (fst res)" unfolding res_def by (rule handle_frames_inv [OF assms])
  moreover have "s_link s \<noteq> Stream next_id"
    if "(k, s) \<in> set (sessions (snd (detach_by_stream_id m next_id)))" for k s m
    using detach_where_cleared [of k s "\<lambda>l. matches_stream_id l next_id" m] that
    by (auto simp: detach_by_stream_id_def)
  ultimately show ?thesis
    using mgr_inv_detach
    by (auto simp: serve_stream_def TlsFrames conn_clean_def case_prod_unfold list_all_iff
        detach_by_stream_id_def simp flip: res_def)
qed (use assms(2) in \<open>simp_all add: serve_stream_def conn_clean_refused\<close>)

lemma accept_local_clean:
  assumes "\<And>i. rng_ok (snd (cn_tick cn i))" "srv_inv srv"
  shows "conn_clean srv next_id (accept_local fr cn acme srv next_id s)"
  using serve_stream_clean [OF assms] conn_clean_refused [OF assms(2)]
  by (auto simp: accept_local_def serve_plain_def Let_def split: option.split)

lemma accept_vpn_clean:
  assumes "\<And>i. rng_ok (snd (cn_tick cn i))" "srv_inv srv"
  shows "conn_clean srv next_id (accept_vpn fr cn key sni dest srv next_id s)"
  using serve_stream_clean [OF assms] conn_clean_refused [OF assms(2)]
  by (auto simp: accept_vpn_def serve_plain_def Let_def case_prod_unfold split: outcome.split)

lemma serve_connection_clean:
  assumes "\<And>i. rng_ok (snd (cn_tick cn i))" "srv_inv srv"
  shows "conn_clean srv next_id (serve_connection fr cn srv next_id s)"
  using serve_stream_clean [OF assms] accept_local_clean [OF assms] accept_vpn_clean [OF assms]
    conn_clean_refused [OF assms(2)]
  by (auto simp: serve_connection_def serve_plain_def split: option.split outcome.split RealityAccept.split)

text \<open>
  C34: A connection cleans up after itself.  Whatever bytes a client sends to the
  HTTPS listener, the invariant of the server is kept; a connection that reaches
  the frame loop leaves no session linked to its stream, and its stream id is used
  up; every other connection (refused, relayed, a browser, an ACME probe, a broken
  handshake or first frame) leaves the server exactly as it was and makes it send
  nothing to any client.
\<close>

theorem connection_cleans_up:
  assumes "\<And>i. rng_ok (snd (cn_tick cn i))" "srv_inv srv"
  shows "case serve_connection fr cn srv next_id s of (ended, srv', next_id', outs) \<Rightarrow>
    srv_inv srv' \<and>
    (case ended of
       FramesServed _ \<Rightarrow> next_id' = next_id + 1 \<and>
         list_all (\<lambda>(_, s). s_link s \<noteq> Stream next_id) (sessions (srv_sessions srv'))
     | _ \<Rightarrow> srv' = srv \<and> next_id' = next_id \<and> outs = [])"
  using serve_connection_clean [OF assms, of next_id fr s] by (simp add: conn_clean_def)

text \<open>
  The same for a QUIC connection: after it ends no session is linked to it.
\<close>

theorem quic_connection_cleans_up:
  assumes "\<And>i. rng_ok (snd (tick i))" "srv_inv srv"
  shows "case quic_connection P tick srv link_id peer ds of (_, srv', _) \<Rightarrow>
    srv_inv srv' \<and> list_all (\<lambda>(_, s). s_link s \<noteq> Quic link_id) (sessions (srv_sessions srv'))"
proof -
  have "s_link s \<noteq> Quic link_id"
    if "(k, s) \<in> set (sessions (snd (detach_by_stable_id m link_id)))" for k s m
    using detach_where_cleared [of k s "\<lambda>l. matches_quic_stable_id l link_id" m] that
    by (auto simp: detach_by_stable_id_def)
  then show ?thesis
    using handle_packets_inv [where P = P and tick = tick and link_id = link_id and peer = peer and ds = ds, OF assms(1,2)] mgr_inv_detach
    by (auto simp: quic_connection_def case_prod_unfold list_all_iff detach_by_stable_id_def)
qed

section \<open>Who reaches the frame loop\<close>



section \<open>A configured client through the front\<close>

text \<open>What follows a record, a hello or a Finished stays unread.\<close>

lemma read_record_append:
  assumes "read_record s = Ok (r, rest)"
  shows "read_record (s @ beyond) = Ok (r, rest @ beyond)"
proof -
  define len where "len = unat (be16 [s ! 3, s ! 4])"
  have s: "5 \<le> length s" "5 + len \<le> length s" "\<not> (len = 0 \<or> len > TLS_MAX_RECORD)"
    "r = (s ! 0, take len (drop 5 s))" "rest = drop (5 + len) s"
    using assms by (auto simp: read_record_def Let_def len_def split: if_splits)
  have "unat (be16 [(s @ beyond) ! 3, (s @ beyond) ! 4]) = len" using s(1) by (simp add: len_def nth_append)
  moreover have "(s @ beyond) ! 0 = s ! 0" using s(1) by (cases s) simp_all
  ultimately show ?thesis using s by (simp add: read_record_def Let_def)
qed

lemma server_finish_append:
  "server_finish_loop c st s = Ok rest \<Longrightarrow> server_finish_loop c st (s @ beyond) = Ok (rest @ beyond)"
proof (induction c st s rule: server_finish_loop.induct)
  case (1 c st s)
  obtain ty body tail where r: "read_record s = Ok ((ty, body), tail)"
    using "1.prems" by (cases "read_record s") (auto simp: server_finish_loop.simps [of c st s])
  note r' = read_record_append [OF r, of beyond]
  show ?case
  proof (cases "ty = 0x14")
    case True
    then show ?thesis using 1 r r' by (simp add: server_finish_loop.simps [of c st s] server_finish_loop.simps [of c st "s @ beyond"])
  next
    case False
    then show ?thesis using "1.prems" r r'
      by (auto simp: server_finish_loop.simps [of c st s] server_finish_loop.simps [of c st "s @ beyond"] obind_eq_Ok
          split: if_splits outcome.splits option.splits)
  qed
qed

lemma server_accept_finished_append:
  "server_accept_finished c dest st s = Ok (ss, dummies, rest) \<Longrightarrow>
   server_accept_finished c dest st (s @ beyond) = Ok (ss, dummies, rest @ beyond)"
  using server_finish_append [of c st s]
  by (auto simp: server_accept_finished_def obind_eq_Ok case_prod_unfold Let_def)

lemma obind_case: "obind m f = (case m of Ok x \<Rightarrow> f x | Err e \<Rightarrow> Err e | Panic \<Rightarrow> Panic)"
  by (cases m) simp_all

lemma server_accept_hello_append:
  assumes "server_accept_hello c sign leaf key dest pr rn s = Ok (out, st, rest)"
  shows "server_accept_hello c sign leaf key dest pr rn (s @ beyond) = Ok (out, st, rest @ beyond)"
proof -
  obtain r tail where r: "read_record s = Ok (r, tail)"
    using assms by (auto simp: server_accept_hello_def obind_eq_Ok)
  note r' = read_record_append [OF r, of beyond]
  show ?thesis
    using assms unfolding server_accept_hello_def r r'
    by (auto simp: obind_case Let_def split: prod.splits if_splits option.splits outcome.splits)
qed

lemma stream_plain_flight:
  assumes c: "crypto_laws c"
  shows "keys_wf k \<Longrightarrow> list_all stream_msg ms \<Longrightarrow> stream_plain c k (concat (encrypt_all c k ms)) = app_data ms"
proof (induction "length (app_data ms)" arbitrary: k ms rule: less_induct)
  case less
  show ?case
  proof (cases "app_data ms = []")
    case True
    then show ?thesis using next_plain_flight [OF c less.prems] by (auto simp: stream_plain.simps)
  next
    case False
    then obtain p k' ms' where p: "next_plain c k (concat (encrypt_all c k ms)) = (PReady (Ok p), k', concat (encrypt_all c k' ms'))"
        "p \<noteq> []" "keys_wf k'" "list_all stream_msg ms'" "app_data ms = p @ app_data ms'"
      using next_plain_flight [OF c less.prems] by auto
    then have "stream_plain c k' (concat (encrypt_all c k' ms')) = app_data ms'" by (intro less.hyps) simp_all
    then show ?thesis using p by (simp add: stream_plain.simps [of c k])
  qed
qed

lemma read_tls_record_hello:
  assumes "read_record rcd = Ok ((0x16, hs), [])" "length hs \<le> SPLICE_MAX_RECORD"
  shows "read_tls_record (rcd @ beyond) = Ok (rcd, beyond)"
proof -
  define len where "len = unat (be16 [rcd ! 3, rcd ! 4])"
  have r: "5 \<le> length rcd" "length rcd = 5 + len" "len \<noteq> 0" "rcd ! 0 = 0x16" "hs = take len (drop 5 rcd)"
    using assms(1) by (auto simp: read_record_def Let_def len_def split: if_splits)
  then have "length hs = len" by simp
  moreover have "record_len (rcd @ beyond) = len" using r(1) by (simp add: record_len_def len_def nth_append)
  ultimately show ?thesis using r assms(2) by (simp add: read_tls_record_def Let_def nth_append)
qed

lemma serve_tls_session_frames:
  assumes "list_all frame_valid (f # fs)"
  shows "serve_tls_session (concat (map frame_encode (f # fs))) = TlsFrames (f # fs)"
proof -
  define enc where "enc = frame_encode f @ concat (map frame_encode fs)"
  obtain header where h: "read_exact HEADER_SIZE enc = Ok (header, drop HEADER_SIZE enc)"
      "finish_payphone_frame (drop HEADER_SIZE enc) header = Ok (f, concat (map frame_encode fs))"
    using read_payphone_frame_encode [of f "concat (map frame_encode fs)"] assms
    by (auto simp: read_payphone_frame_def enc_def obind_eq_Ok read_exact_def split: if_splits)
  have "header ! 0 = PROTOCOL_VERSION"
    using h(1) assms by (auto simp: enc_def read_exact_def frame_encode_def frame_valid_def constants split: if_splits)
  then have "\<not> looks_like_http (header ! 0)" by (simp add: looks_like_http_def)
  moreover have "fst (read_frames (concat (map frame_encode fs))) = fs"
    using read_frames_concat [of fs "[]"] assms
    by (simp add: list_all_iff read_frames.simps [of "[]"] read_payphone_frame_empty)
  ultimately show ?thesis using h by (simp add: serve_tls_session_def enc_def)
qed


text \<open>The bytes one side of a completed handshake sends for a list of frames.\<close>

definition session_frames :: "RealityCrypto \<Rightarrow> TlsSession \<Rightarrow> Frame list \<Rightarrow> bytes" where
  "session_frames c session fs = concat (encrypt_all c (ts_send session) (app_messages (concat (map frame_encode fs))))"

lemma accept_vpn_serves:
  assumes c: "crypto_laws (fr_reality_crypto fr)"
    and hello: "server_accept_hello (fr_reality_crypto fr) (fr_sign fr) (fr_leaf fr sni) auth_key dest (cn_private cn)
        (cn_random cn) rcd = Ok (out, st, [])"
    and fin: "server_accept_finished (fr_reality_crypto fr) dest st fin = Ok (ss, dummies, [])"
    and keys: "ts_recv ss = ts_send cs" "keys_wf (ts_send cs)"
    and frames: "list_all frame_valid (f # fs)"
  shows "accept_vpn fr cn auth_key sni dest srv next_id
      (rcd @ fin @ session_frames (fr_reality_crypto fr) cs (f # fs)) =
    (case handle_frames (fr_crypto fr) (cn_tick cn) srv (Stream next_id) (cn_peer cn) (f # fs) of
       (srv', outs) \<Rightarrow> (case detach_by_stream_id (srv_sessions srv') next_id of
          (detached, m) \<Rightarrow> (FramesServed detached, srv'\<lparr>srv_sessions := m\<rparr>, next_id + 1, outs)))"
proof -
  note h = server_accept_hello_append [OF hello] and g = server_accept_finished_append [OF fin]
  have plain: "stream_plain (fr_reality_crypto fr) (ts_recv ss) (session_frames (fr_reality_crypto fr) cs (f # fs))
      = concat (map frame_encode (f # fs))"
    unfolding session_frames_def keys(1)
    by (subst stream_plain_flight [OF c keys(2) app_messages_stream(1)]) (rule app_messages_stream(2))
  have serve: "serve_tls_session (concat (map frame_encode (f # fs))) = TlsFrames (f # fs)"
    by (rule serve_tls_session_frames [OF frames])
  show ?thesis
    by (simp only: accept_vpn_def Let_def h g obind.simps split_conv outcome.case append_Nil plain serve_plain_def
        serve_stream_def serve TlsService.case)
qed

lemma app_data_append: "app_data (ms @ ms') = app_data ms @ app_data ms'"
  by (induction ms rule: app_data.induct) auto

lemma dummy_flight_stream:
  "list_all (\<lambda>n. n \<le> TLS_MAX_RECORD) ns \<Longrightarrow> list_all stream_msg (dummy_flight ns)" "app_data (dummy_flight ns) = []"
  by (induction ns) (auto simp: constants)

lemma downlink_read:
  assumes c: "crypto_laws c" and keys: "keys_wf (ts_recv cs)" "ts_send ss = (next_seq ^^ length ns) (ts_recv cs)"
    and ns: "early = concat (encrypt_all c (ts_recv cs) (dummy_flight ns))" "list_all (\<lambda>n. n \<le> TLS_MAX_RECORD) ns"
    and gs: "list_all frame_valid gs"
  shows "read_frames (stream_plain c (ts_recv cs) (early @ session_frames c ss gs)) = (gs, Some UnexpectedEof)"
proof -
  have "early @ session_frames c ss gs = concat (encrypt_all c (ts_recv cs)
      (dummy_flight ns @ app_messages (concat (map frame_encode gs))))"
    by (simp add: ns(1) session_frames_def keys(2) encrypt_all_append)
  then have "stream_plain c (ts_recv cs) (early @ session_frames c ss gs) = concat (map frame_encode gs)"
    using ns(2) by (simp only:) (subst stream_plain_flight [OF c keys(1)],
      simp_all add: dummy_flight_stream app_messages_stream app_data_append)
  then show ?thesis
    using read_frames_concat [of gs "[]"] gs
    by (simp add: list_all_iff read_frames.simps [of "[]"] read_payphone_frame_empty)
qed

section \<open>Witnesses\<close>

definition demo_front :: "(unit, bytes set) Front" where
  "demo_front = \<lparr>fr_crypto = sample_crypto, fr_reality_crypto = reality_stub, fr_reality = Some sample_reality_server,
     fr_runtime = \<lparr>rt_tls = demo_tls, rt_acme_challenge = None, rt_cached = None\<rparr>,
     fr_tls = (\<lambda>_. None), fr_acme = (\<lambda>_. None), fr_sign = (\<lambda>_. replicate 64 8),
     fr_leaf = (\<lambda>_. sample_leaf_der), fr_page = ascii ''HTTP/1.1 200 OK''\<rparr>"

definition demo_conn :: Conn where
  "demo_conn = \<lparr>cn_peer = sample_address, cn_now = 1000090, cn_private = replicate 32 11, cn_random = replicate 32 12,
     cn_dest_reply = None, cn_dest_up = True, cn_stalled = False, cn_tick = (\<lambda>_. (sample_env, sample_rng)),
     cn_chop = (\<lambda>s. [ReadResult.Chunk s])\<rparr>"

lemma sample_rng_ok: "rng_ok sample_rng"
  by (simp add: rng_ok_def sample_rng_def constants)

lemma demo_flight: "vpn_flight sample_reality_server a None = None"
proof -
  have "min (unat a) 2 \<in> {0, 1, 2}" by auto
  then have "post_handshake_lens_for sample_reality_server a = []"
    unfolding post_handshake_lens_for_def sample_reality_server_def
    by auto
  then show ?thesis by (simp add: vpn_flight_def fetch_dest_flight_def)
qed

theorem connection_cleans_up_witness:
  "case serve_connection demo_front demo_conn sample_server 1 [71, 69] of (ended, srv', next_id', outs) \<Rightarrow>
    srv_inv srv' \<and>
    (case ended of
       FramesServed _ \<Rightarrow> next_id' = 1 + 1 \<and>
         list_all (\<lambda>(_, s). s_link s \<noteq> Stream 1) (sessions (srv_sessions srv'))
     | _ \<Rightarrow> srv' = sample_server \<and> next_id' = 1 \<and> outs = [])"
  by (rule connection_cleans_up) (simp_all add: demo_conn_def sample_rng_ok sample_facts)

theorem quic_connection_cleans_up_witness:
  "case quic_connection sample_crypto (\<lambda>_. (sample_env, sample_rng)) sample_server 3 sample_address [[1, 2]] of
     (_, srv', _) \<Rightarrow> srv_inv srv' \<and> list_all (\<lambda>(_, s). s_link s \<noteq> Quic 3) (sessions (srv_sessions srv'))"
  by (rule quic_connection_cleans_up) (simp_all add: sample_rng_ok sample_facts)



end
