(* ===== verification/Server_Run.thy ===== *)
theory Server_Run
  imports Server_Front
begin

text \<open>
  Connections and the machine.  \<open>Server_Front\<close> describes one connection as a
  function, \<open>Server_Machine\<close> the tasks of all connections as a step relation.
  Here the first is shown to be a run of the second, so what holds in every reachable
  state holds before, during and after every connection.
\<close>

section \<open>One frame\<close>

definition after_run :: "('vk, 'r) Machine \<Rightarrow> ('vk, 'r) Server \<times> Out list \<Rightarrow> ('vk, 'r) Machine" where
  "after_run mc res = mc\<lparr>mc_srv := fst res, mc_log := mc_log mc @ snd res\<rparr>"

lemma after_run_eq: "after_run mc res = emit mc res"
  by (simp add: after_run_def emit_def)

lemma set_tasks_emit:
  "mc_tasks mc = ts \<Longrightarrow> set_tasks (emit (set_tasks mc ts') res) ts = emit mc res"
  "set_tasks (set_tasks mc ts1) ts2 = set_tasks mc ts2"
  "mc_tasks mc = ts \<Longrightarrow> set_tasks mc ts = mc"
  "mc_tasks (set_tasks mc ts) = ts" "mc_srv (set_tasks mc ts) = mc_srv mc" "mc_srv (emit mc res) = fst res"
  "mc_tasks (emit mc res) = mc_tasks mc"
  "emit (set_tasks mc ts') res = set_tasks (emit mc res) ts'"
  "emit (emit mc (srv1, [])) res = emit mc res"
  by (cases mc; simp add: set_tasks_def emit_def)+

lemma frame_runs:
  assumes "rng_ok rng"
  shows "(machine_step P)\<^sup>*\<^sup>* mc (emit mc (handle_frame P env rng (mc_srv mc) l a f))"
proof -
  define ts where "ts = mc_tasks mc"
  define mc1 where "mc1 = set_tasks mc (TFrame l a f # ts)"
  have arrive: "machine_step P mc mc1" unfolding mc1_def ts_def by (rule machine_step.arrive)
  obtain g srv1 where g: "gate P env (mc_srv mc) a f = (g, srv1)" by force
  define mc2 where "mc2 = set_tasks (emit mc (srv1, [])) (after_gate g l a f @ ts)"
  have "machine_step P mc1 (set_tasks (emit mc1 (srv1, [])) ([] @ after_gate g l a f @ ts))"
    by (rule machine_step.gate [where env = env]) (simp_all add: mc1_def g set_tasks_emit)
  then have gate: "machine_step P mc1 mc2" by (simp add: mc1_def mc2_def set_tasks_emit)
  have mc2: "mc_srv mc2 = srv1" "mc_tasks mc2 = after_gate g l a f @ ts" by (simp_all add: mc2_def set_tasks_emit)
  have finish: "set_tasks (emit mc2 res) ts = emit mc res" for res
    by (simp add: mc2_def set_tasks_emit ts_def)
  have "(machine_step P)\<^sup>*\<^sup>* mc2 (emit mc (handle_frame P env rng (mc_srv mc) l a f))"
  proof (cases g)
    case GateIgnore
    then have "mc2 = emit mc (handle_frame P env rng (mc_srv mc) l a f)"
      by (simp add: mc2_def handle_frame_def g set_tasks_emit ts_def)
    then show ?thesis by simp
  next
    case (GateDenied sid reason)
    have "machine_step P mc2 (set_tasks (emit mc2 (gate_deny env (mc_srv mc2) sid reason (sequence f))) ([] @ ts))"
      by (rule machine_step.deny) (simp add: mc2 GateDenied)
    then show ?thesis by (intro r_into_rtranclp) (simp add: mc2 finish handle_frame_def g GateDenied)
  next
    case GatePass
    show ?thesis
    proof (cases "frame_type f = BackAgainDude")
      case False
      have "machine_step P mc2 (set_tasks (emit mc2 (dispatch P env rng (mc_srv mc2) l a f)) ([] @ ts))"
        by (rule machine_step.dispatch) (simp_all add: mc2 GatePass assms False)
      then show ?thesis by (intro r_into_rtranclp) (simp add: mc2 finish handle_frame_def g GatePass)
    next
      case True
      have h: "handle_frame P env rng (mc_srv mc) l a f = handle_back_again_dude P env srv1 l a f"
        by (simp add: handle_frame_def g GatePass dispatch_def True)
      show ?thesis
      proof (cases "back_again_dude_decode (payload f)")
        case (Ok msg)
        obtain denied srv2 where c: "back_again_check P env srv1 msg = (denied, srv2)" by force
        define mc3 where "mc3 = set_tasks (emit mc (srv2, [])) (TBackFinish l a (sequence f) msg denied # ts)"
        have "machine_step P mc2 (set_tasks (emit mc2 (srv2, [])) ([] @ TBackFinish l a (sequence f) msg denied # ts))"
          by (rule machine_step.back_check) (use GatePass True Ok c mc2 in simp_all)
        then have "machine_step P mc2 mc3" by (simp add: mc2_def mc3_def set_tasks_emit)
        moreover have "machine_step P mc3 (set_tasks (emit mc3 (back_again_finish env (mc_srv mc3) l a (sequence f) msg denied)) ([] @ ts))"
          by (rule machine_step.back_finish) (simp add: mc3_def set_tasks_emit)
        then have "machine_step P mc3 (emit mc (handle_frame P env rng (mc_srv mc) l a f))"
          by (simp add: mc3_def set_tasks_emit ts_def h handle_back_again_dude_def Ok c)
        ultimately show ?thesis by (meson converse_rtranclp_into_rtranclp r_into_rtranclp)
      next
        case (Err e)
        have "machine_step P mc2 (set_tasks mc2 ([] @ ts))"
          by (rule machine_step.back_bad [where l = l and a = a and f = f and us = "[]"]) (use GatePass True Err mc2 in simp_all)
        then show ?thesis
          by (intro r_into_rtranclp) (simp add: mc2_def set_tasks_emit ts_def h handle_back_again_dude_def Err)
      next
        case Panic
        have "machine_step P mc2 (set_tasks mc2 ([] @ ts))"
          by (rule machine_step.back_bad [where l = l and a = a and f = f and us = "[]"]) (use GatePass True Panic mc2 in simp_all)
        then show ?thesis
          by (intro r_into_rtranclp) (simp add: mc2_def set_tasks_emit ts_def h handle_back_again_dude_def Panic)
      qed
    qed
  qed
  with arrive gate show ?thesis by (meson converse_rtranclp_into_rtranclp)
qed

lemma emit_twice: "emit (emit mc (srv1, outs1)) (srv2, outs2) = emit mc (srv2, outs1 @ outs2)"
  by (simp add: emit_def)

lemma frames_run:
  assumes "\<And>i. rng_ok (snd (tick i))"
  shows "(machine_step P)\<^sup>*\<^sup>* mc (emit mc (handle_frames P tick (mc_srv mc) l a fs))"
  using assms
proof (induction fs arbitrary: mc tick)
  case Nil
  have "emit mc (mc_srv mc, []) = mc" by (simp add: emit_def)
  then show ?case by simp
next
  case (Cons f fs)
  obtain srv1 outs1 where 1: "handle_frame P (fst (tick 0)) (snd (tick 0)) (mc_srv mc) l a f = (srv1, outs1)" by force
  have "(machine_step P)\<^sup>*\<^sup>* mc (emit mc (srv1, outs1))"
    using frame_runs [OF Cons.prems, of P mc "fst (tick 0)" 0 l a f] 1 by simp
  also have "(machine_step P)\<^sup>*\<^sup>* (emit mc (srv1, outs1))
      (emit (emit mc (srv1, outs1)) (handle_frames P (\<lambda>i. tick (Suc i)) (mc_srv (emit mc (srv1, outs1))) l a fs))"
    by (rule Cons.IH) (rule Cons.prems)
  finally show ?case by (simp add: 1 case_prod_unfold set_tasks_emit emit_def)
qed

lemma packets_run:
  assumes "\<And>i. rng_ok (snd (tick i))"
  shows "(machine_step P)\<^sup>*\<^sup>* mc (emit mc (handle_packets P tick (mc_srv mc) link_id a ds))"
  using assms
proof (induction ds arbitrary: mc tick)
  case Nil
  have "emit mc (mc_srv mc, []) = mc" by (simp add: emit_def)
  then show ?case by simp
next
  case (Cons d ds)
  obtain srv1 outs1 where 1: "handle_packet P (fst (tick 0)) (snd (tick 0)) (mc_srv mc) link_id a d = (srv1, outs1)" by force
  have same: "emit mc (mc_srv mc, []) = mc" by (simp add: emit_def)
  have "(machine_step P)\<^sup>*\<^sup>* mc (emit mc (srv1, outs1))"
    using frame_runs [OF Cons.prems, of P mc "fst (tick 0)" 0 "Quic link_id" a] 1 same
    by (auto simp: handle_packet_def split: outcome.splits) metis
  also have "(machine_step P)\<^sup>*\<^sup>* (emit mc (srv1, outs1))
      (emit (emit mc (srv1, outs1)) (handle_packets P (\<lambda>i. tick (Suc i)) (mc_srv (emit mc (srv1, outs1))) link_id a ds))"
    by (rule Cons.IH) (rule Cons.prems)
  finally show ?case by (simp add: 1 case_prod_unfold set_tasks_emit emit_def)
qed

section \<open>One connection\<close>

definition conn_runs :: "('vk, 'r) Crypto \<Rightarrow> ('vk, 'r) Machine \<Rightarrow> ('vk, 'r) served \<Rightarrow> bool" where
  "conn_runs P mc res = (case res of (_, srv', _, outs) \<Rightarrow> (machine_step P)\<^sup>*\<^sup>* mc (emit mc (srv', outs)))"

lemma conn_runs_unchanged: "conn_runs P mc (ended, mc_srv mc, next_id, [])"
  by (simp add: conn_runs_def emit_def)

lemma serve_stream_runs:
  assumes "\<And>i. rng_ok (snd (tick i))"
  shows "conn_runs P mc (serve_stream P tick chop page (mc_srv mc) next_id peer plain)"
proof (cases "serve_tls_session plain")
  case (TlsFrames fs)
  obtain srv1 outs where 1: "handle_frames P tick (mc_srv mc) (Stream next_id) peer fs = (srv1, outs)" by force
  define mc1 where "mc1 = emit mc (srv1, outs)"
  have "(machine_step P)\<^sup>*\<^sup>* mc mc1"
    using frames_run [where P = P and tick = tick and mc = mc and l = "Stream next_id" and a = peer and fs = fs, OF assms] 1
    by (simp add: mc1_def)
  moreover have "machine_step P mc1 (emit mc1 (with_sessions (mc_srv mc1) (snd (detach_by_stream_id (srv_sessions (mc_srv mc1)) next_id)), []))"
    by (rule machine_step.stream_closed)
  ultimately show ?thesis
    by (simp add: serve_stream_def TlsFrames 1 conn_runs_def case_prod_unfold mc1_def emit_def rtranclp.rtrancl_into_rtrancl)
qed (simp_all add: serve_stream_def conn_runs_unchanged)

lemma accept_local_runs:
  assumes "\<And>i. rng_ok (snd (cn_tick cn i))"
  shows "conn_runs (fr_crypto fr) mc (accept_local fr cn acme (mc_srv mc) next_id s)"
  using serve_stream_runs [OF assms] conn_runs_unchanged
  by (auto simp: accept_local_def serve_plain_def Let_def split: option.split)

lemma accept_vpn_runs:
  assumes "\<And>i. rng_ok (snd (cn_tick cn i))"
  shows "conn_runs (fr_crypto fr) mc (accept_vpn fr cn key sni dest (mc_srv mc) next_id s)"
  using serve_stream_runs [OF assms] conn_runs_unchanged
  by (auto simp: accept_vpn_def serve_plain_def Let_def case_prod_unfold split: outcome.split)

lemma serve_connection_runs:
  assumes "\<And>i. rng_ok (snd (cn_tick cn i))"
  shows "conn_runs (fr_crypto fr) mc (serve_connection fr cn (mc_srv mc) next_id s)"
  using serve_stream_runs [OF assms] accept_local_runs [OF assms] accept_vpn_runs [OF assms] conn_runs_unchanged
  by (auto simp: serve_connection_def serve_plain_def split: option.split outcome.split RealityAccept.split)

text \<open>
  C35: A connection is a run of the machine.  What a connection of the HTTPS listener
  or a QUIC connection does to the server, from its first byte to the detaching of its
  sessions, is a sequence of steps of the machine that handles the tasks of all
  connections, with the same final state and the same things sent.  Hence what holds
  in every reachable state of the machine holds after every connection.
\<close>

theorem connection_refines_machine:
  assumes "\<And>i. rng_ok (snd (cn_tick cn i))"
  shows "(case serve_connection fr cn (mc_srv mc) next_id s of (_, srv', _, outs) \<Rightarrow>
      (machine_step (fr_crypto fr))\<^sup>*\<^sup>* mc (mc\<lparr>mc_srv := srv', mc_log := mc_log mc @ outs\<rparr>)) \<and>
    (case quic_connection (fr_crypto fr) (cn_tick cn) (mc_srv mc) link_id (cn_peer cn) ds of (_, srv', outs) \<Rightarrow>
      (machine_step (fr_crypto fr))\<^sup>*\<^sup>* mc (mc\<lparr>mc_srv := srv', mc_log := mc_log mc @ outs\<rparr>))"
proof
  show "case serve_connection fr cn (mc_srv mc) next_id s of (_, srv', _, outs) \<Rightarrow>
      (machine_step (fr_crypto fr))\<^sup>*\<^sup>* mc (mc\<lparr>mc_srv := srv', mc_log := mc_log mc @ outs\<rparr>)"
    using serve_connection_runs [OF assms, of fr mc next_id s] by (simp add: conn_runs_def emit_def)
  obtain srv1 outs where 1: "handle_packets (fr_crypto fr) (cn_tick cn) (mc_srv mc) link_id (cn_peer cn) ds = (srv1, outs)" by force
  define mc1 where "mc1 = emit mc (srv1, outs)"
  have "(machine_step (fr_crypto fr))\<^sup>*\<^sup>* mc mc1"
    using packets_run [where P = "fr_crypto fr" and tick = "cn_tick cn" and mc = mc and link_id = link_id
        and a = "cn_peer cn" and ds = ds, OF assms] 1
    by (simp add: mc1_def)
  moreover have "machine_step (fr_crypto fr) mc1
      (emit mc1 (with_sessions (mc_srv mc1) (snd (detach_by_stable_id (srv_sessions (mc_srv mc1)) link_id)), []))"
    by (rule machine_step.quic_closed)
  ultimately show "case quic_connection (fr_crypto fr) (cn_tick cn) (mc_srv mc) link_id (cn_peer cn) ds of (_, srv', outs) \<Rightarrow>
      (machine_step (fr_crypto fr))\<^sup>*\<^sup>* mc (mc\<lparr>mc_srv := srv', mc_log := mc_log mc @ outs\<rparr>)"
    by (simp add: quic_connection_def 1 case_prod_unfold mc1_def emit_def rtranclp.rtrancl_into_rtrancl)
qed

theorem connection_refines_machine_witness:
  "case serve_connection demo_front demo_conn sample_server 1 [71, 69, 84] of (_, srv', _, outs) \<Rightarrow>
     (machine_step sample_crypto)\<^sup>*\<^sup>* \<lparr>mc_srv = sample_server, mc_packet_id = 1, mc_tasks = [], mc_log = []\<rparr>
       \<lparr>mc_srv = srv', mc_packet_id = 1, mc_tasks = [], mc_log = outs\<rparr>"
proof -
  have "\<And>i. rng_ok (snd (cn_tick demo_conn i))" by (simp add: demo_conn_def sample_rng_ok)
  from connection_refines_machine [OF this, of demo_front "\<lparr>mc_srv = sample_server, mc_packet_id = 1, mc_tasks = [], mc_log = []\<rparr>" 1 "[71, 69, 84]"]
  show ?thesis by (simp add: demo_front_def)
qed

end
