(* ===== verification/Tun_Device.thy ===== *)
theory Tun_Device
  imports Routing Tun
begin

text \<open>
  Creating the TUN devices (\<open>payphone-tun/src/lib.rs\<close>, Linux).  The device library is
  the parameter \<open>DeviceLib\<close>: building a device from its description changes the
  state of the kernel and yields the name of the device, when it can be read; dropping
  the device changes it again.
\<close>

definition PAYPHONE_PREFIX :: nat where "PAYPHONE_PREFIX = 24"

record DeviceSpec =
  dev_name :: ustr
  dev_ipv4 :: IpAddr
  dev_prefix :: nat
  dev_destination :: "IpAddr option"
  dev_mtu :: u16

record 'k DeviceLib =
  dev_build :: "DeviceSpec \<Rightarrow> 'k \<Rightarrow> (ustr option \<times> 'k) option"
  dev_drop :: "ustr \<Rightarrow> 'k \<Rightarrow> 'k"

definition set_interface_mtu :: "'k os \<Rightarrow> ustr option \<Rightarrow> u16 \<Rightarrow> 'k list \<Rightarrow> 'k list" where
  "set_interface_mtu os name mtu h =
    (case name of
       None \<Rightarrow> h
     | Some n \<Rightarrow> run_all [run_tool (us ''ifconfig'') os [n, us ''mtu'', show_nat (unat mtu)]] h)"

definition build_device ::
  "'k os \<Rightarrow> 'k DeviceLib \<Rightarrow> DeviceSpec \<Rightarrow> 'k list \<Rightarrow> ustr option option \<times> 'k list" where
  "build_device os lib spec h =
    (case dev_build lib spec (hd h) of
       None \<Rightarrow> (None, h)
     | Some (name, k) \<Rightarrow> (Some name, set_interface_mtu os name (dev_mtu spec) (k # h)))"

definition client_tun_spec :: "bytes \<Rightarrow> u16 \<Rightarrow> DeviceSpec" where
  "client_tun_spec assigned_ipv4 mtu =
     \<lparr>dev_name = us ''payphone0'',
      dev_ipv4 = IpV4 (assigned_ipv4 ! 0) (assigned_ipv4 ! 1) (assigned_ipv4 ! 2) (assigned_ipv4 ! 3),
      dev_prefix = PAYPHONE_PREFIX, dev_destination = Some SERVER_TUN_IPV4, dev_mtu = mtu\<rparr>"

definition create_client_tun ::
  "'k os \<Rightarrow> 'k DeviceLib \<Rightarrow> bytes \<Rightarrow> u16 \<Rightarrow> 'k list \<Rightarrow> ustr option option \<times> 'k list" where
  "create_client_tun os lib assigned_ipv4 mtu = build_device os lib (client_tun_spec assigned_ipv4 mtu)"

definition server_tun_spec :: DeviceSpec where
  "server_tun_spec =
     \<lparr>dev_name = us ''payphone0'', dev_ipv4 = SERVER_TUN_IPV4, dev_prefix = PAYPHONE_PREFIX,
      dev_destination = None, dev_mtu = PAYPHONE_MTU_MAX\<rparr>"

definition create_server_tun :: "'k os \<Rightarrow> 'k DeviceLib \<Rightarrow> 'k list \<Rightarrow> ustr option option \<times> 'k list" where
  "create_server_tun os lib = build_device os lib server_tun_spec"

lemma set_interface_mtu_history:
  "set_interface_mtu os (Some n) mtu h =
     snd (os (Cmd [us ''ifconfig'', n, us ''mtu'', show_nat (unat mtu)]) (hd h)) # h"
  "set_interface_mtu os None mtu h = h"
  by (simp_all add: set_interface_mtu_def run_tool_def exec_def split: prod.split CmdResult.split)

end
