(* ===== verification/Settings.thy ===== *)
theory Settings
  imports Identity Frames
begin

text \<open>
  The settings of the server and the client (\<open>payphone-server/src/settings.rs\<close>,
  \<open>payphone-client/src/settings.rs\<close>): the command lines, the optional file and how
  they are merged with the environment.  The arguments, the environment (after
  \<open>.env\<close> has been read into it) and the files are arguments of the model.
\<close>

datatype SettingsError = MissingValue ustr | UnknownOption ustr | UnexpectedArgument ustr | UnknownShort nat
  | ShortNotLast | BadFlag ustr | ConfigNotFound | ConfigUnreadable | PskMissing | RealityDestMissing
  | RealityShortIdMissing | UnknownTransport ustr | RealityKey KeyError | RealityConfig DestError

type_synonym env_vars = "ustr \<Rightarrow> ustr option"
type_synonym kv = "ustr \<rightharpoonup> ustr"

section \<open>Text helpers\<close>

text \<open>\<open>split_once('=')\<close>.\<close>

definition split_once :: "nat \<Rightarrow> ustr \<Rightarrow> (ustr \<times> ustr) option" where
  "split_once c s = (if c \<in> set s then Some (takeWhile (\<lambda>x. x \<noteq> c) s, tl (dropWhile (\<lambda>x. x \<noteq> c) s)) else None)"

text \<open>\<open>trim_start_matches\<close> with a text removes it as often as it occurs.\<close>

function trim_start_text :: "ustr \<Rightarrow> ustr \<Rightarrow> ustr" where
  "trim_start_text p s = (if p \<noteq> [] \<and> prefix p s then trim_start_text p (drop (length p) s) else s)"
  by pat_completeness auto
termination
  by (relation "measure (length \<circ> snd)") (auto simp: prefix_def)

declare trim_start_text.simps [simp del]

definition trim_char :: "nat \<Rightarrow> ustr \<Rightarrow> ustr" where
  "trim_char c s = rev (dropWhile (\<lambda>x. x = c) (rev (dropWhile (\<lambda>x. x = c) s)))"

definition lower :: "ustr \<Rightarrow> ustr" where
  "lower s = map char_ascii_lower s"

section \<open>The file\<close>

definition kv_line :: "ustr \<Rightarrow> (ustr \<times> ustr) option" where
  "kv_line raw =
    (let line = trim raw in
     if line = [] \<or> hd line = 35 \<or> hd line = 91 then None
     else (case split_once 61 line of
         None \<Rightarrow> None
       | Some (key, value) \<Rightarrow>
           Some (lower (map (\<lambda>c. if c = 45 then 95 else c) (trim_start_text (us ''payphone_'') (trim key))),
                 trim_char 39 (trim_char 34 (trim value)))))"

definition kv_of_text :: "ustr \<Rightarrow> kv" where
  "kv_of_text txt = fold (\<lambda>(k, v) m. m(k \<mapsto> v)) (List.map_filter kv_line (lines txt)) Map.empty"

datatype ConfigFile = NoConfig | UnreadableConfig | ConfigText ustr

definition load_kv_file :: "ConfigFile \<Rightarrow> (SettingsError, kv) outcome" where
  "load_kv_file f = (case f of ConfigText t \<Rightarrow> Ok (kv_of_text t) | _ \<Rightarrow> Err ConfigUnreadable)"

text \<open>
  The file is the one of the command line, of \<open>PAYPHONE_CONFIG\<close>, or
  \<open>payphone.toml\<close> when that exists; only the first must exist.
\<close>

definition config_map :: "ustr option \<Rightarrow> env_vars \<Rightarrow> (ustr \<Rightarrow> ConfigFile) \<Rightarrow> (SettingsError, kv) outcome" where
  "config_map cli_config env fs =
    (let dflt = us ''payphone.toml'';
         path = (case cli_config of Some p \<Rightarrow> Some p
           | None \<Rightarrow> (case env (us ''PAYPHONE_CONFIG'') of Some p \<Rightarrow> Some p
             | None \<Rightarrow> if fs dflt \<noteq> NoConfig then Some dflt else None))
     in case path of
       None \<Rightarrow> Ok Map.empty
     | Some p \<Rightarrow>
         if fs p \<noteq> NoConfig then load_kv_file (fs p)
         else if cli_config \<noteq> None then Err ConfigNotFound else Ok Map.empty)"

section \<open>Merging\<close>

text \<open>\<open>first\<close>: the first value that is present and not empty.\<close>

fun first :: "ustr option list \<Rightarrow> ustr option" where
  "first [] = None"
| "first (Some v # vs) = (if v \<noteq> [] then Some v else first vs)"
| "first (None # vs) = first vs"

definition env_opt :: "env_vars \<Rightarrow> ustr \<Rightarrow> ustr option" where
  "env_opt env name = non_empty (env name)"

section \<open>Server: command line\<close>

record ServerCli =
  sc_help :: bool
  sc_bind :: "ustr option"
  sc_tcp_bind :: "ustr option"
  sc_psk :: "ustr option"
  sc_tls_cert :: "ustr option"
  sc_tls_key :: "ustr option"
  sc_tls_san :: "ustr option"
  sc_tls_domain :: "ustr option"
  sc_acme_email :: "ustr option"
  sc_acme_dir :: "ustr option"
  sc_acme_staging :: bool
  sc_auth_key :: "ustr option"
  sc_dns_upstream :: "ustr option"
  sc_session_store :: "ustr option"
  sc_revoke_file :: "ustr option"
  sc_reality :: "ustr option"
  sc_reality_dest :: "ustr option"
  sc_reality_private_key :: "ustr option"
  sc_reality_short_id :: "ustr option"
  sc_config :: "ustr option"
  sc_dev :: bool

definition server_cli_default :: ServerCli where
  "server_cli_default = \<lparr>sc_help = False, sc_bind = None, sc_tcp_bind = None, sc_psk = None, sc_tls_cert = None,
     sc_tls_key = None, sc_tls_san = None, sc_tls_domain = None, sc_acme_email = None, sc_acme_dir = None,
     sc_acme_staging = False, sc_auth_key = None, sc_dns_upstream = None, sc_session_store = None,
     sc_revoke_file = None, sc_reality = None, sc_reality_dest = None, sc_reality_private_key = None,
     sc_reality_short_id = None, sc_config = None, sc_dev = False\<rparr>"

definition server_set_long :: "ustr \<Rightarrow> ustr \<Rightarrow> ServerCli \<Rightarrow> (SettingsError, ServerCli) outcome" where
  "server_set_long name value cli =
    (if name = us ''bind'' then Ok (cli\<lparr>sc_bind := Some value\<rparr>)
     else if name = us ''tcp-bind'' then Ok (cli\<lparr>sc_tcp_bind := Some value\<rparr>)
     else if name = us ''psk'' then Ok (cli\<lparr>sc_psk := Some value\<rparr>)
     else if name = us ''tls-cert'' then Ok (cli\<lparr>sc_tls_cert := Some value\<rparr>)
     else if name = us ''tls-key'' then Ok (cli\<lparr>sc_tls_key := Some value\<rparr>)
     else if name = us ''tls-san'' then Ok (cli\<lparr>sc_tls_san := Some value\<rparr>)
     else if name = us ''tls-domain'' then Ok (cli\<lparr>sc_tls_domain := Some value\<rparr>)
     else if name = us ''acme-email'' then Ok (cli\<lparr>sc_acme_email := Some value\<rparr>)
     else if name = us ''acme-dir'' then Ok (cli\<lparr>sc_acme_dir := Some value\<rparr>)
     else if name = us ''acme-staging'' then Ok (cli\<lparr>sc_acme_staging := truthy value\<rparr>)
     else if name = us ''auth-key'' then Ok (cli\<lparr>sc_auth_key := Some value\<rparr>)
     else if name = us ''dns-upstream'' then Ok (cli\<lparr>sc_dns_upstream := Some value\<rparr>)
     else if name = us ''session-store'' then Ok (cli\<lparr>sc_session_store := Some value\<rparr>)
     else if name = us ''revoke-file'' then Ok (cli\<lparr>sc_revoke_file := Some value\<rparr>)
     else if name = us ''reality'' then Ok (cli\<lparr>sc_reality := Some value\<rparr>)
     else if name = us ''reality-dest'' then Ok (cli\<lparr>sc_reality_dest := Some value\<rparr>)
     else if name = us ''reality-private-key'' then Ok (cli\<lparr>sc_reality_private_key := Some value\<rparr>)
     else if name = us ''reality-short-id'' then Ok (cli\<lparr>sc_reality_short_id := Some value\<rparr>)
     else if name = us ''config'' then Ok (cli\<lparr>sc_config := Some value\<rparr>)
     else Err (UnknownOption name))"

function server_cli_parse :: "ustr list \<Rightarrow> ServerCli \<Rightarrow> (SettingsError, ServerCli) outcome" where
  "server_cli_parse [] cli = Ok cli"
| "server_cli_parse (arg # args) cli =
    (case strip_prefix (us ''--'') arg of
       Some flag \<Rightarrow>
         (case split_once 61 flag of
            Some (name, value) \<Rightarrow> obind (server_set_long name value cli) (server_cli_parse args)
          | None \<Rightarrow>
            if flag = us ''help'' then server_cli_parse args (cli\<lparr>sc_help := True\<rparr>)
            else if flag = us ''dev'' then server_cli_parse args (cli\<lparr>sc_dev := True\<rparr>)
            else if flag = us ''acme-staging'' then server_cli_parse args (cli\<lparr>sc_acme_staging := True\<rparr>)
            else (case args of
                [] \<Rightarrow> Err (MissingValue flag)
              | value # rest \<Rightarrow> obind (server_set_long flag value cli) (server_cli_parse rest)))
     | None \<Rightarrow>
         if arg = us ''-h'' then server_cli_parse args (cli\<lparr>sc_help := True\<rparr>)
         else if arg = us ''-c'' then
           (case args of
              [] \<Rightarrow> Err (MissingValue (us ''c''))
            | value # rest \<Rightarrow> server_cli_parse rest (cli\<lparr>sc_config := Some value\<rparr>))
         else Err (UnexpectedArgument arg))"
  by pat_completeness auto
termination
  by (relation "measure (length \<circ> fst)") auto

section \<open>Server: settings\<close>

record ServerSettings =
  ss_bind :: ustr
  ss_tcp_bind :: "ustr option"
  ss_psk :: ustr
  ss_tls :: ServerTlsConfig
  ss_auth_key :: ustr
  ss_dns_upstream :: "ustr option"
  ss_session_store :: "ustr option"
  ss_revoke_file :: ustr
  ss_reality :: "RealityServerConfig option"
  ss_dev_mode :: bool

definition default_bind :: ustr where
  "default_bind = us ''127.0.0.1:'' @ show_nat (unat DEFAULT_PORT)"

definition one_or_true :: "ustr option \<Rightarrow> bool" where
  "one_or_true v = (case v of Some x \<Rightarrow> x = us ''1'' \<or> same_name x (us ''true'') | None \<Rightarrow> False)"

definition server_env_flag :: "env_vars \<Rightarrow> ustr \<Rightarrow> bool" where
  "server_env_flag env name = (case env name of Some v \<Rightarrow> truthy v | None \<Rightarrow> False)"

definition read_trimmed :: "(ustr \<Rightarrow> ConfigFile) \<Rightarrow> ustr \<Rightarrow> ustr option" where
  "read_trimmed fs p = (case fs p of ConfigText t \<Rightarrow> non_empty (Some (trim t)) | _ \<Rightarrow> None)"

definition require :: "'e \<Rightarrow> 'a option \<Rightarrow> ('e, 'a) outcome" where
  "require e v = (case v of Some x \<Rightarrow> Ok x | None \<Rightarrow> Err e)"

definition load_reality ::
  "(ustr \<Rightarrow> ConfigFile) \<Rightarrow> (ustr \<Rightarrow> NamedFile) \<Rightarrow> env_vars \<Rightarrow> ServerCli \<Rightarrow> kv \<Rightarrow>
   (SettingsError, RealityServerConfig option) outcome" where
  "load_reality fs key_fs env cli f =
    (let enabled = first [sc_reality cli, env_opt env (us ''PAYPHONE_REALITY''), f (us ''reality'')];
         turned_on = (case enabled of Some v \<Rightarrow> truthy v | None \<Rightarrow> False)
     in if \<not> turned_on then Ok None
        else obind (require RealityDestMissing
               (first [sc_reality_dest cli, env_opt env (us ''PAYPHONE_REALITY_DEST''), f (us ''reality_dest'')])) (\<lambda>dest.
             let key = or_else (first [sc_reality_private_key cli, env_opt env (us ''PAYPHONE_REALITY_PRIVATE_KEY''),
                   f (us ''reality_private_key'')]) (us ''auth-keys/reality-private.key'')
             in obind (map_err RealityKey (parse_32_bytes key_fs key)) (\<lambda>private.
             obind (require RealityShortIdMissing
               (first [sc_reality_short_id cli, env_opt env (us ''PAYPHONE_REALITY_SHORT_ID''), f (us ''reality_short_id''),
                 read_trimmed fs (us ''auth-keys/reality-short-id.txt'')])) (\<lambda>short.
             obind (map_err RealityKey (parse_short_ids short)) (\<lambda>short_ids.
             obind (map_err RealityConfig (reality_server_config_new dest private short_ids)) (\<lambda>cfg. Ok (Some cfg)))))))"

definition server_tls_settings :: "bool \<Rightarrow> env_vars \<Rightarrow> ServerCli \<Rightarrow> kv \<Rightarrow> ServerTlsConfig" where
  "server_tls_settings state_is_dir env cli f =
    (let dflt = server_tls_default state_is_dir;
         names = (case first [sc_tls_san cli, env_opt env (us ''PAYPHONE_TLS_SAN''), f (us ''tls_san'')] of
             Some v \<Rightarrow> parse_sans (Some v) | None \<Rightarrow> sans dflt);
         domain = first [sc_tls_domain cli, env_opt env (us ''PAYPHONE_TLS_DOMAIN''), f (us ''tls_domain'')]
     in \<lparr>cert_path = or_else (first [sc_tls_cert cli, env_opt env (us ''PAYPHONE_TLS_CERT''), f (us ''tls_cert'')]) (cert_path dflt),
         key_path = or_else (first [sc_tls_key cli, env_opt env (us ''PAYPHONE_TLS_KEY''), f (us ''tls_key'')]) (key_path dflt),
         sans = (case domain of
             Some d \<Rightarrow> if list_ex (\<lambda>n. same_name n d) names then names else names @ [d]
           | None \<Rightarrow> names),
         acme_domain = domain,
         acme_email = first [sc_acme_email cli, env_opt env (us ''PAYPHONE_ACME_EMAIL''), f (us ''acme_email'')],
         acme_dir = or_else (first [sc_acme_dir cli, env_opt env (us ''PAYPHONE_ACME_DIR''), f (us ''acme_dir'')])
             (default_acme_dir state_is_dir),
         acme_staging = (sc_acme_staging cli \<or> server_env_flag env (us ''PAYPHONE_ACME_STAGING'') \<or>
             one_or_true (f (us ''acme_staging'')))\<rparr>)"

definition with_local_names :: "ServerTlsConfig \<Rightarrow> RealityServerConfig \<Rightarrow> RealityServerConfig" where
  "with_local_names tls cfg =
     cfg\<lparr>rs_local_names := map utf8_encode
       (filter (\<lambda>n. case dest_host (rs_dest cfg) of Ok host \<Rightarrow> \<not> same_name n host | _ \<Rightarrow> True) (local_hostnames tls))\<rparr>"

text \<open>The settings, or \<open>None\<close> when the help was asked for.\<close>

definition load_server_settings ::
  "bool \<Rightarrow> (ustr \<Rightarrow> ConfigFile) \<Rightarrow> (ustr \<Rightarrow> NamedFile) \<Rightarrow> env_vars \<Rightarrow> ustr list \<Rightarrow>
   (SettingsError, ServerSettings option) outcome" where
  "load_server_settings state_is_dir fs key_fs env args =
     obind (server_cli_parse args server_cli_default) (\<lambda>cli.
       if sc_help cli then Ok None
       else obind (config_map (sc_config cli) env fs) (\<lambda>f.
         obind (require PskMissing (first [sc_psk cli, env_opt env (us ''PAYPHONE_OBFS_PSK''), f (us ''psk''), f (us ''obfs_psk'')])) (\<lambda>psk.
         let tls = server_tls_settings state_is_dir env cli f in
         obind (load_reality fs key_fs env cli f) (\<lambda>reality.
         Ok (Some
           \<lparr>ss_bind = or_else (first [sc_bind cli, env_opt env (us ''PAYPHONE_BIND_ADDR''), f (us ''bind''), f (us ''bind_addr'')]) default_bind,
            ss_tcp_bind = first [sc_tcp_bind cli, env_opt env (us ''PAYPHONE_TCP_BIND_ADDR''), f (us ''tcp_bind''), f (us ''tcp_bind_addr'')],
            ss_psk = psk, ss_tls = tls,
            ss_auth_key = or_else (first [sc_auth_key cli, env_opt env (us ''PAYPHONE_AUTH_KEY''), f (us ''auth_key'')]) PUBLIC_KEY_PATH,
            ss_dns_upstream = first [sc_dns_upstream cli, env_opt env (us ''PAYPHONE_DNS_UPSTREAM''), f (us ''dns_upstream'')],
            ss_session_store = first [sc_session_store cli, env_opt env (us ''PAYPHONE_SESSION_STORE''), f (us ''session_store'')],
            ss_revoke_file = or_else (first [sc_revoke_file cli, env_opt env (us ''PAYPHONE_REVOKE_FILE''), f (us ''revoke_file'')]) REVOKED_PATH,
            ss_reality = map_option (with_local_names tls) reality,
            ss_dev_mode = (sc_dev cli \<or> server_env_flag env (us ''PAYPHONE_DEV_MODE'') \<or> one_or_true (f (us ''dev'')))\<rparr>)))))"

section \<open>Client: command line\<close>

datatype TransportKind = Quic | Tls

record ClientCli =
  cc_help :: bool
  cc_server :: "ustr option"
  cc_tcp_server :: "ustr option"
  cc_transport :: "ustr option"
  cc_psk :: "ustr option"
  cc_token :: "ustr option"
  cc_session :: "ustr option"
  cc_sni :: "ustr option"
  cc_tls_pin :: "ustr option"
  cc_tls_ca :: "ustr option"
  cc_reality_pubkey :: "ustr option"
  cc_reality_short_id :: "ustr option"
  cc_reality_sni :: "ustr option"
  cc_config :: "ustr option"
  cc_dev :: bool
  cc_kill_switch :: bool

definition client_cli_default :: ClientCli where
  "client_cli_default = \<lparr>cc_help = False, cc_server = None, cc_tcp_server = None, cc_transport = None, cc_psk = None,
     cc_token = None, cc_session = None, cc_sni = None, cc_tls_pin = None, cc_tls_ca = None, cc_reality_pubkey = None,
     cc_reality_short_id = None, cc_reality_sni = None, cc_config = None, cc_dev = False, cc_kill_switch = False\<rparr>"

definition parse_bool_flag :: "ustr \<Rightarrow> (SettingsError, bool) outcome" where
  "parse_bool_flag v =
    (if truthy v then Ok True
     else if lower v \<in> {us ''0'', us ''false'', us ''off'', us ''no''} then Ok False
     else Err (BadFlag (lower v)))"

definition client_set_long :: "ustr \<Rightarrow> ustr \<Rightarrow> ClientCli \<Rightarrow> (SettingsError, ClientCli) outcome" where
  "client_set_long name value cli =
    (if name = us ''server'' then Ok (cli\<lparr>cc_server := Some value\<rparr>)
     else if name = us ''tcp-server'' then Ok (cli\<lparr>cc_tcp_server := Some value\<rparr>)
     else if name = us ''transport'' then Ok (cli\<lparr>cc_transport := Some value\<rparr>)
     else if name = us ''psk'' then Ok (cli\<lparr>cc_psk := Some value\<rparr>)
     else if name = us ''token'' then Ok (cli\<lparr>cc_token := Some value\<rparr>)
     else if name = us ''session'' then Ok (cli\<lparr>cc_session := Some value\<rparr>)
     else if name = us ''sni'' then Ok (cli\<lparr>cc_sni := Some value\<rparr>)
     else if name = us ''tls-pin'' then Ok (cli\<lparr>cc_tls_pin := Some value\<rparr>)
     else if name = us ''tls-ca'' then Ok (cli\<lparr>cc_tls_ca := Some value\<rparr>)
     else if name = us ''reality-pubkey'' \<or> name = us ''reality-public-key'' then Ok (cli\<lparr>cc_reality_pubkey := Some value\<rparr>)
     else if name = us ''reality-short-id'' then Ok (cli\<lparr>cc_reality_short_id := Some value\<rparr>)
     else if name = us ''reality-sni'' then Ok (cli\<lparr>cc_reality_sni := Some value\<rparr>)
     else if name = us ''kill-switch'' then obind (parse_bool_flag value) (\<lambda>b. Ok (cli\<lparr>cc_kill_switch := b\<rparr>))
     else if name = us ''config'' then Ok (cli\<lparr>cc_config := Some value\<rparr>)
     else Err (UnknownOption name))"

text \<open>The letters of one short argument; \<open>s\<close>, \<open>t\<close> and \<open>c\<close> take the next argument.\<close>

fun short_flags :: "ustr \<Rightarrow> ustr list \<Rightarrow> ClientCli \<Rightarrow> (SettingsError, ClientCli \<times> ustr list) outcome" where
  "short_flags [] args cli = Ok (cli, args)"
| "short_flags (ch # letters) args cli =
    (if ch = 104 then short_flags letters args (cli\<lparr>cc_help := True\<rparr>)
     else if ch \<in> {115, 116, 99} then
       (if letters \<noteq> [] then Err ShortNotLast
        else case args of
          [] \<Rightarrow> Err (MissingValue [ch])
        | value # rest \<Rightarrow>
            Ok (if ch = 115 then cli\<lparr>cc_server := Some value\<rparr>
                else if ch = 116 then cli\<lparr>cc_token := Some value\<rparr>
                else cli\<lparr>cc_config := Some value\<rparr>, rest))
     else Err (UnknownShort ch))"

lemma short_flags_args: "short_flags letters args cli = Ok (cli', rest) \<Longrightarrow> length rest \<le> length args"
  by (induction letters args cli rule: short_flags.induct) (auto split: if_splits list.splits)

function client_cli_parse :: "ustr list \<Rightarrow> ClientCli \<Rightarrow> (SettingsError, ClientCli) outcome" where
  "client_cli_parse [] cli = Ok cli"
| "client_cli_parse (arg # args) cli =
    (case strip_prefix (us ''--'') arg of
       Some flag \<Rightarrow>
         (case split_once 61 flag of
            Some (name, value) \<Rightarrow> obind (client_set_long name value cli) (client_cli_parse args)
          | None \<Rightarrow>
            if flag = us ''help'' then client_cli_parse args (cli\<lparr>cc_help := True\<rparr>)
            else if flag = us ''dev'' then client_cli_parse args (cli\<lparr>cc_dev := True\<rparr>)
            else if flag = us ''kill-switch'' then client_cli_parse args (cli\<lparr>cc_kill_switch := True\<rparr>)
            else (case args of
                [] \<Rightarrow> Err (MissingValue flag)
              | value # rest \<Rightarrow> obind (client_set_long flag value cli) (client_cli_parse rest)))
     | None \<Rightarrow>
         (case strip_prefix (us ''-'') arg of
            Some letters \<Rightarrow>
              (case short_flags letters args cli of
                 Ok (cli', rest) \<Rightarrow> client_cli_parse rest cli' | Err e \<Rightarrow> Err e | Panic \<Rightarrow> Panic)
          | None \<Rightarrow> Err (UnexpectedArgument arg)))"
  by pat_completeness auto
termination
  by (relation "measure (length \<circ> fst)") (auto dest: short_flags_args)


section \<open>Client: settings\<close>

record ClientSettings =
  cs_server :: ustr
  cs_tcp_server :: "ustr option"
  cs_transport :: TransportKind
  cs_psk :: ustr
  cs_token :: ustr
  cs_session :: ustr
  cs_tls :: ClientTlsConfig
  cs_dev_mode :: bool
  cs_kill_switch :: bool

definition parse_transport :: "ustr \<Rightarrow> (SettingsError, TransportKind) outcome" where
  "parse_transport v =
    (if lower v \<in> {us ''quic'', us ''udp''} then Ok Quic
     else if lower v \<in> {us ''tls'', us ''https'', us ''tcp''} then Ok Tls
     else Err (UnknownTransport (lower v)))"

definition flag_on :: "ustr option \<Rightarrow> bool" where
  "flag_on v = (case v of Some x \<Rightarrow> (case parse_bool_flag x of Ok b \<Rightarrow> b | _ \<Rightarrow> False) | None \<Rightarrow> False)"

definition client_env_flag :: "env_vars \<Rightarrow> ustr \<Rightarrow> bool" where
  "client_env_flag env name = flag_on (env name)"

definition file_flag :: "kv \<Rightarrow> ustr \<Rightarrow> bool" where
  "file_flag f key = flag_on (f key)"

definition client_server_name :: "env_vars \<Rightarrow> ClientCli \<Rightarrow> kv \<Rightarrow> ustr \<Rightarrow> ustr" where
  "client_server_name env cli f server =
    (case first [cc_sni cli, env_opt env (us ''PAYPHONE_SERVER_NAME''), f (us ''sni''), f (us ''server_name'')] of
       Some name \<Rightarrow> name
     | None \<Rightarrow>
       (case hostname_from_addr server of
          Some host \<Rightarrow> if looks_like_public_dns_name host then host else SERVER_NAME
        | None \<Rightarrow> SERVER_NAME))"

definition client_reality ::
  "(ustr \<Rightarrow> NamedFile) \<Rightarrow> env_vars \<Rightarrow> ClientCli \<Rightarrow> kv \<Rightarrow> ClientTlsConfig \<Rightarrow> (SettingsError, ClientTlsConfig) outcome" where
  "client_reality key_fs env cli f tls =
    (case first [cc_reality_pubkey cli, env_opt env (us ''PAYPHONE_REALITY_PUBLIC_KEY''), f (us ''reality_public_key''),
        f (us ''reality_pubkey'')] of
       None \<Rightarrow> Ok tls
     | Some pubkey \<Rightarrow>
       obind (require RealityShortIdMissing
         (first [cc_reality_short_id cli, env_opt env (us ''PAYPHONE_REALITY_SHORT_ID''), f (us ''reality_short_id'')])) (\<lambda>short.
       let sni = or_else (first [cc_reality_sni cli, env_opt env (us ''PAYPHONE_REALITY_SNI''), f (us ''reality_sni''),
             cc_sni cli, env_opt env (us ''PAYPHONE_SERVER_NAME'')]) (server_name tls);
           name = (case dest_host sni of Ok host \<Rightarrow> host | _ \<Rightarrow> sni)
       in obind (map_err RealityKey (parse_32_bytes key_fs pubkey)) (\<lambda>key.
          obind (map_err RealityKey (parse_short_id short)) (\<lambda>sid.
            Ok (tls\<lparr>server_name := name,
              reality_cfg := Some \<lparr>rc_public_key = key, rc_short_id = sid, rc_server_name = utf8_encode name\<rparr>\<rparr>)))))"

definition client_tls_settings ::
  "(ustr \<Rightarrow> NamedFile) \<Rightarrow> env_vars \<Rightarrow> ClientCli \<Rightarrow> kv \<Rightarrow> ustr \<Rightarrow> (SettingsError, ClientTlsConfig) outcome" where
  "client_tls_settings key_fs env cli f server =
    (let name = client_server_name env cli f server;
         ca = first [cc_tls_ca cli, env_opt env (us ''PAYPHONE_TLS_CA''), f (us ''tls_ca'')]
     in client_reality key_fs env cli f
          \<lparr>server_name = name,
           pin_path = or_else (first [cc_tls_pin cli, env_opt env (us ''PAYPHONE_TLS_PIN''), env_opt env (us ''PAYPHONE_TLS_CERT''),
               f (us ''tls_pin''), f (us ''tls_cert'')]) CERT_PATH,
           use_webpki = (case ca of Some v \<Rightarrow> trusts_public_roots v | None \<Rightarrow> looks_like_public_dns_name name),
           reality_cfg = None\<rparr>)"

definition load_client_settings ::
  "(ustr \<Rightarrow> ConfigFile) \<Rightarrow> (ustr \<Rightarrow> NamedFile) \<Rightarrow> env_vars \<Rightarrow> ustr list \<Rightarrow> (SettingsError, ClientSettings option) outcome" where
  "load_client_settings fs key_fs env args =
     obind (client_cli_parse args client_cli_default) (\<lambda>cli.
       if cc_help cli then Ok None
       else obind (config_map (cc_config cli) env fs) (\<lambda>f.
         let server = or_else (first [cc_server cli, env_opt env (us ''PAYPHONE_SERVER_ADDR''), f (us ''server''), f (us ''server_addr'')]) default_bind
         in obind (parse_transport (or_else (first [cc_transport cli, env_opt env (us ''PAYPHONE_TRANSPORT''), f (us ''transport'')]) (us ''quic''))) (\<lambda>transport.
            obind (require PskMissing (first [cc_psk cli, env_opt env (us ''PAYPHONE_OBFS_PSK''), f (us ''psk''), f (us ''obfs_psk'')])) (\<lambda>psk.
            obind (client_tls_settings key_fs env cli f server) (\<lambda>tls.
            Ok (Some
              \<lparr>cs_server = server,
               cs_tcp_server = first [cc_tcp_server cli, env_opt env (us ''PAYPHONE_TCP_SERVER_ADDR''), f (us ''tcp_server'')],
               cs_transport = transport, cs_psk = psk,
               cs_token = or_else (first [cc_token cli, env_opt env (us ''PAYPHONE_TOKEN''), f (us ''token'')]) (us ''subscription.token''),
               cs_session = or_else (first [cc_session cli, env_opt env (us ''PAYPHONE_SESSION_FILE''), f (us ''session'')]) (us ''.payphone-session''),
               cs_tls = tls,
               cs_dev_mode = (cc_dev cli \<or> client_env_flag env (us ''PAYPHONE_DEV_MODE'') \<or> file_flag f (us ''dev'') \<or> file_flag f (us ''dev_mode'')),
               cs_kill_switch = (cc_kill_switch cli \<or> client_env_flag env (us ''PAYPHONE_KILL_SWITCH'') \<or>
                 file_flag f (us ''kill_switch'') \<or> file_flag f (us ''killswitch''))\<rparr>))))))"

section \<open>Facts\<close>

lemma first_filter:
  "first vs = (case filter (\<lambda>v. v \<noteq> None \<and> v \<noteq> Some []) vs of [] \<Rightarrow> None | v # _ \<Rightarrow> v)"
  by (induction vs rule: first.induct) auto

lemma first_nonempty: "first vs = Some v \<Longrightarrow> v \<noteq> []"
  by (induction vs rule: first.induct) (auto split: if_splits)

text \<open>What the parsers of \<open>Reality_Keys\<close> give.\<close>

lemma parse_raw_length: "parse_32_bytes_raw bs = Ok k \<Longrightarrow> length k = 32" "parse_32_bytes_raw bs \<noteq> Panic"
  using parse_raw_total [of bs] by auto

lemma parse_32_bytes_length:
  "parse_32_bytes key_fs s = Ok k \<Longrightarrow> length k = 32" "parse_32_bytes key_fs s \<noteq> Panic"
  using parse_raw_length by (auto simp: parse_32_bytes_def Let_def split: NamedFile.splits if_splits)

lemma parse_short_id_length:
  "parse_short_id s = Ok i \<Longrightarrow> length i = 8" "parse_short_id s \<noteq> Panic"
  using parse_short_id_total [of s] by auto

lemma parse_short_ids_length:
  "parse_short_ids s = Ok ids \<Longrightarrow> ids \<noteq> [] \<and> list_all (\<lambda>i. length i = 8) ids" "parse_short_ids s \<noteq> Panic"
  using parse_short_id_parts_total [of "split_parts s"] by (auto simp: parse_short_ids_def obind_eq_Ok obind_eq_Panic split: if_splits)

lemma parse_bool_flag_total: "parse_bool_flag v \<noteq> Panic"
  by (simp add: parse_bool_flag_def)

text \<open>Neither command line makes its parser fail other than by an error value.\<close>

lemma server_set_long_total: "server_set_long name value cli \<noteq> Panic"
  by (simp add: server_set_long_def)

lemma client_set_long_total: "client_set_long name value cli \<noteq> Panic"
  by (auto simp: client_set_long_def obind_eq_Panic parse_bool_flag_total)

lemma short_flags_total: "short_flags letters args cli \<noteq> Panic"
  by (induction letters args cli rule: short_flags.induct) (auto split: list.split)


lemma obind_total: "m \<noteq> Panic \<Longrightarrow> (\<And>x. f x \<noteq> Panic) \<Longrightarrow> obind m f \<noteq> Panic"
  by (simp add: obind_eq_Panic)

lemma server_cli_parse_total: "server_cli_parse args cli \<noteq> Panic"
proof (induction "length args" arbitrary: args cli rule: less_induct)
  case less
  then have short: "server_cli_parse rest c \<noteq> Panic" if "length rest < length args" for rest c using that by blast
  show ?case
  proof (cases args)
    case (Cons arg more)
    note IH = short [unfolded Cons]
    show ?thesis unfolding Cons server_cli_parse.simps(2)
      apply (split option.split, intro conjI impI allI)
       apply (simp del: server_cli_parse.simps add: IH split: list.split)
      apply (split option.split, intro conjI impI allI)
       apply (simp del: server_cli_parse.simps add: IH server_set_long_total obind_total split: list.split)
      apply (simp del: server_cli_parse.simps add: IH server_set_long_total obind_total split: prod.split)
      done
  qed simp
qed

lemma client_cli_parse_total: "client_cli_parse args cli \<noteq> Panic"
proof (induction "length args" arbitrary: args cli rule: less_induct)
  case less
  then have short: "client_cli_parse rest c \<noteq> Panic" if "length rest < length args" for rest c using that by blast
  show ?case
  proof (cases args)
    case (Cons arg more)
    note IH = short [unfolded Cons]
    have short_ok: "(case short_flags letters more cli of
        Ok (cli', rest) \<Rightarrow> client_cli_parse rest cli' | Err e \<Rightarrow> Err e | Panic \<Rightarrow> Panic) \<noteq> Panic" for letters
      using short_flags_total [of letters more cli] short_flags_args [of letters more cli]
      by (auto simp del: client_cli_parse.simps intro!: IH split: outcome.split)
    show ?thesis unfolding Cons client_cli_parse.simps(2)
      apply (split option.split, intro conjI impI allI)
       apply (simp del: client_cli_parse.simps add: short_ok split: option.split)
      apply (split option.split, intro conjI impI allI)
       apply (simp del: client_cli_parse.simps add: IH client_set_long_total obind_total split: list.split)
      apply (simp del: client_cli_parse.simps add: IH client_set_long_total obind_total split: prod.split)
      done
  qed simp
qed

lemma config_map_total: "config_map cfg env fs \<noteq> Panic"
  by (auto simp: config_map_def load_kv_file_def Let_def split: option.split ConfigFile.split)

lemma require_total: "require e v \<noteq> Panic"
  by (simp add: require_def split: option.split)

lemma map_err_eq_Panic [simp]: "map_err f r = Panic \<longleftrightarrow> r = Panic"
  by (cases r) simp_all

lemma map_err_eq_Ok [simp]: "map_err f r = Ok x \<longleftrightarrow> r = Ok x"
  by (cases r) simp_all

lemma dest_host_total: "dest_host d \<noteq> Panic"
  by (simp add: dest_host_def Let_def split: option.split)

lemma config_new_total: "reality_server_config_new dest private ids \<noteq> Panic"
  by (auto simp: reality_server_config_new_def obind_eq_Panic dest_host_total)

lemma load_reality_total: "load_reality fs key_fs env cli f \<noteq> Panic"
  by (auto simp: load_reality_def Let_def obind_eq_Panic require_total parse_32_bytes_length(2) parse_short_ids_length(2)
      config_new_total)

lemma client_tls_total: "client_tls_settings key_fs env cli f server \<noteq> Panic"
  by (auto simp: client_tls_settings_def client_reality_def Let_def obind_eq_Panic require_total parse_32_bytes_length(2)
      parse_short_id_length(2) split: option.split)

lemma load_reality_Ok:
  assumes "load_reality fs key_fs env cli f = Ok (Some cfg)"
  shows "length (rs_private_key cfg) = 32 \<and> rs_short_ids cfg \<noteq> [] \<and> list_all (\<lambda>i. length i = 8) (rs_short_ids cfg) \<and>
    length (rs_server_names cfg) = 1"
  using assms
  by (auto simp: load_reality_def Let_def obind_eq_Ok reality_server_config_new_def
      dest: parse_32_bytes_length(1) parse_short_ids_length(1) split: if_splits)

lemma client_reality_Ok:
  assumes "client_reality key_fs env cli f tls0 = Ok tls" "reality_cfg tls0 = None"
  shows "case reality_cfg tls of None \<Rightarrow> True
    | Some cfg \<Rightarrow> length (rc_public_key cfg) = 32 \<and> length (rc_short_id cfg) = 8 \<and> rc_server_name cfg = utf8_encode (server_name tls)"
proof -
  from assms consider "tls = tls0"
    | pubkey short key sid name where "parse_32_bytes key_fs pubkey = Ok key" "parse_short_id short = Ok sid"
      "tls = tls0\<lparr>server_name := name,
          reality_cfg := Some \<lparr>rc_public_key = key, rc_short_id = sid, rc_server_name = utf8_encode name\<rparr>\<rparr>"
    unfolding client_reality_def Let_def by (auto simp: obind_eq_Ok split: option.splits)
  then show ?thesis
    by cases (use assms(2) in \<open>simp_all add: parse_32_bytes_length(1) parse_short_id_length(1)\<close>)
qed

lemma client_tls_Ok:
  assumes "client_tls_settings key_fs env cli f server = Ok tls"
  shows "case reality_cfg tls of None \<Rightarrow> True
    | Some cfg \<Rightarrow> length (rc_public_key cfg) = 32 \<and> length (rc_short_id cfg) = 8 \<and> rc_server_name cfg = utf8_encode (server_name tls)"
  using assms unfolding client_tls_settings_def Let_def by (rule client_reality_Ok) simp

lemma server_settings_parts:
  assumes "load_server_settings state_is_dir fs key_fs env args = Ok (Some s)"
  shows "\<exists>cli f r. load_reality fs key_fs env cli f = Ok r \<and> ss_reality s = map_option (with_local_names (ss_tls s)) r \<and>
    ss_psk s \<noteq> []"
proof -
  from assms obtain cli f psk r where parts: "load_reality fs key_fs env cli f = Ok r"
      "first [sc_psk cli, env_opt env (us ''PAYPHONE_OBFS_PSK''), f (us ''psk''), f (us ''obfs_psk'')] = Some psk"
      "ss_psk s = psk" "ss_reality s = map_option (with_local_names (ss_tls s)) r"
    unfolding load_server_settings_def Let_def by (auto simp: obind_eq_Ok require_def split: if_splits option.splits)
  then show ?thesis using first_nonempty by blast
qed

lemma client_settings_parts:
  assumes "load_client_settings fs key_fs env args = Ok (Some s)"
  shows "\<exists>cli f. client_tls_settings key_fs env cli f (cs_server s) = Ok (cs_tls s) \<and> cs_psk s \<noteq> []"
proof -
  from assms obtain cli f psk where parts: "client_tls_settings key_fs env cli f (cs_server s) = Ok (cs_tls s)"
      "first [cc_psk cli, env_opt env (us ''PAYPHONE_OBFS_PSK''), f (us ''psk''), f (us ''obfs_psk'')] = Some psk"
      "cs_psk s = psk"
    unfolding load_client_settings_def Let_def by (auto simp: obind_eq_Ok require_def split: if_splits option.splits)
  then show ?thesis using first_nonempty by blast
qed



section \<open>Precedence\<close>

text \<open>A complete command line can be continued.\<close>

lemma server_cli_append:
  "server_cli_parse args cli = Ok cli' \<Longrightarrow> server_cli_parse (args @ rest) cli = server_cli_parse rest cli'"
proof (induction "length args" arbitrary: args cli rule: less_induct)
  case less
  show ?case
  proof (cases args)
    case (Cons arg more)
    have IH: "server_cli_parse xs c = Ok cli' \<Longrightarrow> server_cli_parse (xs @ rest) c = server_cli_parse rest cli'"
      if "length xs \<le> length more" for xs c using less(1) [of xs c] that by (simp add: Cons)
    have bind: "obind m (server_cli_parse xs) = Ok cli' \<Longrightarrow> obind m (server_cli_parse (xs @ rest)) = server_cli_parse rest cli'"
      if "length xs \<le> length more" for m xs using IH [OF that] by (cases m) auto
    show ?thesis
    proof (cases "strip_prefix (us ''--'') arg")
      case None
      then show ?thesis using less(2) IH by (auto simp: Cons split: if_splits list.splits)
    next
      case (Some flag)
      show ?thesis
      proof (cases "split_once 61 flag")
        case None
        then show ?thesis using less(2) IH bind Some by (auto simp: Cons split: if_splits list.splits)
      next
        case (Some nv)
        then show ?thesis using less(2) bind [of more] \<open>strip_prefix (us ''--'') arg = Some flag\<close>
          by (auto simp: Cons split: prod.splits)
      qed
    qed
  qed (use less in simp)
qed

lemma psk_argument:
  "server_cli_parse [us ''--psk='' @ v] cli = Ok (cli\<lparr>sc_psk := Some v\<rparr>)"
  by (simp add: strip_prefix_def split_once_def server_set_long_def us_def)

text \<open>
  The command line wins.  Whatever the environment and the file say, and whatever earlier
  options say, the last \<open>--psk\<close> of a server command line is the secret the server uses.
\<close>

theorem last_psk_wins:
  assumes "server_cli_parse args server_cli_default = Ok cli" "\<not> sc_help cli" "v \<noteq> []"
    and "load_server_settings state_is_dir fs key_fs env (args @ [us ''--psk='' @ v]) = Ok r"
  shows "\<exists>s. r = Some s \<and> ss_psk s = v"
proof -
  have "server_cli_parse (args @ [us ''--psk='' @ v]) server_cli_default = Ok (cli\<lparr>sc_psk := Some v\<rparr>)"
    using server_cli_append [OF assms(1)] psk_argument by simp
  then show ?thesis
    using assms(2-4) by (auto simp: load_server_settings_def obind_eq_Ok Let_def require_def)
qed

text \<open>
  The command line does not win over a kill switch.  When the environment turns the kill
  switch on, every accepted command line leaves it on, \<open>--kill-switch=off\<close> included.
\<close>

theorem kill_switch_not_overridden:
  assumes "env (us ''PAYPHONE_KILL_SWITCH'') = Some v" "truthy v"
    and "load_client_settings fs key_fs env args = Ok (Some s)"
  shows "cs_kill_switch s"
  using assms
  by (auto simp: load_client_settings_def obind_eq_Ok Let_def client_env_flag_def flag_on_def parse_bool_flag_def
      split: if_splits)

definition demo_vars :: env_vars where
  "demo_vars = [us ''PAYPHONE_KILL_SWITCH'' \<mapsto> us ''on'', us ''PAYPHONE_OBFS_PSK'' \<mapsto> us ''secret'']"

lemma demo_vars_simps [simp]:
  "demo_vars (us ''PAYPHONE_KILL_SWITCH'') = Some (us ''on'')" "demo_vars (us ''PAYPHONE_OBFS_PSK'') = Some (us ''secret'')"
  "s \<noteq> ''PAYPHONE_KILL_SWITCH'' \<Longrightarrow> s \<noteq> ''PAYPHONE_OBFS_PSK'' \<Longrightarrow> demo_vars (us s) = None"
  by (simp_all add: demo_vars_def)

lemma us_nonempty [simp]: "us s = [] \<longleftrightarrow> s = []"
  by (simp add: us_def)

lemma non_empty_us [simp]: "non_empty (Some (us s)) = (if s = [] then None else Some (us s))" "non_empty None = None"
  by (cases s; simp add: non_empty_def us_def)+

theorem last_psk_wins_witness:
  "\<exists>s. load_server_settings False (\<lambda>_. NoConfig) (\<lambda>_. NoFile) demo_vars [us ''--psk='' @ us ''mine''] = Ok (Some s) \<and>
     ss_psk s = us ''mine''"
proof -
  have cli: "server_cli_parse [us ''--psk='' @ us ''mine''] server_cli_default = Ok (server_cli_default\<lparr>sc_psk := Some (us ''mine'')\<rparr>)"
    by (rule psk_argument)
  obtain r where r: "load_server_settings False (\<lambda>_. NoConfig) (\<lambda>_. NoFile) demo_vars ([] @ [us ''--psk='' @ us ''mine'']) = Ok r"
    by (simp add: load_server_settings_def cli del: server_cli_parse.simps)
      (simp add: config_map_def server_cli_default_def env_opt_def non_empty_def require_def load_reality_def Let_def)
  have "\<exists>s. r = Some s \<and> ss_psk s = us ''mine''"
  proof (rule last_psk_wins [OF _ _ _ r])
    show "server_cli_parse [] server_cli_default = Ok server_cli_default" by simp
    show "\<not> sc_help server_cli_default" by (simp add: server_cli_default_def)
  qed simp
  with r show ?thesis by auto
qed

theorem kill_switch_not_overridden_witness:
  "\<exists>s. load_client_settings (\<lambda>_. NoConfig) (\<lambda>_. NoFile) demo_vars [us ''--kill-switch=off''] = Ok (Some s) \<and> cs_kill_switch s"
proof -
  have quic: "parse_transport (us ''quic'') = Ok Quic"
    by (simp add: parse_transport_def lower_def us_def char_ascii_lower_def)
  have on: "truthy (us ''on'')" by (simp add: truthy_def us_def char_ascii_lower_def)
  have cli: "client_cli_parse [us ''--kill-switch=off''] client_cli_default = Ok client_cli_default"
    by (simp add: strip_prefix_def split_once_def client_set_long_def us_def parse_bool_flag_def truthy_def lower_def
        char_ascii_lower_def client_cli_default_def)
  let ?load = "load_client_settings (\<lambda>_. NoConfig) (\<lambda>_. NoFile) demo_vars [us ''--kill-switch=off'']"
  have step: "\<exists>f. ?load = obind (parse_transport (us ''quic'')) f \<and> (\<forall>t. \<exists>s. f t = Ok (Some s))"
    by (simp add: load_client_settings_def cli del: client_cli_parse.simps)
      (auto simp: config_map_def client_cli_default_def env_opt_def require_def
        client_tls_settings_def client_reality_def or_else_def Let_def intro!: exI)
  then obtain f where "?load = f Quic" "\<And>t. \<exists>s. f t = Ok (Some s)" unfolding quic by auto
  then obtain s where s: "?load = Ok (Some s)" by metis
  show ?thesis using s kill_switch_not_overridden [OF _ on s] by auto
qed

end
