(* ===== verification/Obfuscation.thy ===== *)
theory Obfuscation
  imports Prelude
begin

text \<open>
  The datagram obfuscation layer of \<open>payphone-transport/src\<close>
  (\<open>obfuscation.rs\<close>, \<open>obfuscated_socket.rs\<close>): the thread-local
  generator for salts and padding, the keyed transform, and the GSO/GRO handling
  of the wrapped socket.  SHA-256 is a parameter: the results hold for any function in
  its place, because both ends apply the same one.
\<close>

definition SALT_LEN :: nat where [constants]: "SALT_LEN = 8"
definition KEY_LEN :: nat where [constants]: "KEY_LEN = 32"
definition LENGTH_PREFIX_LEN :: nat where [constants]: "LENGTH_PREFIX_LEN = 2"
definition MAX_PADDING :: nat where [constants]: "MAX_PADDING = 32"

section \<open>Random bytes\<close>

definition xorshift :: "u64 \<Rightarrow> u64" where
  "xorshift s0 =
    (let s1 = s0 XOR push_bit 13 s0;
         s2 = s1 XOR drop_bit 7 s1
     in s2 XOR push_bit 17 s2)"

definition to_le_bytes :: "u64 \<Rightarrow> bytes" where
  "to_le_bytes w = rev (to_be 8 w)"

function fill_loop :: "u64 \<Rightarrow> nat \<Rightarrow> bytes \<times> u64" where
  "fill_loop state n =
    (if n = 0 then ([], state)
     else let state' = xorshift state; chunk = min n 8;
              (rest, final) = fill_loop state' (n - chunk)
          in (take chunk (to_le_bytes state') @ rest, final))"
  by pat_completeness auto
termination by (relation "measure snd") auto

declare fill_loop.simps [simp del]

text \<open>\<open>os_seed\<close> is what the operating system provides when the thread has no
  state yet.\<close>

definition fill_random :: "u64 \<Rightarrow> u64 \<Rightarrow> nat \<Rightarrow> bytes \<times> u64" where
  "fill_random os_seed state n = fill_loop (if state = 0 then os_seed OR 1 else state) n"

definition random_pad_len :: "u64 \<Rightarrow> u64 \<Rightarrow> nat \<times> u64" where
  "random_pad_len os_seed state =
    (let (byte, state') = fill_random os_seed state 1
     in (unat (byte ! 0) mod (MAX_PADDING + 1), state'))"

lemma length_fill_loop [simp]: "length (fst (fill_loop s n)) = n"
proof (induction s n rule: fill_loop.induct)
  case (1 s n)
  then show ?case
    by (subst fill_loop.simps) (auto simp: Let_def case_prod_unfold to_le_bytes_def)
qed

lemma length_fill_random [simp]: "length (fst (fill_random os s n)) = n"
  by (simp add: fill_random_def)

lemma random_pad_len_bound: "fst (random_pad_len os s) \<le> MAX_PADDING"
proof -
  have "n mod 33 \<le> 32" for n :: nat using mod_less_divisor [of 33 n] by linarith
  then show ?thesis by (simp add: random_pad_len_def case_prod_unfold Let_def constants)
qed

text \<open>The generator never falls back to zero, so a thread draws one seed only.\<close>

lemma xor_0_eq:
  assumes "x XOR y = (0 :: 'a::len word)"
  shows "y = x"
proof (rule bit_word_eqI)
  fix n
  have "bit (x XOR y) n = bit (0 :: 'a word) n" using assms by simp
  then show "bit y n = bit x n" by (simp add: bit_xor_iff)
qed

lemma xor_push_bit_0:
  assumes "x XOR push_bit k x = (0 :: 'a::len word)" "0 < k"
  shows "x = 0"
proof (rule bit_word_eqI)
  fix n
  have eq: "push_bit k x = x" using assms(1) by (rule xor_0_eq)
  show "bit x n = bit (0 :: 'a word) n"
  proof (induction n rule: less_induct)
    case (less n)
    have "bit x n = bit (push_bit k x) n" by (simp add: eq)
    also have "\<dots> \<longleftrightarrow> k \<le> n \<and> n < LENGTH('a) \<and> bit x (n - k)" by (auto simp: bit_simps)
    finally show ?case using less [of "n - k"] assms(2) by auto
  qed
qed


lemma xor_drop_bit_0:
  assumes "x XOR drop_bit k x = (0 :: 'a::len word)" "0 < k"
  shows "x = 0"
proof (rule bit_word_eqI)
  fix n
  have eq: "drop_bit k x = x" using assms(1) by (rule xor_0_eq)
  show "bit x n = bit (0 :: 'a word) n"
  proof (induction "LENGTH('a) - n" arbitrary: n rule: less_induct)
    case less
    have shift: "bit x n \<longleftrightarrow> bit x (k + n)"
      using eq by (metis bit_drop_bit_eq comp_apply)
    show ?case
    proof (cases "n < LENGTH('a)")
      case True
      with less [of "k + n"] assms(2) shift show ?thesis by simp
    next
      case False
      then show ?thesis by (auto dest: bit_imp_le_length)
    qed
  qed
qed

lemma xorshift_nonzero:
  assumes "s \<noteq> 0"
  shows "xorshift s \<noteq> 0"
proof -
  define s1 where "s1 = s XOR push_bit 13 s"
  define s2 where "s2 = s1 XOR drop_bit 7 s1"
  have "s1 \<noteq> 0" using assms by (metis s1_def xor_push_bit_0 zero_less_numeral)
  then have "s2 \<noteq> 0" by (metis s2_def xor_drop_bit_0 zero_less_numeral)
  then have "s2 XOR push_bit 17 s2 \<noteq> 0" by (metis xor_push_bit_0 zero_less_numeral)
  then show ?thesis unfolding xorshift_def Let_def s2_def s1_def .
qed

lemma fill_loop_nonzero: "s \<noteq> 0 \<Longrightarrow> snd (fill_loop s n) \<noteq> 0"
proof (induction s n rule: fill_loop.induct)
  case (1 s n)
  then show ?case
    by (subst fill_loop.simps) (auto simp: Let_def case_prod_unfold xorshift_nonzero)
qed

lemma or_1_nonzero: "(x OR 1 :: u64) \<noteq> 0"
proof
  assume "x OR 1 = 0"
  then have "bit (x OR 1) 0 = bit (0 :: u64) 0" by simp
  then show False by (simp add: bit_simps)
qed

lemma fill_random_nonzero: "snd (fill_random os s n) \<noteq> 0"
  by (simp add: fill_random_def fill_loop_nonzero or_1_nonzero)

section \<open>Passphrase and keys\<close>

datatype PassphraseError = PassphrasePlaceholder | PassphraseTooShort

definition PLACEHOLDER_PASSPHRASE :: bytes where
  "PLACEHOLDER_PASSPHRASE = map of_char ''change-me-to-a-real-random-secret''"

text \<open>A passphrase is its UTF-8 bytes, as \<open>str::len\<close> and \<open>as_bytes\<close> see it.\<close>

definition validate_passphrase :: "bytes \<Rightarrow> (PassphraseError, unit) outcome" where
  "validate_passphrase passphrase =
    (if passphrase = PLACEHOLDER_PASSPHRASE then Err PassphrasePlaceholder
     else if length passphrase < 16 then Err PassphraseTooShort
     else Ok ())"

definition from_passphrase :: "(bytes \<Rightarrow> bytes) \<Rightarrow> bytes \<Rightarrow> bytes" where
  "from_passphrase sha256 passphrase = sha256 passphrase"

definition keystream :: "(bytes \<Rightarrow> bytes) \<Rightarrow> bytes \<Rightarrow> bytes \<Rightarrow> bytes" where
  "keystream sha256 key salt = sha256 (key @ salt)"

definition xor_stream :: "bytes \<Rightarrow> bytes \<Rightarrow> bytes" where
  "xor_stream stream bs = map (\<lambda>(index, byte). byte XOR stream ! (index mod KEY_LEN)) (enumerate 0 bs)"

section \<open>Obfuscation\<close>

datatype ObfsError = PayloadTooLargeToObfuscate

text \<open>The salt is drawn before the length is checked, the padding after it.\<close>

definition obfuscate_padded ::
  "(bytes \<Rightarrow> bytes) \<Rightarrow> bytes \<Rightarrow> u64 \<Rightarrow> u64 \<Rightarrow> bytes \<Rightarrow> nat \<Rightarrow> (ObfsError, bytes) outcome \<times> u64" where
  "obfuscate_padded sha256 key os_seed state payload pad =
    (let pad_len = min pad MAX_PADDING;
         (salt, state1) = fill_random os_seed state SALT_LEN;
         stream = keystream sha256 key salt
     in if length payload > U16_MAX then (Err PayloadTooLargeToObfuscate, state1)
        else
          let (padding, state2) = fill_random os_seed state1 pad_len;
              plaintext = put_u16 (of_nat (length payload)) @ payload @ padding
          in (Ok (salt @ xor_stream stream plaintext), state2))"

definition obfuscate ::
  "(bytes \<Rightarrow> bytes) \<Rightarrow> bytes \<Rightarrow> u64 \<Rightarrow> u64 \<Rightarrow> bytes \<Rightarrow> (ObfsError, bytes) outcome \<times> u64" where
  "obfuscate sha256 key os_seed state payload =
    (let (pad, state1) = random_pad_len os_seed state
     in obfuscate_padded sha256 key os_seed state1 payload pad)"

definition deobfuscate :: "(bytes \<Rightarrow> bytes) \<Rightarrow> bytes \<Rightarrow> bytes \<Rightarrow> bytes option" where
  "deobfuscate sha256 key data =
    (if length data < SALT_LEN + LENGTH_PREFIX_LEN then None
     else
       let salt = take SALT_LEN data;
           stream = keystream sha256 key salt;
           plaintext = xor_stream stream (drop SALT_LEN data);
           payload_len = unat (from_be [plaintext ! 0, plaintext ! 1] :: u16)
       in if LENGTH_PREFIX_LEN + payload_len \<le> length plaintext
          then Some (take payload_len (drop LENGTH_PREFIX_LEN plaintext))
          else None)"

lemma length_xor_stream [simp]: "length (xor_stream st bs) = length bs"
  by (simp add: xor_stream_def)

lemma xor_stream_twice [simp]: "xor_stream st (xor_stream st bs) = bs"
  by (rule nth_equalityI) (simp_all add: xor_stream_def nth_enumerate_eq xor.assoc)

lemma obfuscate_padded_Ok:
  assumes "length payload \<le> U16_MAX"
  obtains salt padding st' where
    "obfuscate_padded sha key os st payload pad =
      (Ok (salt @ xor_stream (keystream sha key salt)
        (put_u16 (of_nat (length payload)) @ payload @ padding)), st')"
    "length salt = SALT_LEN" "length padding = min pad MAX_PADDING"
proof -
  obtain salt st1 where s: "fill_random os st SALT_LEN = (salt, st1)" by force
  obtain padding st2 where p: "fill_random os st1 (min pad MAX_PADDING) = (padding, st2)" by force
  have "length salt = SALT_LEN" "length padding = min pad MAX_PADDING"
    using length_fill_random [of os st SALT_LEN] length_fill_random [of os st1 "min pad MAX_PADDING"] s p
    by simp_all
  with that [of salt padding st2] s p assms show thesis by (simp add: obfuscate_padded_def Let_def)
qed

lemma two_bytes: "put_u16 w = [ucast (drop_bit 8 w), ucast w]"
  by (simp add: to_be_numeral)

lemma deobfuscate_wire:
  assumes "length salt = SALT_LEN" "length payload \<le> U16_MAX"
  shows "deobfuscate sha key (salt @ xor_stream (keystream sha key salt)
      (put_u16 (of_nat (length payload)) @ payload @ padding)) = Some payload"
proof -
  let ?w = "of_nat (length payload) :: u16"
  have "from_be [ucast (drop_bit 8 ?w), ucast ?w] = ?w"
    using from_be_to_be [of 2 ?w] by (simp add: two_bytes)
  moreover have "unat ?w = length payload"
    using assms(2) by (simp add: unat_of_nat take_bit_nat_eq_self constants)
  ultimately show ?thesis
    using assms(1) by (simp add: deobfuscate_def Let_def two_bytes constants del: word_of_length)
qed

lemma deobfuscate_obfuscate_padded:
  assumes "obfuscate_padded sha key os st payload pad = (Ok wire, st')"
  shows "deobfuscate sha key wire = Some payload \<and>
    length wire = SALT_LEN + LENGTH_PREFIX_LEN + length payload + min pad MAX_PADDING"
proof -
  have "length payload \<le> U16_MAX"
    using assms by (auto simp: obfuscate_padded_def Let_def case_prod_unfold split: if_splits)
  moreover from this obtain salt padding st'' where
    "obfuscate_padded sha key os st payload pad =
      (Ok (salt @ xor_stream (keystream sha key salt)
        (put_u16 (of_nat (length payload)) @ payload @ padding)), st'')"
    "length salt = SALT_LEN" "length padding = min pad MAX_PADDING"
    by (rule obfuscate_padded_Ok)
  ultimately show ?thesis
    using assms deobfuscate_wire [of salt payload sha key padding] by (simp add: constants)
qed

lemma deobfuscate_length:
  "deobfuscate sha key data = Some p \<Longrightarrow> length p + SALT_LEN + LENGTH_PREFIX_LEN \<le> length data"
  by (auto simp: deobfuscate_def Let_def constants split: if_splits)

section \<open>Segmented sends and receives\<close>

text \<open>\<open>slice::chunks\<close> for a positive chunk size.\<close>

function chunks :: "nat \<Rightarrow> 'a list \<Rightarrow> 'a list list" where
  "chunks n xs = (if n = 0 \<or> xs = [] then [] else take n xs # chunks n (drop n xs))"
  by pat_completeness auto
termination by (relation "measure (\<lambda>(n, xs). length xs)") auto

declare chunks.simps [simp del]

text \<open>The loop over the chunks of a segmented transmit, with the wire bytes so far and
  the length of the last full segment.\<close>

fun obfuscate_chunks ::
  "(bytes \<Rightarrow> bytes) \<Rightarrow> bytes \<Rightarrow> u64 \<Rightarrow> nat \<Rightarrow> nat \<Rightarrow> u64 \<Rightarrow> bytes list \<Rightarrow> bytes \<Rightarrow> nat option \<Rightarrow>
     (ObfsError, bytes \<times> nat option) outcome \<times> u64" where
  "obfuscate_chunks sha256 key os_seed seg pad state [] wire wire_segment = (Ok (wire, wire_segment), state)"
| "obfuscate_chunks sha256 key os_seed seg pad state (chunk # later) wire wire_segment =
    (case obfuscate_padded sha256 key os_seed state chunk pad of
       (Ok ob, state') \<Rightarrow>
         obfuscate_chunks sha256 key os_seed seg pad state' later (wire @ ob)
           (if length chunk = seg then Some (length ob) else wire_segment)
     | (Err e, state') \<Rightarrow> (Err e, state')
     | (Panic, state') \<Rightarrow> (Panic, state'))"

definition obfuscate_transmit ::
  "(bytes \<Rightarrow> bytes) \<Rightarrow> bytes \<Rightarrow> u64 \<Rightarrow> u64 \<Rightarrow> bytes \<Rightarrow> nat option \<Rightarrow>
     (ObfsError, bytes \<times> nat option) outcome \<times> u64" where
  "obfuscate_transmit sha256 key os_seed state contents segment_size =
    (case segment_size of
       Some seg \<Rightarrow>
         if 0 < seg \<and> seg < length contents then
           let (pad, state1) = random_pad_len os_seed state in
           (case obfuscate_chunks sha256 key os_seed seg pad state1 (chunks seg contents) [] None of
              (Ok (wire, ws), state2) \<Rightarrow>
                (Ok (wire, case ws of Some sz \<Rightarrow> if sz < length wire then Some sz else None
                                    | None \<Rightarrow> None), state2)
            | (Err e, state2) \<Rightarrow> (Err e, state2)
            | (Panic, state2) \<Rightarrow> (Panic, state2))
         else (case obfuscate sha256 key os_seed state contents of
                 (Ok wire, state1) \<Rightarrow> (Ok (wire, None), state1)
               | (Err e, state1) \<Rightarrow> (Err e, state1)
               | (Panic, state1) \<Rightarrow> (Panic, state1))
     | None \<Rightarrow> (case obfuscate sha256 key os_seed state contents of
                 (Ok wire, state1) \<Rightarrow> (Ok (wire, None), state1)
               | (Err e, state1) \<Rightarrow> (Err e, state1)
               | (Panic, state1) \<Rightarrow> (Panic, state1)))"

record RecvMeta =
  meta_len :: nat
  meta_stride :: nat

text \<open>The verdict, the receive buffer and its metadata after the call.\<close>

definition deobfuscate_into ::
  "(bytes \<Rightarrow> bytes) \<Rightarrow> bytes \<Rightarrow> bytes \<Rightarrow> RecvMeta \<Rightarrow> bool \<times> bytes \<times> RecvMeta" where
  "deobfuscate_into sha256 key buf meta =
    (let total = meta_len meta in
     if total = 0 then (False, buf, meta)
     else
       let stride = (if meta_stride meta = 0 then total else min (meta_stride meta) total);
           plains = List.map_filter (deobfuscate sha256 key) (chunks stride (take total buf))
       in if plains = [] then (False, buf, meta)
       else
         let first_len = length (hd plains);
             uniform = list_all (\<lambda>plain. length plain = first_len) (drop 1 (rev plains))
         in if \<not> uniform then
              (True, hd plains @ drop first_len buf, \<lparr>meta_len = first_len, meta_stride = first_len\<rparr>)
            else
              let out = concat plains in
              (True, out @ drop (length out) buf,
               \<lparr>meta_len = length out, meta_stride = max first_len 1\<rparr>))"

text \<open>
  One round of \<open>poll_recv\<close> over the datagrams the inner socket returned: the
  recognised ones are moved to the front, the others are dropped.
\<close>

definition recv_round ::
  "(bytes \<Rightarrow> bytes) \<Rightarrow> bytes \<Rightarrow> (bytes \<times> RecvMeta) list \<Rightarrow> (bytes \<times> RecvMeta) list" where
  "recv_round sha256 key batch =
     List.map_filter (\<lambda>(buf, meta).
       case deobfuscate_into sha256 key buf meta of
         (True, buf', meta') \<Rightarrow> Some (buf', meta')
       | (False, _, _) \<Rightarrow> None) batch"

subsection \<open>Segments survive the transform\<close>

lemma concat_chunks [simp]: "0 < n \<Longrightarrow> concat (chunks n xs) = xs"
proof (induction n xs rule: chunks.induct)
  case (1 n xs)
  then show ?case
    by (cases "xs = []") (simp_all add: chunks.simps [of n xs] chunks.simps [of n "[]"])
qed

lemma chunks_concat:
  assumes "0 < n" "\<forall>w \<in> set (butlast ws). length w = n" "ws \<noteq> [] \<longrightarrow> last ws \<noteq> [] \<and> length (last ws) \<le> n"
  shows "chunks n (concat ws) = ws"
  using assms(2,3)
proof (induction ws)
  case Nil
  then show ?case by (simp add: chunks.simps)
next
  case (Cons w ws)
  then show ?case
    using assms(1) by (cases "ws = []") (auto simp: chunks.simps [of n "w @ _"] chunks.simps [of n w] chunks.simps [of n "[]"])
qed

lemma chunks_lengths:
  "0 < n \<Longrightarrow> (\<forall>c \<in> set (butlast (chunks n xs)). length c = n) \<and>
     (xs \<noteq> [] \<longrightarrow> chunks n xs \<noteq> [] \<and> last (chunks n xs) \<noteq> [] \<and> length (last (chunks n xs)) \<le> n)"
proof (induction n xs rule: chunks.induct)
  case (1 n xs)
  show ?case
  proof (cases "xs = [] \<or> length xs \<le> n")
    case True
    then show ?thesis using 1(2) by (auto simp: chunks.simps [of n xs] chunks.simps [of n "[]"])
  next
    case False
    with 1 show ?thesis by (auto simp: chunks.simps [of n xs])
  qed
qed

lemma map_filter_Some: "(\<And>x. x \<in> set xs \<Longrightarrow> f x = Some (g x)) \<Longrightarrow> List.map_filter f xs = map g xs"
  by (induction xs) (auto simp: List.map_filter_def)

text \<open>A wire image of a payload: it decodes to it and has the expected length.\<close>

definition wire_of :: "(bytes \<Rightarrow> bytes) \<Rightarrow> bytes \<Rightarrow> nat \<Rightarrow> bytes \<Rightarrow> bytes \<Rightarrow> bool" where
  "wire_of sha key pad payload wire \<longleftrightarrow> deobfuscate sha key wire = Some payload \<and>
     length wire = 10 + length payload + pad"

lemma obfuscate_padded_wire:
  assumes "length payload \<le> U16_MAX"
  shows "\<exists>wire st'. obfuscate_padded sha key os st payload pad = (Ok wire, st') \<and>
    wire_of sha key (min pad MAX_PADDING) payload wire"
proof -
  obtain wire st' where ok: "obfuscate_padded sha key os st payload pad = (Ok wire, st')"
    using assms by (auto simp: obfuscate_padded_def Let_def case_prod_unfold)
  then show ?thesis
    using deobfuscate_obfuscate_padded [OF ok] by (auto simp: wire_of_def constants)
qed

lemma obfuscate_chunks_wires:
  assumes "\<forall>c \<in> set cs. length c \<le> U16_MAX"
  shows "\<exists>ws st'. obfuscate_chunks sha key os seg pad st cs wire0 seg0 =
      (Ok (wire0 @ concat ws,
           if \<exists>c \<in> set cs. length c = seg then Some (10 + seg + min pad MAX_PADDING) else seg0), st') \<and>
    list_all2 (wire_of sha key (min pad MAX_PADDING)) cs ws"
  using assms
proof (induction cs arbitrary: st wire0 seg0)
  case Nil
  then show ?case by simp
next
  case (Cons c cs)
  obtain w st1 where w: "obfuscate_padded sha key os st c pad = (Ok w, st1)"
    "wire_of sha key (min pad MAX_PADDING) c w"
    using obfuscate_padded_wire Cons.prems by (metis list.set_intros(1))
  obtain ws st' where ws: "obfuscate_chunks sha key os seg pad st1 cs (wire0 @ w)
      (if length c = seg then Some (length w) else seg0) =
      (Ok (wire0 @ w @ concat ws,
           if \<exists>c \<in> set cs. length c = seg then Some (10 + seg + min pad MAX_PADDING)
           else if length c = seg then Some (length w) else seg0), st')"
    "list_all2 (wire_of sha key (min pad MAX_PADDING)) cs ws"
    using Cons.IH [of st1 "wire0 @ w" "if length c = seg then Some (length w) else seg0"] Cons.prems
    by auto
  have "length w = 10 + length c + min pad MAX_PADDING" using w(2) by (simp add: wire_of_def)
  then show ?case
    using w ws by (intro exI [of _ "w # ws"] exI [of _ st']) auto
qed

lemma wires_plain:
  assumes "list_all2 (wire_of sha key pad) cs ws"
  shows "List.map_filter (deobfuscate sha key) ws = cs"
  using assms
  by (induction rule: list_all2_induct) (simp_all add: List.map_filter_def wire_of_def)

lemma wires_butlast:
  assumes "list_all2 (wire_of sha key pad) cs ws" "\<forall>c \<in> set (butlast cs). length c = n"
  shows "\<forall>w \<in> set (butlast ws). length w = 10 + n + pad"
  using assms
proof (induction rule: list_all2_induct)
  case (Cons c cs w ws)
  then show ?case by (cases "cs = []") (auto simp: wire_of_def dest: list_all2_lengthD)
qed simp

lemma wires_last:
  assumes "list_all2 (wire_of sha key pad) cs ws" "cs \<noteq> []"
  shows "ws \<noteq> [] \<and> length (last ws) = 10 + length (last cs) + pad"
  using assms
proof (induction rule: list_all2_induct)
  case (Cons c cs w ws)
  then show ?case by (cases "cs = []") (auto simp: wire_of_def)
qed simp

lemma uniform_chunks:
  assumes "\<forall>c \<in> set (butlast cs). length c = n" "2 \<le> length cs"
  shows "length (hd cs) = n" "list_all (\<lambda>c. length c = n) (drop 1 (rev cs))"
proof -
  have "cs \<noteq> []" "butlast cs \<noteq> []" using assms(2) by (cases cs; auto)+
  moreover from this have "hd cs \<in> set (butlast cs)" by (cases cs) auto
  moreover have "tl (rev cs) = rev (butlast cs)"
    using butlast_rev [of "rev cs"] by (simp add: rev_swap)
  ultimately show "length (hd cs) = n" "list_all (\<lambda>c. length c = n) (drop 1 (rev cs))"
    using assms(1) by (auto simp: list_all_iff drop_Suc)
qed

lemma chunks_many: "0 < n \<Longrightarrow> n < length xs \<Longrightarrow> 2 \<le> length (chunks n xs)"
  by (auto simp: chunks.simps [of n xs] chunks.simps [of n "drop n xs"])

text \<open>
  A segmented transmit, received as one coalesced buffer with the announced
  stride, comes out as the original contents with the original segment size.
\<close>

lemma gso_gro_roundtrip:
  assumes seg: "0 < seg" "seg < length contents" "seg \<le> U16_MAX"
  shows "\<exists>wire ws st'. obfuscate_transmit sha key os st contents (Some seg) = (Ok (wire, Some ws), st') \<and>
    deobfuscate_into sha key (wire @ rest) \<lparr>meta_len = length wire, meta_stride = ws\<rparr> =
      (True, contents @ drop (length contents) (wire @ rest),
       \<lparr>meta_len = length contents, meta_stride = seg\<rparr>)"
proof -
  let ?cs = "chunks seg contents"
  obtain pad st1 where pad: "random_pad_len os st = (pad, st1)" by force
  let ?p = "min pad MAX_PADDING"
  note lens = chunks_lengths [OF seg(1), of contents]
  have ne: "contents \<noteq> []" using seg by auto
  have small: "\<forall>c \<in> set ?cs. length c \<le> U16_MAX"
  proof
    fix c assume "c \<in> set ?cs"
    then have "c \<in> set (butlast ?cs) \<or> c = last ?cs"
      by (metis append_butlast_last_id empty_iff empty_set in_set_conv_decomp list.set_cases rotate1.simps(2) set_ConsD set_rotate1)
    with lens ne seg show "length c \<le> U16_MAX" by auto
  qed
  obtain ws st2 where ws: "obfuscate_chunks sha key os seg pad st1 ?cs [] None =
      (Ok (concat ws, if \<exists>c \<in> set ?cs. length c = seg then Some (10 + seg + ?p) else None), st2)"
    "list_all2 (wire_of sha key ?p) ?cs ws"
    using obfuscate_chunks_wires [OF small, of sha key os seg pad st1 "[]" None] by auto
  have many: "2 \<le> length ?cs" by (rule chunks_many [OF seg(1,2)])
  note uni = uniform_chunks [OF conjunct1 [OF lens] many]
  have full: "\<exists>c \<in> set ?cs. length c = seg"
    using uni(1) many by (metis list.set_sel(1) list.size(3) not_numeral_le_zero)
  have re: "chunks (10 + seg + ?p) (concat ws) = ws"
    using wires_butlast [OF ws(2) conjunct1 [OF lens]] wires_last [OF ws(2)] lens ne
    by (intro chunks_concat) auto
  have longer: "10 + seg + ?p < length (concat ws)"
  proof -
    have "length ws = length ?cs" using ws(2) by (simp add: list_all2_lengthD)
    with many obtain a b r where abr: "ws = a # b # r"
      by (cases ws; cases "tl ws") auto
    then have "length a = 10 + seg + ?p" "0 < length b"
      using wires_butlast [OF ws(2) conjunct1 [OF lens]] ws(2)
      by (auto simp: list_all2_Cons2 wire_of_def)
    with abr show ?thesis by simp
  qed
  have tx: "obfuscate_transmit sha key os st contents (Some seg) = (Ok (concat ws, Some (10 + seg + ?p)), st2)"
    using seg pad ws(1) full longer by (simp add: obfuscate_transmit_def)
  have "concat ws \<noteq> []" using longer by (metis list.size(3) not_less_zero)
  moreover have "List.map_filter (deobfuscate sha key) ws = ?cs" by (rule wires_plain [OF ws(2)])
  ultimately have "deobfuscate_into sha key (concat ws @ rest)
      \<lparr>meta_len = length (concat ws), meta_stride = 10 + seg + ?p\<rparr> =
      (True, contents @ drop (length contents) (concat ws @ rest),
       \<lparr>meta_len = length contents, meta_stride = seg\<rparr>)"
    using longer re uni many seg(1)
    by (auto simp: deobfuscate_into_def Let_def min_absorb1)
  with tx show ?thesis by blast
qed

section \<open>Properties\<close>

text \<open>
  Obfuscation is undone by the peer with the same key.  Every payload of at
  most 65535 bytes is sent, whatever the state of the generator, the datagram is
  between 10 and 42 bytes longer than the payload, and the receiver recovers the
  payload exactly; a longer payload is refused.
\<close>

theorem obfuscation_roundtrip:
  "case obfuscate sha256 key os_seed state plain of
     (Ok wire, state') \<Rightarrow> length plain \<le> 65535 \<and> deobfuscate sha256 key wire = Some plain \<and>
       length wire - length plain \<in> {10..42} \<and> state' \<noteq> 0
   | (Err PayloadTooLargeToObfuscate, state') \<Rightarrow> 65535 < length plain
   | (Panic, state') \<Rightarrow> False"
proof -
  obtain pad st1 where pad: "random_pad_len os_seed state = (pad, st1)" by force
  obtain res st2 where o: "obfuscate_padded sha256 key os_seed st1 plain pad = (res, st2)" by force
  have ob: "obfuscate sha256 key os_seed state plain = (res, st2)" using pad o by (simp add: obfuscate_def)
  show ?thesis
  proof (cases "length plain \<le> U16_MAX")
    case True
    then obtain wire where w: "res = Ok wire" using o by (auto simp: obfuscate_padded_def Let_def case_prod_unfold)
    moreover have "st2 \<noteq> 0"
      using o True fill_random_nonzero by (auto simp: obfuscate_padded_def Let_def case_prod_unfold)
    moreover have "min pad 32 \<le> 32" by simp
    ultimately show ?thesis
      using deobfuscate_obfuscate_padded [OF o [unfolded w]] ob True by (auto simp: constants)
  next
    case False
    then have "res = Err PayloadTooLargeToObfuscate"
      using o by (auto simp: obfuscate_padded_def Let_def case_prod_unfold)
    with False ob show ?thesis by (simp add: constants)
  qed
qed

text \<open>
  C20: segmentation offload.  A buffer sent in segments, obfuscated segment by
  segment with one padding length and received as one coalesced buffer with the
  announced stride, is deobfuscated to the original contents with the original
  segment size.
\<close>

theorem segmented_transmit_roundtrip:
  assumes "0 < seg" "seg < length contents" "seg \<le> U16_MAX"
  shows "\<exists>wire stride state'.
    obfuscate_transmit sha256 key os_seed state contents (Some seg) = (Ok (wire, Some stride), state') \<and>
    deobfuscate_into sha256 key (wire @ rest) \<lparr>meta_len = length wire, meta_stride = stride\<rparr> =
      (True, contents @ drop (length contents) (wire @ rest), \<lparr>meta_len = length contents, meta_stride = seg\<rparr>)"
  using gso_gro_roundtrip [OF assms] .

theorem segmented_transmit_roundtrip_witness:
  "\<exists>wire stride state'.
    obfuscate_transmit (\<lambda>b. replicate 32 90) [1] 5 0 [1, 2, 3, 4, 5] (Some 2) = (Ok (wire, Some stride), state') \<and>
    deobfuscate_into (\<lambda>b. replicate 32 90) [1] (wire @ []) \<lparr>meta_len = length wire, meta_stride = stride\<rparr> =
      (True, [1, 2, 3, 4, 5] @ drop (length [1, 2, 3, 4, 5 :: u8]) (wire @ []), \<lparr>meta_len = length [1, 2, 3, 4, 5 :: u8], meta_stride = 2\<rparr>)"
  by (rule segmented_transmit_roundtrip) (simp_all add: constants)

end
