(* ===== verification/Client_Run.thy ===== *)
theory Client_Run
  imports Tun_Device Client Kill_Switch Settings Obfuscation Streams
begin

text \<open>
  The life of the client (\<open>payphone-client/src/main.rs\<close> and the frame of
  \<open>tunnel.rs\<close>): start-up, the loop that connects, hands the session to the tunnel
  and reconnects, the tunnel with its TUN device and its guard of the routes, and the
  kill switch around all of it.  What the network, the user, other processes and
  the operating system do is an input: a list of connection attempts, each with the
  events of its tunnel.
\<close>

section \<open>Addresses\<close>

datatype RunError =
    BadPassphrase PassphraseError
  | ResolveFailed
  | NoAddress
  | EndpointFailed
  | KillSwitchFailed RouteError
  | LinkFailed
  | TokenUnreadable
  | EstablishFailed EstablishError
  | TunFailed
  | TunNameUnreadable
  | TunnelRoutesFailed RouteError
  | TunnelBroke TunnelExit
  | AccessEnded TunnelExit

type_synonym resolver = "ustr \<Rightarrow> SockAddr list option"

definition resolve_server_addr :: "resolver \<Rightarrow> ustr \<Rightarrow> (RunError, SockAddr) outcome" where
  "resolve_server_addr resolve setting =
    (case resolve setting of
       None \<Rightarrow> Err ResolveFailed
     | Some [] \<Rightarrow> Err NoAddress
     | Some (address # _) \<Rightarrow> Ok address)"

definition tls_connect_address :: "resolver \<Rightarrow> ustr option \<Rightarrow> SockAddr \<Rightarrow> (RunError, SockAddr) outcome" where
  "tls_connect_address resolve tcp_server quic_address =
    (case tcp_server of
       Some setting \<Rightarrow> resolve_server_addr resolve setting
     | None \<Rightarrow>
         if snd quic_address = DEFAULT_PORT then Ok (fst quic_address, DEFAULT_TCP_PORT)
         else Ok quic_address)"

section \<open>Frames that arrive\<close>

text \<open>One reply of the handshake on QUIC: the datagram that arrives in time, decoded.\<close>

definition receive_frame :: "bytes option \<Rightarrow> Frame option" where
  "receive_frame datagram =
    (case datagram of
       None \<Rightarrow> None
     | Some b \<Rightarrow> (case frame_decode b of Ok f \<Rightarrow> Some f | _ \<Rightarrow> None))"

text \<open>The task that reads datagrams once the session stands, until the connection fails.\<close>

fun quic_reader :: "bytes option list \<Rightarrow> Frame list" where
  "quic_reader [] = []"
| "quic_reader (None # later) = []"
| "quic_reader (Some b # later) =
    (case frame_decode b of Ok f \<Rightarrow> f # quic_reader later | _ \<Rightarrow> quic_reader later)"

section \<open>The tunnel\<close>

text \<open>
  What can happen in the tunnel.  A \<open>TunPacket\<close> comes with the success of sending it, a
  frame with the success of writing the session file and the TUN device, a route tick with
  the datagram budget of the path; \<open>Meanwhile\<close> is what other processes do to the
  kernel.
\<close>

datatype 'k TunnelEvent =
    TunPacket bytes bool
  | TunReadFailed
  | FrameArrives "Frame option" bool bool
  | PingDue
  | CtrlC
  | RainTick
  | RouteTick "nat option"
  | Meanwhile "'k \<Rightarrow> 'k"

record 'k Tunnel =
  tn_mtu :: u16
  tn_client :: ClientState
  tn_routes :: "'k list"
  tn_out :: "ClientOut list"

fun vpn_sink :: "TransportKind \<Rightarrow> nat option \<Rightarrow> VpnSink" where
  "vpn_sink TransportKind.Quic budget = QuicSink budget"
| "vpn_sink Tls budget = TlsSink"

definition client_branch ::
  "TunnelExit option \<times> ClientState \<times> ClientOut list \<Rightarrow> 'k Tunnel \<Rightarrow> TunnelExit option \<times> 'k Tunnel" where
  "client_branch res t =
    (case res of (exit, st, outs) \<Rightarrow> (exit, t\<lparr>tn_client := st, tn_out := tn_out t @ outs\<rparr>))"

definition route_watch ::
  "'k os \<Rightarrow> TransportKind \<Rightarrow> ustr \<Rightarrow> FullTunnelGuard option \<Rightarrow> nat option \<Rightarrow> 'k Tunnel \<Rightarrow> 'k Tunnel" where
  "route_watch os transport name full_tunnel budget t =
    (let h = (case full_tunnel of Some guard \<Rightarrow> ensure_tunnel_routes os guard (tn_routes t) | None \<Rightarrow> tn_routes t);
         next_mtu = tun_mtu (vpn_sink transport budget)
     in if next_mtu \<noteq> tn_mtu t
        then t\<lparr>tn_routes := set_interface_mtu os (Some name) next_mtu h, tn_mtu := next_mtu\<rparr>
        else t\<lparr>tn_routes := h\<rparr>)"

fun tunnel_event ::
  "'k os \<Rightarrow> TransportKind \<Rightarrow> ustr \<Rightarrow> FullTunnelGuard option \<Rightarrow> 'k TunnelEvent \<Rightarrow> 'k Tunnel \<Rightarrow>
   TunnelExit option \<times> 'k Tunnel" where
  "tunnel_event os transport name guard (TunPacket packet send_ok) t =
     client_branch (client_on_tun (tn_client t) packet send_ok) t"
| "tunnel_event os transport name guard TunReadFailed t = (Some TunError, t)"
| "tunnel_event os transport name guard (FrameArrives incoming write_ok tun_ok) t =
     client_branch (client_on_frame (tn_client t) write_ok tun_ok incoming) t"
| "tunnel_event os transport name guard PingDue t = client_branch (client_on_ping_timer (tn_client t)) t"
| "tunnel_event os transport name guard CtrlC t = client_branch (client_on_ctrl_c (tn_client t)) t"
| "tunnel_event os transport name guard RainTick t = (None, t)"
| "tunnel_event os transport name guard (RouteTick budget) t = (None, route_watch os transport name guard budget t)"
| "tunnel_event os transport name guard (Meanwhile f) t = (None, t\<lparr>tn_routes := f (hd (tn_routes t)) # tn_routes t\<rparr>)"

fun tunnel_loop ::
  "'k os \<Rightarrow> TransportKind \<Rightarrow> ustr \<Rightarrow> FullTunnelGuard option \<Rightarrow> 'k TunnelEvent list \<Rightarrow> 'k Tunnel \<Rightarrow>
   TunnelExit option \<times> 'k Tunnel" where
  "tunnel_loop os transport name guard [] t = (None, t)"
| "tunnel_loop os transport name guard (ev # evs) t =
    (case tunnel_event os transport name guard ev t of
       (Some exit, t') \<Rightarrow> (Some exit, t')
     | (None, t') \<Rightarrow> tunnel_loop os transport name guard evs t')"

text \<open>
  However the tunnel ends, the guard of the routes is dropped first, then the device.
\<close>

definition tunnel_close :: "'k os \<Rightarrow> 'k DeviceLib \<Rightarrow> ustr \<Rightarrow> FullTunnelGuard option \<Rightarrow> 'k list \<Rightarrow> 'k list" where
  "tunnel_close os lib name guard h =
    (let h1 = (case guard of Some g \<Rightarrow> full_tunnel_drop os g h | None \<Rightarrow> h)
     in dev_drop lib name (hd h1) # h1)"

text \<open>
  \<open>run_tunnel\<close>: the session file, the states of the kernel and what was sent and
  delivered come with the result, which is \<open>Ok None\<close> while the tunnel runs.
\<close>

definition run_tunnel ::
  "'k os \<Rightarrow> 'k DeviceLib \<Rightarrow> TransportKind \<Rightarrow> bool \<Rightarrow> ActiveSession \<Rightarrow> SockAddr \<Rightarrow> 'k TunnelEvent list \<Rightarrow>
   Saved \<Rightarrow> 'k list \<Rightarrow> (RunError, TunnelExit option) outcome \<times> Saved \<times> 'k list \<times> ClientOut list" where
  "run_tunnel os lib transport kill_switch active tunnel_host evs saved h =
    (let mtu = min PAYPHONE_MTU (act_mtu active) in
     case create_client_tun os lib (act_assigned_ipv4 active) mtu h of
       (None, h) \<Rightarrow> (Err TunFailed, saved, h, [])
     | (Some None, h) \<Rightarrow> (Err TunNameUnreadable, saved, h, [])
     | (Some (Some name), h) \<Rightarrow>
       (case full_tunnel_install os tunnel_host name kill_switch h of
          (r, h) \<Rightarrow>
            if \<not> is_ok r \<and> kill_switch
            then (Err (case r of Err e \<Rightarrow> TunnelRoutesFailed e | _ \<Rightarrow> TunFailed), saved, dev_drop lib name (hd h) # h, [])
            else
              let guard = (case r of Ok g \<Rightarrow> Some g | _ \<Rightarrow> None)
              in case tunnel_loop os transport name guard evs
                     \<lparr>tn_mtu = mtu, tn_client = client_start active saved, tn_routes = h, tn_out = []\<rparr> of
                   (None, t) \<Rightarrow> (Ok None, cl_saved (tn_client t), tn_routes t, tn_out t)
                 | (Some exit, t) \<Rightarrow>
                     (Ok (Some exit), cl_saved (tn_client t), tunnel_close os lib name guard (tn_routes t), tn_out t)))"

section \<open>The connection loop\<close>

text \<open>
  A connection attempt: what other processes do before it, whether the link comes up (for
  QUIC the connection, for TLS the TCP connection with its TLS handshake), what the
  handshake meets, the token file and the nonce, the events of the tunnel.
\<close>

record 'k Attempt =
  at_meanwhile :: "('k \<Rightarrow> 'k) list"
  at_link_up :: bool
  at_handshake :: HandshakeInput
  at_token :: "bytes option"
  at_nonce :: bytes
  at_events :: "'k TunnelEvent list"

text \<open>
  \<open>establish_session\<close> with the token file: it is read only for a new session, after a
  session that does not resume has been forgotten.
\<close>

definition establish_with_token :: "HandshakeInput \<Rightarrow> Saved \<Rightarrow> bytes option \<Rightarrow> bytes \<Rightarrow> (RunError, ActiveSession) outcome \<times> Saved" where
  "establish_with_token inp saved token nonce =
    (let creates = (case saved of None \<Rightarrow> True | Some s \<Rightarrow> try_resume s (hs_resume_reply inp) = NotResumed)
     in if creates \<and> token = None then (Err TokenUnreadable, None)
        else (case establish_session inp (saved \<noteq> None) saved (case token of Some t \<Rightarrow> t | None \<Rightarrow> []) nonce of
            (Ok active, saved') \<Rightarrow> (Ok active, saved')
          | (Err e, saved') \<Rightarrow> (Err (EstablishFailed e), saved')
          | (Panic, saved') \<Rightarrow> (Panic, saved')))"

definition connect_session ::
  "resolver \<Rightarrow> ClientSettings \<Rightarrow> SockAddr \<Rightarrow> 'k Attempt \<Rightarrow> Saved \<Rightarrow>
   (RunError, ActiveSession \<times> SockAddr) outcome \<times> Saved" where
  "connect_session resolve settings server_address attempt saved =
    (case (case cs_transport settings of
             TransportKind.Quic \<Rightarrow> Ok server_address
           | Tls \<Rightarrow> tls_connect_address resolve (cs_tcp_server settings) server_address) of
       Err e \<Rightarrow> (Err e, saved) | Panic \<Rightarrow> (Panic, saved)
     | Ok host \<Rightarrow>
       if \<not> at_link_up attempt then (Err LinkFailed, saved)
       else and_then (establish_with_token (at_handshake attempt) saved (at_token attempt) (at_nonce attempt))
              (\<lambda>active saved. (Ok (active, host), saved)))"

datatype ClientEnd = Running | Finished "(RunError, unit) outcome"

text \<open>What a session of the client did.\<close>

type_synonym ClientLog = "(ActiveSession \<times> ClientOut list) list"

fun after_tunnel :: "TunnelExit \<Rightarrow> (RunError, unit) outcome option" where
  "after_tunnel Stopped = Some (Ok ())"
| "after_tunnel Disconnected = None"
| "after_tunnel (TunnelError e) = Some (Err (TunnelBroke (TunnelError e)))"
| "after_tunnel TunError = Some (Err (TunnelBroke TunError))"
| "after_tunnel denied = Some (Err (AccessEnded denied))"

fun connection_loop ::
  "'k os \<Rightarrow> 'k DeviceLib \<Rightarrow> resolver \<Rightarrow> ClientSettings \<Rightarrow> SockAddr \<Rightarrow> KillSwitchGuard option \<Rightarrow> bool \<Rightarrow>
   'k Attempt list \<Rightarrow> Saved \<Rightarrow> 'k list \<Rightarrow> ClientEnd \<times> Saved \<times> 'k list \<times> ClientLog" where
  "connection_loop os lib resolve settings server kill connected_once [] saved h = (Running, saved, h, [])"
| "connection_loop os lib resolve settings server kill connected_once (attempt # attempts) saved h =
    (let h = (case kill of Some guard \<Rightarrow> kill_switch_ensure os guard h | None \<Rightarrow> h);
         h = fold (\<lambda>f h. f (hd h) # h) (at_meanwhile attempt) h
     in case connect_session resolve settings server attempt saved of
          (Panic, saved) \<Rightarrow> (Finished Panic, saved, h, [])
        | (Err e, saved) \<Rightarrow>
            if connected_once then connection_loop os lib resolve settings server kill True attempts saved h
            else (Finished (Err e), saved, h, [])
        | (Ok (active, host), saved) \<Rightarrow>
            (case run_tunnel os lib (cs_transport settings) (cs_kill_switch settings) active host
                   (at_events attempt) saved h of
               (Ok None, saved, h, outs) \<Rightarrow> (Running, saved, h, [(active, outs)])
             | (Ok (Some exit), saved, h, outs) \<Rightarrow>
                 (case after_tunnel exit of
                    Some r \<Rightarrow> (Finished r, saved, h, [(active, outs)])
                  | None \<Rightarrow>
                     (case connection_loop os lib resolve settings server kill True attempts saved h of
                        (r, saved, h, log) \<Rightarrow> (r, saved, h, (active, outs) # log)))
             | (Err e, saved, h, outs) \<Rightarrow> (Finished (Err e), saved, h, [(active, outs)])
             | (Panic, saved, h, outs) \<Rightarrow> (Finished Panic, saved, h, [(active, outs)])))"

text \<open>
  \<open>main\<close>: the passphrase, the server address, the QUIC endpoint, the kill switch, the
  loop.  Returning drops the guard of the kill switch.
\<close>

definition client_main ::
  "'k os \<Rightarrow> 'k DeviceLib \<Rightarrow> resolver \<Rightarrow> bool \<Rightarrow> ClientSettings \<Rightarrow> 'k Attempt list \<Rightarrow> Saved \<Rightarrow> 'k list \<Rightarrow>
   ClientEnd \<times> Saved \<times> 'k list \<times> ClientLog" where
  "client_main os lib resolve endpoint_ok settings attempts saved h =
    (case obind (map_err BadPassphrase (validate_passphrase (utf8_encode (cs_psk settings)))) (\<lambda>_.
          obind (resolve_server_addr resolve (cs_server settings)) (\<lambda>server.
          if cs_transport settings = TransportKind.Quic \<and> \<not> endpoint_ok then Err EndpointFailed else Ok server)) of
       Err e \<Rightarrow> (Finished (Err e), saved, h, []) | Panic \<Rightarrow> (Finished Panic, saved, h, [])
     | Ok server \<Rightarrow>
       if \<not> cs_kill_switch settings then connection_loop os lib resolve settings server None False attempts saved h
       else (case kill_switch_install os server h of
           (Err e, h) \<Rightarrow> (Finished (Err (KillSwitchFailed e)), saved, h, [])
         | (Panic, h) \<Rightarrow> (Finished Panic, saved, h, [])
         | (Ok guard, h) \<Rightarrow>
             (case connection_loop os lib resolve settings server (Some guard) False attempts saved h of
                (Running, saved, h, log) \<Rightarrow> (Running, saved, h, log)
              | (Finished r, saved, h, log) \<Rightarrow> (Finished r, saved, kill_switch_drop os guard h, log))))"

section \<open>The routes while the client runs\<close>

text \<open>
  What the kill switch needs of its surroundings: \<open>ip\<close> and \<open>ifconfig\<close> do what
  they document, the device has the name asked for, building it touches neither half of the
  address space and dropping it removes just its routes.
\<close>

definition host_laws :: "'k os \<Rightarrow> 'k DeviceLib \<Rightarrow> ('k \<Rightarrow> fib) \<Rightarrow> ustr \<Rightarrow> bool" where
  "host_laws os lib table tun \<longleftrightarrow>
    ip_route_laws os table \<and> accepts_route os (Half False) Blackhole \<and> accepts_route os (Half True) Blackhole \<and>
    (\<forall>args k. table (snd (os (Cmd (us ''ifconfig'' # args)) k)) = table k) \<and>
    (\<forall>spec k name k'. dev_build lib spec k = Some (name, k') \<longrightarrow>
       (\<forall>n. name = Some n \<longrightarrow> n = tun) \<and> (\<forall>b. table k' [b] = table k [b])) \<and>
    (\<forall>k. table (dev_drop lib tun k) = without_device tun (table k))"

definition keeps_halves :: "('k \<Rightarrow> fib) \<Rightarrow> ('k \<Rightarrow> 'k) \<Rightarrow> bool" where
  "keeps_halves table f \<longleftrightarrow> (\<forall>k b. table (f k) [b] = table k [b])"

fun quiet_event :: "('k \<Rightarrow> fib) \<Rightarrow> 'k TunnelEvent \<Rightarrow> bool" where
  "quiet_event table (Meanwhile f) = keeps_halves table f"
| "quiet_event table _ = True"

definition quiet_attempt :: "('k \<Rightarrow> fib) \<Rightarrow> 'k Attempt \<Rightarrow> bool" where
  "quiet_attempt table a \<longleftrightarrow> list_all (keeps_halves table) (at_meanwhile a) \<and> list_all (quiet_event table) (at_events a)"

fun is_v4 :: "IpAddr \<Rightarrow> bool" where
  "is_v4 (IpV4 a b c d) = True"
| "is_v4 (IpV6 gs) = False"

definition resolves_v4 :: "resolver \<Rightarrow> bool" where
  "resolves_v4 resolve \<longleftrightarrow> (\<forall>s addrs. resolve s = Some addrs \<longrightarrow> list_all (\<lambda>a. is_v4 (fst a)) addrs)"

lemma is_v4_cases: "is_v4 ip \<longleftrightarrow> (\<exists>a b c d. ip = IpV4 a b c d)"
  by (cases ip) auto

lemma host_lawsD:
  assumes "host_laws os lib table tun"
  shows "ip_route_laws os table" "accepts_route os (Half False) Blackhole" "accepts_route os (Half True) Blackhole"
    "table (snd (os (Cmd (us ''ifconfig'' # args)) k)) = table k"
    "dev_build lib spec k = Some (name, k') \<Longrightarrow> table k' [b] = table k [b]"
    "dev_build lib spec k = Some (Some n, k') \<Longrightarrow> n = tun"
    "table (dev_drop lib tun k) = without_device tun (table k)"
  using assms unfolding host_laws_def by blast+

lemma meanwhile_guarded:
  assumes "keeps_halves table f" "guarded table tun since h"
  shows "guarded table tun since (f (hd h) # h)"
  using guarded_Cons [OF assms(2)] assms(1) by (simp add: keeps_halves_def)

lemma fold_meanwhile_guarded:
  "list_all (keeps_halves table) fs \<Longrightarrow> guarded table tun since h \<Longrightarrow>
    guarded table tun since (fold (\<lambda>f h. f (hd h) # h) fs h)"
  by (induction fs arbitrary: h) (simp_all add: meanwhile_guarded)

lemma set_mtu_guarded:
  assumes "host_laws os lib table tun" "guarded table tun since h"
  shows "guarded table tun since (set_interface_mtu os name mtu h)"
proof (cases name)
  case (Some n)
  then show ?thesis using guarded_Cons [OF assms(2)] host_lawsD(4) [OF assms(1)]
    by (simp add: set_interface_mtu_history)
qed (simp add: assms set_interface_mtu_history)

lemma build_guarded:
  assumes "host_laws os lib table tun" "guarded table tun since h" "build_device os lib spec h = (r, h')"
  shows "guarded table tun since h' \<and> (\<forall>n. r = Some (Some n) \<longrightarrow> n = tun)"
proof (cases "dev_build lib spec (hd h)")
  case (Some nk)
  then obtain name k where nk: "dev_build lib spec (hd h) = Some (name, k)" by (cases nk) auto
  have "guarded table tun since (k # h)"
    using guarded_Cons [OF assms(2)] host_lawsD(5) [OF assms(1) nk] by simp
  then have "guarded table tun since h'" using assms(3) nk by (auto simp: build_device_def set_mtu_guarded [OF assms(1)])
  moreover have "r = Some name" using assms(3) nk by (simp add: build_device_def)
  ultimately show ?thesis using host_lawsD(6) [OF assms(1)] nk by auto
qed (use assms in \<open>auto simp: build_device_def\<close>)

text \<open>The guard of a tunnel of this client.\<close>

definition tunnel_guard :: "ustr \<Rightarrow> FullTunnelGuard \<Rightarrow> bool" where
  "tunnel_guard tun g \<longleftrightarrow> is_v4 (ft_server_ip g) \<and> ft_tun_name g = tun \<and> ft_kill_switch g"

lemma install_guard:
  assumes "full_tunnel_install os host tun True h = (Ok g, h')" "is_v4 (fst host)"
  shows "tunnel_guard tun g"
  using assms by (auto simp: full_tunnel_install_def and_then_Ok Let_def tunnel_guard_def)

lemma watch_guarded:
  assumes "host_laws os lib table tun" "guarded table tun since (tn_routes t)" "\<forall>g. guard = Some g \<longrightarrow> tunnel_guard tun g"
  shows "guarded table tun since (tn_routes (route_watch os transport name guard budget t))"
proof -
  have "guarded table tun since (case guard of Some g \<Rightarrow> ensure_tunnel_routes os g (tn_routes t) | None \<Rightarrow> tn_routes t)"
    using assms(2,3) ensure_tunnel_guarded [OF host_lawsD(1) [OF assms(1)]]
    by (auto simp: tunnel_guard_def is_v4_cases ensure_tunnel_routes_def split: option.split)
  then show ?thesis by (simp add: route_watch_def Let_def set_mtu_guarded [OF assms(1)])
qed

lemma client_branch_routes [simp]: "tn_routes (snd (client_branch res t)) = tn_routes t"
  by (simp add: client_branch_def split: prod.split)

lemma tunnel_event_guarded:
  assumes "host_laws os lib table tun" "guarded table tun since (tn_routes t)" "\<forall>g. guard = Some g \<longrightarrow> tunnel_guard tun g"
    and "quiet_event table ev"
  shows "guarded table tun since (tn_routes (snd (tunnel_event os transport name guard ev t)))"
  using assms(4) by (cases ev) (simp_all add: assms(2) watch_guarded [OF assms(1-3)] meanwhile_guarded)

lemma tunnel_loop_guarded:
  assumes "host_laws os lib table tun" "\<forall>g. guard = Some g \<longrightarrow> tunnel_guard tun g"
    and "list_all (quiet_event table) evs" "guarded table tun since (tn_routes t)"
  shows "guarded table tun since (tn_routes (snd (tunnel_loop os transport name guard evs t)))"
  using assms(3,4)
proof (induction evs arbitrary: t)
  case (Cons ev evs)
  have "guarded table tun since (tn_routes (snd (tunnel_event os transport name guard ev t)))"
    using tunnel_event_guarded [OF assms(1) Cons.prems(2) assms(2)] Cons.prems(1) by simp
  then show ?case using Cons.IH Cons.prems(1) by (auto split: prod.split option.split)
qed simp

text \<open>Re-arming comes before the device goes: nothing is left without a route.\<close>

lemma close_guarded:
  assumes "host_laws os lib table tun" "tunnel_guard tun g" "guarded table tun since h"
  shows "guarded table tun since (tunnel_close os lib tun (Some g) h)"
proof -
  obtain a b c d where g: "ft_server_ip g = IpV4 a b c d" "ft_kill_switch g"
    using assms(2) by (auto simp: tunnel_guard_def is_v4_cases)
  define h1 where "h1 = linux_rearm_kill_switch os (IpV4 a b c d) (ft_original_gateway g) h"
  note laws = host_lawsD(1-3) [OF assms(1)]
  have "table (hd h1) [x] = Some Blackhole" for x
    by (cases x) (simp_all add: h1_def linux_rearm_kill_switch_def table_kept [OF laws(1)] blackholes_in_table [OF laws])
  then have "table (dev_drop lib tun (hd h1)) [x] = Some Blackhole" for x
    by (simp add: host_lawsD(7) [OF assms(1)] without_device_def)
  moreover have "guarded table tun since h1" using rearm_guarded [OF laws(1) assms(3)] by (simp add: h1_def)
  ultimately show ?thesis
    using guarded_Cons [of table tun since h1 "dev_drop lib tun (hd h1)"]
    by (simp add: tunnel_close_def full_tunnel_drop_def g Let_def h1_def [symmetric])
qed

lemma run_tunnel_guarded:
  assumes "host_laws os lib table tun" "is_v4 (fst host)" "list_all (quiet_event table) evs" "guarded table tun since h"
    and "run_tunnel os lib transport True active host evs saved h = (Ok r, saved', h', outs)"
  shows "guarded table tun since h'"
proof -
  obtain name h1 where h1: "create_client_tun os lib (act_assigned_ipv4 active) (min PAYPHONE_MTU (act_mtu active)) h = (Some (Some name), h1)"
    using assms(5) by (auto simp: run_tunnel_def Let_def split: prod.splits option.splits)
  then have n: "name = tun" "guarded table tun since h1"
    using build_guarded [OF assms(1,4)] by (auto simp: create_client_tun_def)
  obtain res h2 where h2: "full_tunnel_install os host tun True h1 = (res, h2)" by fastforce
  obtain a b c d where host: "host = (IpV4 a b c d, snd host)" using assms(2) by (cases host) (auto simp: is_v4_cases)
  have g2: "guarded table tun since h2"
    using install_guarded [OF host_lawsD(1) [OF assms(1)] n(2), of a b c d "snd host" True] h2 host by (metis snd_conv)
  obtain g where g: "res = Ok g" using assms(5) h1 h2 n(1) by (cases res) (auto simp: run_tunnel_def Let_def split: if_splits)
  have tg: "tunnel_guard tun g" using install_guard assms(2) h2 g by blast
  define t0 where "t0 = \<lparr>tn_mtu = min PAYPHONE_MTU (act_mtu active), tn_client = client_start active saved, tn_routes = h2, tn_out = []\<rparr>"
  have "guarded table tun since (tn_routes (snd (tunnel_loop os transport tun (Some g) evs t0)))"
    using tunnel_loop_guarded [OF assms(1) _ assms(3), of "Some g" since t0] tg g2 by (simp add: t0_def)
  then show ?thesis using assms(5) h1 h2 n(1) g close_guarded [OF assms(1) tg]
    by (auto simp: run_tunnel_def Let_def t0_def split: prod.splits option.splits)
qed

lemma resolved_v4: "resolves_v4 resolve \<Longrightarrow> resolve_server_addr resolve s = Ok a \<Longrightarrow> is_v4 (fst a)"
  by (cases "resolve s"; cases "the (resolve s)") (fastforce simp: resolves_v4_def resolve_server_addr_def)+

lemma connect_host_v4:
  assumes "connect_session resolve settings server attempt saved = (Ok (active, host), saved')"
    and "is_v4 (fst server)" "resolves_v4 resolve"
  shows "is_v4 (fst host)"
proof -
  have "(case cs_transport settings of TransportKind.Quic \<Rightarrow> Ok server
        | Tls \<Rightarrow> tls_connect_address resolve (cs_tcp_server settings) server) = Ok host"
    using assms(1) by (auto simp: connect_session_def and_then_def split: outcome.splits if_splits prod.splits)
  then show ?thesis using assms(2,3)
    by (auto simp: tls_connect_address_def dest: resolved_v4
        split: TransportKind.splits option.splits if_splits)
qed

lemma client_loop_guarded:
  assumes "host_laws os lib table tun" "is_v4 (fst server)" "resolves_v4 resolve" "cs_kill_switch settings"
    and "ks_server_ip g = fst server"
  shows "list_all (quiet_attempt table) attempts \<Longrightarrow> guarded table tun since h \<Longrightarrow>
    connection_loop os lib resolve settings server (Some g) once attempts saved h = (Running, saved', h', log) \<Longrightarrow>
    guarded table tun since h'"
proof (induction attempts arbitrary: once saved h log)
  case (Cons att ats)
  obtain a b c d where ip: "fst server = IpV4 a b c d" using assms(2) by (auto simp: is_v4_cases)
  define h1 where "h1 = fold (\<lambda>f h. f (hd h) # h) (at_meanwhile att) (kill_switch_ensure os g h)"
  have g1: "guarded table tun since h1" unfolding h1_def
    using Cons.prems(1,2) rearm_guarded [OF host_lawsD(1) [OF assms(1)]] other_commands_guarded [OF host_lawsD(1) [OF assms(1)]]
    by (intro fold_meanwhile_guarded) (simp_all add: quiet_attempt_def kill_switch_ensure_def assms(5) ip)
  obtain r saved1 where r: "connect_session resolve settings server att saved = (r, saved1)" by fastforce
  show ?case
  proof (cases r)
    case (Ok ah)
    then obtain active host where ah: "r = Ok (active, host)" by (cases ah) auto
    obtain res saved2 h2 outs where t: "run_tunnel os lib (cs_transport settings) True active host (at_events att) saved1 h1
        = (res, saved2, h2, outs)" by (metis prod.exhaust)
    have ok: "guarded table tun since h2" if "res = Ok x" for x
      using run_tunnel_guarded [OF assms(1) connect_host_v4 [OF _ assms(2,3)] _ g1] r ah t that Cons.prems(1)
      by (fastforce simp: quiet_attempt_def)
    show ?thesis using Cons.prems r ah t ok assms(4)
      by (auto simp: h1_def [symmetric] split: outcome.splits option.splits prod.splits dest: Cons.IH)
  qed (use Cons.prems r g1 in \<open>auto simp: h1_def [symmetric] split: if_splits dest: Cons.IH\<close>)
qed simp


lemma halves_guarded_lpm:
  assumes "halves_guarded table tun k" "length addr = 32" "lpm (specific (table k)) addr = None"
  shows "lpm (table k) addr \<in> {Some Blackhole, Some (DevIf tun)}"
proof -
  obtain t where t: "table k [hd addr] = Some t" "t = Blackhole \<or> t = DevIf tun"
    using assms(1) by (auto simp: halves_guarded_def)
  then show ?thesis using assms(2,3) lpm_halves [of addr "table k" t] by auto
qed

lemma client_main_armed:
  assumes "client_main os lib resolve endpoint_ok settings attempts saved h = (e, saved', h', log)" "cs_kill_switch settings"
    and "validate_passphrase (utf8_encode (cs_psk settings)) = Ok ()" "resolve_server_addr resolve (cs_server settings) = Ok server"
    and "endpoint_ok" "kill_switch_install os server h = (Ok g, ha)"
  shows "\<exists>h1. connection_loop os lib resolve settings server (Some g) False attempts saved ha = (e, saved', h1, log) \<and>
    h' = (case e of Running \<Rightarrow> h1 | Finished _ \<Rightarrow> kill_switch_drop os g h1)"
  using assms by (auto simp: client_main_def split: prod.splits ClientEnd.splits)

text \<open>Dropping the kill switch takes the blackholes out of both halves.\<close>

lemma del_disarms:
  assumes "ip_route_laws os table" "deletes_route os table (Half x) Blackhole"
  shows "table (hd (snd (run_ip os (route_args ''del'' (Half x) Blackhole) h))) [x] \<noteq> Some Blackhole"
    "table (hd h) [y] \<noteq> Some Blackhole \<Longrightarrow>
      table (hd (snd (run_ip os (route_args ''del'' n t) h))) [y] \<noteq> Some Blackhole"
  using assms(2) by (auto simp: laws_del [OF assms(1)] deletes_route_def)

lemma kill_switch_drop_disarms:
  assumes "ip_route_laws os table" "ks_server_ip g = IpV4 a b c d"
    and "deletes_route os table (Half False) Blackhole" "deletes_route os table (Half True) Blackhole"
  shows "table (hd (kill_switch_drop os g h)) [x] \<noteq> Some Blackhole"
proof -
  let ?del = "\<lambda>n t h. snd (run_ip os (route_args ''del'' n t) h)"
  define h1 where "h1 = remove_ipv6_blackholes os (clear_dns os (ks_physical_iface g) h)"
  have drop: "kill_switch_drop os g h =
      ?del (Host a b c d) (ViaGw (ks_original_gateway g)) (?del (Half True) Blackhole (?del (Half False) Blackhole h1))"
    using assms(2) by (simp add: kill_switch_drop_def ipv4_blackholes_route h1_def) (simp add: route_args.simps)
  have "table (hd (?del (Half True) Blackhole (?del (Half False) Blackhole h1))) [x] \<noteq> Some Blackhole"
    using del_disarms(1) [OF assms(1,4)] del_disarms [OF assms(1,3)] by (cases x) (simp_all del: run_ip_history)
  then show ?thesis unfolding drop by (rule del_disarms(2) [OF assms(1,3)])
qed

section \<open>The session file while the client runs\<close>

definition holds_session :: "ClientState \<Rightarrow> bytes \<Rightarrow> bool" where
  "holds_session st sid \<longleftrightarrow> act_session_id (cl_active st) = sid \<and> (\<exists>tok. cl_saved st = Some \<lparr>saved_session_id = sid, saved_resume_token = tok\<rparr>)"

lemma branch_holds_session:
  assumes "holds_session (tn_client t) sid" "tunnel_event os transport name guard ev t = (e, t')" "e = None \<or> e = Some Disconnected"
  shows "holds_session (tn_client t') sid"
proof (cases ev)
  case (TunPacket p ok)
  then show ?thesis using assms
    by (auto simp: client_branch_def client_on_tun_def holds_session_def Let_def split: if_splits)
next
  case (FrameArrives incoming w ok)
  show ?thesis
  proof (cases incoming)
    case (Some f)
    then show ?thesis using assms FrameArrives
      by (cases "frame_type f")
        (auto simp: client_branch_def client_on_frame_def holds_session_def save_session_def Let_def
          split: outcome.splits RekeyMsg.splits if_splits CloseReason.splits)
  qed (use assms FrameArrives in \<open>auto simp: client_branch_def client_on_frame_def Let_def\<close>)
qed (use assms in \<open>auto simp: client_branch_def client_on_ping_timer_def client_on_ctrl_c_def holds_session_def route_watch_def Let_def\<close>)

lemma lost_link_holds_session:
  "holds_session (tn_client t) sid \<Longrightarrow> tunnel_loop os transport name guard evs t = (Some Disconnected, t') \<Longrightarrow>
    holds_session (tn_client t') sid"
proof (induction evs arbitrary: t)
  case (Cons ev evs)
  obtain e t1 where e: "tunnel_event os transport name guard ev t = (e, t1)" by fastforce
  then have "holds_session (tn_client t1) sid" if "e = None \<or> e = Some Disconnected"
    using branch_holds_session [OF Cons.prems(1)] that by blast
  then show ?case using Cons.IH [of t1] Cons.prems(2) e by (cases e) auto
qed simp

lemma lost_tunnel_keeps_session:
  assumes "run_tunnel os lib transport kill active host evs (Some s) h = (Ok (Some Disconnected), saved', h', outs)"
    and "saved_session_id s = act_session_id active"
  shows "\<exists>tok. saved' = Some \<lparr>saved_session_id = act_session_id active, saved_resume_token = tok\<rparr>"
proof -
  obtain name guard t0 t where t: "tunnel_loop os transport name guard evs t0 = (Some Disconnected, t)"
      "saved' = cl_saved (tn_client t)" "tn_client t0 = client_start active (Some s)"
    using assms(1) by (fastforce simp: run_tunnel_def Let_def split: prod.splits option.splits if_splits)
  have "holds_session (tn_client t0) (act_session_id active)"
    using assms(2) by (cases s) (simp add: t(3) holds_session_def client_start_def)
  from lost_link_holds_session [OF this t(1)] show ?thesis by (simp add: t(2) holds_session_def)
qed

lemma failed_attempts_keep:
  "\<forall>a \<in> set down. \<not> at_link_up a \<Longrightarrow> tcp = None \<or> cs_transport settings = TransportKind.Quic \<Longrightarrow> cs_tcp_server settings = tcp \<Longrightarrow>
    \<exists>h'. connection_loop os lib resolve settings server kill True (down @ attempts) saved h =
      connection_loop os lib resolve settings server kill True attempts saved h'"
proof (induction down arbitrary: h)
  case (Cons a down)
  have "\<exists>e. connect_session resolve settings server a saved = (Err e, saved)"
    using Cons.prems by (cases "cs_transport settings") (auto simp: connect_session_def tls_connect_address_def)
  then obtain e where "connect_session resolve settings server a saved = (Err e, saved)" ..
  then show ?case using Cons.IH Cons.prems by (simp add: Let_def)
qed auto


section \<open>Properties\<close>


text \<open>
  C39: the kill switch does not outlive the client.  However the client ends, by Ctrl-C, by a
  denial of the server, by an error, no half of the address space is blocked any more.
\<close>

theorem client_end_disarms:
  assumes "ip_route_laws os table" "deletes_route os table (Half False) Blackhole" "deletes_route os table (Half True) Blackhole"
    and "kill_switch_install os server h = (Ok g, ha)" "is_v4 (fst server)"
      "resolve_server_addr resolve (cs_server settings) = Ok server"
      "validate_passphrase (utf8_encode (cs_psk settings)) = Ok ()" "endpoint_ok"
    and "cs_kill_switch settings" "client_main os lib resolve endpoint_ok settings attempts saved h = (Finished r, saved', h', log)"
  shows "table (hd h') [x] \<noteq> Some Blackhole"
proof -
  obtain h1 where h': "h' = kill_switch_drop os g h1"
    using client_main_armed [OF assms(10,9,7,6,8,4)] by auto
  have "ks_server_ip g = fst server"
    using assms(4) by (auto simp: kill_switch_install_def and_then_Ok Let_def)
  then obtain a b c d where "ks_server_ip g = IpV4 a b c d" using assms(5) by (auto simp: is_v4_cases)
  from kill_switch_drop_disarms [OF assms(1) this assms(2,3)] show ?thesis by (simp add: h')
qed


text \<open>
  Once it has been connected the client never gives up on the network.  It ends only with
  a tunnel that cannot be set up, breaks on a malformed frame or a broken device, or is
  denied, and with the panic of an over-long token; a link that stays down, a server that does
  not answer and even a refused login only lead to the next attempt.
\<close>

theorem never_gives_up:
  assumes "connection_loop os lib resolve settings server guard True attempts saved h = (Finished r, saved', h', log)"
  shows "r \<in> {Ok (), Panic, Err TunFailed, Err TunNameUnreadable} \<union> Err ` (range TunnelRoutesFailed \<union> range TunnelBroke \<union> range AccessEnded)"
proof -
  have tunnel: "e \<in> {TunFailed, TunNameUnreadable} \<union> range TunnelRoutesFailed"
    if "run_tunnel os lib transport kill active host evs saved h = (Err e, saved', h', outs)"
    for e transport kill active host evs saved h saved' h' outs
    using that by (auto simp: run_tunnel_def Let_def split: prod.splits option.splits if_splits outcome.splits)
  have exits: "after_tunnel exit = Some r \<Longrightarrow> r = Ok () \<or> r \<in> Err ` (range TunnelBroke \<union> range AccessEnded)" for exit r
    by (cases exit) auto
  show ?thesis using assms
  proof (induction attempts arbitrary: saved h log)
    case (Cons a attempts)
    then show ?case
      by (auto simp: Let_def split: prod.splits outcome.splits option.splits dest!: tunnel exits dest: Cons.IH)
  qed simp
qed


section \<open>Witnesses\<close>

definition demo_devices :: "fib DeviceLib" where
  "demo_devices = \<lparr>dev_build = (\<lambda>spec m. Some (Some (us ''tun0''), m)), dev_drop = without_device\<rparr>"

abbreviation demo_os :: "fib os" where "demo_os \<equiv> sim_os (\<lambda>p t. True)"

definition demo_resolver :: resolver where "demo_resolver s = Some [(IpV4 203 0 113 5, 443)]"

definition demo_client :: ClientSettings where
  "demo_client = \<lparr>cs_server = us ''vpn.example.org:443'', cs_tcp_server = None, cs_transport = Tls,
     cs_psk = us ''correct horse battery'', cs_token = us ''subscription.token'', cs_session = us ''.payphone-session'',
     cs_tls = client_tls_default, cs_dev_mode = False, cs_kill_switch = True\<rparr>"

definition demo_session :: SavedSession where
  "demo_session = \<lparr>saved_session_id = replicate 16 1, saved_resume_token = replicate 32 2\<rparr>"

definition demo_still_good :: StillGoodDude where
  "demo_still_good = still_good_dude_new (replicate 16 1) [10, 77, 0, 2] 1400 1"

definition demo_active :: ActiveSession where
  "demo_active = \<lparr>act_session_id = replicate 16 1, act_assigned_ipv4 = [10, 77, 0, 2], act_mtu = 1400, act_capabilities = 1\<rparr>"

definition demo_handshake :: HandshakeInput where
  "demo_handshake = \<lparr>hs_resume_reply = Some (mk_frame StillGoodDude 1 (still_good_dude_encode demo_still_good)),
     hs_create_reply = None, hs_rotate_reply1 = None, hs_rotate_reply2 = None, hs_write_ok = True,
     hs_rotate_send_ok = True, hs_rotate_write1_ok = True, hs_rotate_write2_ok = True\<rparr>"

definition demo_attempt :: "bool \<Rightarrow> fib TunnelEvent list \<Rightarrow> fib Attempt" where
  "demo_attempt link evs = \<lparr>at_meanwhile = [], at_link_up = link, at_handshake = demo_handshake,
     at_token = None, at_nonce = replicate 32 0, at_events = evs\<rparr>"

lemma demo_host_laws: "host_laws demo_os demo_devices (\<lambda>m. m) (us ''tun0'')"
  by (simp add: host_laws_def sim_os_laws sim_os_accepts demo_devices_def)

lemma demo_passphrase: "validate_passphrase (utf8_encode (cs_psk demo_client)) = Ok ()"
  by code_simp

lemma demo_start:
  "validate_passphrase (utf8_encode (cs_psk demo_client)) = Ok ()"
  "resolve_server_addr demo_resolver (cs_server demo_client) = Ok (IpV4 203 0 113 5, 443)"
  "resolves_v4 demo_resolver" "cs_kill_switch demo_client" "cs_tcp_server demo_client = None" "cs_transport demo_client = Tls"
  by (rule demo_passphrase) (simp_all add: demo_client_def demo_resolver_def resolve_server_addr_def resolves_v4_def)

lemma demo_still_good_decodes: "still_good_dude_decode (still_good_dude_encode demo_still_good) = Ok demo_still_good"
  by (simp add: still_good_dude.decode_Ok_iff still_good_dude_valid_def demo_still_good_def still_good_dude_new_def constants)

lemma demo_connects:
  "connect_session demo_resolver demo_client (IpV4 203 0 113 5, 443) (demo_attempt True evs) (Some demo_session) =
    (Ok (demo_active, (IpV4 203 0 113 5, 443)), Some demo_session)"
proof -
  have "try_resume demo_session (hs_resume_reply demo_handshake) = Resumed demo_active"
    using demo_still_good_decodes
    by (simp add: try_resume_def demo_handshake_def mk_frame_def demo_session_def demo_still_good_def demo_active_def
        still_good_dude_new_def)
  then have "establish_with_token demo_handshake (Some demo_session) None nonce = (Ok demo_active, Some demo_session)" for nonce
    by (simp add: establish_with_token_def establish_session_def rotate_resume_token_def demo_handshake_def)
  then show ?thesis
    by (simp add: connect_session_def tls_connect_address_def and_then_def demo_attempt_def demo_start constants)
qed

lemma demo_runs:
  "\<exists>h0 h1. full_tunnel_install demo_os (IpV4 203 0 113 5, 443) (us ''tun0'') True h0 = (Ok (demo_tunnel True), h1) \<and>
    hd h0 = hd h \<and>
    run_tunnel demo_os demo_devices Tls True demo_active (IpV4 203 0 113 5, 443) evs saved h =
    (case tunnel_loop demo_os Tls (us ''tun0'') (Some (demo_tunnel True)) evs
        \<lparr>tn_mtu = 1100, tn_client = client_start demo_active saved, tn_routes = h1, tn_out = []\<rparr> of
       (None, t) \<Rightarrow> (Ok None, cl_saved (tn_client t), tn_routes t, tn_out t)
     | (Some exit, t) \<Rightarrow> (Ok (Some exit), cl_saved (tn_client t),
         tunnel_close demo_os demo_devices (us ''tun0'') (Some (demo_tunnel True)) (tn_routes t), tn_out t))"
proof -
  obtain h0 where h0: "create_client_tun demo_os demo_devices (act_assigned_ipv4 demo_active) 1100 h = (Some (Some (us ''tun0'')), h0)"
      "hd h0 = hd h"
    by (simp add: create_client_tun_def build_device_def demo_devices_def set_interface_mtu_history)
  obtain h1 where h1: "full_tunnel_install demo_os (IpV4 203 0 113 5, 443) (us ''tun0'') True h0 = (Ok (demo_tunnel True), h1)"
    using demo_up [of "\<lambda>p t. True" True h0] by auto
  have "min PAYPHONE_MTU (act_mtu demo_active) = 1100" by (simp add: demo_active_def constants)
  then have "run_tunnel demo_os demo_devices Tls True demo_active (IpV4 203 0 113 5, 443) evs saved h =
    (case tunnel_loop demo_os Tls (us ''tun0'') (Some (demo_tunnel True)) evs
        \<lparr>tn_mtu = 1100, tn_client = client_start demo_active saved, tn_routes = h1, tn_out = []\<rparr> of
       (None, t) \<Rightarrow> (Ok None, cl_saved (tn_client t), tn_routes t, tn_out t)
     | (Some exit, t) \<Rightarrow> (Ok (Some exit), cl_saved (tn_client t),
         tunnel_close demo_os demo_devices (us ''tun0'') (Some (demo_tunnel True)) (tn_routes t), tn_out t))"
    using h0 h1 by (simp add: run_tunnel_def Let_def)
  with h0(2) h1 show ?thesis by blast
qed

lemma demo_table_armed:
  assumes "kill_switch_install demo_os (IpV4 203 0 113 5, 443) [demo_table] = (Ok demo_guard, ha)"
  shows "hd ha = demo_table(ip_bits (IpV4 203 0 113 5) \<mapsto> ViaGw (IpV4 192 168 0 1), [False] \<mapsto> Blackhole, [True] \<mapsto> Blackhole)"
  using kill_switch_table [OF sim_os_laws _ _ assms] by (simp add: sim_os_accepts demo_guard_def del: ip_bits.simps)


theorem client_end_disarms_witness:
  "\<exists>h' log. client_main demo_os demo_devices demo_resolver True demo_client [demo_attempt False []]
       None [demo_table] = (Finished (Err LinkFailed), None, h', log) \<and> hd h' [True] \<noteq> Some Blackhole"
proof -
  obtain ha where ha: "kill_switch_install demo_os (IpV4 203 0 113 5, 443) [demo_table] = (Ok demo_guard, ha)"
    using demo_armed [where ok = "\<lambda>p t. True" and h = "[demo_table]"] by auto
  have "\<exists>h' log. client_main demo_os demo_devices demo_resolver True demo_client [demo_attempt False []]
      None [demo_table] = (Finished (Err LinkFailed), None, h', log)"
    using ha by (simp add: client_main_def demo_start Let_def connect_session_def tls_connect_address_def constants)
      (simp add: demo_attempt_def)
  then show ?thesis
    using client_end_disarms [OF sim_os_laws sim_os_deletes sim_os_deletes ha _ demo_start(2,1) _ demo_start(4)] by simp blast
qed


theorem never_gives_up_witness:
  "\<exists>saved' h' log. connection_loop demo_os demo_devices demo_resolver demo_client (IpV4 203 0 113 5, 443) None True
       [demo_attempt False [], demo_attempt True [CtrlC]] (Some demo_session) [demo_table] = (Finished (Ok ()), saved', h', log) \<and>
     (Ok () :: (RunError, unit) outcome) \<in> {Ok (), Panic, Err TunFailed, Err TunNameUnreadable} \<union>
       Err ` (range TunnelRoutesFailed \<union> range TunnelBroke \<union> range AccessEnded)"
proof -
  have "\<exists>saved' h' log. connection_loop demo_os demo_devices demo_resolver demo_client (IpV4 203 0 113 5, 443) None True
      [demo_attempt False [], demo_attempt True [CtrlC]] (Some demo_session) [demo_table] = (Finished (Ok ()), saved', h', log)"
    using demo_runs [of "[demo_table]" "[CtrlC]" "Some demo_session"] demo_connects [of "[CtrlC]"]
    by (auto simp: demo_attempt_def connect_session_def tls_connect_address_def demo_start Let_def client_branch_def
        client_on_ctrl_c_def constants)
  then obtain saved' h' log where r: "connection_loop demo_os demo_devices demo_resolver demo_client (IpV4 203 0 113 5, 443) None True
      [demo_attempt False [], demo_attempt True [CtrlC]] (Some demo_session) [demo_table] = (Finished (Ok ()), saved', h', log)"
    by blast
  from never_gives_up [OF r] r show ?thesis by blast
qed

end
