(* ===== verification/Forwarding.thy ===== *)
theory Forwarding
  imports Kill_Switch
begin

text \<open>
  The server's forwarding rules (\<open>enable_server_forwarding\<close> of \<open>Routing\<close>): the
  documented behaviour of \<open>iptables -C\<close> and \<open>-A\<close> on the list of rules is the
  hypothesis \<open>iptables_laws\<close>.
\<close>

definition check_args :: "ustr list \<Rightarrow> nat \<Rightarrow> Command" where
  "check_args args pos = Cmd (us ''iptables'' # args[pos := us ''-C''])"

text \<open>The rules, each as the arguments that append it, in the order they were appended.\<close>

definition iptables_laws :: "'k os \<Rightarrow> ('k \<Rightarrow> ustr list list) \<Rightarrow> bool" where
  "iptables_laws os rules \<longleftrightarrow>
    (\<forall>k args pos. position_of (us ''-A'') args = Some pos \<and> us ''-C'' \<notin> set args \<longrightarrow>
       rules (snd (os (check_args args pos) k)) = rules k \<and>
       (succeeded (fst (os (check_args args pos) k)) \<longleftrightarrow> args \<in> set (rules k))) \<and>
    (\<forall>k args pos. position_of (us ''-A'') args = Some pos \<and> us ''-C'' \<notin> set args \<longrightarrow>
       rules (snd (os (Cmd (us ''iptables'' # args)) k)) =
         (if succeeded (fst (os (Cmd (us ''iptables'' # args)) k)) then rules k @ [args] else rules k))"

definition forward_laws ::
  "('k \<Rightarrow> ustr list list) \<Rightarrow> ('k \<Rightarrow> ustr option) \<Rightarrow> ('k \<Rightarrow> 'k option) \<Rightarrow> 'k os \<Rightarrow> bool" where
  "forward_laws rules flag set_forward os \<longleftrightarrow>
    (\<forall>k k'. set_forward k = Some k' \<longrightarrow> rules k' = rules k \<and> flag k' = Some (us ''1'')) \<and>
    (\<forall>k args. flag (snd (os (Cmd (us ''iptables'' # args)) k)) = flag k)"

definition server_rules :: "ustr \<Rightarrow> ustr list list" where
  "server_rules subnet = [masquerade_rule subnet, forward_rule ''-s'' subnet, forward_rule ''-d'' subnet, clamp_rule]"

section \<open>One rule\<close>

definition append_rule :: "'a \<Rightarrow> 'a list \<Rightarrow> 'a list" where
  "append_rule r rs = (if r \<in> set rs then rs else rs @ [r])"

lemma ensure_rule:
  assumes laws: "iptables_laws os rules" and args: "position_of (us ''-A'') args = Some pos" "us ''-C'' \<notin> set args"
    and ok: "ensure_iptables_rule os args h = (Ok x, h')"
  shows "rules (hd h') = append_rule args (rules (hd h))"
proof -
  obtain r1 k1 where c: "os (check_args args pos) (hd h) = (r1, k1)" by (cases "os (check_args args pos) (hd h)")
  obtain r2 k2 where a: "os (Cmd (us ''iptables'' # args)) k1 = (r2, k2)" by (cases "os (Cmd (us ''iptables'' # args)) k1")
  have k1: "rules k1 = rules (hd h)" "succeeded r1 \<longleftrightarrow> args \<in> set (rules (hd h))"
    using laws args c unfolding iptables_laws_def by (metis fst_conv snd_conv)+
  have k2: "rules k2 = (if succeeded r2 then rules k1 @ [args] else rules k1)"
    using laws args a unfolding iptables_laws_def by (metis fst_conv snd_conv)
  show ?thesis
    using ok args(1) c a k1 k2
    by (auto simp: ensure_iptables_rule_def check_args_def exec_def append_rule_def
        split: CmdResult.splits bool.splits if_splits)
qed

lemma ensure_rule_present:
  assumes laws: "iptables_laws os rules" and args: "position_of (us ''-A'') args = Some pos" "us ''-C'' \<notin> set args"
    and present: "args \<in> set (rules (hd h))"
  shows "\<exists>k. ensure_iptables_rule os args h = (Ok (), k # h) \<and> rules k = rules (hd h)"
proof -
  obtain r1 k1 where c: "os (check_args args pos) (hd h) = (r1, k1)" by (cases "os (check_args args pos) (hd h)")
  have k1: "rules k1 = rules (hd h)" "succeeded r1"
    using laws args c present unfolding iptables_laws_def by (metis fst_conv snd_conv)+
  then obtain out err where "r1 = Exited True out err" by (cases r1) auto
  then show ?thesis using args(1) c k1 by (simp add: ensure_iptables_rule_def check_args_def exec_def)
qed

lemma ensure_rule_flag:
  assumes "forward_laws rules flag set_forward os"
  shows "flag (hd (snd (ensure_iptables_rule os args h))) = flag (hd h)"
proof -
  have f: "flag (snd (os (Cmd (us ''iptables'' # args)) k)) = flag k" for args k
    using assms by (simp add: forward_laws_def)
  show ?thesis
    by (auto simp: ensure_iptables_rule_def exec_def f split: option.split prod.split CmdResult.split bool.split)
      (metis f snd_conv)+
qed

lemma server_rules_ok:
  assumes "subnet \<noteq> us ''-A''" "subnet \<noteq> us ''-C''" "args \<in> set (server_rules subnet)"
  shows "\<exists>pos. position_of (us ''-A'') args = Some pos" "us ''-C'' \<notin> set args"
  using assms by (auto simp: server_rules_def masquerade_rule_def forward_rule_def clamp_rule_def)

section \<open>All of them\<close>

definition forwarding_on :: "ustr option \<Rightarrow> bool" where
  "forwarding_on v \<longleftrightarrow> (case v of Some v \<Rightarrow> trim v = us ''1'' | None \<Rightarrow> False)"

lemma forwarding_installed:
  assumes laws: "iptables_laws os rules" "forward_laws rules flag set_forward os"
    and subnet: "subnet \<noteq> us ''-A''" "subnet \<noteq> us ''-C''"
    and ok: "enable_server_forwarding os flag set_forward subnet h = (Ok x, h')"
  shows "rules (hd h') = fold append_rule (server_rules subnet) (rules (hd h))" and "forwarding_on (flag (hd h'))"
proof -
  define h0 where "h0 = (if forwarding_on (flag (hd h)) then h else the (set_forward (hd h)) # h)"
  have h0: "rules (hd h0) = rules (hd h)" "forwarding_on (flag (hd h0))"
    and steps: "and_then (ensure_iptables_rule os (masquerade_rule subnet) h0) (\<lambda>_ h.
        and_then (ensure_iptables_rule os (forward_rule ''-s'' subnet) h) (\<lambda>_ h.
        and_then (ensure_iptables_rule os (forward_rule ''-d'' subnet) h) (\<lambda>_ h.
        ensure_iptables_rule os clamp_rule h))) = (Ok x, h')"
  proof -
    have t1: "trim (us ''1'') = us ''1''" by (simp add: us_def trim_def is_whitespace_def)
    show "rules (hd h0) = rules (hd h)" "forwarding_on (flag (hd h0))"
      using ok laws(2) t1
      by (auto simp: enable_server_forwarding_def h0_def forwarding_on_def and_then_def forward_laws_def
          split: option.splits if_splits)
    show "and_then (ensure_iptables_rule os (masquerade_rule subnet) h0) (\<lambda>_ h.
        and_then (ensure_iptables_rule os (forward_rule ''-s'' subnet) h) (\<lambda>_ h.
        and_then (ensure_iptables_rule os (forward_rule ''-d'' subnet) h) (\<lambda>_ h.
        ensure_iptables_rule os clamp_rule h))) = (Ok x, h')"
      using ok by (auto simp: enable_server_forwarding_def h0_def forwarding_on_def and_then_def [of "(Ok _, _)"]
          and_then_def [of "(Err _, _)"] Let_def split: option.splits if_splits)
  qed
  from steps obtain x1 h1 x2 h2 x3 h3 where rs:
    "ensure_iptables_rule os (masquerade_rule subnet) h0 = (Ok x1, h1)"
    "ensure_iptables_rule os (forward_rule ''-s'' subnet) h1 = (Ok x2, h2)"
    "ensure_iptables_rule os (forward_rule ''-d'' subnet) h2 = (Ok x3, h3)"
    "ensure_iptables_rule os clamp_rule h3 = (Ok x, h')"
    by (auto simp: and_then_Ok)
  have rule: "rules (hd h'') = append_rule args (rules (hd h))"
    if "args \<in> set (server_rules subnet)" "ensure_iptables_rule os args h = (Ok y, h'')" for args h y h''
    using ensure_rule [OF laws(1) _ _ that(2)] server_rules_ok [OF subnet that(1)] by blast
  show "rules (hd h') = fold append_rule (server_rules subnet) (rules (hd h))"
    using rule [OF _ rs(1)] rule [OF _ rs(2)] rule [OF _ rs(3)] rule [OF _ rs(4)] h0(1)
    by (simp add: server_rules_def)
  have flg: "flag (hd h'') = flag (hd h)" if "ensure_iptables_rule os args h = (Ok y, h'')" for args h y h''
    using ensure_rule_flag [OF laws(2), of args h] that by simp
  show "forwarding_on (flag (hd h'))"
    using flg [OF rs(1)] flg [OF rs(2)] flg [OF rs(3)] flg [OF rs(4)] h0(2) by simp
qed

lemma forwarding_again:
  assumes laws: "iptables_laws os rules" and subnet: "subnet \<noteq> us ''-A''" "subnet \<noteq> us ''-C''"
    and present: "set (server_rules subnet) \<subseteq> set (rules (hd h))" "forwarding_on (flag (hd h))"
  shows "\<exists>h'. enable_server_forwarding os flag set_forward subnet h = (Ok (), h') \<and> rules (hd h') = rules (hd h)"
proof -
  have step: "\<exists>k'. ensure_iptables_rule os args (k # hs) = (Ok (), k' # k # hs) \<and> rules k' = rules (hd h)"
    if "args \<in> set (server_rules subnet)" "rules k = rules (hd h)" for args k hs
  proof -
    from server_rules_ok [OF subnet that(1)] have "\<exists>pos. position_of (us ''-A'') args = Some pos \<and> us ''-C'' \<notin> set args"
      by auto
    then show ?thesis using ensure_rule_present [OF laws, of args _ "k # hs"] that present(1) by fastforce
  qed
  have mem: "masquerade_rule subnet \<in> set (server_rules subnet)" "forward_rule ''-s'' subnet \<in> set (server_rules subnet)"
    "forward_rule ''-d'' subnet \<in> set (server_rules subnet)" "clamp_rule \<in> set (server_rules subnet)"
    by (simp_all add: server_rules_def)
  obtain pos where "position_of (us ''-A'') (masquerade_rule subnet) = Some pos" "us ''-C'' \<notin> set (masquerade_rule subnet)"
    using server_rules_ok [OF subnet mem(1)] by auto
  then obtain k1 where k1: "ensure_iptables_rule os (masquerade_rule subnet) h = (Ok (), k1 # h)" "rules k1 = rules (hd h)"
    using ensure_rule_present [OF laws, of "masquerade_rule subnet" pos h] mem(1) present(1) by auto
  obtain k2 where k2: "ensure_iptables_rule os (forward_rule ''-s'' subnet) (k1 # h) = (Ok (), k2 # k1 # h)" "rules k2 = rules (hd h)"
    using step [OF mem(2) k1(2)] by blast
  obtain k3 where k3: "ensure_iptables_rule os (forward_rule ''-d'' subnet) (k2 # k1 # h) = (Ok (), k3 # k2 # k1 # h)" "rules k3 = rules (hd h)"
    using step [OF mem(3) k2(2)] by blast
  obtain k4 where k4: "ensure_iptables_rule os clamp_rule (k3 # k2 # k1 # h) = (Ok (), k4 # k3 # k2 # k1 # h)" "rules k4 = rules (hd h)"
    using step [OF mem(4) k3(2)] by blast
  show ?thesis
    using present(2) k1 k2 k3 k4 by (simp add: enable_server_forwarding_def forwarding_on_def and_then_def)
qed

lemma fold_append_rule: "set (fold append_rule rs xs) = set rs \<union> set xs"
  by (induction rs arbitrary: xs) (auto simp: append_rule_def)

text \<open>
  Enabling forwarding on the server is idempotent.  A run that succeeds turns forwarding
  on and appends exactly the rules of the four (masquerade, the two accepts, the MSS
  clamp) that were missing, in order; a further run succeeds and changes no rule.
\<close>

theorem forwarding_idempotent:
  assumes "iptables_laws os rules" "forward_laws rules flag set_forward os"
    and "subnet \<noteq> us ''-A''" "subnet \<noteq> us ''-C''"
    and "enable_server_forwarding os flag set_forward subnet h = (Ok x, h')"
  shows "forwarding_on (flag (hd h')) \<and> rules (hd h') = fold append_rule (server_rules subnet) (rules (hd h)) \<and>
    (\<exists>h''. enable_server_forwarding os flag set_forward subnet h' = (Ok (), h'') \<and> rules (hd h'') = rules (hd h'))"
proof (intro conjI)
  note first = forwarding_installed [OF assms]
  show "forwarding_on (flag (hd h'))" "rules (hd h') = fold append_rule (server_rules subnet) (rules (hd h))"
    using first by simp_all
  show "\<exists>h''. enable_server_forwarding os flag set_forward subnet h' = (Ok (), h'') \<and> rules (hd h'') = rules (hd h')"
    using first by (intro forwarding_again [OF assms(1,3,4)]) (auto simp: fold_append_rule)
qed

text \<open>A kernel with a forwarding flag and a list of rules.\<close>

fun sim_iptables :: "(bool \<times> ustr list list) os" where
  "sim_iptables (Cmd (tool # args)) (fwd, rs) =
    (case position_of (us ''-C'') args of
       Some pos \<Rightarrow> (Exited (args[pos := us ''-A''] \<in> set rs) [] [], (fwd, rs))
     | None \<Rightarrow> (Exited True [] [], (fwd, rs @ [args])))"
| "sim_iptables _ k = (SpawnFailed, k)"

lemma position_of_Some: "position_of x xs = Some i \<Longrightarrow> i < length xs \<and> xs ! i = x"
  by (induction xs arbitrary: i) (auto split: if_splits)

lemma position_of_None: "x \<notin> set xs \<Longrightarrow> position_of x xs = None"
  by (induction xs) auto

lemma position_of_update: "y \<notin> set xs \<Longrightarrow> i < length xs \<Longrightarrow> position_of y (xs[i := y]) = Some i"
  by (induction xs arbitrary: i) (auto split: nat.split)

lemma sim_iptables_laws: "iptables_laws sim_iptables snd"
  unfolding iptables_laws_def
proof (intro conjI allI impI; elim conjE)
  fix k :: "bool \<times> ustr list list" and args pos
  assume pos: "position_of (us ''-A'') args = Some pos" and fresh: "us ''-C'' \<notin> set args"
  obtain fwd rs where k: "k = (fwd, rs)" by (cases k)
  have "args[pos := us ''-A''] = args" using position_of_Some [OF pos] by (metis list_update_id)
  then have "sim_iptables (check_args args pos) k = (Exited (args \<in> set rs) [] [], k)"
    using position_of_update [OF fresh] position_of_Some [OF pos] by (simp add: check_args_def k)
  then show "snd (snd (sim_iptables (check_args args pos) k)) = snd k"
    "succeeded (fst (sim_iptables (check_args args pos) k)) = (args \<in> set (snd k))" by (simp_all add: k)
  have "sim_iptables (Cmd (us ''iptables'' # args)) k = (Exited True [] [], (fwd, rs @ [args]))"
    by (simp add: k position_of_None [OF fresh])
  then show "snd (snd (sim_iptables (Cmd (us ''iptables'' # args)) k)) =
      (if succeeded (fst (sim_iptables (Cmd (us ''iptables'' # args)) k)) then snd k @ [args] else snd k)"
    by (simp add: k)
qed

theorem forwarding_idempotent_witness:
  "\<exists>h'. enable_server_forwarding sim_iptables (\<lambda>k. Some (us (if fst k then ''1'' else ''0''))) (\<lambda>k. Some (True, snd k))
        PAYPHONE_SUBNET_CIDR [(False, [])] = (Ok (), h') \<and>
     snd (hd h') = server_rules PAYPHONE_SUBNET_CIDR"
proof -
  let ?flag = "\<lambda>k :: bool \<times> ustr list list. Some (us (if fst k then ''1'' else ''0''))"
  let ?set = "\<lambda>k :: bool \<times> ustr list list. Some (True, snd k)"
  let ?r = "enable_server_forwarding sim_iptables ?flag ?set PAYPHONE_SUBNET_CIDR [(False, [])]"
  have f: "forward_laws snd ?flag ?set sim_iptables"
    by (auto simp: forward_laws_def split: option.split)
  have s: "PAYPHONE_SUBNET_CIDR \<noteq> us ''-A''" "PAYPHONE_SUBNET_CIDR \<noteq> us ''-C''" by (simp_all add: PAYPHONE_SUBNET_CIDR_def)
  have t0: "trim (us ''0'') \<noteq> us ''1''" by (simp add: us_def trim_def is_whitespace_def)
  have "fst ?r = Ok ()"
    by (simp add: enable_server_forwarding_def ensure_iptables_rule_def exec_def and_then_def t0
        masquerade_rule_def forward_rule_def clamp_rule_def PAYPHONE_SUBNET_CIDR_def)
  then have r: "?r = (Ok (), snd ?r)" by (metis prod.collapse)
  have "snd (hd (snd ?r)) = fold append_rule (server_rules PAYPHONE_SUBNET_CIDR) []"
    using forwarding_idempotent [OF sim_iptables_laws f s r] by simp
  also have "\<dots> = server_rules PAYPHONE_SUBNET_CIDR"
    by (simp add: server_rules_def append_rule_def masquerade_rule_def forward_rule_def clamp_rule_def)
  finally show ?thesis using r by blast
qed

end
