(* ===== verification/Dns_Relay.thy ===== *)
theory Dns_Relay
  imports Routing
begin

text \<open>
  The server's DNS relay (\<open>payphone-server/src/dns.rs\<close>): a UDP stub on the VPN
  address that forwards queries to an upstream resolver, then to a fallback.  The
  network is a parameter: what becomes of a query sent to a resolver.
\<close>

definition QUERY_TIMEOUT_MS :: nat where "QUERY_TIMEOUT_MS = 2000"
definition MAX_DNS_MESSAGE :: nat where "MAX_DNS_MESSAGE = 4096"
definition default_upstream :: SockAddr where "default_upstream = (IpV4 1 1 1 1, 53)"
definition fallback_upstream :: SockAddr where "fallback_upstream = (IpV4 8 8 8 8, 53)"

text \<open>A datagram received into a buffer of \<open>MAX_DNS_MESSAGE\<close> bytes; the rest is lost.\<close>

definition received :: "bytes \<Rightarrow> bytes" where
  "received datagram = take MAX_DNS_MESSAGE datagram"

text \<open>A header is 12 bytes; the response bit of a query is 0.\<close>

definition looks_like_query :: "bytes \<Rightarrow> bool" where
  "looks_like_query m \<longleftrightarrow> length m \<ge> 12 \<and> length m \<le> MAX_DNS_MESSAGE \<and> (m ! 2) AND 0x80 = 0"

text \<open>The first datagram to arrive at the query's socket within the timeout, with its sender.\<close>

datatype UpstreamEvent = BindFailed | SendFailed | QueryTimeout | RecvFailed | Reply SockAddr bytes

type_synonym upstream = "bytes \<Rightarrow> SockAddr \<Rightarrow> UpstreamEvent"

definition query_upstream :: "upstream \<Rightarrow> bytes \<Rightarrow> SockAddr \<Rightarrow> bytes option" where
  "query_upstream net query resolver =
    (case net query resolver of
       Reply sender datagram \<Rightarrow> (if length (received datagram) < 12 then None else Some (received datagram))
     | _ \<Rightarrow> None)"

definition forward :: "upstream \<Rightarrow> bytes \<Rightarrow> SockAddr \<Rightarrow> bytes option" where
  "forward net query primary =
    (case query_upstream net query primary of
       Some response \<Rightarrow> Some response
     | None \<Rightarrow> query_upstream net query fallback_upstream)"

text \<open>Up to eight attempts to bind, 50 ms apart.\<close>

fun bind_attempts :: "nat \<Rightarrow> (nat \<Rightarrow> 's option) \<Rightarrow> nat \<Rightarrow> 's option" where
  "bind_attempts 0 try_bind i = None"
| "bind_attempts (Suc n) try_bind i =
    (case try_bind i of Some s \<Rightarrow> Some s | None \<Rightarrow> bind_attempts n try_bind (Suc i))"

definition bind_with_retry :: "(nat \<Rightarrow> 's option) \<Rightarrow> 's option" where
  "bind_with_retry try_bind = bind_attempts 8 try_bind 0"

text \<open>
  The loop: what the socket receives, and the datagrams the tasks send back.  A receive
  error ends the relay.  The tasks run concurrently; their replies are given in the order
  of the queries.
\<close>

datatype SocketEvent = Received bytes SockAddr | ReceiveError

fun dns_run :: "upstream \<Rightarrow> SockAddr \<Rightarrow> SocketEvent list \<Rightarrow> (bytes \<times> SockAddr) list" where
  "dns_run net primary [] = []"
| "dns_run net primary (ReceiveError # evs) = []"
| "dns_run net primary (Received datagram peer # evs) =
    (let m = received datagram in
     if \<not> looks_like_query m then dns_run net primary evs
     else (case forward net m primary of
         Some response \<Rightarrow> (response, peer) # dns_run net primary evs
       | None \<Rightarrow> dns_run net primary evs))"

section \<open>Facts\<close>

lemma received_short [simp]: "length (received m) \<le> MAX_DNS_MESSAGE"
  by (simp add: received_def)

lemma received_id [simp]: "length m \<le> MAX_DNS_MESSAGE \<Longrightarrow> received m = m"
  by (simp add: received_def)

text \<open>The size limit of \<open>looks_like_query\<close> never rejects what the relay receives.\<close>

lemma size_check_idle: "looks_like_query (received m) \<longleftrightarrow> length m \<ge> 12 \<and> (m ! 2) AND 0x80 = 0"
  by (auto simp: looks_like_query_def received_def MAX_DNS_MESSAGE_def min_def)

definition is_answer :: "upstream \<Rightarrow> bytes \<Rightarrow> SockAddr \<Rightarrow> bytes \<Rightarrow> bool" where
  "is_answer net query resolver response \<longleftrightarrow>
    (\<exists>sender datagram. net query resolver = Reply sender datagram \<and> response = received datagram \<and> length response \<ge> 12)"

lemma query_upstream_iff: "query_upstream net query resolver = Some response \<longleftrightarrow> is_answer net query resolver response"
  by (auto simp: query_upstream_def is_answer_def split: UpstreamEvent.splits if_splits)

lemma dns_run_sound:
  assumes "(response, peer) \<in> set (dns_run net primary evs)"
  shows "\<exists>datagram. Received datagram peer \<in> set evs \<and> looks_like_query (received datagram) \<and>
    forward net (received datagram) primary = Some response"
  using assms
  by (induction net primary evs rule: dns_run.induct) (auto simp: Let_def split: if_splits option.splits)

lemma forward_answer: "forward net q primary = Some r \<Longrightarrow> is_answer net q primary r \<or> is_answer net q fallback_upstream r"
  by (auto simp: forward_def query_upstream_iff split: option.splits)


text \<open>A query of twelve bytes, and a resolver that echoes it with the response bit.\<close>

definition demo_query :: bytes where "demo_query = [1, 2, 1, 0, 0, 1, 0, 0, 0, 0, 0, 0]"


text \<open>
  A forged answer is relayed.  The relay compares neither the sender of an answer with the
  resolver it asked nor its identifier with the query's: the first datagram of at
  least 12 bytes that reaches the socket is passed to the client.
\<close>

theorem forged_answer_relayed:
  assumes "net query primary = Reply attacker forged" "length forged \<ge> 12" "length forged \<le> MAX_DNS_MESSAGE"
    and "looks_like_query query"
  shows "dns_run net primary [Received query peer] = [(forged, peer)]"
  using assms by (simp add: forward_def query_upstream_def looks_like_query_def)

theorem forged_answer_relayed_witness:
  "dns_run (\<lambda>q r. Reply (IpV4 6 6 6 6, 7) (replicate 12 9)) default_upstream [Received demo_query (IpV4 10 77 0 9, 5353)] =
     [(replicate 12 9, (IpV4 10 77 0 9, 5353))]"
  by (rule forged_answer_relayed) (simp_all add: looks_like_query_def demo_query_def MAX_DNS_MESSAGE_def)

text \<open>A receive error ends the relay: later queries are not answered.\<close>

theorem receive_error_ends_relay:
  "dns_run net primary (evs @ ReceiveError # later) = dns_run net primary evs"
  by (induction net primary evs rule: dns_run.induct) (auto simp: Let_def split: option.split)

lemma bind_attempts_first:
  "bind_attempts n try_bind i = Some s \<longleftrightarrow> (\<exists>j < n. try_bind (i + j) = Some s \<and> (\<forall>l < j. try_bind (i + l) = None))"
proof (induction n arbitrary: i)
  case (Suc n)
  show ?case
  proof (cases "try_bind i")
    case None
    have "(\<exists>j < Suc n. try_bind (i + j) = Some s \<and> (\<forall>l < j. try_bind (i + l) = None)) \<longleftrightarrow>
          (\<exists>j < n. try_bind (Suc i + j) = Some s \<and> (\<forall>l < j. try_bind (Suc i + l) = None))"
      using None by (auto simp: Ex_less_Suc2 All_less_Suc2)
    then show ?thesis using None Suc by simp
  next
    case (Some t)
    then show ?thesis by (auto simp: Ex_less_Suc2 All_less_Suc2)
  qed
qed simp
end
