(* ===== verification/Server_Start.thy ===== *)
theory Server_Start
  imports Tls_Runtime Tun_Device Client_Run Forwarding Dns_Relay Server_Machine
begin

text \<open>
  Starting the server (\<open>payphone-server/src/main.rs\<close>, from the settings to the
  loop that \<open>Server_Machine\<close> models): the order of the steps, each of which can end
  the process, and what it leaves on the host when it does.  The host is the
  parameter \<open>ServerHost\<close>; the files are a \<open>disk\<close>, the state of the kernel
  the history of \<open>Routing\<close>.
\<close>

record ('k, 'vk) ServerHost =
  sh_tls :: TlsHost
  sh_mtime :: "ustr \<Rightarrow> u64 option"
  sh_endpoint_ok :: "SockAddr \<Rightarrow> bool"
  sh_os :: "'k os"
  sh_devices :: "'k DeviceLib"
  sh_forward_flag :: "'k \<Rightarrow> ustr option"
  sh_set_forward :: "'k \<Rightarrow> 'k option"
  sh_state_is_dir :: bool
  sh_vk_from_bytes :: "bytes \<Rightarrow> 'vk option"
  sh_sha256 :: "bytes \<Rightarrow> bytes"
  sh_env :: Env

datatype StartError =
    BadBind ustr
  | PassphraseRefused PassphraseError
  | TlsStartFailed TlsRuntimeError
  | EndpointFailed
  | PinUnreadable IdentityError
  | ServerTunFailed
  | AuthKeyUnreadable
  | AuthKeyLength
  | AuthKeyInvalid
  | BadTcpBind ustr
  | BadDnsUpstream ustr

record 'vk ServerProcess =
  sp_address :: SockAddr
  sp_obfuscation_key :: bytes
  sp_runtime :: ServerTlsRuntime
  sp_pin :: "bytes option"
  sp_forwarding :: bool
  sp_server :: "('vk, FileRevocationStore) Server"
  sp_tcp_bind :: "SockAddr option"
  sp_dns_upstream :: SockAddr

text \<open>The certificate printed for the clients' pin file.\<close>

definition certificate_pin :: "TlsHost \<Rightarrow> ServerTlsConfig \<Rightarrow> disk \<Rightarrow> (StartError, bytes option) outcome" where
  "certificate_pin host tls d =
    (if acme_enabled tls then Ok None
     else if uses_default_paths tls then
       obind (map_err PinUnreadable (load_certificates (th_lib host) d (cert_path tls))) (\<lambda>certs.
         case certs of [] \<Rightarrow> Panic | leaf # _ \<Rightarrow> Ok (Some leaf))
     else Ok None)"

definition session_store_path :: "bool \<Rightarrow> ustr option \<Rightarrow> ustr" where
  "session_store_path state_is_dir configured =
    (case configured of
       Some path \<Rightarrow> path
     | None \<Rightarrow> if state_is_dir then us ''/app/state/sessions.bin'' else us ''payphone-sessions.bin'')"

definition read_store :: "disk \<Rightarrow> ustr \<Rightarrow> StoreRead" where
  "read_store d path = (case d path of None \<Rightarrow> StoreNotFound | Some None \<Rightarrow> StoreUnreadable | Some (Some b) \<Rightarrow> StoreBytes b)"

text \<open>Paths of the session manager are strings of bytes.\<close>

definition path_string :: "ustr \<Rightarrow> string" where
  "path_string path = map (\<lambda>b. char_of (unat b)) (utf8_encode path)"

definition load_auth_key :: "(bytes \<Rightarrow> 'vk option) \<Rightarrow> disk \<Rightarrow> ustr \<Rightarrow> (StartError, 'vk keyring) outcome" where
  "load_auth_key vk_from_bytes d path =
    (case d path of
       Some (Some content) \<Rightarrow>
         if length content \<noteq> 32 then Err AuthKeyLength
         else (case vk_from_bytes content of
             None \<Rightarrow> Err AuthKeyInvalid
           | Some vk \<Rightarrow> Ok (keyring_insert keyring_new 1 vk))
     | _ \<Rightarrow> Err AuthKeyUnreadable)"

definition tcp_bind_address :: "SockAddr \<Rightarrow> ustr option \<Rightarrow> (StartError, SockAddr option) outcome" where
  "tcp_bind_address address configured =
    (case configured of
       Some value \<Rightarrow>
         if value = us ''off'' \<or> same_name value (us ''false'') then Ok None
         else (case parse_socket_addr value of None \<Rightarrow> Err (BadTcpBind value) | Some a \<Rightarrow> Ok (Some a))
     | None \<Rightarrow>
         Ok (Some (fst address, if snd address = DEFAULT_PORT then DEFAULT_TCP_PORT else snd address)))"

definition dns_upstream_address :: "ustr option \<Rightarrow> (StartError, SockAddr) outcome" where
  "dns_upstream_address configured =
    (case configured of
       Some value \<Rightarrow> (case parse_socket_addr value of None \<Rightarrow> Err (BadDnsUpstream value) | Some a \<Rightarrow> Ok a)
     | None \<Rightarrow> Ok default_upstream)"

text \<open>The steps after the forwarding rules.\<close>

definition start_services ::
  "('k, 'vk) ServerHost \<Rightarrow> ServerSettings \<Rightarrow> SockAddr \<Rightarrow> ServerTlsRuntime \<Rightarrow> bytes option \<Rightarrow> bool \<Rightarrow> disk \<Rightarrow>
   (StartError, 'vk ServerProcess) outcome" where
  "start_services host settings address runtime pin forwarding d =
    (let store = session_store_path (sh_state_is_dir host) (ss_session_store settings);
         manager = with_store (sh_env host) (path_string store) (read_store d store)
     in obind (load_auth_key (sh_vk_from_bytes host) d (ss_auth_key settings)) (\<lambda>keyring.
        obind (tcp_bind_address address (ss_tcp_bind settings)) (\<lambda>tcp_bind.
        obind (dns_upstream_address (ss_dns_upstream settings)) (\<lambda>upstream.
          Ok \<lparr>sp_address = address, sp_obfuscation_key = from_passphrase (sh_sha256 host) (utf8_encode (ss_psk settings)),
              sp_runtime = runtime, sp_pin = pin, sp_forwarding = forwarding,
              sp_server = \<lparr>srv_sessions = manager,
                srv_verifier = \<lparr>keys = keyring, revocations = file_store_open\<rparr>\<rparr>,
              sp_tcp_bind = tcp_bind, sp_dns_upstream = upstream\<rparr>))))"

text \<open>
  \<open>main\<close>: leaving it drops the device; the forwarding rules have no guard.
\<close>

definition drop_server_tun :: "'k DeviceLib \<Rightarrow> ustr option \<Rightarrow> 'k list \<Rightarrow> 'k list" where
  "drop_server_tun lib name h = dev_drop lib (case name of Some n \<Rightarrow> n | None \<Rightarrow> dev_name server_tun_spec) (hd h) # h"

definition server_start ::
  "('k, 'vk) ServerHost \<Rightarrow> ServerSettings \<Rightarrow> disk \<Rightarrow> 'k list \<Rightarrow>
   (StartError, 'vk ServerProcess) outcome \<times> disk \<times> 'k list" where
  "server_start host settings d h =
    (case parse_socket_addr (ss_bind settings) of
       None \<Rightarrow> (Err (BadBind (ss_bind settings)), d, h)
     | Some address \<Rightarrow>
       (case validate_passphrase (utf8_encode (ss_psk settings)) of
          Err e \<Rightarrow> (Err (PassphraseRefused e), d, h)
        | Panic \<Rightarrow> (Panic, d, h)
        | Ok _ \<Rightarrow>
          (case tls_runtime_start (sh_tls host) (ss_tls settings) (sh_mtime host) d of
             (Err e, d) \<Rightarrow> (Err (TlsStartFailed e), d, h)
           | (Panic, d) \<Rightarrow> (Panic, d, h)
           | (Ok runtime, d) \<Rightarrow>
             if \<not> sh_endpoint_ok host address then (Err EndpointFailed, d, h)
             else (case certificate_pin (sh_tls host) (ss_tls settings) d of
                 Err e \<Rightarrow> (Err e, d, h)
               | Panic \<Rightarrow> (Panic, d, h)
               | Ok pin \<Rightarrow>
                 (case create_server_tun (sh_os host) (sh_devices host) h of
                    (None, h) \<Rightarrow> (Err ServerTunFailed, d, h)
                  | (Some name, h) \<Rightarrow>
                    (case enable_server_forwarding (sh_os host) (sh_forward_flag host) (sh_set_forward host)
                            PAYPHONE_SUBNET_CIDR h of
                       (forwarded, h) \<Rightarrow>
                         (case start_services host settings address runtime pin (is_ok forwarded) d of
                            Ok p \<Rightarrow> (Ok p, d, h)
                          | Err e \<Rightarrow> (Err e, d, drop_server_tun (sh_devices host) name h)
                          | Panic \<Rightarrow> (Panic, d, drop_server_tun (sh_devices host) name h))))))))"


section \<open>What a start needs and leaves\<close>

lemma with_store_fresh: "mgr_inv (with_store env path StoreNotFound)"
proof -
  have "mgr_inv (session_manager_new\<lparr>store_path := Some path, store_file := None\<rparr>) = mgr_inv session_manager_new"
    by (simp add: mgr_inv_def)
  then show ?thesis by (simp add: with_store_def mgr_inv_new)
qed

definition store_sound :: "disk \<Rightarrow> ustr \<Rightarrow> bool" where
  "store_sound d path \<longleftrightarrow> (case d path of
     None \<Rightarrow> True | Some None \<Rightarrow> False | Some (Some b) \<Rightarrow> \<exists>m. mgr_inv m \<and> b = encode_store m)"

lemma with_store_sound: "store_sound d path \<Longrightarrow> mgr_inv (with_store env p (read_store d path))"
  using with_store_fresh with_store_encode(2)
  by (fastforce simp: store_sound_def read_store_def split: option.splits)

lemma server_start_Ok:
  assumes "server_start host settings d h = (Ok p, d', h')"
  obtains address runtime pin name h1 forwarded where
    "parse_socket_addr (ss_bind settings) = Some address"
    "validate_passphrase (utf8_encode (ss_psk settings)) = Ok ()"
    "tls_runtime_start (sh_tls host) (ss_tls settings) (sh_mtime host) d = (Ok runtime, d')"
    "create_server_tun (sh_os host) (sh_devices host) h = (Some name, h1)"
    "enable_server_forwarding (sh_os host) (sh_forward_flag host) (sh_set_forward host) PAYPHONE_SUBNET_CIDR h1 = (forwarded, h')"
    "start_services host settings address runtime pin (is_ok forwarded) d' = Ok p"
  using assms by (auto simp: server_start_def split: option.splits outcome.splits prod.splits if_splits)

text \<open>
  C36: A server that starts is ready.  It holds a certificate for the first
  handshake; it accepts tokens of exactly the key in the key file, under the id 1;
  it listens for TLS on the address that its clients compute from its own, unless
  configured otherwise; and, when the session store is absent or one that a server
  wrote, its session table satisfies the invariant all further steps keep.
\<close>

theorem started_server_ready:
  assumes "server_start host settings d h = (Ok p, d', h')"
    and "store_sound d' (session_store_path (sh_state_is_dir host) (ss_session_store settings))"
  shows "srv_inv (sp_server p) \<and> rt_cached (sp_runtime p) \<noteq> None \<and>
    (\<exists>content vk. d' (ss_auth_key settings) = Some (Some content) \<and> length content = 32 \<and>
       sh_vk_from_bytes host content = Some vk \<and> keys (srv_verifier (sp_server p)) = [1 \<mapsto> vk]) \<and>
    (ss_tcp_bind settings = None \<longrightarrow>
       map_option Ok (sp_tcp_bind p) = Some (tls_connect_address resolve None (sp_address p)))"
proof -
  obtain address runtime pin fwd where s:
    "tls_runtime_start (sh_tls host) (ss_tls settings) (sh_mtime host) d = (Ok runtime, d')"
    "start_services host settings address runtime pin fwd d' = Ok p"
    by (rule server_start_Ok [OF assms(1)]) blast
  then obtain keyring tcp where p: "load_auth_key (sh_vk_from_bytes host) d' (ss_auth_key settings) = Ok keyring"
    "tcp_bind_address address (ss_tcp_bind settings) = Ok tcp"
    "sp_address p = address" "sp_tcp_bind p = tcp" "sp_runtime p = runtime"
    "keys (srv_verifier (sp_server p)) = keyring"
    "srv_sessions (sp_server p) = with_store (sh_env host)
       (path_string (session_store_path (sh_state_is_dir host) (ss_session_store settings)))
       (read_store d' (session_store_path (sh_state_is_dir host) (ss_session_store settings)))"
    by (auto simp: start_services_def Let_def obind_eq_Ok)
  show ?thesis
    using p with_store_sound [OF assms(2)] started_cached [OF s(1)]
    by (cases "sp_address p") (auto simp: load_auth_key_def keyring_insert_def keyring_new_def tcp_bind_address_def
        tls_connect_address_def
        split: option.splits if_splits)
qed

section \<open>A start that fails\<close>

fun late_error :: "StartError \<Rightarrow> bool" where
  "late_error AuthKeyUnreadable = True"
| "late_error AuthKeyLength = True"
| "late_error AuthKeyInvalid = True"
| "late_error (BadTcpBind _) = True"
| "late_error (BadDnsUpstream _) = True"
| "late_error _ = False"

lemma start_services_late:
  "start_services host settings address runtime pin forwarding d = Err e \<Longrightarrow> late_error e"
  by (auto simp: start_services_def Let_def obind_eq_Err load_auth_key_def tcp_bind_address_def dns_upstream_address_def
      split: option.splits if_splits)

lemma early_pin: "certificate_pin host tls d = Err e \<Longrightarrow> \<not> late_error e"
  by (cases "load_certificates (th_lib host) d (cert_path tls)")
    (auto simp: certificate_pin_def split: list.splits if_splits)

lemma create_server_tun_None: "create_server_tun os lib h = (None, h1) \<Longrightarrow> h1 = h"
  by (simp add: create_server_tun_def build_device_def split: option.splits prod.splits)



section \<open>Witnesses\<close>

definition demo_bind :: ustr where
  "demo_bind = show_v4 0 0 0 0 @ 58 # show_nat (unat (40404 :: u16))"

definition demo_server_settings :: "ustr option \<Rightarrow> ServerSettings" where
  "demo_server_settings upstream = \<lparr>ss_bind = demo_bind, ss_tcp_bind = None, ss_psk = us ''correct horse battery'',
     ss_tls = demo_tls, ss_auth_key = us ''k'', ss_dns_upstream = upstream, ss_session_store = None,
     ss_revoke_file = us ''r'', ss_reality = None, ss_dev_mode = False\<rparr>"

definition demo_server_disk :: disk where
  "demo_server_disk = demo_files(us ''k'' \<mapsto> Some (replicate 32 1))"

abbreviation demo_flag :: "bool \<times> ustr list list \<Rightarrow> ustr option" where
  "demo_flag k \<equiv> Some (us (if fst k then ''1'' else ''0''))"

abbreviation demo_set :: "bool \<times> ustr list list \<Rightarrow> (bool \<times> ustr list list) option" where
  "demo_set k \<equiv> Some (True, snd k)"

definition demo_server_host :: "(bool \<times> ustr list list, unit) ServerHost" where
  "demo_server_host = \<lparr>sh_tls = demo_host, sh_mtime = (\<lambda>_. Some 5), sh_endpoint_ok = (\<lambda>_. True), sh_os = sim_iptables,
     sh_devices = \<lparr>dev_build = (\<lambda>spec k. Some (None, k)), dev_drop = (\<lambda>n k. k)\<rparr>, sh_forward_flag = demo_flag,
     sh_set_forward = demo_set, sh_state_is_dir = False, sh_vk_from_bytes = (\<lambda>_. Some ()), sh_sha256 = id,
     sh_env = sample_env\<rparr>"

lemma demo_server_loads:
  "load_certificates demo_lib demo_server_disk CERT_PATH = Ok [[0x30, 7]]"
  "load_private_key demo_lib demo_server_disk KEY_PATH = Ok [0x30, 8]"
  "file_exists demo_server_disk CERT_PATH" "file_exists demo_server_disk KEY_PATH"
  "demo_server_disk (us ''k'') = Some (Some (replicate 32 1))"
  "demo_server_disk (us ''payphone-sessions.bin'') = None"
proof -
  have "us ''k'' \<noteq> CERT_PATH" "us ''k'' \<noteq> KEY_PATH" "us ''payphone-sessions.bin'' \<notin> {CERT_PATH, KEY_PATH, us ''k''}"
    by (simp_all add: CERT_PATH_def KEY_PATH_def us_def)
  then show "load_certificates demo_lib demo_server_disk CERT_PATH = Ok [[0x30, 7]]"
    "load_private_key demo_lib demo_server_disk KEY_PATH = Ok [0x30, 8]"
    "file_exists demo_server_disk CERT_PATH" "file_exists demo_server_disk KEY_PATH"
    "demo_server_disk (us ''k'') = Some (Some (replicate 32 1))"
    "demo_server_disk (us ''payphone-sessions.bin'') = None"
    using demo_loads
    by (auto simp: demo_server_disk_def load_certificates_def load_private_key_def file_exists_def demo_files_def)
qed

lemma demo_server_tls:
  obtains rt where "tls_runtime_start demo_host demo_tls (\<lambda>_. Some 5) demo_server_disk = (Ok rt, demo_server_disk)"
    "certificate_pin demo_host demo_tls demo_server_disk = Ok (Some [0x30, 7])"
  by (simp add: tls_runtime_start_def ensure_server_identity_def demo_host_def demo_default demo_server_loads
      resolver_current_def load_certified_key_def certificate_pin_def)

lemma demo_server_inputs:
  "parse_socket_addr demo_bind = Some (IpV4 0 0 0 0, 40404)"
  "validate_passphrase (utf8_encode (us ''correct horse battery'')) = Ok ()"
  using parse_show_v4_socket [of 0 0 0 0 40404] demo_passphrase by (simp_all only: demo_bind_def demo_client_def ClientSettings.simps)

lemma demo_forwarding:
  "\<exists>h'. enable_server_forwarding sim_iptables demo_flag demo_set PAYPHONE_SUBNET_CIDR [(False, []), (False, [])] = (Ok (), h')"
proof -
  have t0: "trim (us ''0'') \<noteq> us ''1''" by (simp add: us_def trim_def is_whitespace_def)
  have "fst (enable_server_forwarding sim_iptables demo_flag demo_set PAYPHONE_SUBNET_CIDR [(False, []), (False, [])]) = Ok ()"
    by (simp add: enable_server_forwarding_def ensure_iptables_rule_def exec_def and_then_def t0
        masquerade_rule_def forward_rule_def clamp_rule_def PAYPHONE_SUBNET_CIDR_def)
  then show ?thesis by (metis prod.collapse)
qed

lemma demo_server_start:
  obtains rt h2 where
    "server_start demo_server_host (demo_server_settings upstream) demo_server_disk [(False, [])] =
      (case start_services demo_server_host (demo_server_settings upstream) (IpV4 0 0 0 0, 40404) rt (Some [0x30, 7]) True demo_server_disk of
         Ok p \<Rightarrow> (Ok p, demo_server_disk, h2)
       | Err e \<Rightarrow> (Err e, demo_server_disk, hd h2 # h2)
       | Panic \<Rightarrow> (Panic, demo_server_disk, hd h2 # h2))"
    "enable_server_forwarding sim_iptables demo_flag demo_set PAYPHONE_SUBNET_CIDR [(False, []), (False, [])] = (Ok (), h2)"
proof -
  obtain rt where rt: "tls_runtime_start demo_host demo_tls (\<lambda>_. Some 5) demo_server_disk = (Ok rt, demo_server_disk)"
    "certificate_pin demo_host demo_tls demo_server_disk = Ok (Some [0x30, 7])" by (rule demo_server_tls)
  obtain h2 where h2: "enable_server_forwarding sim_iptables demo_flag demo_set PAYPHONE_SUBNET_CIDR [(False, []), (False, [])] = (Ok (), h2)"
    using demo_forwarding by blast
  have tun: "create_server_tun sim_iptables \<lparr>dev_build = (\<lambda>spec k. Some (None, k)), dev_drop = (\<lambda>n k. k)\<rparr> [(False, [])]
      = (Some None, [(False, []), (False, [])])"
    by (simp add: create_server_tun_def build_device_def set_interface_mtu_def)
  show thesis
  proof (rule that [where rt = rt and ?h2.0 = h2])
    show "enable_server_forwarding sim_iptables demo_flag demo_set PAYPHONE_SUBNET_CIDR [(False, []), (False, [])] = (Ok (), h2)"
      by (rule h2)
  qed (simp add: server_start_def demo_server_settings_def demo_server_host_def demo_server_inputs rt tun h2
      drop_server_tun_def split: outcome.split)
qed

theorem started_server_ready_witness:
  "\<exists>p h'. server_start demo_server_host (demo_server_settings None) demo_server_disk [(False, [])] = (Ok p, demo_server_disk, h') \<and>
     srv_inv (sp_server p) \<and> rt_cached (sp_runtime p) \<noteq> None \<and>
     keys (srv_verifier (sp_server p)) = [1 \<mapsto> ()] \<and> sp_tcp_bind p = Some (IpV4 0 0 0 0, 40443)"
proof -
  obtain rt h2 where s: "server_start demo_server_host (demo_server_settings None) demo_server_disk [(False, [])] =
      (case start_services demo_server_host (demo_server_settings None) (IpV4 0 0 0 0, 40404) rt (Some [0x30, 7]) True demo_server_disk of
         Ok p \<Rightarrow> (Ok p, demo_server_disk, h2)
       | Err e \<Rightarrow> (Err e, demo_server_disk, hd h2 # h2)
       | Panic \<Rightarrow> (Panic, demo_server_disk, hd h2 # h2))"
    by (rule demo_server_start [of None]) blast
  then obtain p where p: "server_start demo_server_host (demo_server_settings None) demo_server_disk [(False, [])] = (Ok p, demo_server_disk, h2)"
    "sp_address p = (IpV4 0 0 0 0, 40404)"
    by (simp add: start_services_def Let_def load_auth_key_def tcp_bind_address_def dns_upstream_address_def
        demo_server_settings_def demo_server_host_def demo_server_loads)
  have "store_sound demo_server_disk (session_store_path (sh_state_is_dir demo_server_host) (ss_session_store (demo_server_settings None)))"
    by (simp add: store_sound_def session_store_path_def demo_server_settings_def demo_server_host_def demo_server_loads)
  from started_server_ready [OF p(1) this] show ?thesis
    using p by (auto simp: demo_server_settings_def tls_connect_address_def constants)
qed



end
