(* ===== verification/Endpoint.thy ===== *)
theory Endpoint
  imports Tls_Runtime Server_Handler Client_Run
begin

text \<open>
  The QUIC endpoints (\<open>payphone-transport/src/lib.rs\<close>, \<open>client.rs\<close>,
  \<open>server.rs\<close>): the transport parameters, the order in which an endpoint is put
  together, and the sending of a frame as one datagram.  quinn, the sockets and rustls
  are parameters.
\<close>

section \<open>Transport parameters\<close>

text \<open>Times are milliseconds.\<close>

record TransportConfig =
  tc_max_idle_timeout :: nat
  tc_keep_alive_interval :: nat
  tc_initial_rtt :: nat
  tc_persistent_congestion_threshold :: nat
  tc_packet_threshold :: nat
  tc_mtu_interval :: nat
  tc_black_hole_cooldown :: nat
  tc_mtu_upper_bound :: nat
  tc_ack_eliciting_threshold :: nat
  tc_max_ack_delay :: nat
  tc_datagram_receive_buffer :: nat
  tc_datagram_send_buffer :: nat
  tc_segmentation_offload :: bool

definition vpn_transport_config :: TransportConfig where
  "vpn_transport_config =
    \<lparr>tc_max_idle_timeout = 180000, tc_keep_alive_interval = 3000, tc_initial_rtt = 50,
     tc_persistent_congestion_threshold = 6, tc_packet_threshold = 4, tc_mtu_interval = 20000,
     tc_black_hole_cooldown = 10000, tc_mtu_upper_bound = 1452, tc_ack_eliciting_threshold = 2,
     tc_max_ack_delay = 10, tc_datagram_receive_buffer = 8 * 1024 * 1024,
     tc_datagram_send_buffer = 8 * 1024 * 1024, tc_segmentation_offload = True\<rparr>"

section \<open>Sending a frame\<close>

datatype SendDatagramError = TooLarge | UnsupportedByPeer | Disabled | ConnectionLost

text \<open>
  \<open>max_size\<close> is what the connection says a datagram may hold, when it knows, and
  \<open>queue\<close> its answer to the datagram.  The result says whether the datagram was
  queued.
\<close>

definition send_vpn_datagram ::
  "nat option \<Rightarrow> (bytes \<Rightarrow> (SendDatagramError, unit) outcome) \<Rightarrow> bytes \<Rightarrow> (SendDatagramError, bool) outcome" where
  "send_vpn_datagram max_size queue b =
    (if (case max_size of Some m \<Rightarrow> length b > m | None \<Rightarrow> False) then Ok False
     else case queue b of
       Ok _ \<Rightarrow> Ok True
     | Err ConnectionLost \<Rightarrow> Err ConnectionLost
     | Err _ \<Rightarrow> Ok False
     | Panic \<Rightarrow> Panic)"

section \<open>Putting an endpoint together\<close>

datatype EndpointError = RootsUnusable IdentityError | ConfigRefused | BindFailed SockAddr | NoRuntime | QuinnFailed

record EndpointHost =
  eh_config_ok :: "bytes list \<Rightarrow> bool"
  eh_bind_ok :: "SockAddr \<Rightarrow> bool"
  eh_runtime :: bool
  eh_quinn_ok :: bool

record UdpEndpoint =
  ue_address :: SockAddr
  ue_key :: bytes
  ue_dev_mode :: bool
  ue_transport :: TransportConfig
  ue_roots :: "bytes list"

definition wrap_socket ::
  "EndpointHost \<Rightarrow> SockAddr \<Rightarrow> bytes \<Rightarrow> bool \<Rightarrow> bytes list \<Rightarrow> (EndpointError, UdpEndpoint) outcome" where
  "wrap_socket host address key dev_mode roots =
    (if \<not> eh_bind_ok host address then Err (BindFailed address)
     else if \<not> eh_runtime host then Err NoRuntime
     else if \<not> eh_quinn_ok host then Err QuinnFailed
     else Ok \<lparr>ue_address = address, ue_key = key, ue_dev_mode = dev_mode, ue_transport = vpn_transport_config,
              ue_roots = roots\<rparr>)"

definition client_bind_address :: "IpAddr option \<Rightarrow> SockAddr" where
  "client_bind_address bind_ip = (case bind_ip of Some ip \<Rightarrow> ip | None \<Rightarrow> IpV4 0 0 0 0, 0)"

definition create_client_endpoint ::
  "EndpointHost \<Rightarrow> CertLib \<Rightarrow> bytes \<Rightarrow> bool \<Rightarrow> IpAddr option \<Rightarrow> ClientTlsConfig \<Rightarrow> disk \<Rightarrow>
   (EndpointError, UdpEndpoint) outcome" where
  "create_client_endpoint host lib key dev_mode bind_ip tls d =
     obind (map_err RootsUnusable (client_root_store lib tls d)) (\<lambda>roots.
       if \<not> eh_config_ok host roots then Err ConfigRefused
       else wrap_socket host (client_bind_address bind_ip) key dev_mode roots)"

text \<open>The server's configuration comes from the certificate its runtime holds.\<close>

definition create_server_endpoint ::
  "EndpointHost \<Rightarrow> SockAddr \<Rightarrow> bytes \<Rightarrow> bool \<Rightarrow> ServerTlsRuntime \<Rightarrow> (EndpointError, UdpEndpoint) outcome" where
  "create_server_endpoint host address key dev_mode tls =
    (if \<not> eh_config_ok host (case rt_cached tls of Some ck \<Rightarrow> fst (ck_key ck) | None \<Rightarrow> []) then Err ConfigRefused
     else wrap_socket host address key dev_mode [])"

section \<open>What a datagram holds\<close>

text \<open>
  When a packet is lost for its size.  A packet framed as \<open>Data\<close> is refused
  for its size exactly when it is longer than the path's datagram budget less 40 bytes,
  and the sender is only told that it was not queued.  A tunnel whose MTU follows the
  budget loses none; the server's device, created with the largest MTU, does on every
  path whose budget is below 1490.
\<close>

theorem packet_lost_for_size_iff:
  assumes "length sid = SESSION_ID_SIZE" "queue = (\<lambda>_. Ok ())"
  shows "send_vpn_datagram (Some budget) queue (frame_encode (mk_frame Data seq (data_encode (data_new sid pid packet)))) =
      Ok (length packet + 40 \<le> budget) \<and>
    (1140 \<le> budget \<and> length packet \<le> unat (tun_mtu (vpn_sink TransportKind.Quic (Some budget))) \<longrightarrow>
      length packet + 40 \<le> budget) \<and>
    (budget < 1490 \<longrightarrow> (\<exists>n \<le> unat (dev_mtu server_tun_spec). \<not> n + 40 \<le> budget))"
proof (intro conjI impI)
  show "send_vpn_datagram (Some budget) queue (frame_encode (mk_frame Data seq (data_encode (data_new sid pid packet)))) =
      Ok (length packet + 40 \<le> budget)"
    using data_frame_length [OF assms(1), of seq pid packet] assms(2) by (auto simp: send_vpn_datagram_def)
  show "length packet + 40 \<le> budget"
    if "1140 \<le> budget \<and> length packet \<le> unat (tun_mtu (vpn_sink TransportKind.Quic (Some budget)))"
    using that by (auto simp: unat_mtu_from_datagram_budget clamp_def split: if_splits)
  show "\<exists>n \<le> unat (dev_mtu server_tun_spec). \<not> n + 40 \<le> budget" if "budget < 1490"
    using that by (intro exI [of _ 1450]) (simp add: server_tun_spec_def constants)
qed

theorem packet_lost_for_size_iff_witness:
  "send_vpn_datagram (Some 1200) (\<lambda>_. Ok ()) (frame_encode (mk_frame Data 5 (data_encode (data_new (replicate 16 2) 6 (replicate 1161 0)))))
     = Ok False"
  using packet_lost_for_size_iff [of "replicate 16 2" "\<lambda>_. Ok ()" 1200 5 6 "replicate 1161 0"] by (simp add: constants)

text \<open>
  Client endpoints are never bound without trust.  An endpoint a client gets has a
  trust store that is not empty, the configured secret, the local address it was asked
  for or any, a free port, and keep-alives well below the idle timeout.
\<close>

theorem client_endpoint_sound:
  assumes "create_client_endpoint host lib key dev_mode bind_ip tls d = Ok ep"
  shows "ue_roots ep \<noteq> [] \<and> ue_key ep = key \<and> snd (ue_address ep) = 0 \<and>
    (case bind_ip of Some ip \<Rightarrow> fst (ue_address ep) = ip | None \<Rightarrow> fst (ue_address ep) = IpV4 0 0 0 0) \<and>
    10 * tc_keep_alive_interval (ue_transport ep) < tc_max_idle_timeout (ue_transport ep)"
proof -
  obtain roots where r: "client_root_store lib tls d = Ok roots" "wrap_socket host (client_bind_address bind_ip) key dev_mode roots = Ok ep"
    using assms by (cases "client_root_store lib tls d") (auto simp: create_client_endpoint_def split: if_splits)
  have "roots \<noteq> []" using r(1) by (auto simp: client_root_store_def Let_def obind_eq_Ok split: if_splits)
  then show ?thesis
    using r(2) by (auto simp: wrap_socket_def client_bind_address_def vpn_transport_config_def split: if_splits option.split)
qed

theorem client_endpoint_sound_witness:
  "\<exists>ep. create_client_endpoint \<lparr>eh_config_ok = \<lambda>_. True, eh_bind_ok = \<lambda>_. True, eh_runtime = True, eh_quinn_ok = True\<rparr>
      (demo_lib\<lparr>webpki_roots := [[1]]\<rparr>) [7] False None (client_tls_default\<lparr>use_webpki := True\<rparr>) Map.empty = Ok ep \<and>
    ue_roots ep \<noteq> [] \<and> fst (ue_address ep) = IpV4 0 0 0 0"
proof -
  obtain ep where ep: "create_client_endpoint \<lparr>eh_config_ok = \<lambda>_. True, eh_bind_ok = \<lambda>_. True, eh_runtime = True, eh_quinn_ok = True\<rparr>
      (demo_lib\<lparr>webpki_roots := [[1]]\<rparr>) [7] False None (client_tls_default\<lparr>use_webpki := True\<rparr>) Map.empty = Ok ep"
    by (simp add: create_client_endpoint_def client_root_store_def file_exists_def wrap_socket_def)
  from client_endpoint_sound [OF ep] show ?thesis using ep by simp
qed

end
