(* ===== verification/Rain.thy ===== *)
theory Rain
  imports Ip_Text Tun
begin

text \<open>
  The digital rain of the client's terminal (\<open>payphone-client/src/matrix.rs\<close>): the
  random generator, the cells and the falling streams, their painting, and the
  indicator that the tunnel loop drives.  Text is a list of code points.  Indexing a
  vector out of range, which ends the process, is \<open>Panic\<close>.
\<close>

definition esc :: "string \<Rightarrow> ustr" where "esc s = 27 # us s"

definition RESET :: ustr where "RESET = esc ''[0m''"
definition BRIGHT_GREEN :: ustr where "BRIGHT_GREEN = esc ''[92m''"
definition BOLD_GREEN :: ustr where "BOLD_GREEN = esc ''[1;32m''"
definition DIM_GREEN :: ustr where "DIM_GREEN = esc ''[2;32m''"
definition HEAD :: ustr where "HEAD = esc ''[1;97m''"
definition GREEN :: ustr where "GREEN = esc ''[32m''"
definition HIDE_CURSOR :: ustr where "HIDE_CURSOR = esc ''[?25l''"
definition SHOW_CURSOR :: ustr where "SHOW_CURSOR = esc ''[?25h''"

text \<open>The half-width katakana from U+FF71 to U+FF9D, then ASCII.\<close>

definition GLYPHS :: ustr where
  "GLYPHS = [0xFF71..<0xFF9E] @ us ''0123456789AZ:.'' @ [34] @ us ''=*+<>''"

text \<open>\<open>tput\<close>: the number it prints, when positive.\<close>

definition positive :: "nat option \<Rightarrow> nat option" where
  "positive v = (case v of Some n \<Rightarrow> if n > 0 then Some n else None | None \<Rightarrow> None)"

definition terminal_size :: "nat option \<Rightarrow> nat option \<Rightarrow> nat \<times> nat" where
  "terminal_size cols rows =
    (clamp (case positive cols of Some n \<Rightarrow> n | None \<Rightarrow> 60) 20 200,
     clamp (case positive rows of Some n \<Rightarrow> n | None \<Rightarrow> 24) 12 80)"

section \<open>Random numbers\<close>

definition rng_step :: "u64 \<Rightarrow> u64" where
  "rng_step s = (let a = s XOR push_bit 13 s; b = a XOR drop_bit 7 a in b XOR push_bit 17 b)"

definition rng_glyph :: "u64 \<Rightarrow> nat \<times> u64" where
  "rng_glyph s = (let s = rng_step s in (GLYPHS ! (unat s mod length GLYPHS), s))"

definition rng_below :: "nat \<Rightarrow> u64 \<Rightarrow> nat \<times> u64" where
  "rng_below max_value s =
    (if max_value = 0 then (0, s) else let s = rng_step s in (unat s mod max_value, s))"

section \<open>The rain\<close>

record Cell =
  cell_ch :: nat
  cell_glow :: u8

definition cell_empty :: Cell where "cell_empty = \<lparr>cell_ch = 32, cell_glow = 0\<rparr>"

record RainStream =
  rs_head :: int
  rs_wait :: u8
  rs_delay :: u8
  rs_trail :: u8
  rs_sleep :: u8

record Rain =
  rain_width :: nat
  rain_height :: nat
  rain_cells :: "Cell list"
  rain_streams :: "RainStream list"
  rain_rng :: u64

definition new_stream :: "nat \<Rightarrow> bool \<Rightarrow> nat \<Rightarrow> u64 \<Rightarrow> RainStream \<times> u64" where
  "new_stream height dense column s =
    (let (stagger, s) = rng_below (if dense then height + 4 else height * 2 + 8) s;
         (wait, s) = rng_below 3 s;
         (delay, s) = rng_below (if dense then 2 else 3) s;
         (trail, s) = rng_below 14 s;
         (slp, s) = rng_below (if dense then 6 else 18) s
     in (\<lparr>rs_head = - int stagger - int (column mod 7), rs_wait = of_nat wait, rs_delay = of_nat delay,
          rs_trail = 10 + of_nat trail, rs_sleep = of_nat slp\<rparr>, s))"

fun new_streams :: "nat \<Rightarrow> bool \<Rightarrow> nat list \<Rightarrow> u64 \<Rightarrow> RainStream list \<times> u64" where
  "new_streams height dense [] s = ([], s)"
| "new_streams height dense (column # columns) s =
    (case new_stream height dense column s of (st, s) \<Rightarrow>
     (case new_streams height dense columns s of (sts, s) \<Rightarrow> (st # sts, s)))"

definition rain_new :: "nat \<Rightarrow> nat \<Rightarrow> u64 \<Rightarrow> bool \<Rightarrow> Rain" where
  "rain_new width height seed dense =
    (case new_streams height dense [0..<width] seed of
       (sts, s) \<Rightarrow> \<lparr>rain_width = width, rain_height = height, rain_cells = replicate (width * height) cell_empty,
                    rain_streams = sts, rain_rng = s\<rparr>)"

definition fade :: "Cell \<Rightarrow> u64 \<Rightarrow> Cell \<times> u64" where
  "fade cell s =
    (if cell_glow cell > 0 then
       let cell = cell\<lparr>cell_glow := cell_glow cell - 1\<rparr> in
       if cell_glow cell = 0 then (cell\<lparr>cell_ch := 32\<rparr>, s)
       else (case rng_below 7 s of
           (n, s) \<Rightarrow> if n = 0 then (case rng_glyph s of (g, s) \<Rightarrow> (cell\<lparr>cell_ch := g\<rparr>, s)) else (cell, s))
     else (cell, s))"

fun fade_all :: "Cell list \<Rightarrow> u64 \<Rightarrow> Cell list \<times> u64" where
  "fade_all [] s = ([], s)"
| "fade_all (cell # cells) s =
    (case fade cell s of (cell, s) \<Rightarrow> (case fade_all cells s of (cells, s) \<Rightarrow> (cell # cells, s)))"

text \<open>A stream that has fallen out of the picture starts anew.\<close>

definition restart_stream :: "nat \<Rightarrow> bool \<Rightarrow> RainStream \<Rightarrow> u64 \<Rightarrow> RainStream \<times> u64" where
  "restart_stream height busy st s =
    (if rs_head st > int height + int (unat (rs_trail st)) then
       (let (up, s) = rng_below 10 s;
            (slp, s) = rng_below (if busy then 3 else 16) s;
            (delay, s) = rng_below (if busy then 2 else 3) s;
            (trail, s) = rng_below 16 s
        in (st\<lparr>rs_head := - int up, rs_sleep := (if busy then of_nat slp else 3 + of_nat slp),
               rs_delay := of_nat delay, rs_trail := 8 + of_nat trail\<rparr>, s))
     else (st, s))"

definition light :: "nat \<Rightarrow> nat \<Rightarrow> nat \<Rightarrow> int \<Rightarrow> Cell list \<Rightarrow> u64 \<Rightarrow> (unit, Cell list \<times> u64) outcome" where
  "light width height column head cells s =
    (if 0 \<le> head \<and> nat head < height then
       (let index = nat head * width + column in
        if index < length cells then
          (case rng_glyph s of (g, s) \<Rightarrow> Ok (cells[index := \<lparr>cell_ch = g, cell_glow = 12\<rparr>], s))
        else Panic)
     else Ok (cells, s))"

definition step_stream ::
  "nat \<Rightarrow> nat \<Rightarrow> bool \<Rightarrow> nat \<Rightarrow> RainStream \<Rightarrow> Cell list \<Rightarrow> u64 \<Rightarrow>
   (unit, RainStream \<times> Cell list \<times> u64) outcome" where
  "step_stream width height busy column st cells s =
    (if rs_sleep st > 0 then
       Ok (st\<lparr>rs_sleep := (if busy then (if rs_sleep st < 2 then 0 else rs_sleep st - 2) else rs_sleep st - 1)\<rparr>, cells, s)
     else let delay = (if busy then min (rs_delay st) 1 else rs_delay st) in
       if rs_wait st < delay then Ok (st\<lparr>rs_wait := rs_wait st + 1\<rparr>, cells, s)
       else let st = st\<lparr>rs_wait := 0, rs_head := rs_head st + 1\<rparr> in
         obind (light width height column (rs_head st) cells s) (\<lambda>(cells, s).
           case restart_stream height busy st s of (st, s) \<Rightarrow> Ok (st, cells, s)))"

fun step_streams ::
  "nat \<Rightarrow> nat \<Rightarrow> bool \<Rightarrow> nat \<Rightarrow> RainStream list \<Rightarrow> Cell list \<Rightarrow> u64 \<Rightarrow>
   (unit, RainStream list \<times> Cell list \<times> u64) outcome" where
  "step_streams width height busy column [] cells s = Ok ([], cells, s)"
| "step_streams width height busy column (st # sts) cells s =
    obind (step_stream width height busy column st cells s) (\<lambda>(st, cells, s).
    obind (step_streams width height busy (Suc column) sts cells s) (\<lambda>(sts, cells, s).
      Ok (st # sts, cells, s)))"

definition rain_tick :: "bool \<Rightarrow> Rain \<Rightarrow> (unit, Rain) outcome" where
  "rain_tick busy r =
    (case fade_all (rain_cells r) (rain_rng r) of (cells, s) \<Rightarrow>
       obind (step_streams (rain_width r) (rain_height r) busy 0 (rain_streams r) cells s) (\<lambda>(sts, cells, s).
         Ok (r\<lparr>rain_cells := cells, rain_streams := sts, rain_rng := s\<rparr>)))"

section \<open>Painting\<close>

definition glow_style :: "u8 \<Rightarrow> nat" where
  "glow_style g = (if g = 0 then 0 else if g = 11 \<or> g = 12 then 1 else if 8 \<le> g \<and> g \<le> 10 then 2
     else if 4 \<le> g \<and> g \<le> 7 then 3 else 4)"

definition style_text :: "nat \<Rightarrow> ustr" where
  "style_text style = (if style = 1 then HEAD else if style = 2 then BRIGHT_GREEN else if style = 3 then GREEN
     else if style = 4 then DIM_GREEN else RESET)"

fun paint_cells :: "nat \<Rightarrow> Cell list \<Rightarrow> ustr" where
  "paint_cells last_style [] = []"
| "paint_cells last_style (cell # cells) =
    (let style = glow_style (cell_glow cell) in
     (if style \<noteq> last_style then style_text style else []) @
     (if cell_glow cell = 0 then 32 else cell_ch cell) # paint_cells style cells)"

definition paint_row :: "Rain \<Rightarrow> nat \<Rightarrow> (unit, ustr) outcome" where
  "paint_row r row =
    (let start = row * rain_width r in
     if start + rain_width r \<le> length (rain_cells r)
     then Ok (paint_cells 255 (take (rain_width r) (drop start (rain_cells r))) @ RESET @ esc ''[K'')
     else Panic)"

fun paint_rows :: "Rain \<Rightarrow> nat list \<Rightarrow> (unit, ustr) outcome" where
  "paint_rows r [] = Ok []"
| "paint_rows r (row # rows) =
    obind (paint_row r row) (\<lambda>line. obind (paint_rows r rows) (\<lambda>txt. Ok (line @ [10] @ txt)))"

fun draw_centered :: "nat \<Rightarrow> nat \<Rightarrow> ustr list \<Rightarrow> ustr" where
  "draw_centered width row [] = []"
| "draw_centered width row (line # later) =
    esc ''['' @ show_nat row @ us '';'' @ show_nat (max ((width - length line) div 2 + 1) 1) @ us ''H'' @
    BOLD_GREEN @ line @ RESET @ draw_centered width (Suc row) later"

section \<open>The intro\<close>

fun intro_frames :: "nat \<Rightarrow> nat list \<Rightarrow> Rain \<Rightarrow> (unit, ustr) outcome" where
  "intro_frames row [] r = Ok []"
| "intro_frames row (frame # frames) r =
    obind (rain_tick True r) (\<lambda>r.
    obind (paint_rows r [0..<rain_height r]) (\<lambda>picture.
    obind (intro_frames row frames r) (\<lambda>later.
      Ok (esc ''[H'' @ picture @
        (if frame > 8 then draw_centered (rain_width r) row [us ''PAYPHONE'', us ''Follow the white rabbit.''] else []) @
        later))))"

definition rain_intro :: "nat option \<Rightarrow> nat option \<Rightarrow> (unit, ustr) outcome" where
  "rain_intro cols rows =
    (case terminal_size cols rows of (term_w, term_h) \<Rightarrow>
      (let width = max (term_w - 1) 20; height = max (term_h - 1) 12 in
       obind (intro_frames (max (height div 2 - 1) 1) [0..<36] (rain_new width height 0x9e3779b97f4a7c15 True)) (\<lambda>frames.
         Ok (HIDE_CURSOR @ esc ''[2J'' @ frames @ SHOW_CURSOR @ esc ''[2J'' @ esc ''[H''))))"

section \<open>The indicator of the tunnel\<close>

record FlowIndicator =
  fi_rain :: Rain
  fi_packet_count :: u64
  fi_energy :: u16
  fi_live :: bool
  fi_last_draw :: int

definition pkts_line :: "u64 \<Rightarrow> ustr" where
  "pkts_line n = BRIGHT_GREEN @ [0x25B8] @ us '' follow the white rabbit '' @ [0xB7] @ us '' '' @ show_nat (unat n) @
     us '' pkts'' @ RESET @ esc ''[K'' @ [10]"

text \<open>Times are milliseconds.\<close>

definition flow_new :: "nat option \<Rightarrow> nat option \<Rightarrow> int \<Rightarrow> FlowIndicator \<times> ustr" where
  "flow_new cols rows now =
    (case terminal_size cols rows of (term_w, term_h) \<Rightarrow>
      (let width = max (term_w - 1) 20; height = clamp (term_h - 14) 10 22 in
       (\<lparr>fi_rain = rain_new width height 0xd1b54a32d192ed03 False, fi_packet_count = 0, fi_energy = 0, fi_live = True,
          fi_last_draw = now - 1000\<rparr>,
        HIDE_CURSOR @ pkts_line 0 @ replicate height 10)))"

definition flow_pulse :: "FlowIndicator \<Rightarrow> FlowIndicator" where
  "flow_pulse fi = fi\<lparr>fi_packet_count := fi_packet_count fi + 1, fi_energy := min (fi_energy fi + 3) 80\<rparr>"

definition flow_redraw :: "FlowIndicator \<Rightarrow> (unit, ustr) outcome" where
  "flow_redraw fi =
     obind (paint_rows (fi_rain fi) [0..<rain_height (fi_rain fi)]) (\<lambda>picture.
       Ok (esc ''['' @ show_nat (rain_height (fi_rain fi) + 1) @ us ''A'' @ pkts_line (fi_packet_count fi) @ picture))"

definition flow_tick :: "int \<Rightarrow> FlowIndicator \<Rightarrow> (unit, FlowIndicator \<times> ustr) outcome" where
  "flow_tick now fi =
    (if \<not> fi_live fi then Ok (fi, [])
     else if now - fi_last_draw fi < 40 then Ok (fi, [])
     else obind (rain_tick (fi_energy fi > 0) (fi_rain fi)) (\<lambda>r.
       let fi = fi\<lparr>fi_last_draw := now, fi_rain := r, fi_energy := (if fi_energy fi > 0 then fi_energy fi - 1 else fi_energy fi)\<rparr>
       in obind (flow_redraw fi) (\<lambda>out. Ok (fi, out))))"

definition flow_finish :: "FlowIndicator \<Rightarrow> FlowIndicator \<times> ustr" where
  "flow_finish fi = (if fi_live fi then (fi\<lparr>fi_live := False\<rparr>, SHOW_CURSOR @ [13] @ esc ''[2K'' @ [10]) else (fi, []))"

text \<open>\<open>Drop\<close>: \<open>finish_line\<close> unless it was called.\<close>

definition flow_drop :: "FlowIndicator \<Rightarrow> ustr" where
  "flow_drop fi = (if fi_live fi then snd (flow_finish fi) else [])"


section \<open>Nothing goes out of range\<close>

definition stream_ok :: "nat \<Rightarrow> RainStream \<Rightarrow> bool" where
  "stream_ok h st \<longleftrightarrow> unat (rs_wait st) \<le> 2 \<and> unat (rs_delay st) \<le> 2 \<and> unat (rs_trail st) \<in> {8..23} \<and>
     unat (rs_sleep st) \<le> 18 \<and> rs_head st \<in> {- int (2 * h + 14)..int h + int (unat (rs_trail st))}"

definition cells_ok :: "nat \<Rightarrow> Cell list \<Rightarrow> bool" where
  "cells_ok n cells \<longleftrightarrow> length cells = n \<and> list_all (\<lambda>c. unat (cell_glow c) \<le> 12) cells"

definition rain_wf :: "Rain \<Rightarrow> bool" where
  "rain_wf r \<longleftrightarrow> cells_ok (rain_width r * rain_height r) (rain_cells r) \<and> length (rain_streams r) = rain_width r \<and>
     list_all (stream_ok (rain_height r)) (rain_streams r)"

lemma rng_below_less: "rng_below m s = (n, s') \<Longrightarrow> 0 < m \<Longrightarrow> n < m"
  by (auto simp: rng_below_def Let_def)

lemma unat_small: "n < 256 \<Longrightarrow> unat (of_nat n :: u8) = n"
  by (simp add: unat_of_nat)

lemma unat_small_add: "n < 200 \<Longrightarrow> unat (k :: u8) < 50 \<Longrightarrow> unat (k + of_nat n) = unat k + n"
  by (subst unat_plus_simple [THEN iffD1]) (simp_all add: word_le_nat_alt unat_word_ariths unat_small)

lemma new_stream_ok: "stream_ok height (fst (new_stream height dense column s))"
proof -
  obtain stagger s1 wait s2 delay s3 trail s4 slp s5 where
    d: "rng_below (if dense then height + 4 else height * 2 + 8) s = (stagger, s1)" "rng_below 3 s1 = (wait, s2)"
      "rng_below (if dense then 2 else 3) s2 = (delay, s3)" "rng_below 14 s3 = (trail, s4)"
      "rng_below (if dense then 6 else 18) s4 = (slp, s5)"
    by (metis surj_pair)
  have "stagger < 2 * height + 8" "wait < 3" "delay < 3" "trail < 14" "slp < 18"
    using d [THEN rng_below_less] by (cases dense; simp)+
  moreover have "column mod 7 < 7" by simp
  ultimately show ?thesis
    by (simp add: new_stream_def d stream_ok_def unat_small unat_small_add)
qed

lemma new_streams_ok:
  "length (fst (new_streams height dense columns s)) = length columns \<and>
   list_all (stream_ok height) (fst (new_streams height dense columns s))"
proof (induction columns arbitrary: s)
  case (Cons column columns)
  then show ?case using new_stream_ok [of height dense column s] by (simp add: case_prod_unfold)
qed simp

lemma rain_new_wf: "rain_wf (rain_new width height seed dense)"
  using new_streams_ok [of height dense "[0..<width]" seed]
  by (simp add: rain_new_def rain_wf_def case_prod_unfold cells_ok_def list_all_iff cell_empty_def)

lemma fade_ok: "unat (cell_glow cell) \<le> 12 \<Longrightarrow> unat (cell_glow (fst (fade cell s))) \<le> 12"
proof -
  assume g: "unat (cell_glow cell) \<le> 12"
  have "cell_glow (fst (fade cell s)) = (if cell_glow cell > 0 then cell_glow cell - 1 else cell_glow cell)"
    by (simp add: fade_def Let_def case_prod_unfold)
  moreover have "unat (cell_glow cell - 1) \<le> 12" if "cell_glow cell > 0"
    using that g by (simp add: unat_minus_one word_neq_0_conv)
  ultimately show ?thesis using g by simp
qed

lemma fade_all_ok: "cells_ok n cells \<Longrightarrow> cells_ok n (fst (fade_all cells s))"
proof -
  have "length (fst (fade_all cells s)) = length cells \<and>
      (list_all (\<lambda>c. unat (cell_glow c) \<le> 12) cells \<longrightarrow> list_all (\<lambda>c. unat (cell_glow c) \<le> 12) (fst (fade_all cells s)))" for cells s
  proof (induction cells arbitrary: s)
    case (Cons cell cells)
    then show ?case using fade_ok [of cell s] by (simp add: case_prod_unfold)
  qed simp
  then show "cells_ok n cells \<Longrightarrow> cells_ok n (fst (fade_all cells s))" by (simp add: cells_ok_def)
qed

lemma light_ok:
  assumes "cells_ok (width * height) cells" "column < width"
  shows "\<exists>cells' s'. light width height column head cells s = Ok (cells', s') \<and> cells_ok (width * height) cells'"
proof (cases "0 \<le> head \<and> nat head < height")
  case True
  have "nat head * width + column < (nat head + 1) * width" using assms(2) by simp
  also have "\<dots> \<le> height * width" using True by (intro mult_le_mono1) simp
  finally have "nat head * width + column < length cells" using assms(1) by (simp add: cells_ok_def mult.commute)
  then show ?thesis
    using True assms(1)
    by (auto simp: light_def Let_def case_prod_unfold cells_ok_def list_all_iff dest!: set_update_subset_insert [THEN subsetD])
qed (use assms(1) in \<open>auto simp: light_def\<close>)

lemma restart_ok:
  assumes "stream_ok h (st\<lparr>rs_head := head - 1\<rparr>)" "rs_head st = head"
  shows "stream_ok h (fst (restart_stream h busy st s))"
proof (cases "head > int h + int (unat (rs_trail st))")
  case True
  obtain up s1 slp s2 delay s3 trail s4 where
    d: "rng_below 10 s = (up, s1)" "rng_below (if busy then 3 else 16) s1 = (slp, s2)"
      "rng_below (if busy then 2 else 3) s2 = (delay, s3)" "rng_below 16 s3 = (trail, s4)"
    by (metis surj_pair)
  have "up < 10" "slp < 16" "busy \<Longrightarrow> slp < 3" "delay < 3" "trail < 16"
    using d [THEN rng_below_less] by (cases busy; simp)+
  then show ?thesis using assms True
    by (auto simp: restart_stream_def d stream_ok_def unat_small unat_small_add)
next
  case False
  then show ?thesis using assms by (auto simp: restart_stream_def stream_ok_def)
qed

lemma step_stream_ok:
  assumes "cells_ok (width * height) cells" "column < width" "stream_ok height st"
  shows "\<exists>st' cells' s'. step_stream width height busy column st cells s = Ok (st', cells', s') \<and>
    stream_ok height st' \<and> cells_ok (width * height) cells'"
proof (cases "rs_sleep st > 0")
  case True
  have "unat (rs_sleep st - 1) = unat (rs_sleep st) - 1" using True by (simp add: unat_minus_one word_neq_0_conv)
  moreover have "\<not> rs_sleep st < 2 \<Longrightarrow> unat (rs_sleep st - 2) = unat (rs_sleep st) - 2"
    by (subst unat_sub) (simp_all add: not_less)
  ultimately show ?thesis using assms True by (auto simp: step_stream_def stream_ok_def)
next
  case False
  define delay where "delay = (if busy then min (rs_delay st) 1 else rs_delay st)"
  show ?thesis
  proof (cases "rs_wait st < delay")
    case True
    have "delay \<le> rs_delay st" by (simp add: delay_def)
    then have "rs_wait st < rs_delay st" using True by simp
    then have "unat (rs_wait st) < unat (rs_delay st)" by (simp add: word_less_nat_alt)
    then have "unat (rs_wait st + 1) \<le> 2"
      using assms(3) by (simp add: stream_ok_def unat_word_ariths)
    then show ?thesis using assms \<open>\<not> rs_sleep st > 0\<close> True by (simp add: step_stream_def stream_ok_def flip: delay_def)
  next
    case w: False
    define st1 where "st1 = st\<lparr>rs_wait := 0, rs_head := rs_head st + 1\<rparr>"
    obtain cells' s' where l: "light width height column (rs_head st1) cells s = Ok (cells', s')" "cells_ok (width * height) cells'"
      using light_ok [OF assms(1,2)] by blast
    have "stream_ok height (fst (restart_stream height busy st1 s'))"
      by (rule restart_ok) (use assms(3) in \<open>auto simp: st1_def stream_ok_def\<close>)
    then show ?thesis
      using False w l by (simp add: step_stream_def Let_def case_prod_unfold flip: delay_def st1_def)
  qed
qed

lemma step_streams_ok:
  assumes "cells_ok (width * height) cells" "column + length sts \<le> width" "list_all (stream_ok height) sts"
  shows "\<exists>sts' cells' s'. step_streams width height busy column sts cells s = Ok (sts', cells', s') \<and>
    length sts' = length sts \<and> list_all (stream_ok height) sts' \<and> cells_ok (width * height) cells'"
  using assms
proof (induction sts arbitrary: column cells s)
  case (Cons st sts)
  obtain st' cells1 s1 where 1: "step_stream width height busy column st cells s = Ok (st', cells1, s1)"
    "stream_ok height st'" "cells_ok (width * height) cells1"
    using step_stream_ok [OF Cons.prems(1), of column st busy s] Cons.prems(2,3) by auto
  obtain sts' cells2 s2 where "step_streams width height busy (Suc column) sts cells1 s1 = Ok (sts', cells2, s2)"
    "length sts' = length sts" "list_all (stream_ok height) sts'" "cells_ok (width * height) cells2"
    using Cons.IH [OF 1(3), of "Suc column" s1] Cons.prems(2,3) by auto
  with 1 show ?case by simp
qed simp

lemma rain_tick_ok:
  assumes "rain_wf r"
  shows "\<exists>r'. rain_tick busy r = Ok r' \<and> rain_wf r' \<and> rain_width r' = rain_width r \<and> rain_height r' = rain_height r"
proof -
  obtain cells s where f: "fade_all (rain_cells r) (rain_rng r) = (cells, s)" by force
  have c: "cells_ok (rain_width r * rain_height r) cells"
    using fade_all_ok [of "rain_width r * rain_height r" "rain_cells r" "rain_rng r"] assms f by (simp add: rain_wf_def)
  show ?thesis
    using step_streams_ok [OF c, of 0 "rain_streams r" busy s] assms by (auto simp: rain_tick_def f rain_wf_def)
qed

lemma paint_rows_ok:
  assumes "rain_wf r" "list_all (\<lambda>row. row < rain_height r) rows"
  shows "\<exists>txt. paint_rows r rows = Ok txt"
  using assms(2)
proof (induction rows)
  case (Cons row rows)
  have "row * rain_width r + rain_width r = (row + 1) * rain_width r" by simp
  also have "\<dots> \<le> rain_height r * rain_width r" using Cons.prems by (intro mult_le_mono1) simp
  finally have "row * rain_width r + rain_width r \<le> length (rain_cells r)"
    using assms(1) by (simp add: rain_wf_def cells_ok_def mult.commute)
  then show ?case using Cons by (auto simp: paint_row_def Let_def)
qed simp

lemma intro_frames_ok: "rain_wf r \<Longrightarrow> \<exists>out. intro_frames row frames r = Ok out"
proof (induction frames arbitrary: r)
  case (Cons frame frames)
  obtain r' where r: "rain_tick True r = Ok r'" "rain_wf r'" using rain_tick_ok [OF Cons.prems] by blast
  obtain picture where "paint_rows r' [0..<rain_height r'] = Ok picture"
    using paint_rows_ok [OF r(2)] by (fastforce simp: list_all_iff)
  then show ?case using r Cons.IH [OF r(2)] by auto
qed simp

text \<open>What the tunnel loop does with the indicator.\<close>

datatype FlowEvent = FlowPulse | FlowTick int

fun flow_run :: "FlowEvent list \<Rightarrow> FlowIndicator \<Rightarrow> (unit, FlowIndicator \<times> ustr) outcome" where
  "flow_run [] fi = Ok (fi, [])"
| "flow_run (FlowPulse # evs) fi = flow_run evs (flow_pulse fi)"
| "flow_run (FlowTick now # evs) fi =
    obind (flow_tick now fi) (\<lambda>(fi, out). obind (flow_run evs fi) (\<lambda>(fi, later). Ok (fi, out @ later)))"

definition flow_ok :: "FlowIndicator \<Rightarrow> bool" where
  "flow_ok fi \<longleftrightarrow> rain_wf (fi_rain fi) \<and> unat (fi_energy fi) \<le> 80"

lemma flow_pulse_ok: "flow_ok fi \<Longrightarrow> flow_ok (flow_pulse fi)"
  by (simp add: flow_ok_def flow_pulse_def min_def word_le_nat_alt)

lemma flow_tick_ok:
  assumes "flow_ok fi"
  shows "\<exists>fi' out. flow_tick now fi = Ok (fi', out) \<and> flow_ok fi' \<and> fi_packet_count fi' = fi_packet_count fi"
proof (cases "\<not> fi_live fi \<or> now - fi_last_draw fi < 40")
  case False
  obtain r where r: "rain_tick (fi_energy fi > 0) (fi_rain fi) = Ok r" "rain_wf r"
    using rain_tick_ok assms by (metis flow_ok_def)
  have e: "unat (fi_energy fi - 1) \<le> 80" if "fi_energy fi > 0"
  proof -
    have "unat (fi_energy fi - 1) = unat (fi_energy fi) - 1" using that by (simp add: unat_minus_one word_neq_0_conv)
    moreover have "unat (fi_energy fi) \<le> 80" using assms by (simp add: flow_ok_def)
    ultimately show ?thesis by linarith
  qed
  obtain picture where "paint_rows r [0..<rain_height r] = Ok picture"
    using paint_rows_ok [OF r(2)] by (fastforce simp: list_all_iff)
  then show ?thesis using False r e assms by (simp add: flow_tick_def flow_redraw_def Let_def flow_ok_def)
qed (use assms in \<open>auto simp: flow_tick_def\<close>)

lemma flow_run_ok:
  "flow_ok fi \<Longrightarrow> \<exists>fi' out. flow_run evs fi = Ok (fi', out) \<and> flow_ok fi' \<and>
     fi_packet_count fi' = fi_packet_count fi + of_nat (length (filter (\<lambda>e. e = FlowPulse) evs))"
proof (induction evs arbitrary: fi)
  case (Cons e evs)
  show ?case
  proof (cases e)
    case FlowPulse
    then show ?thesis using Cons.IH [OF flow_pulse_ok [OF Cons.prems]] by (auto simp: flow_pulse_def ac_simps)
  next
    case (FlowTick now)
    obtain fi1 out where 1: "flow_tick now fi = Ok (fi1, out)" "flow_ok fi1" "fi_packet_count fi1 = fi_packet_count fi"
      using flow_tick_ok [OF Cons.prems] by blast
    then show ?thesis using Cons.IH [OF 1(2)] FlowTick by auto
  qed
qed simp

text \<open>
  The terminal never takes the tunnel down.  On a terminal of any size, the
  opening animation and any sequence of packets and ticks of the indicator end
  without a panic: every cell index and every painted row is in range, the counters
  of the streams stay small, and the energy never exceeds 80.  The indicator counts
  exactly the packets.
\<close>

theorem rain_never_panics:
  "is_ok (rain_intro cols rows) \<and>
   (\<exists>fi out. flow_run evs (fst (flow_new cols rows now)) = Ok (fi, out) \<and>
      rain_wf (fi_rain fi) \<and> unat (fi_energy fi) \<le> 80 \<and>
      fi_packet_count fi = of_nat (length (filter (\<lambda>e. e = FlowPulse) evs)))"
proof
  show "is_ok (rain_intro cols rows)"
    using intro_frames_ok [OF rain_new_wf]
    by (auto simp: rain_intro_def Let_def is_ok_iff obind_eq_Ok split: prod.split)
  have "flow_ok (fst (flow_new cols rows now))" "fi_packet_count (fst (flow_new cols rows now)) = 0"
    by (simp_all add: flow_new_def flow_ok_def rain_new_wf Let_def case_prod_unfold)
  then show "\<exists>fi out. flow_run evs (fst (flow_new cols rows now)) = Ok (fi, out) \<and>
      rain_wf (fi_rain fi) \<and> unat (fi_energy fi) \<le> 80 \<and>
      fi_packet_count fi = of_nat (length (filter (\<lambda>e. e = FlowPulse) evs))"
    using flow_run_ok [of "fst (flow_new cols rows now)" evs] by (auto simp: flow_ok_def)
qed

end
