(* ===== verification/Spec2Isabelle.thy ===== *)
theory Spec2Isabelle
  imports Rekey_Protocol Reality_Keys Routing_Desktop Server_Run Server_Start Endpoint Rain
begin

text \<open>
  \<^bold>\<open>PAYPHONE: a verification development.\<close>

  PAYPHONE is a VPN: a client carries the IPv4 packets of a TUN device to a server
  over QUIC datagrams, obfuscated UDP or a TLS stream on a web port; the server
  admits clients that hold a signed subscription token, gives each an address of
  10.77.0.0/24, limits its rate and forwards its packets.  The theories follow
  the crates of the repository (under \<open>src/\<close>).

  \<^bold>\<open>Parts, theories and sources.\<close>

  \<^item> \<open>Prelude\<close>: machine integers, the \<open>outcome\<close> type (a Rust
    \<open>Result\<close> or a panic), big-endian buffers as \<open>bytes::Buf\<close> reads
    them, saturating arithmetic; the locales \<open>field_codec\<close>,
    \<open>message_codec\<close> and \<open>transition_system\<close>.
  \<^item> \<open>Frames\<close>, \<open>Messages\<close> (\<open>payphone-core\<close>): the 16-byte
    frame header, its decoder and the ten messages; each message interprets
    \<open>protocol_message\<close>.
  \<^item> \<open>Streams\<close> (\<open>payphone-transport/src/https_front.rs\<close>): frames on
    a byte stream and the camouflage page.
  \<^item> \<open>Tun\<close> (\<open>payphone-tun/src/lib.rs\<close>): MTU and IPv4 header checks.
  \<^item> \<open>Auth_Token\<close>, \<open>Auth_Verifier\<close> (\<open>payphone-auth\<close>): token
    format, key ring, revocation stores, verifier; the locale
    \<open>revocation_store\<close> is the contract the verifier needs of a store,
    interpreted on the memory store and on the file store.
  \<^item> \<open>Rate_Limit\<close>, \<open>Session_Store\<close>, \<open>Session_Manager\<close>,
    \<open>Session_Invariant\<close> (\<open>payphone-server/src/session.rs\<close>): the token
    bucket with its lock-free loops, the session table, its persistence and every
    operation of \<open>SessionManager\<close>.
  \<^item> \<open>Server_Handler\<close> (\<open>handler.rs\<close>), \<open>Server_Machine\<close>
    (\<open>main.rs\<close>, \<open>https.rs\<close>), \<open>Server_Safety\<close>: the frame
    handlers as functions from a state to a state and outputs, the server as a
    step relation over the sections that run under the session lock, and what
    they let happen.
  \<^item> \<open>Obfuscation\<close> (\<open>payphone-transport/src/obfuscation.rs\<close>,
    \<open>obfuscated_socket.rs\<close>): the keyed transform of datagrams.
  \<^item> \<open>Client\<close> (\<open>payphone-client\<close>): session file, handshake, tunnel
    loop.
  \<^item> \<open>Reality_Hello\<close>, \<open>Reality_Server_Hello\<close> (\<open>hello.rs\<close>),
    \<open>Reality_Auth\<close> (\<open>auth.rs\<close>, \<open>mod.rs\<close>), \<open>Reality_Suite\<close>
    (\<open>suite.rs\<close>), \<open>Reality_Tls\<close> (\<open>tls13.rs\<close>, \<open>cert.rs\<close>),
    \<open>Reality_Stream\<close> (\<open>tls13.rs\<close>), \<open>Reality_Keys\<close>
    (\<open>keys.rs\<close>), all under \<open>payphone-transport/src/reality\<close>: the
    camouflaged TLS 1.3 front.  Hello messages, authentication in the session
    identifier, key schedule and records, both sides of the handshake, the polled
    stream, key material as text.
  \<^item> \<open>Reality_Front\<close> (\<open>splice.rs\<close>, \<open>record_detect.rs\<close>): which
    connections are tunnels, which are relayed to the destination; sampling of the
    destination's records.
  \<^item> \<open>Server_Front\<close> (\<open>https.rs\<close>, the QUIC task of \<open>main.rs\<close>): one
    connection of the server from its first byte to its end, composed of
    \<open>Reality_Front\<close>, \<open>Reality_Tls\<close>, \<open>Reality_Stream\<close>,
    \<open>Streams\<close> and \<open>Server_Handler\<close>; \<open>Server_Run\<close>: such a connection is a
    run of \<open>Server_Machine\<close>.
  \<^item> \<open>Server_Start\<close> (\<open>main.rs\<close>): the server from its settings to the loop.
  \<^item> \<open>Rekey_Protocol\<close>: rotation of resume tokens between a client and the
    server as a step relation with lossy channels.
  \<^item> \<open>Ip_Text\<close>: parsing and printing of addresses as \<open>std::net\<close> does it.
  \<^item> \<open>Routing\<close>, \<open>Kill_Switch\<close>, \<open>Forwarding\<close>
    (\<open>payphone-tun/src/routing.rs\<close>, Linux), \<open>Routing_Desktop\<close> (macOS and
    Windows): the commands that change the routes of the host, the kill switch, the
    forwarding rules.  The state of the kernel is a history whose head is the present;
    the commands are a parameter with the documented laws of \<open>ip route\<close> and
    \<open>iptables\<close> as hypotheses.
  \<^item> \<open>Tun_Device\<close> (\<open>payphone-tun/src/lib.rs\<close>): creating the devices.
  \<^item> \<open>Client_Run\<close> (\<open>payphone-client/src/main.rs\<close>, \<open>tunnel.rs\<close>): the
    client process: kill switch, connection attempts, tunnel, reconnection.
  \<^item> \<open>Identity\<close> (\<open>identity.rs\<close>), \<open>Tls_Runtime\<close> (\<open>tls.rs\<close>),
    \<open>Endpoint\<close> (\<open>lib.rs\<close>, \<open>client.rs\<close>, \<open>server.rs\<close> of
    \<open>payphone-transport\<close>): certificate files, the certificate resolver and its
    reload, ACME, the QUIC endpoints.
  \<^item> \<open>Token_Tool\<close> (\<open>payphone-token\<close>): issuing and revoking tokens.
  \<^item> \<open>Dns_Relay\<close> (\<open>dns.rs\<close>): the DNS stub of the server.
  \<^item> \<open>Settings\<close> (\<open>settings.rs\<close> of client and server): command line,
    environment and file.
  \<^item> \<open>Rain\<close> (\<open>matrix.rs\<close>): the animation of the client's terminal.
  \<^item> this theory: client and server together.

  \<^bold>\<open>State and operations.\<close>  A struct is a record with the source's fields
  (prefixed where two structs share a name), an enum a datatype, \<open>u8\<close> to
  \<open>u64\<close> are words with their wrap-around, \<open>usize\<close> lengths are natural
  numbers.  The hash map of sessions is an association list whose order is
  irrelevant: the server machine may permute it at any step.  A method with
  \<open>&mut self\<close> returns the new state.  Every early return, error and panic
  of the modelled code is a branch.  Clock readings, random bytes, results of
  system calls and what a peer sends are arguments.

  \<^bold>\<open>Parameters.\<close>  Ed25519 (\<open>ed_verify\<close>), SHA-256, the AEAD of the
  session file and the operating system's random source are arguments of the
  definitions that use them, and so are SHA-2, X25519, the AEADs and the signature
  check of the REALITY layer (the record \<open>RealityCrypto\<close> and its laws
  \<open>crypto_laws\<close>).  The theorems that rely on one say so: signatures verify
  only for payloads the issuer signed; an AEAD opens exactly what it sealed.

  \<^bold>\<open>What is shown.\<close>  Codecs: every decoder is total and accepts exactly
  the encodings of well-formed values.  Authentication: what the verifier
  accepts, that accepted claims were issued, that revocation takes effect and
  fails closed.  Sessions: an invariant of the table kept by every operation
  (distinct identifiers and pool addresses), the device limit and whom it
  evicts, resumption, survival of restarts.  Server: the exact condition under
  which a packet reaches the TUN device, isolation of sessions, admission, the
  sweep, delivery of packets from the TUN device to the one owner of the
  address; an invariant of every reachable state under interleaving.  Rate
  limiter: the bound for any number of concurrent callers, and refinement of the
  sequential function.  Token rotation: the client's saved token is always
  accepted.  Transport: round trips of the stream reader and of the obfuscation
  with segmentation offload; when a packet is lost for its size.  Hosts: with the kill
  switch no packet leaves past the tunnel in any history of the client, and a link that
  is lost is resumed; what a failed start of the server leaves behind; that a server
  always has a certificate to serve, and when it replaces it.  REALITY: a configured client is authenticated, the
  exact condition of authentication, the handshake completes with equal keys, the
  stream delivers what is written however the network cuts it, hello messages round
  trip, HKDF equals RFC 5869; a probe is relayed and leaves the server untouched, and the frames
  of a configured client reach the handlers through the front.  End to end: login,
  resumption, packets up and down.

  \<^bold>\<open>Loops.\<close>  No definition uses fuel.  The loops that are not structural
  (\<open>read_frames\<close>, \<open>enforce_loop\<close>, \<open>fill_loop\<close>,
  \<open>chunks\<close>, \<open>next_plain\<close>, \<open>stream_plain\<close>) are total functions with a termination measure; the
  compare-exchange loops of the rate limiter are steps of \<open>rate_step\<close>, each
  exchange may fail, and an undisturbed call is shown to end.

  Loops that wait for the network or the user run over the list of what happens to
  them.

  \<^bold>\<open>Not modelled.\<close>  What the sources only call: quinn, rustls, rcgen, the
  ACME client, the kernel's tools (parameters, as above), the sockets themselves and the
  scheduler.  The loop of the token tool's prompts and help texts, the banners of the
  terminal, the probe that samples the destination at start-up (its record spy is in
  \<open>Reality_Front\<close>), the Android and iOS bindings (no Rust), the examples, and the
  weak memory model: the atomics of the rate limiter interleave.
\<close>

section \<open>Client and server together\<close>

text \<open>The frames of the client survive the wire.\<close>

lemma handle_packet_encoded:
  assumes "version f = PROTOCOL_VERSION" "length (payload f) \<le> MAX_PAYLOAD_SIZE"
  shows "handle_packet P env rng srv conn address (frame_encode f) =
    handle_frame P env rng srv (ClientLink.Quic conn) address f"
proof -
  have "frame_decode (frame_encode f) = Ok f" using assms by (simp add: frame_decode_Ok_iff frame_valid_def)
  then show ?thesis by (simp add: handle_packet_def)
qed

lemma handle_data_written:
  assumes "TunWrite p \<in> set (snd (handle_data env srv address frame))"
  shows "snd (handle_data env srv address frame) = [TunWrite p]"
  using assms
  by (cases "data_decode (payload frame)")
    (auto simp: handle_data_def Let_def case_prod_unfold split: option.splits if_splits)

lemma handle_frame_data_eq:
  assumes "frame_type frame = Data" "data_decode (payload frame) = Ok d"
    and "get (srv_sessions srv) (data_session_id d) = Some s" "s_client_address s = address"
    and "\<not> access_denied_now P env srv s"
  shows "\<exists>srv1. srv_sessions srv1 = srv_sessions srv \<and>
    handle_frame P env rng srv link address frame = handle_data env srv1 address frame"
proof -
  obtain srv1 where g: "gate P env srv address frame = (GatePass, srv1)"
    using gate_passes [of frame srv s address P env] assms data_decode_session_id [OF assms(2)]
    by (auto simp: session_command_def)
  then show ?thesis
    using gate_sessions [of P env srv address frame] assms(1)
    by (intro exI [of _ srv1]) (simp add: handle_frame_def dispatch_def)
qed

lemma create_new_session_all_good:
  assumes "frame_type f = AllGoodDude" "all_good_dude_decode (payload f) = Ok ag" "length tok \<le> MAX_AUTH_TOKEN_SIZE"
  shows "create_new_session tok cnonce (Some f) =
    Created \<lparr>act_session_id = agd_session_id ag, act_assigned_ipv4 = agd_assigned_ipv4 ag, act_mtu = agd_mtu ag,
      act_capabilities = agd_capabilities ag\<rparr> (agd_server_nonce ag)"
  using assms
  by (simp add: create_new_session_def whats_up_frame_def whats_up_dude_encode_def whats_up_dude_new_def
      Let_def constants)

text \<open>
  C10: a client logs in.  When the client's first datagram, with a token the
  server's verifier accepts, reaches a server with a free address, the server
  answers with one frame from which the client obtains a session that is in the
  server's table with the same identifier and address, and a resume token the
  server accepts for it.
\<close>

theorem login_end_to_end:
  assumes "srv_inv srv" "rng_ok rng" "length cnonce = CLIENT_NONCE_SIZE"
    and "token_decode tok = Ok t"
    and "fst (verify_at (ed_verify P) (is_revoked P) (srv_verifier srv) t (unix_time env)) = Ok c"
    and "allocate_ipv4 (snd (enforce_device_limit env c (srv_sessions srv))) \<noteq> None"
    and "whats_up_frame tok cnonce = Ok hello"
  shows "\<exists>f active rt s. Send (ClientLink.Quic conn) f \<in> set (snd (handle_packet P env rng srv conn address (frame_encode hello))) \<and>
    create_new_session tok cnonce (Some f) = Created active rt \<and>
    get (srv_sessions (fst (handle_packet P env rng srv conn address (frame_encode hello)))) (act_session_id active) = Some s \<and>
    s_ipv4 s = act_assigned_ipv4 active \<and> s_client_id s = client_id c \<and> rt \<in> accepted_tokens s"
proof -
  let ?w = "whats_up_dude_new CLIENT_VERSION CLIENT_CAPABILITIES tok cnonce"
  have tok: "length tok = TOKEN_SIZE" using assms(4) by (auto simp: token_decode_def split: if_splits)
  obtain b where b: "whats_up_dude_encode ?w = Ok b" "hello = mk_frame WhatsUpDude 1 b"
    using assms(7) by (auto simp: whats_up_frame_def obind_eq_Ok)
  have valid: "whats_up_dude_valid ?w"
    using tok assms(3) by (simp add: whats_up_dude_valid_def whats_up_dude_new_def constants)
  have dec: "whats_up_dude_decode (payload hello) = Ok ?w"
    using b valid by (simp add: whats_up_dude.decode_Ok_iff)
  have "length b \<le> MAX_PAYLOAD_SIZE"
    using b(1) assms(3) tok by (auto simp: whats_up_dude_encode_def whats_up_dude_new_def Let_def constants)
  then have h: "handle_packet P env rng srv conn address (frame_encode hello) =
      handle_frame P env rng srv (ClientLink.Quic conn) address hello"
    using b(2) by (intro handle_packet_encoded) simp_all
  have adm: "admits P env srv hello c"
    using dec assms(4,5) b(2) by (auto simp: admits_def whats_up_dude_new_def)
  then obtain l f where f: "Send l f \<in> set (snd (handle_frame P env rng srv (ClientLink.Quic conn) address hello))"
    "frame_type f = AllGoodDude"
    using all_good_iff [of "ClientLink.Quic conn" P env rng srv address hello] assms(6) by blast
  obtain c' ag s where s: "l = ClientLink.Quic conn" "admits P env srv hello c'" "all_good_dude_decode (payload f) = Ok ag"
    "get (srv_sessions (fst (handle_frame P env rng srv (ClientLink.Quic conn) address hello))) (agd_session_id ag) = Some s"
    "s_ipv4 s = agd_assigned_ipv4 ag" "s_server_nonce s = agd_server_nonce ag" "s_client_id s = client_id c'"
    using all_good_session [OF assms(1,2) f] by blast
  have "c' = c" using s(2) adm by (auto simp: admits_def)
  moreover have "create_new_session tok cnonce (Some f) = Created \<lparr>act_session_id = agd_session_id ag,
      act_assigned_ipv4 = agd_assigned_ipv4 ag, act_mtu = agd_mtu ag, act_capabilities = agd_capabilities ag\<rparr>
      (agd_server_nonce ag)"
    using f(2) s(3) tok by (intro create_new_session_all_good) (simp_all add: constants)
  moreover have "agd_server_nonce ag \<in> accepted_tokens s" using s(6) by (simp add: accepted_tokens_def)
  ultimately show ?thesis unfolding h using f(1) s by fastforce
qed

theorem login_end_to_end_witness:
  "\<exists>hello f active rt. whats_up_frame (token_encode sample_token) (replicate 32 1) = Ok hello \<and>
    Send (ClientLink.Quic 9) f \<in> set (snd (handle_packet sample_crypto sample_env sample_rng empty_server 9
      sample_address (frame_encode hello))) \<and>
    create_new_session (token_encode sample_token) (replicate 32 1) (Some f) = Created active rt"
proof -
  have inv: "srv_inv empty_server" "rng_ok sample_rng"
    by (simp_all add: empty_server_def mgr_inv_new rng_ok_def sample_rng_def constants)
  have dec: "token_decode (token_encode sample_token) = Ok sample_token"
    using sample_facts(1) by (intro token_decode_encode) (simp add: token_valid_def sample_token_def constants)
  obtain t where t: "token_decode (wud_auth_token sample_hello) = Ok t"
    "fst (verify_at (ed_verify sample_crypto) (is_revoked sample_crypto) (srv_verifier empty_server) t
      (unix_time sample_env)) = Ok sample_claims"
    using sample_admits sample_login_decodes by (auto simp: admits_def)
  have "length (token_encode sample_token) = TOKEN_SIZE"
    using sample_facts(1) by (simp add: token_encode_def length_encode_payload sample_token_def constants)
  then obtain h where h: "whats_up_frame (token_encode sample_token) (replicate 32 1) = Ok h"
    by (auto simp: whats_up_frame_def whats_up_dude_encode_def whats_up_dude_new_def Let_def constants)
  have "wud_auth_token sample_hello = token_encode sample_token"
    by (simp add: sample_hello_def whats_up_dude_new_def)
  then have "t = sample_token" using t(1) dec by simp
  with login_end_to_end [OF inv _ dec _ empty_server_allocates h, of sample_crypto 9 sample_address] t(2) h
  show ?thesis by (auto simp: constants)
qed

text \<open>
  C11: a client comes back.  The resumption frame the client builds from its
  session file, arriving from any address while the subscription is valid, is
  answered with a frame from which the client resumes the session with the
  address it had, provided the saved token is one the server accepts.
\<close>

theorem resume_end_to_end:
  assumes "srv_inv srv" "get (srv_sessions srv) (saved_session_id saved) = Some s"
    and "saved_resume_token saved \<in> accepted_tokens s" "\<not> access_denied_now P env srv s"
  shows "\<exists>f active. Send (ClientLink.Quic conn) f \<in> set (snd (handle_packet P env rng srv conn address (frame_encode (resume_frame saved)))) \<and>
    try_resume saved (Some f) = Resumed active \<and> act_session_id active = saved_session_id saved \<and>
    act_assigned_ipv4 active = s_ipv4 s"
proof -
  let ?m = "back_again_dude_new (saved_session_id saved) (saved_resume_token saved)"
  have wf: "session_wf s" "s_id s = saved_session_id saved" using mgr_inv_get [OF assms(1,2)] by simp_all
  have lens: "length (saved_session_id saved) = SESSION_ID_SIZE" "length (saved_resume_token saved) = SERVER_NONCE_SIZE"
    "length (s_ipv4 s) = 4"
    using wf assms(3) by (auto simp: session_wf_def accepted_tokens_def nonce_ok_def)
  have dec: "back_again_dude_decode (payload (resume_frame saved)) = Ok ?m"
    using lens by (simp add: resume_frame_def back_again_dude.decode_Ok_iff back_again_dude_valid_def
        back_again_dude_new_def)
  have h: "handle_packet P env rng srv conn address (frame_encode (resume_frame saved)) =
      handle_back_again_dude P env srv (ClientLink.Quic conn) address (resume_frame saved)"
    using lens by (subst handle_packet_encoded)
      (simp_all add: resume_frame_def back_again_dude_encode_def back_again_dude_new_def handle_frame_def
        gate_def session_command_def dispatch_def constants)
  obtain srv1 where c: "back_again_check P env srv ?m = (None, srv1)"
    using assms(2,4) access_error_Some_iff [of P env srv s]
    by (auto simp: back_again_check_def back_again_dude_new_def Let_def case_prod_unfold)
  then have sess: "srv_sessions srv1 = srv_sessions srv" using back_again_check_sessions [of P env srv ?m] by simp
  obtain sg m' where r: "resume_session env (srv_sessions srv) (saved_session_id saved) (saved_resume_token saved)
      address (ClientLink.Quic conn) 1 PAYPHONE_MTU = (Some sg, m')"
    using resume_session_Some_iff [of env "srv_sessions srv" "saved_session_id saved" "saved_resume_token saved"
        address "ClientLink.Quic conn" 1 PAYPHONE_MTU] assms(2,3) by (metis prod.collapse)
  have sg: "sg = still_good_dude_new (saved_session_id saved) (s_ipv4 s) PAYPHONE_MTU (s_capabilities s)"
    using resume_session_effect(3) [OF r assms(2)] wf(2) by simp
  let ?f = "mk_frame StillGoodDude 2 (still_good_dude_encode sg)"
  have "Send (ClientLink.Quic conn) ?f \<in> set (snd (handle_packet P env rng srv conn address (frame_encode (resume_frame saved))))"
    unfolding h using dec c sess r
    by (simp add: handle_back_again_dude_def back_again_finish_def back_again_dude_new_def resume_frame_def)
  moreover have "still_good_dude_decode (still_good_dude_encode sg) = Ok sg"
    using lens sg by (simp add: still_good_dude.decode_Ok_iff still_good_dude_valid_def still_good_dude_new_def)
  then have "try_resume saved (Some ?f) = Resumed \<lparr>act_session_id = sgd_session_id sg,
      act_assigned_ipv4 = sgd_assigned_ipv4 sg, act_mtu = sgd_mtu sg, act_capabilities = sgd_capabilities sg\<rparr>"
    by (simp add: try_resume_def sg still_good_dude_new_def)
  ultimately show ?thesis by (auto simp: sg still_good_dude_new_def)
qed

theorem resume_end_to_end_witness:
  "\<exists>f active. Send (ClientLink.Quic 9) f \<in> set (snd (handle_packet sample_crypto sample_env sample_rng sample_server 9
      (V4 [203, 0, 113, 5] 77) (frame_encode (resume_frame
        \<lparr>saved_session_id = replicate 16 6, saved_resume_token = replicate 32 8\<rparr>)))) \<and>
    try_resume \<lparr>saved_session_id = replicate 16 6, saved_resume_token = replicate 32 8\<rparr> (Some f) = Resumed active \<and>
    act_assigned_ipv4 active = [10, 77, 0, 2]"
proof -
  let ?saved = "\<lparr>saved_session_id = replicate 16 6, saved_resume_token = replicate 32 8\<rparr> :: SavedSession"
  have "srv_inv sample_server" by (simp add: sample_facts)
  moreover have "get (srv_sessions sample_server) (saved_session_id ?saved) = Some sample_session" by simp
  moreover have "saved_resume_token ?saved \<in> accepted_tokens sample_session"
    by (simp add: accepted_tokens_def sample_session_def)
  moreover have "\<not> access_denied_now sample_crypto sample_env sample_server sample_session"
    by (simp add: access_denied_now_def unix_time_def sample_env_def sample_crypto_def memory_is_revoked_def
        sample_server_def)
  ultimately obtain f active where "Send (ClientLink.Quic 9) f \<in> set (snd (handle_packet sample_crypto sample_env sample_rng
      sample_server 9 (V4 [203, 0, 113, 5] 77) (frame_encode (resume_frame ?saved))))"
    "try_resume ?saved (Some f) = Resumed active" "act_assigned_ipv4 active = s_ipv4 sample_session"
    using resume_end_to_end [of sample_server ?saved sample_session sample_crypto sample_env 9 sample_rng
        "V4 [203, 0, 113, 5] 77"] by blast
  then show ?thesis by auto
qed

text \<open>
  C12: up the tunnel.  The datagram the client builds for a packet from its TUN
  device makes the server write exactly that packet to its own device, when the
  session is the sender's, valid and within its rate, the sequence number is in
  the window and the packet carries the session's address.
\<close>

theorem uplink_end_to_end:
  assumes "get (srv_sessions srv) (act_session_id (cl_active st)) = Some s" "srv_inv srv"
    and "s_client_address s = address" "\<not> access_denied_now P env srv s"
    and "fst (accept_sequence (s_last_sequence s) (cl_frame_sequence st))"
    and "fst (rate_allow (env_unix_ms env) (of_nat (length packet)) (s_rate s))"
    and "ipv4_source packet = Some (s_ipv4 s)" "length packet \<le> 65512"
  shows "\<exists>f st'. client_on_tun st packet True = (None, st', [NetSend f]) \<and>
    snd (handle_packet P env rng srv conn address (frame_encode f)) = [TunWrite packet]"
proof -
  let ?d = "data_new (act_session_id (cl_active st)) (cl_packet_id st) packet"
  let ?f = "mk_frame Data (cl_frame_sequence st) (data_encode ?d)"
  have sid: "length (act_session_id (cl_active st)) = SESSION_ID_SIZE"
    using mgr_inv_get [OF assms(2,1)] by (auto simp: session_wf_def)
  then have dec: "data_decode (data_encode ?d) = Ok ?d"
    using assms(8) by (simp add: data.decode_Ok_iff data_valid_def data_new_def constants)
  have ne: "length packet \<noteq> 0"
    using assms(7) valid_ipv4_packet_length [of packet] by (auto simp: ipv4_source_Some_iff)
  have h: "handle_packet P env rng srv conn address (frame_encode ?f) = handle_frame P env rng srv (ClientLink.Quic conn) address ?f"
    using sid assms(8) by (intro handle_packet_encoded) (simp_all add: data_encode_def data_new_def constants)
  obtain srv1 where srv1: "srv_sessions srv1 = srv_sessions srv"
    "handle_frame P env rng srv (ClientLink.Quic conn) address ?f = handle_data env srv1 address ?f"
    using handle_frame_data_eq [of ?f ?d srv s address P env rng "ClientLink.Quic conn"] dec assms(1,3,4)
    by (auto simp: data_new_def)
  have "TunWrite packet \<in> set (snd (handle_data env srv1 address ?f))"
    unfolding handle_data_tun_iff
    using dec assms srv1(1)
    by (intro exI [of _ ?d] exI [of _ s]) (simp add: data_new_def access_denied_now_def not_le)
  then have "snd (handle_frame P env rng srv (ClientLink.Quic conn) address ?f) = [TunWrite packet]"
    using handle_data_written srv1(2) by simp
  then show ?thesis using h ne by (simp add: client_on_tun_def Let_def)
qed

definition up_packet :: bytes where
  "up_packet = [69, 0, 0, 20, 0, 0, 0, 0, 64, 17, 0, 0, 10, 77, 0, 2, 192, 0, 2, 9]"

lemma up_packet_facts: "ipv4_source up_packet = Some [10, 77, 0, 2]" "length up_packet = 20"
proof -
  have "valid_ipv4_packet up_packet" by (simp add: valid_ipv4_packet_def up_packet_def) code_simp
  then show "ipv4_source up_packet = Some [10, 77, 0, 2]" by (simp add: ipv4_source_Some_iff up_packet_def)
qed (simp add: up_packet_def)

theorem uplink_end_to_end_witness:
  "\<exists>f st'. client_on_tun (client_start \<lparr>act_session_id = replicate 16 6, act_assigned_ipv4 = [10, 77, 0, 2],
        act_mtu = 1100, act_capabilities = 1\<rparr> None) up_packet True = (None, st', [NetSend f]) \<and>
    snd (handle_packet sample_crypto sample_env sample_rng sample_server 7 sample_address (frame_encode f)) =
      [TunWrite up_packet]"
proof -
  let ?a = "\<lparr>act_session_id = replicate 16 6, act_assigned_ipv4 = [10, 77, 0, 2], act_mtu = 1100,
    act_capabilities = 1\<rparr> :: ActiveSession"
  have "get (srv_sessions sample_server) (act_session_id (cl_active (client_start ?a None))) = Some sample_session"
    by (simp add: client_start_def)
  moreover have "srv_inv sample_server" by (simp add: sample_facts)
  moreover have "\<not> access_denied_now sample_crypto sample_env sample_server sample_session"
    by (simp add: access_denied_now_def unix_time_def sample_env_def sample_crypto_def memory_is_revoked_def
        sample_server_def)
  moreover have "fst (accept_sequence (s_last_sequence sample_session) (cl_frame_sequence (client_start ?a None)))"
    by (simp add: sample_session_def new_session_def client_start_def accept_sequence_def)
  moreover have "fst (rate_allow (env_unix_ms sample_env) (of_nat (length up_packet)) (s_rate sample_session))"
    by (simp add: up_packet_def sample_session_def new_session_def sample_claims_def rate_allow_def rate_refill_def
        rate_limit_new_def sample_env_def Let_def word_less_nat_alt unat_burst_bytes)
  moreover have "ipv4_source up_packet = Some (s_ipv4 sample_session)" "length up_packet \<le> 65512"
    using up_packet_facts by simp_all
  ultimately show ?thesis
    using uplink_end_to_end [of sample_server "client_start ?a None" sample_session sample_address sample_crypto
        sample_env up_packet sample_rng 7] by simp
qed

text \<open>
  C13: down the tunnel.  A packet the server takes from its TUN device and sends to a
  session is, when the frame reaches the client of that session, delivered
  unchanged to the client's device.
\<close>

theorem downlink_end_to_end:
  assumes "srv_inv srv" "tun_to_client P env srv pid packet = (srv', pid', outs)" "Send l f \<in> set outs"
    and "length packet \<le> 65512" "ipv4_destination packet = Some (act_assigned_ipv4 (cl_active st))"
    and "get (srv_sessions srv) (act_session_id (cl_active st)) = Some s"
    and "s_ipv4 s = act_assigned_ipv4 (cl_active st)"
  shows "\<exists>f'. frame_decode (frame_encode f) = Ok f' \<and>
    client_on_frame st write_ok True (Some f') = (None, st, [TunDeliver packet])"
proof -
  obtain s' where s': "get (srv_sessions srv) (s_id s') = Some s'" "ipv4_destination packet = Some (s_ipv4 s')"
    "f = mk_frame Data pid (data_encode (data_new (s_id s') pid packet))"
    using tun_to_client_sends [OF assms(1-3)] by blast
  have id: "s_id s' = act_session_id (cl_active st)"
    using same_ipv4_same_session [OF assms(1) s'(1) assms(6)] s'(2) assms(5,7) by simp
  have sid: "length (s_id s') = SESSION_ID_SIZE"
    using mgr_inv_get [OF assms(1) s'(1)] by (simp add: session_wf_def)
  then have "frame_decode (frame_encode f) = Ok f"
    unfolding s'(3) using assms(4) by (intro frame_decode_mk_frame) (simp add: data_encode_def data_new_def constants)
  moreover have "data_decode (data_encode (data_new (s_id s') pid packet)) = Ok (data_new (s_id s') pid packet)"
    using sid assms(4) by (simp add: data.decode_Ok_iff data_valid_def data_new_def constants)
  ultimately show ?thesis
    using id by (simp add: s'(3) client_on_frame_def data_new_def Let_def)
qed

theorem downlink_end_to_end_witness:
  "\<exists>srv' pid' f f'. tun_to_client sample_crypto sample_env sample_server 4 sample_packet =
      (srv', pid', [Send (ClientLink.Quic 7) f]) \<and> frame_decode (frame_encode f) = Ok f' \<and>
    client_on_frame (client_start \<lparr>act_session_id = replicate 16 6, act_assigned_ipv4 = [10, 77, 0, 2],
        act_mtu = 1100, act_capabilities = 1\<rparr> None) True True (Some f') =
      (None, client_start \<lparr>act_session_id = replicate 16 6, act_assigned_ipv4 = [10, 77, 0, 2],
        act_mtu = 1100, act_capabilities = 1\<rparr> None, [TunDeliver sample_packet])"
proof -
  let ?st = "client_start \<lparr>act_session_id = replicate 16 6, act_assigned_ipv4 = [10, 77, 0, 2],
        act_mtu = 1100, act_capabilities = 1\<rparr> None"
  obtain srv' pid' f where t: "tun_to_client sample_crypto sample_env sample_server 4 sample_packet =
      (srv', pid', [Send (ClientLink.Quic 7) f])"
    using sample_tun_to_client by blast
  have "srv_inv sample_server" by (simp add: sample_facts)
  from downlink_end_to_end [OF this t, of "ClientLink.Quic 7" f ?st sample_session True] sample_packet_facts
  obtain f' where "frame_decode (frame_encode f) = Ok f'"
    "client_on_frame ?st True True (Some f') = (None, ?st, [TunDeliver sample_packet])"
    by (auto simp: client_start_def)
  with t show ?thesis by blast
qed

end
